(* ===== verification/Prelude.thy ===== *)
theory Prelude
  imports Main "HOL-Library.AList" "HOL-Library.Multiset" "HOL-Library.Sublist"
begin

text \<open>
  What every other theory shares: the outcome of a Go call, the part of Go's \<open>strings\<close>,
  \<open>strconv\<close> and \<open>regexp\<close> packages the code uses, Go maps as association lists, and the
  order in which a \<open>range\<close> loop visits a map.

  A Go string is a sequence of bytes, here a HOL \<open>string\<close> (a character is a byte). The case
  mappings \<open>ToLower\<close> and \<open>Title\<close> and the space tests are those of ASCII text: bytes from 128
  on are left as they are.
\<close>

named_theorems go_string_simps \<open>rewriting Go string operations on concrete shapes\<close>
named_theorems go_map_simps \<open>lookups after updates and deletions of Go maps\<close>

section \<open>Outcomes of Go calls\<close>

text \<open>
  A call returns (\<open>Val\<close>), panics (\<open>Panic\<close>, with a note on the cause), ends the process
  through \<open>log.Fatal\<close> (\<open>Exit\<close>) or never returns (\<open>Diverge\<close>, used where the recursion
  of the code would not end). Error values the code returns are ordinary results.
\<close>

datatype 'a outcome = Val 'a | Panic string | Exit string | Diverge

primrec obind :: "'a outcome \<Rightarrow> ('a \<Rightarrow> 'b outcome) \<Rightarrow> 'b outcome" where
  "obind (Val x) f = f x"
| "obind (Panic s) f = Panic s"
| "obind (Exit s) f = Exit s"
| "obind Diverge f = Diverge"

lemma obind_cong [fundef_cong]:
  "m = m' \<Longrightarrow> (\<And>x. m' = Val x \<Longrightarrow> f x = g x) \<Longrightarrow> obind m f = obind m' g"
  by (cases m') auto

lemma obind_Val_iff: "obind m f = Val y \<longleftrightarrow> (\<exists>x. m = Val x \<and> f x = Val y)"
  by (cases m) auto

lemma obind_Diverge_iff: "obind m f = Diverge \<longleftrightarrow> m = Diverge \<or> (\<exists>x. m = Val x \<and> f x = Diverge)"
  by (cases m) auto

lemma obind_assoc: "obind (obind m f) g = obind m (\<lambda>x. obind (f x) g)"
  by (cases m) auto

text \<open>
  The flat order on outcomes: a run that does not end is below every other. A recursion with a
  fuel argument grows in this order with its fuel.
\<close>

instantiation outcome :: (type) order_bot
begin

definition bot_outcome :: "'a outcome" where
  "bot_outcome = Diverge"

definition less_eq_outcome :: "'a outcome \<Rightarrow> 'a outcome \<Rightarrow> bool" where
  "less_eq_outcome x y \<longleftrightarrow> x = Diverge \<or> x = y"

definition less_outcome :: "'a outcome \<Rightarrow> 'a outcome \<Rightarrow> bool" where
  "less_outcome x y \<longleftrightarrow> x = Diverge \<and> y \<noteq> Diverge"

instance
  by standard (auto simp: bot_outcome_def less_eq_outcome_def less_outcome_def)

end

lemma outcome_le_iff: "x \<le> y \<longleftrightarrow> x = Diverge \<or> x = (y :: 'a outcome)"
  by (rule less_eq_outcome_def)

lemma Diverge_le [simp]: "Diverge \<le> x"
  by (simp add: outcome_le_iff)

lemma Val_le [simp]: "Val v \<le> x \<longleftrightarrow> x = Val v"
  by (auto simp: outcome_le_iff)

lemma obind_mono: "m \<le> m' \<Longrightarrow> (\<And>x. m' = Val x \<Longrightarrow> f x \<le> g x) \<Longrightarrow> obind m f \<le> obind m' g"
  by (cases m; cases m') (auto simp: outcome_le_iff)

text \<open>
  Errors that carry text: \<open>Err\<close> for one made here or by a library, \<open>Wrap\<close> for
  \<open>fmt.Errorf("...: %v", err)\<close> and \<open>errors.Wrap\<close>. An error return is \<open>err option\<close>, where
  \<open>None\<close> is nil.
\<close>

datatype err = Err string | Wrap string err

fun err_text :: "err \<Rightarrow> string" where
  "err_text (Err s) = s"
| "err_text (Wrap s e) = s @ '': '' @ err_text e"

section \<open>Strings\<close>

text \<open>A text in single quotes, and \<open>strings.HasPrefix\<close>.\<close>

definition single_quoted :: "string \<Rightarrow> string" where
  "single_quoted s = [CHR 0x27] @ s @ [CHR 0x27]"

definition has_prefix :: "string \<Rightarrow> string \<Rightarrow> bool" where
  "has_prefix p s \<longleftrightarrow> take (length p) s = p"

subsection \<open>Split and Join\<close>

text \<open>\<open>strings.Split(s, sep)\<close> for the one-character separators the code uses.\<close>

fun split_on :: "char \<Rightarrow> string \<Rightarrow> string list" where
  "split_on c [] = [[]]"
| "split_on c (x # xs) =
     (if x = c then [] # split_on c xs
      else (case split_on c xs of [] \<Rightarrow> [[x]] | y # ys \<Rightarrow> (x # y) # ys))"

text \<open>\<open>strings.Join(xs, sep)\<close>.\<close>

fun join_with :: "string \<Rightarrow> string list \<Rightarrow> string" where
  "join_with sep [] = []"
| "join_with sep [x] = x"
| "join_with sep (x # y # zs) = x @ sep @ join_with sep (y # zs)"

lemma split_on_neq_Nil [simp]: "split_on c s \<noteq> []"
  by (induction s) (auto split: list.splits)

lemma split_on_no_sep [go_string_simps]: "c \<notin> set s \<Longrightarrow> split_on c s = [s]"
  by (induction s) (auto split: list.splits)

lemma split_on_append [go_string_simps]:
  "c \<notin> set a \<Longrightarrow> split_on c (a @ c # b) = a # split_on c b"
  by (induction a) (auto split: list.splits)

lemma split_on_parts: "x \<in> set (split_on c s) \<Longrightarrow> c \<notin> set x"
proof (induction s arbitrary: x)
  case (Cons a s)
  show ?case
  proof (cases "split_on c s")
    case (Cons y ys)
    with Cons.IH Cons.prems show ?thesis by (auto split: if_splits)
  qed simp
qed simp

lemma join_with_Cons: "xs \<noteq> [] \<Longrightarrow> join_with sep (x # xs) = x @ sep @ join_with sep xs"
  by (cases xs) auto

lemma join_with_mem: "c \<in> set (join_with sep xs) \<Longrightarrow> c \<in> set sep \<or> (\<exists>x \<in> set xs. c \<in> set x)"
  by (induction sep xs rule: join_with.induct) auto

lemma join_split: "join_with [c] (split_on c s) = s"
proof (induction s)
  case (Cons a s)
  show ?case
  proof (cases "a = c")
    case True
    with Cons show ?thesis by (simp add: join_with_Cons)
  next
    case False
    obtain y ys where "split_on c s = y # ys" by (cases "split_on c s") auto
    with Cons False show ?thesis by (cases ys) auto
  qed
qed simp

lemma split_join:
  "xs \<noteq> [] \<Longrightarrow> (\<And>x. x \<in> set xs \<Longrightarrow> c \<notin> set x) \<Longrightarrow> split_on c (join_with [c] xs) = xs"
proof (induction xs)
  case (Cons x xs)
  show ?case
  proof (cases xs)
    case Nil
    with Cons.prems show ?thesis by (simp add: split_on_no_sep)
  next
    case (Cons y ys)
    with Cons.IH Cons.prems show ?thesis
      by (simp add: split_on_append)
  qed
qed simp

lemma split_on_single_iff: "(\<exists>x. split_on c s = [x]) \<longleftrightarrow> c \<notin> set s"
proof (induction s)
  case (Cons a s)
  then show ?case by (auto split: list.splits)
qed simp

lemma length_split_on: "length (split_on c s) = Suc (count_list s c)"
  by (induction s) (auto split: list.splits)

subsection \<open>Trimming, prefixes and search\<close>

text \<open>\<open>strings.TrimLeft(s, cutset)\<close> and \<open>strings.Trim(s, cutset)\<close> for one character.\<close>

definition trim_left :: "char \<Rightarrow> string \<Rightarrow> string" where
  "trim_left c s = dropWhile (\<lambda>x. x = c) s"

definition trim_char :: "char \<Rightarrow> string \<Rightarrow> string" where
  "trim_char c s = rev (dropWhile (\<lambda>x. x = c) (rev (trim_left c s)))"

lemma trim_left_id [go_string_simps]: "(s = [] \<or> hd s \<noteq> c) \<Longrightarrow> trim_left c s = s"
  by (cases s) (auto simp: trim_left_def)

lemma trim_char_id [go_string_simps]:
  "s \<noteq> [] \<Longrightarrow> hd s \<noteq> c \<Longrightarrow> last s \<noteq> c \<Longrightarrow> trim_char c s = s"
proof -
  assume a: "s \<noteq> []" "hd s \<noteq> c" "last s \<noteq> c"
  then have "trim_left c s = s" by (simp add: trim_left_id)
  moreover have "rev s \<noteq> []" and "hd (rev s) \<noteq> c" using a by (auto simp: hd_rev)
  then have "dropWhile (\<lambda>x. x = c) (rev s) = rev s"
    using trim_left_id [of "rev s" c] by (simp add: trim_left_def)
  ultimately show ?thesis by (simp add: trim_char_def)
qed

lemma trim_char_Cons [simp]: "trim_char c (c # s) = trim_char c s"
  by (simp add: trim_char_def trim_left_def)

lemma hd_trim_left: "trim_left c s \<noteq> [] \<Longrightarrow> hd (trim_left c s) \<noteq> c"
  unfolding trim_left_def by (rule hd_dropWhile)

text \<open>\<open>unicode.IsSpace\<close> on ASCII, and \<open>strings.TrimSpace\<close>.\<close>

definition is_space :: "char \<Rightarrow> bool" where
  "is_space c \<longleftrightarrow> (of_char c :: nat) \<in> {9, 10, 11, 12, 13, 32}"

definition trim_left_space :: "string \<Rightarrow> string" where
  "trim_left_space s = dropWhile is_space s"

definition trim_space :: "string \<Rightarrow> string" where
  "trim_space s = rev (dropWhile is_space (rev (trim_left_space s)))"

text \<open>
  \<open>strings.HasPrefix(s, p)\<close> is \<open>prefix p s\<close> of the library; \<open>strings.Index(s, "c")\<close>
  gives -1 where the character does not occur.
\<close>

definition index_byte :: "string \<Rightarrow> char \<Rightarrow> int" where
  "index_byte s c = (if c \<in> set s then int (length (takeWhile (\<lambda>x. x \<noteq> c) s)) else -1)"

lemma index_byte_append [go_string_simps]:
  "c \<notin> set a \<Longrightarrow> index_byte (a @ c # b) c = int (length a)"
  by (induction a) (auto simp: index_byte_def)

lemma index_byte_none [go_string_simps]: "c \<notin> set s \<Longrightarrow> index_byte s c = -1"
  by (simp add: index_byte_def)

text \<open>\<open>strings.Contains(s, sub)\<close>.\<close>

fun contains_str :: "string \<Rightarrow> string \<Rightarrow> bool" where
  "contains_str [] sub = (sub = [])"
| "contains_str (x # xs) sub = (prefix sub (x # xs) \<or> contains_str xs sub)"

text \<open>\<open>strings.ReplaceAll(s, old, new)\<close> for a non-empty \<open>old\<close>.\<close>

function replace_all :: "string \<Rightarrow> string \<Rightarrow> string \<Rightarrow> string" where
  "replace_all old new [] = []"
| "replace_all old new (x # xs) =
     (if old \<noteq> [] \<and> prefix old (x # xs)
      then new @ replace_all old new (drop (length old) (x # xs))
      else x # replace_all old new xs)"
  by pat_completeness auto
termination
  by (relation "measure (\<lambda>(old, new, s). length s)") (auto simp: neq_Nil_conv)

lemma replace_all_char:
  "replace_all [c] [d] s = map (\<lambda>x. if x = c then d else x) s"
  by (induction s) auto

subsection \<open>Case, digits and quoting\<close>

definition lower_char :: "char \<Rightarrow> char" where
  "lower_char c = (let n = (of_char c :: nat) in if 65 \<le> n \<and> n \<le> 90 then char_of (n + 32) else c)"

definition upper_char :: "char \<Rightarrow> char" where
  "upper_char c = (let n = (of_char c :: nat) in if 97 \<le> n \<and> n \<le> 122 then char_of (n - 32) else c)"

definition is_digit :: "char \<Rightarrow> bool" where
  "is_digit c \<longleftrightarrow> (48 :: nat) \<le> of_char c \<and> of_char c \<le> (57 :: nat)"

definition is_letter :: "char \<Rightarrow> bool" where
  "is_letter c \<longleftrightarrow> (let n = (of_char c :: nat) in 65 \<le> n \<and> n \<le> 90 \<or> 97 \<le> n \<and> n \<le> 122)"

text \<open>\<open>strings.ToLower\<close>.\<close>

definition to_lower :: "string \<Rightarrow> string" where
  "to_lower s = map lower_char s"

text \<open>
  \<open>strings.Title\<close>: the first letter of each word in upper case; a word starts after a
  character that is no letter, digit or underscore.
\<close>

definition is_separator :: "char \<Rightarrow> bool" where
  "is_separator c \<longleftrightarrow>
     \<not> (is_letter c \<or> is_digit c \<or> c = CHR ''_'' \<or> (of_char c :: nat) \<ge> 128)"

fun title_from :: "char \<Rightarrow> string \<Rightarrow> string" where
  "title_from prev [] = []"
| "title_from prev (x # xs) =
     (if is_separator prev then upper_char x else x) # title_from x xs"

definition title :: "string \<Rightarrow> string" where
  "title s = title_from (CHR '' '') s"

text \<open>\<open>strconv.Itoa\<close> and the verb \<open>%d\<close>.\<close>

definition digit_char :: "nat \<Rightarrow> char" where
  "digit_char d = char_of (48 + d)"

fun nat_str :: "nat \<Rightarrow> string" where
  "nat_str n = (if n < 10 then [digit_char n] else nat_str (n div 10) @ [digit_char (n mod 10)])"

declare nat_str.simps [simp del]

definition itoa :: "int \<Rightarrow> string" where
  "itoa i = (if i < 0 then CHR ''-'' # nat_str (nat (- i)) else nat_str (nat i))"

text \<open>\<open>regexp.QuoteMeta\<close>: a backslash before each of the characters \<open>\.+*?()|[]{}^$\<close>.\<close>

definition is_meta :: "char \<Rightarrow> bool" where
  "is_meta c \<longleftrightarrow> c \<in> {CHR 0x5C, CHR ''.'', CHR ''+'', CHR ''*'', CHR ''?'', CHR ''('', CHR '')'',
     CHR ''|'', CHR ''['', CHR '']'', CHR ''{'', CHR ''}'', CHR ''^'', CHR ''$''}"

fun quote_meta :: "string \<Rightarrow> string" where
  "quote_meta [] = []"
| "quote_meta (c # cs) = (if is_meta c then [CHR 0x5C, c] else [c]) @ quote_meta cs"

text \<open>Reading such a quoted string back: a backslash stands for the character after it.\<close>

fun unquote :: "string \<Rightarrow> string" where
  "unquote [] = []"
| "unquote (c # cs) =
     (if c = CHR 0x5C then (case cs of [] \<Rightarrow> [] | d # ds \<Rightarrow> d # unquote ds) else c # unquote cs)"

lemma unquote_quote_meta: "unquote (quote_meta s) = s"
  by (induction s) (auto simp: is_meta_def)

lemma quote_meta_append: "quote_meta (a @ b) = quote_meta a @ quote_meta b"
  by (induction a) auto

lemma quote_meta_plain [go_string_simps]: "(\<And>c. c \<in> set s \<Longrightarrow> \<not> is_meta c) \<Longrightarrow> quote_meta s = s"
  by (induction s) auto

section \<open>Maps\<close>

text \<open>
  A Go map is an association list with distinct keys: \<open>map_of m k\<close> is \<open>v, ok := m[k]\<close>,
  \<open>AList.update k v m\<close> is \<open>m[k] = v\<close> and \<open>AList.delete k m\<close> is \<open>delete(m, k)\<close>. A
  \<open>map[string]struct{}\<close> used as a set is the list of its keys.
\<close>

type_synonym ('k, 'v) gomap = "('k \<times> 'v) list"

abbreviation keys_of :: "('k, 'v) gomap \<Rightarrow> 'k list" where
  "keys_of m \<equiv> map fst m"

definition gomap_ok :: "('k, 'v) gomap \<Rightarrow> bool" where
  "gomap_ok m \<longleftrightarrow> distinct (keys_of m)"

lemma map_of_update_iff [go_map_simps]:
  "map_of (AList.update k v m) k' = (if k' = k then Some v else map_of m k')"
  by (simp add: update_conv)

lemma map_of_delete_iff [go_map_simps]:
  "map_of (AList.delete k m) k' = (if k' = k then None else map_of m k')"
  by (simp add: delete_conv)

lemma gomap_ok_Nil [simp]: "gomap_ok []"
  by (simp add: gomap_ok_def)

lemma gomap_ok_update [simp, intro]: "gomap_ok m \<Longrightarrow> gomap_ok (AList.update k v m)"
  by (simp add: gomap_ok_def distinct_update)

lemma gomap_ok_delete [simp, intro]: "gomap_ok m \<Longrightarrow> gomap_ok (AList.delete k m)"
  by (simp add: gomap_ok_def distinct_delete)

lemma keys_of_dom: "set (keys_of m) = dom (map_of m)"
  by (simp add: dom_map_of_conv_image_fst)

lemma in_keys_iff: "k \<in> set (keys_of m) \<longleftrightarrow> (\<exists>v. map_of m k = Some v)"
  unfolding keys_of_dom by blast

lemma map_of_filter_key [go_map_simps]:
  "map_of (filter (\<lambda>p. P (fst p)) m) k = (if P k then map_of m k else None)"
  by (induction m) auto

text \<open>
  A \<open>range\<close> loop over a map visits each key once, in an order Go leaves open. The
  definitions that range over a map take that order as an argument \<open>ord\<close>: a function that
  permutes the keys. The theorems hold for every such \<open>ord\<close>.
\<close>

type_synonym order = "string list \<Rightarrow> string list"

definition range_order :: "order \<Rightarrow> bool" where
  "range_order ord \<longleftrightarrow> (\<forall>xs. mset (ord xs) = mset xs)"

lemma range_order_set: "range_order ord \<Longrightarrow> set (ord xs) = set xs"
  unfolding range_order_def by (metis mset_eq_setD)

lemma range_order_distinct: "range_order ord \<Longrightarrow> distinct (ord xs) = distinct xs"
  unfolding range_order_def by (metis mset_eq_imp_distinct_iff)

lemma range_order_id [simp]: "range_order (\<lambda>xs. xs)"
  by (simp add: range_order_def)

lemma range_order_rev [simp]: "range_order rev"
  by (simp add: range_order_def)

text \<open>The entries of a map in the order of a range loop.\<close>

definition range_map :: "order \<Rightarrow> (string, 'v) gomap \<Rightarrow> (string \<times> 'v) list" where
  "range_map ord m = map (\<lambda>k. (k, the (map_of m k))) (ord (keys_of m))"

lemma set_range_map:
  "range_order ord \<Longrightarrow> set (range_map ord m) = {(k, v). map_of m k = Some v}"
proof -
  assume "range_order ord"
  then have "set (range_map ord m) = (\<lambda>k. (k, the (map_of m k))) ` dom (map_of m)"
    by (simp only: range_map_def list.set_map range_order_set dom_map_of_conv_image_fst)
  then show ?thesis by (auto simp: image_iff dom_def)
qed

lemma range_map_Nil [simp]: "range_order ord \<Longrightarrow> range_map ord [] = []"
  unfolding range_map_def range_order_def by (metis list.simps(8) mset_zero_iff)

section \<open>Reachable states\<close>

text \<open>What is kept by every step holds in every state that is reached.\<close>

locale step_invariant =
  fixes step :: "'s \<Rightarrow> 's \<Rightarrow> bool" and inv :: "'s \<Rightarrow> bool"
  assumes step_keeps: "step s t \<Longrightarrow> inv s \<Longrightarrow> inv t"
begin

lemma reached: "rtranclp step s t \<Longrightarrow> inv s \<Longrightarrow> inv t"
  by (induction rule: rtranclp_induct) (auto intro: step_keeps)

end

end
