(* ===== verification/Graph_Spec.thy ===== *)
theory Graph_Spec
  imports Main
begin

text \<open>
  The abstract specification of the digi-graph: finite directed graphs in which every node reaches
  every other by at most one path (multi-trees), the sources of a graph, and the sources from
  which a node is reached (its roots). The lemmas say how these change when an edge is added,
  an edge is removed, or a node without outgoing edges is removed.
\<close>

section \<open>Multi-trees\<close>

definition multitree :: "('a \<times> 'a) set \<Rightarrow> bool" where
  "multitree E \<longleftrightarrow> acyclic E \<and>
     (\<forall>x c d z. (x, c) \<in> E \<and> (x, d) \<in> E \<and> (c, z) \<in> E\<^sup>* \<and> (d, z) \<in> E\<^sup>* \<longrightarrow> c = d)"

text \<open>Paths as the list of the nodes after the first.\<close>

fun is_path :: "('a \<times> 'a) set \<Rightarrow> 'a \<Rightarrow> 'a list \<Rightarrow> 'a \<Rightarrow> bool" where
  "is_path E x [] z = (x = z)"
| "is_path E x (y # ys) z = ((x, y) \<in> E \<and> is_path E y ys z)"

lemma is_path_rtrancl: "is_path E x p z \<Longrightarrow> (x, z) \<in> E\<^sup>*"
  by (induction p arbitrary: x) (auto intro: converse_rtrancl_into_rtrancl)

lemma rtrancl_is_path: "(x, z) \<in> E\<^sup>* \<Longrightarrow> \<exists>p. is_path E x p z"
proof (induction rule: converse_rtrancl_induct)
  case base
  have "is_path E z [] z" by simp
  then show ?case by blast
next
  case (step y w)
  then obtain p where "is_path E w p z" by blast
  with step(1) have "is_path E y (w # p) z" by simp
  then show ?case by blast
qed

lemma multitree_acyclic: "multitree E \<Longrightarrow> acyclic E"
  by (simp add: multitree_def)

lemma multitree_diamond:
  "multitree E \<Longrightarrow> (x, c) \<in> E \<Longrightarrow> (x, d) \<in> E \<Longrightarrow> (c, z) \<in> E\<^sup>* \<Longrightarrow> (d, z) \<in> E\<^sup>* \<Longrightarrow> c = d"
  unfolding multitree_def by blast

lemma acyclic_no_return: "acyclic E \<Longrightarrow> (x, y) \<in> E \<Longrightarrow> (y, x) \<notin> E\<^sup>*"
  by (meson acyclic_def rtrancl_into_trancl2)

lemma multitree_unique_path:
  "multitree E \<Longrightarrow> is_path E x p z \<Longrightarrow> is_path E x q z \<Longrightarrow> p = q"
proof (induction p arbitrary: x q)
  case Nil
  show ?case
  proof (cases q)
    case (Cons y ys)
    with Nil have "(x, y) \<in> E" and "(y, x) \<in> E\<^sup>*" by (auto intro: is_path_rtrancl)
    with Nil show ?thesis using acyclic_no_return multitree_acyclic by metis
  qed simp
next
  case (Cons a p)
  then have a: "(x, a) \<in> E" "(a, z) \<in> E\<^sup>*" by (auto intro: is_path_rtrancl)
  show ?case
  proof (cases q)
    case Nil
    with Cons a show ?thesis using acyclic_no_return multitree_acyclic
      by (metis is_path.simps(1))
  next
    case (Cons b q')
    with Cons.prems have b: "(x, b) \<in> E" "(b, z) \<in> E\<^sup>*" by (auto intro: is_path_rtrancl)
    have "a = b" by (rule multitree_diamond [OF Cons.prems(1) a(1) b(1) a(2) b(2)])
    with Cons Cons.IH Cons.prems show ?thesis by auto
  qed
qed

lemma unique_path_multitree:
  assumes "\<And>x p q z. is_path E x p z \<Longrightarrow> is_path E x q z \<Longrightarrow> p = q"
  shows "multitree E"
  unfolding multitree_def
proof (intro conjI allI impI)
  show "acyclic E"
    unfolding acyclic_def
  proof (intro allI notI)
    fix x assume "(x, x) \<in> E\<^sup>+"
    then obtain y where y: "(x, y) \<in> E" "(y, x) \<in> E\<^sup>*" by (meson tranclD)
    then obtain p where "is_path E y p x" using rtrancl_is_path by metis
    with y have "is_path E x (y # p) x" and "is_path E x [] x" by auto
    with assms show False by blast
  qed
next
  fix x c d z assume h: "(x, c) \<in> E \<and> (x, d) \<in> E \<and> (c, z) \<in> E\<^sup>* \<and> (d, z) \<in> E\<^sup>*"
  then obtain p q where "is_path E c p z" "is_path E d q z" by (meson rtrancl_is_path)
  with h have "is_path E x (c # p) z" "is_path E x (d # q) z" by auto
  with assms show "c = d" by blast
qed

lemma two_cycle_not_multitree:
  assumes "(a, b) \<in> E" and "(b, a) \<in> E"
  shows "\<not> multitree E"
proof -
  have "(a, a) \<in> E\<^sup>+" using assms by (meson r_into_trancl' trancl_into_trancl)
  then show ?thesis by (auto simp: multitree_def acyclic_def)
qed

lemma multitree_subset: "multitree E \<Longrightarrow> F \<subseteq> E \<Longrightarrow> multitree F"
proof -
  assume m: "multitree E" and s: "F \<subseteq> E"
  have "is_path F x p z \<Longrightarrow> is_path E x p z" for x p z
    using s by (induction p arbitrary: x) auto
  then show ?thesis
    using unique_path_multitree [of F] multitree_unique_path [OF m] by blast
qed

lemma multitree_empty [simp]: "multitree {}"
  by (simp add: multitree_def acyclic_def)

section \<open>Adding an edge\<close>

text \<open>\<open>no_common E s e\<close>: no node reaches both \<open>s\<close> and a descendant of \<open>e\<close>.\<close>

definition no_common :: "('a \<times> 'a) set \<Rightarrow> 'a \<Rightarrow> 'a \<Rightarrow> bool" where
  "no_common E s e \<longleftrightarrow> \<not> (\<exists>r d. (r, s) \<in> E\<^sup>* \<and> (r, d) \<in> E\<^sup>* \<and> (e, d) \<in> E\<^sup>*)"

lemma rtrancl_insert_iff:
  "(x, y) \<in> (insert (s, e) E)\<^sup>* \<longleftrightarrow> (x, y) \<in> E\<^sup>* \<or> (x, s) \<in> E\<^sup>* \<and> (e, y) \<in> E\<^sup>*"
  by (simp add: rtrancl_insert)

lemma no_commonD: "no_common E s e \<Longrightarrow> (r, s) \<in> E\<^sup>* \<Longrightarrow> (e, d) \<in> E\<^sup>* \<Longrightarrow> (r, d) \<notin> E\<^sup>*"
  unfolding no_common_def by blast

lemma no_common_not_back: "no_common E s e \<Longrightarrow> (e, s) \<notin> E\<^sup>*"
  unfolding no_common_def by blast

lemma multitree_insert_if:
  assumes m: "multitree E" and n: "no_common E s e"
  shows "multitree (insert (s, e) E)"
  unfolding multitree_def
proof (intro conjI allI impI)
  have ac: "acyclic E" by (rule multitree_acyclic [OF m])
  show "acyclic (insert (s, e) E)"
    using ac no_common_not_back [OF n] by (simp add: acyclic_insert)
  have new_first: "c' = e" if "(s, e) = (x, c)" "(x, d) \<in> E" "(c, z) \<in> (insert (s, e) E)\<^sup>*"
    "(d, z) \<in> (insert (s, e) E)\<^sup>*" "c' = d" for x c d z c'
  proof -
    have xd: "(s, d) \<in> E" and ez: "(e, z) \<in> E\<^sup>*"
      using that no_common_not_back [OF n] by (auto simp: rtrancl_insert_iff)
    have "(d, s) \<notin> E\<^sup>*" using acyclic_no_return [OF ac xd] .
    with that have "(d, z) \<in> E\<^sup>*" by (auto simp: rtrancl_insert_iff)
    with xd have "(s, z) \<in> E\<^sup>*" by (meson converse_rtrancl_into_rtrancl)
    with no_commonD [OF n _ ez] show ?thesis by blast
  qed
  fix x c d z
  assume h: "(x, c) \<in> insert (s, e) E \<and> (x, d) \<in> insert (s, e) E \<and>
    (c, z) \<in> (insert (s, e) E)\<^sup>* \<and> (d, z) \<in> (insert (s, e) E)\<^sup>*"
  show "c = d"
  proof (cases "(x, c) \<in> E \<and> (x, d) \<in> E")
    case False
    with h new_first [of x c d z d] new_first [of x d c z c] show ?thesis by auto
  next
    case True
    have cz: "(c, z) \<in> E\<^sup>* \<or> (c, s) \<in> E\<^sup>* \<and> (e, z) \<in> E\<^sup>*"
      and dz: "(d, z) \<in> E\<^sup>* \<or> (d, s) \<in> E\<^sup>* \<and> (e, z) \<in> E\<^sup>*"
      using h by (auto simp: rtrancl_insert_iff)
    have one: False if "(x, y) \<in> E" "(y, s) \<in> E\<^sup>*" "(e, z) \<in> E\<^sup>*" "(x, y') \<in> E" "(y', z) \<in> E\<^sup>*" for y y'
      using no_commonD [OF n, of x z] that by (meson converse_rtrancl_into_rtrancl)
    from cz dz True one show ?thesis
      using multitree_diamond [OF m, of x c d z] multitree_diamond [OF m, of x c d s] by blast
  qed
qed

lemma multitree_insert_only_if:
  assumes m: "multitree (insert (s, e) E)" and new: "(s, e) \<notin> E"
  shows "no_common E s e"
  unfolding no_common_def
proof
  let ?E = "insert (s, e) E"
  assume "\<exists>r d. (r, s) \<in> E\<^sup>* \<and> (r, d) \<in> E\<^sup>* \<and> (e, d) \<in> E\<^sup>*"
  then obtain r d where rs: "(r, s) \<in> E\<^sup>*" and rd: "(r, d) \<in> E\<^sup>*" and ed: "(e, d) \<in> E\<^sup>*" by blast
  have up: "(x, y) \<in> E\<^sup>* \<Longrightarrow> (x, y) \<in> ?E\<^sup>*" for x y by (simp add: rtrancl_insert_iff)
  have ac: "acyclic ?E" by (rule multitree_acyclic [OF m])
  have "(r, s) \<in> E\<^sup>* \<longrightarrow> False"
    using rd
  proof (induction rule: converse_rtrancl_induct)
    case base
    have "(d, s) \<in> E\<^sup>* \<Longrightarrow> (e, s) \<in> E\<^sup>*" using ed by (meson rtrancl_trans)
    then show ?case using acyclic_no_return [OF ac, of s e] up by blast
  next
    case (step x c)
    show ?case
    proof
      assume xs: "(x, s) \<in> E\<^sup>*"
      from xs show False
      proof (cases rule: converse_rtranclE)
        case base
        with step have sc: "(s, c) \<in> E" by simp
        with new have "c \<noteq> e" by blast
        with multitree_diamond [OF m, of s c e d] sc step(2) ed up show False by blast
      next
        case (step c')
        have "(c', d) \<in> ?E\<^sup>*" using step ed by (simp add: rtrancl_insert_iff)
        with multitree_diamond [OF m, of x c c' d] step \<open>(x, c) \<in> E\<close> \<open>(c, d) \<in> E\<^sup>*\<close> up
        have "c = c'" by blast
        with step \<open>(c, s) \<in> E\<^sup>* \<longrightarrow> False\<close> show False by simp
      qed
    qed
  qed
  with rs show False by simp
qed

theorem multitree_insert_iff:
  "(s, e) \<notin> E \<Longrightarrow> multitree (insert (s, e) E) \<longleftrightarrow> multitree E \<and> no_common E s e"
  using multitree_insert_if [of E s e] multitree_insert_only_if [of s e E]
    multitree_subset [of "insert (s, e) E" E] by (metis subset_insertI)

section \<open>Removing an edge\<close>

lemma remove_edge_reach:
  assumes m: "multitree E" and se: "(s, e) \<in> E"
  shows "(r, d) \<in> (E - {(s, e)})\<^sup>* \<longleftrightarrow> (r, d) \<in> E\<^sup>* \<and> \<not> ((r, s) \<in> E\<^sup>* \<and> (e, d) \<in> E\<^sup>*)"
proof -
  let ?F = "E - {(s, e)}"
  have E: "E = insert (s, e) ?F" using se by blast
  have n: "no_common ?F s e"
    by (rule multitree_insert_only_if) (use m E in auto)
  have reach: "(x, y) \<in> E\<^sup>* \<longleftrightarrow> (x, y) \<in> ?F\<^sup>* \<or> (x, s) \<in> ?F\<^sup>* \<and> (e, y) \<in> ?F\<^sup>*" for x y
    by (subst E) (rule rtrancl_insert_iff)
  have nback: "(e, s) \<notin> ?F\<^sup>*" by (rule no_common_not_back [OF n])
  have "(r, s) \<in> E\<^sup>* \<longleftrightarrow> (r, s) \<in> ?F\<^sup>*" and "(e, d) \<in> E\<^sup>* \<longleftrightarrow> (e, d) \<in> ?F\<^sup>*"
    using reach nback by blast+
  with reach [of r d] no_commonD [OF n] show ?thesis by blast
qed

section \<open>Sources and roots\<close>

definition sources :: "'a set \<Rightarrow> ('a \<times> 'a) set \<Rightarrow> 'a set" where
  "sources V E = {v \<in> V. \<forall>u. (u, v) \<notin> E}"

definition roots_in :: "'a set \<Rightarrow> ('a \<times> 'a) set \<Rightarrow> 'a \<Rightarrow> 'a set" where
  "roots_in V E v = {r \<in> sources V E. (r, v) \<in> E\<^sup>*}"

lemma sources_subset: "sources V E \<subseteq> V"
  by (auto simp: sources_def)

lemma roots_in_subset: "roots_in V E v \<subseteq> V"
  by (auto simp: roots_in_def sources_def)

text \<open>A graph over a node set, acyclic and finite: every node has a source above it.\<close>

lemma source_above:
  assumes "finite E" and "acyclic E" and "E \<subseteq> V \<times> V" and "v \<in> V"
  shows "\<exists>r. r \<in> roots_in V E v"
proof -
  have "wf E" by (rule finite_acyclic_wf [OF assms(1,2)])
  then show ?thesis using assms(4)
  proof (induction v rule: wf_induct_rule)
    case (less v)
    show ?case
    proof (cases "\<exists>u. (u, v) \<in> E")
      case True
      then obtain u where u: "(u, v) \<in> E" by blast
      with assms(3) have "u \<in> V" by blast
      with less.IH [OF u] obtain r where "r \<in> roots_in V E u" by blast
      with u have "r \<in> roots_in V E v" by (auto simp: roots_in_def)
      then show ?thesis by blast
    next
      case False
      with less.prems have "v \<in> roots_in V E v" by (auto simp: roots_in_def sources_def)
      then show ?thesis by blast
    qed
  qed
qed

lemma reach_in_nodes: "(x, y) \<in> E\<^sup>* \<Longrightarrow> E \<subseteq> V \<times> V \<Longrightarrow> x \<in> V \<Longrightarrow> y \<in> V"
  by (induction rule: rtrancl_induct) auto

lemma reach_back_in_nodes: "(x, y) \<in> E\<^sup>* \<Longrightarrow> E \<subseteq> V \<times> V \<Longrightarrow> y \<in> V \<Longrightarrow> x \<in> V"
  by (induction rule: converse_rtrancl_induct) auto

text \<open>The test on roots that the code makes decides \<open>no_common\<close>.\<close>

lemma no_common_roots:
  assumes "finite E" and "acyclic E" and "E \<subseteq> V \<times> V" and "s \<in> V"
  shows "no_common E s e \<longleftrightarrow> (\<forall>d. (e, d) \<in> E\<^sup>* \<longrightarrow> roots_in V E d \<inter> roots_in V E s = {})"
proof
  assume "no_common E s e"
  then show "\<forall>d. (e, d) \<in> E\<^sup>* \<longrightarrow> roots_in V E d \<inter> roots_in V E s = {}"
    unfolding no_common_def roots_in_def by blast
next
  assume h: "\<forall>d. (e, d) \<in> E\<^sup>* \<longrightarrow> roots_in V E d \<inter> roots_in V E s = {}"
  show "no_common E s e"
    unfolding no_common_def
  proof
    assume "\<exists>r d. (r, s) \<in> E\<^sup>* \<and> (r, d) \<in> E\<^sup>* \<and> (e, d) \<in> E\<^sup>*"
    then obtain r d where p: "(r, s) \<in> E\<^sup>*" "(r, d) \<in> E\<^sup>*" "(e, d) \<in> E\<^sup>*" by blast
    have "r \<in> V" by (rule reach_back_in_nodes [OF p(1) assms(3,4)])
    then obtain q where "q \<in> roots_in V E r" using source_above [OF assms(1-3)] by blast
    with p have "q \<in> roots_in V E d \<inter> roots_in V E s"
      unfolding roots_in_def by (auto intro: rtrancl_trans)
    with h p(3) show False by blast
  qed
qed

subsection \<open>How they change\<close>

lemma sources_insert:
  "sources V (insert (s, e) E) = sources V E - {e}"
  by (auto simp: sources_def)

lemma roots_in_insert:
  assumes "no_common E s e"
  shows "roots_in V (insert (s, e) E) d =
    (if (e, d) \<in> E\<^sup>* then roots_in V E d - {e} \<union> roots_in V E s else roots_in V E d)"
proof -
  have nback: "(e, s) \<notin> E\<^sup>*" by (rule no_common_not_back [OF assms])
  have "r \<in> roots_in V (insert (s, e) E) d \<longleftrightarrow>
    r \<in> (if (e, d) \<in> E\<^sup>* then roots_in V E d - {e} \<union> roots_in V E s else roots_in V E d)" for r
    using nback by (cases "r = e") (auto simp: roots_in_def sources_insert rtrancl_insert_iff)
  then show ?thesis by blast
qed

definition other_parent :: "('a \<times> 'a) set \<Rightarrow> 'a \<Rightarrow> 'a \<Rightarrow> bool" where
  "other_parent E s e \<longleftrightarrow> (\<exists>p. p \<noteq> s \<and> (p, e) \<in> E)"

lemma sources_remove:
  assumes "e \<in> V"
  shows "sources V (E - {(s, e)}) = sources V E \<union> (if other_parent E s e then {} else {e})"
  using assms by (auto simp: sources_def other_parent_def)

lemma other_parent_roots:
  assumes m: "multitree E" and "finite E" and sub: "E \<subseteq> V \<times> V" and se: "(s, e) \<in> E"
  shows "other_parent E s e \<longleftrightarrow> roots_in V E e - roots_in V E s \<noteq> {}"
proof
  assume "other_parent E s e"
  then obtain p where p: "p \<noteq> s" "(p, e) \<in> E" by (auto simp: other_parent_def)
  with sub have "p \<in> V" by blast
  then obtain r where r: "r \<in> roots_in V E p"
    using source_above [OF assms(2) multitree_acyclic [OF m] sub] by blast
  then have re: "r \<in> roots_in V E e" using p(2) by (auto simp: roots_in_def)
  have "r \<notin> roots_in V E s"
  proof
    assume rs: "r \<in> roots_in V E s"
    then obtain q q' where "is_path E r q s" "is_path E r q' p"
      using r by (auto simp: roots_in_def dest!: rtrancl_is_path)
    moreover have app: "is_path E x q y \<Longrightarrow> (y, e) \<in> E \<Longrightarrow> is_path E x (q @ [e]) e" for x q y
      by (induction q arbitrary: x) auto
    ultimately have "q @ [e] = q' @ [e]"
      using multitree_unique_path [OF m, of r "q @ [e]" e "q' @ [e]"] se p(2) by blast
    then have "q = q'" by simp
    moreover have "is_path E x q y \<Longrightarrow> is_path E x q y' \<Longrightarrow> y = y'" for x q y y'
      by (induction q arbitrary: x) auto
    ultimately show False using \<open>is_path E r q s\<close> \<open>is_path E r q' p\<close> p(1) by blast
  qed
  with re show "roots_in V E e - roots_in V E s \<noteq> {}" by blast
next
  assume "roots_in V E e - roots_in V E s \<noteq> {}"
  then obtain r where r: "r \<in> sources V E" "(r, e) \<in> E\<^sup>*" "(r, s) \<notin> E\<^sup>*"
    by (auto simp: roots_in_def)
  have "r \<noteq> e" using r(1) se by (auto simp: sources_def)
  with r(2) obtain p where p: "(r, p) \<in> E\<^sup>*" "(p, e) \<in> E" by (metis rtranclE)
  with r(3) have "p \<noteq> s" by blast
  with p show "other_parent E s e" by (auto simp: other_parent_def)
qed

lemma roots_in_remove:
  assumes m: "multitree E" and "finite E" and sub: "E \<subseteq> V \<times> V" and se: "(s, e) \<in> E"
  shows "roots_in V (E - {(s, e)}) d =
    (if (e, d) \<in> E\<^sup>*
     then roots_in V E d - roots_in V E s \<union> (if other_parent E s e then {} else {e})
     else roots_in V E d)"
proof -
  have eV: "e \<in> V" using sub se by blast
  have nback: "(e, s) \<notin> E\<^sup>*" using acyclic_no_return [OF multitree_acyclic [OF m] se] .
  have esrc: "e \<notin> sources V E" using se by (auto simp: sources_def)
  show ?thesis
    unfolding roots_in_def sources_remove [OF eV] remove_edge_reach [OF m se]
    using nback esrc by auto
qed

text \<open>Removing a node without outgoing edges and all edges into it.\<close>

lemma no_out_reach:
  assumes "\<And>y. (n, y) \<notin> E" and "d \<noteq> n"
  shows "(r, d) \<in> {(a, b) \<in> E. b \<noteq> n}\<^sup>* \<longleftrightarrow> (r, d) \<in> E\<^sup>*"
proof
  show "(r, d) \<in> {(a, b) \<in> E. b \<noteq> n}\<^sup>* \<Longrightarrow> (r, d) \<in> E\<^sup>*"
    by (rule rtrancl_mono [THEN subsetD, rotated]) auto
next
  assume "(r, d) \<in> E\<^sup>*"
  then show "(r, d) \<in> {(a, b) \<in> E. b \<noteq> n}\<^sup>*"
  proof (induction rule: converse_rtrancl_induct)
    case (step x y)
    have "y \<noteq> n"
    proof
      assume "y = n"
      with step(2) assms show False by (metis converse_rtranclE)
    qed
    with step show ?case by (auto intro: converse_rtrancl_into_rtrancl)
  qed simp
qed

lemma sources_remove_node:
  assumes "\<And>y. (n, y) \<notin> E"
  shows "sources (V - {n}) {(a, b) \<in> E. b \<noteq> n} = sources V E - {n}"
  by (auto simp: sources_def)

lemma roots_in_remove_node:
  assumes "\<And>y. (n, y) \<notin> E" and "d \<noteq> n"
  shows "roots_in (V - {n}) {(a, b) \<in> E. b \<noteq> n} d = roots_in V E d"
proof -
  have "(n, d) \<notin> E\<^sup>*" using assms by (metis converse_rtranclE)
  with assms show ?thesis
    unfolding roots_in_def sources_remove_node [OF assms(1)] no_out_reach [OF assms]
    by auto
qed

end
