(* ===== verification/Multi_Tree.thy ===== *)
theory Multi_Tree
  imports Prelude Graph_Spec
begin

text \<open>
  The digi-graph of the mount webhook, \<open>space/mount/webhook/graph/multitree.go\<close>. Nodes are heap
  objects: \<open>mt.nodes\<close> and the children of a node hold pointers to them, and the code updates
  them in place. The heap is explicit, a pointer is an address. The recursions over
  children carry a fuel, one more than the number of allocated nodes: deeper recursion means a
  cycle of pointers, on which the code would not return (\<open>Diverge\<close>).
\<close>

type_synonym addr = nat

record child =
  c_node :: addr
  c_status :: string

record node =
  nd_value :: string
  nd_children :: "(string, child) gomap"
  nd_roots :: "string list"
    \<comment> \<open>\<open>stringSet\<close>: the keys of a \<open>map[string]struct{}\<close>\<close>

type_synonym heap = "addr \<Rightarrow> node option"

record multi_tree =
  mt_heap :: heap
  mt_next :: addr
    \<comment> \<open>the next address to allocate\<close>
  mt_nodes :: "(string, addr) gomap"
  mt_trees :: "(string, addr) gomap"
    \<comment> \<open>a \<open>*tree\<close> is the pointer to its root\<close>

datatype mt_error =
    StartMissing string
  | EndMissing string
  | SharedRoot string string
  | EdgeMissing string string
  | NodeMissing string

text \<open>The text of an error, as \<open>%v\<close> prints it.\<close>

fun mt_error_text :: "mt_error \<Rightarrow> string" where
  "mt_error_text (StartMissing s) = ''start node '' @ s @ '' does not exist''"
| "mt_error_text (EndMissing s) = ''end node '' @ s @ '' does not exist''"
| "mt_error_text (SharedRoot n r) = ''found node '' @ n @ '' share root '' @ r"
| "mt_error_text (EdgeMissing s e) = ''edge does not exist: '' @ s @ ''-'' @ e"
| "mt_error_text (NodeMissing s) = s @ '' does not exist''"

abbreviation nil_deref :: "'a outcome" where
  "nil_deref \<equiv> Panic ''nil pointer dereference''"

section \<open>Lookups\<close>

definition NewMultiTree :: multi_tree where
  "NewMultiTree = \<lparr>mt_heap = (\<lambda>_. None), mt_next = 0, mt_nodes = [], mt_trees = []\<rparr>"

definition NodeExists :: "multi_tree \<Rightarrow> string \<Rightarrow> bool" where
  "NodeExists mt name \<longleftrightarrow> map_of (mt_nodes mt) name \<noteq> None"

definition EdgeExists :: "multi_tree \<Rightarrow> string \<Rightarrow> string \<Rightarrow> bool outcome" where
  "EdgeExists mt s e =
     (case map_of (mt_nodes mt) s of
        None \<Rightarrow> Val False
      | Some sa \<Rightarrow>
          (case mt_heap mt sa of
             None \<Rightarrow> nil_deref
           | Some sn \<Rightarrow> Val (map_of (nd_children sn) e \<noteq> None)))"

text \<open>\<open>slice\<close>: the members of a set as a slice, in the order of the range loop.\<close>

definition slice :: "order \<Rightarrow> string list \<Rightarrow> string list" where
  "slice ord ss = ord ss"

definition intersect :: "order \<Rightarrow> string list \<Rightarrow> string list \<Rightarrow> string" where
  "intersect ord rs1 rs2 =
     (case filter (\<lambda>k. k \<in> set rs2) (ord rs1) of [] \<Rightarrow> [] | k # _ \<Rightarrow> k)"

text \<open>The children of a node in the order of the range loop.\<close>

definition range_children :: "order \<Rightarrow> node \<Rightarrow> addr list" where
  "range_children ord n =
     map (\<lambda>k. c_node (the (map_of (nd_children n) k))) (ord (keys_of (nd_children n)))"

section \<open>The recursions over descendants\<close>

fun deepCompareRoots ::
    "order \<Rightarrow> heap \<Rightarrow> string list \<Rightarrow> nat \<Rightarrow> addr \<Rightarrow> mt_error option outcome"
and deepCompareChildren ::
    "order \<Rightarrow> heap \<Rightarrow> string list \<Rightarrow> nat \<Rightarrow> addr list \<Rightarrow> mt_error option outcome" where
  "deepCompareRoots ord h roots 0 a = Diverge"
| "deepCompareRoots ord h roots (Suc fuel) a =
     (case h a of
        None \<Rightarrow> nil_deref
      | Some n \<Rightarrow>
          let r = intersect ord (nd_roots n) roots in
          if r \<noteq> [] then Val (Some (SharedRoot (nd_value n) r))
          else deepCompareChildren ord h roots fuel (range_children ord n))"
| "deepCompareChildren ord h roots fuel [] = Val None"
| "deepCompareChildren ord h roots fuel (c # cs) =
     (case deepCompareRoots ord h roots fuel c of
        Val None \<Rightarrow> deepCompareChildren ord h roots fuel cs
      | res \<Rightarrow> res)"

text \<open>\<open>delete(n.roots, r)\<close> and \<open>n.roots[r] = struct{}{}\<close> for each of a list.\<close>

definition roots_del :: "string list \<Rightarrow> string list \<Rightarrow> string list" where
  "roots_del ds rs = fold removeAll ds rs"

definition roots_add :: "string list \<Rightarrow> string list \<Rightarrow> string list" where
  "roots_add as rs = fold List.insert as rs"

fun deepUpdateRoots ::
    "order \<Rightarrow> string list \<Rightarrow> string list \<Rightarrow> nat \<Rightarrow> addr \<Rightarrow> heap \<Rightarrow> heap outcome"
and deepUpdateChildren ::
    "order \<Rightarrow> string list \<Rightarrow> string list \<Rightarrow> nat \<Rightarrow> addr list \<Rightarrow> heap \<Rightarrow> heap outcome" where
  "deepUpdateRoots ord rootsToDel rootsToAdd 0 a h = Diverge"
| "deepUpdateRoots ord rootsToDel rootsToAdd (Suc fuel) a h =
     (case h a of
        None \<Rightarrow> nil_deref
      | Some n \<Rightarrow>
          let n' = n\<lparr>nd_roots := roots_add rootsToAdd (roots_del rootsToDel (nd_roots n))\<rparr>
          in deepUpdateChildren ord rootsToDel rootsToAdd fuel (range_children ord n') (h(a := Some n')))"
| "deepUpdateChildren ord rootsToDel rootsToAdd fuel [] h = Val h"
| "deepUpdateChildren ord rootsToDel rootsToAdd fuel (c # cs) h =
     obind (deepUpdateRoots ord rootsToDel rootsToAdd fuel c h)
       (deepUpdateChildren ord rootsToDel rootsToAdd fuel cs)"

section \<open>Operations\<close>

definition AddNode :: "multi_tree \<Rightarrow> string \<Rightarrow> multi_tree" where
  "AddNode mt n =
     (if map_of (mt_nodes mt) n \<noteq> None then mt
      else let nn = \<lparr>nd_value = n, nd_children = [], nd_roots = [n]\<rparr>; a = mt_next mt in
        mt\<lparr>mt_heap := (mt_heap mt)(a := Some nn), mt_next := Suc a,
           mt_nodes := AList.update n a (mt_nodes mt),
           mt_trees := AList.update n a (mt_trees mt)\<rparr>)"

text \<open>Each operation gives the graph after it and the error it returns.\<close>

definition AddEdge ::
  "order \<Rightarrow> multi_tree \<Rightarrow> string \<Rightarrow> string \<Rightarrow> (multi_tree \<times> mt_error option) outcome" where
  "AddEdge ord mt s e =
     (case map_of (mt_nodes mt) s of
        None \<Rightarrow> Val (mt, Some (StartMissing s))
      | Some sa \<Rightarrow>
     (case map_of (mt_nodes mt) e of
        None \<Rightarrow> Val (mt, Some (EndMissing e))
      | Some ea \<Rightarrow>
     (case mt_heap mt sa of
        None \<Rightarrow> nil_deref
      | Some sn \<Rightarrow>
          if map_of (nd_children sn) e \<noteq> None then Val (mt, None)
          else
            obind (deepCompareRoots ord (mt_heap mt) (nd_roots sn) (Suc (mt_next mt)) ea) (\<lambda>res.
              case res of
                Some err \<Rightarrow> Val (mt, Some err)
              | None \<Rightarrow>
                  let sn' = sn\<lparr>nd_children :=
                        AList.update e \<lparr>c_node = ea, c_status = []\<rparr> (nd_children sn)\<rparr>;
                      h = (mt_heap mt)(sa := Some sn');
                      mt' = mt\<lparr>mt_trees := AList.delete e (mt_trees mt)\<rparr>
                  in obind (deepUpdateRoots ord [e] (slice ord (nd_roots sn')) (Suc (mt_next mt)) ea h)
                       (\<lambda>h'. Val (mt'\<lparr>mt_heap := h'\<rparr>, None))))))"

definition RemoveEdge ::
  "order \<Rightarrow> multi_tree \<Rightarrow> string \<Rightarrow> string \<Rightarrow> (multi_tree \<times> mt_error option) outcome" where
  "RemoveEdge ord mt s e =
     (case map_of (mt_nodes mt) s of
        None \<Rightarrow> Val (mt, Some (StartMissing s))
      | Some sa \<Rightarrow>
     (case map_of (mt_nodes mt) e of
        None \<Rightarrow> Val (mt, Some (EndMissing e))
      | Some ea \<Rightarrow>
     (case mt_heap mt sa of
        None \<Rightarrow> nil_deref
      | Some sn \<Rightarrow>
          if map_of (nd_children sn) e = None then Val (mt, Some (EdgeMissing s e))
          else
            let h1 = (mt_heap mt)(sa := Some (sn\<lparr>nd_children := AList.delete e (nd_children sn)\<rparr>))
            in (case h1 ea of
                  None \<Rightarrow> nil_deref
                | Some en \<Rightarrow>
                    let en' = en\<lparr>nd_roots := roots_del (ord (nd_roots sn)) (nd_roots en)\<rparr>;
                        h2 = h1(ea := Some en');
                        (trees, newRoots) =
                          (if nd_roots en' = [] then (AList.update e ea (mt_trees mt), [e])
                           else (mt_trees mt, []))
                    in (case h2 sa of
                          None \<Rightarrow> nil_deref
                        | Some sn2 \<Rightarrow>
                            obind (deepUpdateRoots ord (slice ord (nd_roots sn2)) newRoots
                                (Suc (mt_next mt)) ea h2)
                              (\<lambda>h'. Val (mt\<lparr>mt_heap := h', mt_trees := trees\<rparr>, None)))))))"

text \<open>
  The loop of \<open>RemoveNode\<close> over the children of the node at \<open>na\<close>: the keys in range order, where
  an entry deleted before it is reached is skipped.
\<close>

fun removeOutEdges ::
  "order \<Rightarrow> addr \<Rightarrow> string list \<Rightarrow> multi_tree \<Rightarrow> (multi_tree \<times> mt_error option) outcome" where
  "removeOutEdges ord na [] mt = Val (mt, None)"
| "removeOutEdges ord na (k # ks) mt =
     (case mt_heap mt na of
        None \<Rightarrow> nil_deref
      | Some n \<Rightarrow>
     (case map_of (nd_children n) k of
        None \<Rightarrow> removeOutEdges ord na ks mt
      | Some c \<Rightarrow>
     (case mt_heap mt (c_node c) of
        None \<Rightarrow> nil_deref
      | Some cn \<Rightarrow>
          obind (RemoveEdge ord mt (nd_value n) (nd_value cn)) (\<lambda>(mt', res).
            case res of
              Some err \<Rightarrow> Val (mt', Some err)
            | None \<Rightarrow> removeOutEdges ord na ks mt'))))"

text \<open>\<open>for _, n := range mt.nodes { delete(n.children, name) }\<close>.\<close>

fun removeInEdges :: "string \<Rightarrow> addr list \<Rightarrow> heap \<Rightarrow> heap outcome" where
  "removeInEdges name [] h = Val h"
| "removeInEdges name (a # as) h =
     (case h a of
        None \<Rightarrow> nil_deref
      | Some n \<Rightarrow>
          removeInEdges name as
            (h(a := Some (n\<lparr>nd_children := AList.delete name (nd_children n)\<rparr>))))"

definition RemoveNode ::
  "order \<Rightarrow> multi_tree \<Rightarrow> string \<Rightarrow> (multi_tree \<times> mt_error option) outcome" where
  "RemoveNode ord mt name =
     (case map_of (mt_nodes mt) name of
        None \<Rightarrow> Val (mt, Some (NodeMissing name))
      | Some na \<Rightarrow>
     (case mt_heap mt na of
        None \<Rightarrow> nil_deref
      | Some n \<Rightarrow>
          obind (removeOutEdges ord na (ord (keys_of (nd_children n))) mt) (\<lambda>(mt1, res).
            case res of
              Some err \<Rightarrow> Val (mt1, Some err)
            | None \<Rightarrow>
                obind (removeInEdges name
                    (map (\<lambda>v. the (map_of (mt_nodes mt1) v)) (ord (keys_of (mt_nodes mt1))))
                    (mt_heap mt1)) (\<lambda>h.
                  Val (mt1\<lparr>mt_heap := h, mt_nodes := AList.delete name (mt_nodes mt1),
                           mt_trees := AList.delete name (mt_trees mt1)\<rparr>, None)))))"

section \<open>Sequences of operations\<close>

datatype mt_op =
    OpAddNode string
  | OpAddEdge string string
  | OpRemoveEdge string string
  | OpRemoveNode string

fun mt_step :: "order \<Rightarrow> multi_tree \<Rightarrow> mt_op \<Rightarrow> (multi_tree \<times> mt_error option) outcome" where
  "mt_step ord mt (OpAddNode n) = Val (AddNode mt n, None)"
| "mt_step ord mt (OpAddEdge s e) = AddEdge ord mt s e"
| "mt_step ord mt (OpRemoveEdge s e) = RemoveEdge ord mt s e"
| "mt_step ord mt (OpRemoveNode n) = RemoveNode ord mt n"

text \<open>A caller that goes on after errors, as the webhook does from one request to the next.\<close>

fun mt_run :: "order \<Rightarrow> mt_op list \<Rightarrow> multi_tree \<Rightarrow> multi_tree outcome" where
  "mt_run ord [] mt = Val mt"
| "mt_run ord (op # ops) mt = obind (mt_step ord mt op) (\<lambda>(mt', res). mt_run ord ops mt')"

end
