(* ===== verification/Multi_Tree_Heap.thy ===== *)
theory Multi_Tree_Heap
  imports Multi_Tree
begin

text \<open>
  The heap of the digi-graph read as an abstract graph over names: its edges, the roots stored at
  a node, and what the recursions over descendants compute and change in those terms.
\<close>

section \<open>Reading the heap\<close>

definition edges_of :: "(string, addr) gomap \<Rightarrow> heap \<Rightarrow> (string \<times> string) set" where
  "edges_of nds h = {(v, w). \<exists>a n c. map_of nds v = Some a \<and> h a = Some n \<and>
     map_of (nd_children n) w = Some c}"

definition node_roots :: "(string, addr) gomap \<Rightarrow> heap \<Rightarrow> string \<Rightarrow> string set" where
  "node_roots nds h v =
     (case map_of nds v of None \<Rightarrow> {}
      | Some a \<Rightarrow> (case h a of None \<Rightarrow> {} | Some n \<Rightarrow> set (nd_roots n)))"

text \<open>
  Pointers and names agree: a node is stored under its own name, and a child is stored under the
  name of the node it points to.
\<close>

definition heap_ok :: "(string, addr) gomap \<Rightarrow> heap \<Rightarrow> bool" where
  "heap_ok nds h \<longleftrightarrow>
     (\<forall>v a. map_of nds v = Some a \<longrightarrow>
       (\<exists>n. h a = Some n \<and> nd_value n = v \<and>
         (\<forall>w c. map_of (nd_children n) w = Some c \<longrightarrow> map_of nds w = Some (c_node c))))"

lemma heap_okE:
  assumes "heap_ok nds h" and "map_of nds v = Some a"
  obtains n where "h a = Some n" and "nd_value n = v"
    and "\<And>w c. map_of (nd_children n) w = Some c \<Longrightarrow> map_of nds w = Some (c_node c)"
  using assms unfolding heap_ok_def by blast

lemma heap_ok_inj:
  "heap_ok nds h \<Longrightarrow> map_of nds v = Some a \<Longrightarrow> map_of nds w = Some a \<Longrightarrow> v = w"
  by (metis heap_okE option.inject)

lemma edges_of_iff:
  assumes "heap_ok nds h" and "map_of nds v = Some a" and "h a = Some n"
  shows "(v, w) \<in> edges_of nds h \<longleftrightarrow> map_of (nd_children n) w \<noteq> None"
  using assms by (auto simp: edges_of_def)

lemma edges_of_nodes: "heap_ok nds h \<Longrightarrow> edges_of nds h \<subseteq> dom (map_of nds) \<times> dom (map_of nds)"
  by (fastforce simp: edges_of_def heap_ok_def)

lemma finite_edges_of: "heap_ok nds h \<Longrightarrow> finite (edges_of nds h)"
  by (rule finite_subset [OF edges_of_nodes]) (simp_all add: finite_dom_map_of)

lemma set_range_children:
  assumes "range_order ord" and "heap_ok nds h" and "map_of nds v = Some a" and "h a = Some n"
  shows "set (range_children ord n) = {b. \<exists>w. (v, w) \<in> edges_of nds h \<and> map_of nds w = Some b}"
proof -
  have ch: "map_of nds w = Some (c_node c)" if "map_of (nd_children n) w = Some c" for w c
    using assms(2-4) that by (metis heap_okE option.inject)
  have "set (range_children ord n) =
      (\<lambda>k. c_node (the (map_of (nd_children n) k))) ` dom (map_of (nd_children n))"
    by (simp only: range_children_def list.set_map range_order_set [OF assms(1)] dom_map_of_conv_image_fst image_image o_def)
  also have "\<dots> = {b. \<exists>w. (v, w) \<in> edges_of nds h \<and> map_of nds w = Some b}"
  proof (intro equalityI subsetI)
    fix b assume "b \<in> (\<lambda>k. c_node (the (map_of (nd_children n) k))) ` dom (map_of (nd_children n))"
    then obtain k c where k: "map_of (nd_children n) k = Some c" "b = c_node c" by auto
    then have "(v, k) \<in> edges_of nds h" using edges_of_iff [OF assms(2-4)] by simp
    with ch [OF k(1)] k(2) show "b \<in> {b. \<exists>w. (v, w) \<in> edges_of nds h \<and> map_of nds w = Some b}" by blast
  next
    fix b assume "b \<in> {b. \<exists>w. (v, w) \<in> edges_of nds h \<and> map_of nds w = Some b}"
    then obtain w c where w: "map_of (nd_children n) w = Some c" "map_of nds w = Some b"
      using edges_of_iff [OF assms(2-4)] by blast
    with ch have "b = c_node (the (map_of (nd_children n) w))" by simp
    with w(1) show "b \<in> (\<lambda>k. c_node (the (map_of (nd_children n) k))) ` dom (map_of (nd_children n))"
      by blast
  qed
  finally show ?thesis .
qed

lemma range_children_roots: "range_children ord (n\<lparr>nd_roots := rs\<rparr>) = range_children ord n"
  by (simp add: range_children_def)

lemma reach_cases: "(v, d) \<in> E\<^sup>* \<longleftrightarrow> d = v \<or> (\<exists>w. (v, w) \<in> E \<and> (w, d) \<in> E\<^sup>*)"
  by (metis converse_rtranclE converse_rtrancl_into_rtrancl rtrancl.rtrancl_refl)

text \<open>What a node reaches, it reaches through the children the recursions go on with.\<close>

lemma reach_by_children:
  assumes ord: "range_order ord" and ok: "heap_ok nds h" and v: "map_of nds v = Some a" and n: "h a = Some n"
  shows "(v, d) \<in> (edges_of nds h)\<^sup>* \<longleftrightarrow> d = v \<or>
    (\<exists>c \<in> set (range_children ord n). \<exists>w. map_of nds w = Some c \<and> (w, d) \<in> (edges_of nds h)\<^sup>*)"
proof -
  have kids: "c \<in> set (range_children ord n) \<longleftrightarrow> (v, w) \<in> edges_of nds h" if "map_of nds w = Some c" for c w
    using set_range_children [OF ord ok v n] heap_ok_inj [OF ok that] that by blast
  have "\<exists>c. map_of nds w = Some c" if "(v, w) \<in> edges_of nds h" for w
    using edges_of_nodes [OF ok] that by blast
  with kids show ?thesis unfolding reach_cases [of v d] by blast
qed

section \<open>Fuel\<close>

text \<open>The number of proper descendants shrinks from a node to its child in an acyclic graph.\<close>

lemma card_descendants:
  assumes "finite E" and "acyclic E" and "(v, w) \<in> E"
  shows "card (E\<^sup>+ `` {w}) < card (E\<^sup>+ `` {v})"
proof (rule psubset_card_mono)
  have fin: "finite (E\<^sup>+)" by (rule finite_trancl [THEN iffD2, OF assms(1)])
  show "finite (E\<^sup>+ `` {v})" using fin by (rule finite_Image)
  have "(w, w) \<notin> E\<^sup>+" using assms(2) by (simp add: acyclic_def)
  moreover have "E\<^sup>+ `` {w} \<subseteq> E\<^sup>+ `` {v}" using assms(3) by (auto intro: trancl_into_trancl2)
  moreover have "w \<in> E\<^sup>+ `` {v}" using assms(3) by auto
  ultimately show "E\<^sup>+ `` {w} \<subset> E\<^sup>+ `` {v}" by blast
qed

lemma card_nodes:
  assumes "heap_ok nds h" and "\<And>a. h a \<noteq> None \<Longrightarrow> a < k"
  shows "card (dom (map_of nds)) \<le> k"
proof -
  let ?f = "\<lambda>v. the (map_of nds v)"
  have "inj_on ?f (dom (map_of nds))"
    using heap_ok_inj [OF assms(1)] by (auto simp: inj_on_def)
  moreover have "?f ` dom (map_of nds) \<subseteq> {..<k}"
    using assms by (auto elim!: heap_okE)
  ultimately show ?thesis
    using card_inj_on_le [of ?f "dom (map_of nds)" "{..<k}"] by simp
qed

lemma enough_fuel:
  assumes "heap_ok nds h" and "\<And>a. h a \<noteq> None \<Longrightarrow> a < k"
  shows "card ((edges_of nds h)\<^sup>+ `` {v}) < Suc k"
proof -
  have "(edges_of nds h)\<^sup>+ \<subseteq> dom (map_of nds) \<times> dom (map_of nds)"
    by (rule trancl_subset_Sigma [OF edges_of_nodes [OF assms(1)]])
  then have "(edges_of nds h)\<^sup>+ `` {v} \<subseteq> dom (map_of nds)" by auto
  then have "card ((edges_of nds h)\<^sup>+ `` {v}) \<le> card (dom (map_of nds))"
    by (rule card_mono [rotated]) (simp add: finite_dom_map_of)
  with card_nodes [OF assms] show ?thesis by simp
qed

section \<open>The comparison\<close>

lemma intersect_empty_iff:
  assumes "range_order ord" and "[] \<notin> set rs2"
  shows "intersect ord rs1 rs2 = [] \<longleftrightarrow> set rs1 \<inter> set rs2 = {}"
proof -
  have s: "set (filter (\<lambda>k. k \<in> set rs2) (ord rs1)) = set rs1 \<inter> set rs2"
    by (auto simp: range_order_set [OF assms(1)])
  show ?thesis
  proof (cases "filter (\<lambda>k. k \<in> set rs2) (ord rs1)")
    case Nil
    with s show ?thesis by (simp add: intersect_def)
  next
    case (Cons k ks)
    with s have "k \<in> set rs1 \<inter> set rs2" by auto
    with Cons assms(2) show ?thesis by (auto simp: intersect_def)
  qed
qed

lemma intersect_mem:
  assumes "range_order ord" and "intersect ord rs1 rs2 \<noteq> []"
  shows "intersect ord rs1 rs2 \<in> set rs1 \<inter> set rs2"
proof -
  have s: "set (filter (\<lambda>k. k \<in> set rs2) (ord rs1)) = set rs1 \<inter> set rs2"
    by (auto simp: range_order_set [OF assms(1)])
  obtain k ks where k: "filter (\<lambda>k. k \<in> set rs2) (ord rs1) = k # ks"
    using assms(2) by (auto simp: intersect_def split: list.splits)
  with s have "k \<in> set rs1 \<inter> set rs2" by (metis list.set_intros(1))
  with k show ?thesis by (simp add: intersect_def)
qed

lemma deepCompareChildren_spec:
  assumes "\<And>c. c \<in> set cs \<Longrightarrow> \<exists>res. deepCompareRoots ord h rs fuel c = Val res \<and>
    (res = None \<longleftrightarrow> P c) \<and> (\<forall>err. res = Some err \<longrightarrow> Q c err)"
  shows "\<exists>res. deepCompareChildren ord h rs fuel cs = Val res \<and>
    (res = None \<longleftrightarrow> (\<forall>c \<in> set cs. P c)) \<and> (\<forall>err. res = Some err \<longrightarrow> (\<exists>c \<in> set cs. Q c err))"
  using assms
proof (induction cs)
  case (Cons c cs)
  obtain res where res: "deepCompareRoots ord h rs fuel c = Val res" "res = None \<longleftrightarrow> P c"
    "\<forall>err. res = Some err \<longrightarrow> Q c err"
    using Cons.prems [OF list.set_intros(1)] by blast
  have "\<exists>res. deepCompareChildren ord h rs fuel cs = Val res \<and>
    (res = None \<longleftrightarrow> (\<forall>c \<in> set cs. P c)) \<and> (\<forall>err. res = Some err \<longrightarrow> (\<exists>c \<in> set cs. Q c err))"
    by (rule Cons.IH) (rule Cons.prems, simp)
  then obtain rest where rest: "deepCompareChildren ord h rs fuel cs = Val rest"
    "rest = None \<longleftrightarrow> (\<forall>c \<in> set cs. P c)" "\<forall>err. rest = Some err \<longrightarrow> (\<exists>c \<in> set cs. Q c err)"
    by (elim exE conjE)
  show ?case
  proof (cases res)
    case None
    with res rest show ?thesis by (intro exI [of _ rest]) auto
  next
    case (Some err)
    with res show ?thesis by (intro exI [of _ res]) auto
  qed
qed simp

text \<open>What the comparison of the roots \<open>rs\<close> with those of a node and its descendants returns.\<close>

definition compared :: "(string, addr) gomap \<Rightarrow> heap \<Rightarrow> string list \<Rightarrow> string \<Rightarrow> mt_error option \<Rightarrow> bool" where
  "compared nds h rs v res \<longleftrightarrow>
     (res = None \<longleftrightarrow> (\<forall>d. (v, d) \<in> (edges_of nds h)\<^sup>* \<longrightarrow> node_roots nds h d \<inter> set rs = {})) \<and>
     (\<forall>err. res = Some err \<longrightarrow> (\<exists>d r. err = SharedRoot d r \<and> (v, d) \<in> (edges_of nds h)\<^sup>* \<and>
        r \<in> node_roots nds h d \<inter> set rs))"

lemma compared_children:
  assumes ord: "range_order ord" and ok: "heap_ok nds h" and v: "map_of nds v = Some a" and n: "h a = Some n"
    and none: "node_roots nds h v \<inter> set rs = {}"
    and kids: "\<And>c. c \<in> set (range_children ord n) \<Longrightarrow>
      \<exists>w res. map_of nds w = Some c \<and> deepCompareRoots ord h rs fuel c = Val res \<and> compared nds h rs w res"
  shows "\<exists>res. deepCompareChildren ord h rs fuel (range_children ord n) = Val res \<and> compared nds h rs v res"
proof -
  let ?E = "edges_of nds h"
  let ?P = "\<lambda>c. \<forall>w d. map_of nds w = Some c \<longrightarrow> (w, d) \<in> ?E\<^sup>* \<longrightarrow> node_roots nds h d \<inter> set rs = {}"
  let ?Q = "\<lambda>c err. \<exists>w d r. map_of nds w = Some c \<and> err = SharedRoot d r \<and> (w, d) \<in> ?E\<^sup>* \<and>
    r \<in> node_roots nds h d \<inter> set rs"
  have "\<exists>res. deepCompareRoots ord h rs fuel c = Val res \<and> (res = None \<longleftrightarrow> ?P c) \<and>
      (\<forall>err. res = Some err \<longrightarrow> ?Q c err)" if c: "c \<in> set (range_children ord n)" for c
  proof -
    from kids [OF c] obtain w res where w: "map_of nds w = Some c"
      and res: "deepCompareRoots ord h rs fuel c = Val res" "compared nds h rs w res" by blast
    have "x = w" if "map_of nds x = Some c" for x using heap_ok_inj [OF ok that w] .
    with w res show ?thesis unfolding compared_def by (intro exI [of _ res]) blast
  qed
  from deepCompareChildren_spec [OF this]
  obtain res where res: "deepCompareChildren ord h rs fuel (range_children ord n) = Val res"
    "res = None \<longleftrightarrow> (\<forall>c \<in> set (range_children ord n). ?P c)"
    "\<forall>err. res = Some err \<longrightarrow> (\<exists>c \<in> set (range_children ord n). ?Q c err)" by blast
  note reach = reach_by_children [OF ord ok v n]
  have "(\<forall>c \<in> set (range_children ord n). ?P c) \<longleftrightarrow> (\<forall>d. (v, d) \<in> ?E\<^sup>* \<longrightarrow> node_roots nds h d \<inter> set rs = {})"
    unfolding reach using none by blast
  moreover have "\<exists>d r. err = SharedRoot d r \<and> (v, d) \<in> ?E\<^sup>* \<and> r \<in> node_roots nds h d \<inter> set rs"
    if "res = Some err" for err using res(3) that unfolding reach by blast
  ultimately show ?thesis using res(1,2) unfolding compared_def by blast
qed

lemma deepCompareRoots_compared:
  assumes ord: "range_order ord" and ok: "heap_ok nds h" and ac: "acyclic (edges_of nds h)"
    and ne: "[] \<notin> set rs"
  shows "map_of nds v = Some a \<Longrightarrow> card ((edges_of nds h)\<^sup>+ `` {v}) < fuel \<Longrightarrow>
    \<exists>res. deepCompareRoots ord h rs fuel a = Val res \<and> compared nds h rs v res"
proof (induction fuel arbitrary: v a)
  case (Suc fuel)
  obtain n where n: "h a = Some n" "nd_value n = v" using heap_okE [OF ok Suc.prems(1)] by metis
  have nr: "node_roots nds h v = set (nd_roots n)" using n Suc.prems(1) by (simp add: node_roots_def)
  show ?case
  proof (cases "intersect ord (nd_roots n) rs = []")
    case False
    with intersect_mem [OF ord False] n nr show ?thesis by (auto simp: compared_def)
  next
    case True
    then have none: "node_roots nds h v \<inter> set rs = {}"
      using nr intersect_empty_iff [OF ord ne] by simp
    have "\<exists>w res. map_of nds w = Some c \<and> deepCompareRoots ord h rs fuel c = Val res \<and> compared nds h rs w res"
      if c: "c \<in> set (range_children ord n)" for c
    proof -
      from c set_range_children [OF ord ok Suc.prems(1) n(1)]
      obtain w where w: "(v, w) \<in> edges_of nds h" "map_of nds w = Some c" by blast
      have "card ((edges_of nds h)\<^sup>+ `` {w}) < fuel"
        using card_descendants [OF finite_edges_of [OF ok] ac w(1)] Suc.prems(2) by simp
      from Suc.IH [OF w(2) this] w(2) show ?thesis by blast
    qed
    from compared_children [OF ord ok Suc.prems(1) n(1) none this] n True show ?thesis by simp
  qed
qed simp

lemmas deepCompareRoots_spec = deepCompareRoots_compared [unfolded compared_def]

section \<open>The update\<close>

text \<open>
  \<open>upd_rel D A R h h'\<close>: from \<open>h\<close> to \<open>h'\<close> only roots change, and only at the addresses in \<open>R\<close>,
  where \<open>D\<close> is taken out of them and \<open>A\<close> is put in.
\<close>

definition upd_rel :: "string set \<Rightarrow> string set \<Rightarrow> addr set \<Rightarrow> heap \<Rightarrow> heap \<Rightarrow> bool" where
  "upd_rel D A R h h' \<longleftrightarrow>
     (\<forall>b. (h b = None \<longrightarrow> h' b = None) \<and>
       (\<forall>n. h b = Some n \<longrightarrow> (\<exists>rs. h' b = Some (n\<lparr>nd_roots := rs\<rparr>) \<and>
         set rs = (if b \<in> R then set (nd_roots n) - D \<union> A else set (nd_roots n)))))"

lemma upd_rel_Some:
  assumes "upd_rel D A R h h'" and "h b = Some n"
  obtains rs where "h' b = Some (n\<lparr>nd_roots := rs\<rparr>)"
    and "set rs = (if b \<in> R then set (nd_roots n) - D \<union> A else set (nd_roots n))"
  using assms unfolding upd_rel_def by blast

lemma upd_rel_refl: "upd_rel D A {} h h"
  unfolding upd_rel_def by (metis empty_iff node.surjective node.update_convs(3) old.unit.exhaust)

lemma upd_rel_trans:
  assumes 1: "upd_rel D A R h h1" and 2: "upd_rel D A S h1 h2"
  shows "upd_rel D A (R \<union> S) h h2"
  unfolding upd_rel_def
proof (intro allI conjI impI)
  fix b assume "h b = None"
  with 1 2 show "h2 b = None" by (auto simp: upd_rel_def)
next
  fix b n assume hb: "h b = Some n"
  from upd_rel_Some [OF 1 hb] obtain rs where rs: "h1 b = Some (n\<lparr>nd_roots := rs\<rparr>)"
    "set rs = (if b \<in> R then set (nd_roots n) - D \<union> A else set (nd_roots n))" by metis
  from upd_rel_Some [OF 2 rs(1)] obtain rs' where rs': "h2 b = Some (n\<lparr>nd_roots := rs'\<rparr>)"
    "set rs' = (if b \<in> S then set rs - D \<union> A else set rs)" by (metis node.select_convs(3) node.update_convs(3) node.surjective)
  from rs(2) rs'(2) have "set rs' = (if b \<in> R \<union> S then set (nd_roots n) - D \<union> A else set (nd_roots n))"
    by auto
  with rs'(1) show "\<exists>rs. h2 b = Some (n\<lparr>nd_roots := rs\<rparr>) \<and>
      set rs = (if b \<in> R \<union> S then set (nd_roots n) - D \<union> A else set (nd_roots n))" by blast
qed

lemma upd_rel_edges: "upd_rel D A R h h' \<Longrightarrow> edges_of nds h' = edges_of nds h"
proof -
  assume u: "upd_rel D A R h h'"
  have "(\<exists>n c. h' a = Some n \<and> map_of (nd_children n) w = Some c) \<longleftrightarrow>
      (\<exists>n c. h a = Some n \<and> map_of (nd_children n) w = Some c)" for a w
  proof (cases "h a")
    case None
    with u show ?thesis by (simp add: upd_rel_def)
  next
    case (Some n)
    from upd_rel_Some [OF u Some] obtain rs where "h' a = Some (n\<lparr>nd_roots := rs\<rparr>)" by metis
    with Some show ?thesis by simp
  qed
  then show ?thesis unfolding edges_of_def by blast
qed

lemma upd_rel_heap_ok:
  assumes "upd_rel D A R h h'" and "heap_ok nds h"
  shows "heap_ok nds h'"
  unfolding heap_ok_def
proof (intro allI impI)
  fix v a assume "map_of nds v = Some a"
  with assms(2) obtain n where n: "h a = Some n" "nd_value n = v"
    "\<And>w c. map_of (nd_children n) w = Some c \<Longrightarrow> map_of nds w = Some (c_node c)" by (metis heap_okE)
  from upd_rel_Some [OF assms(1) n(1)] obtain rs where "h' a = Some (n\<lparr>nd_roots := rs\<rparr>)" by metis
  with n show "\<exists>n. h' a = Some n \<and> nd_value n = v \<and>
      (\<forall>w c. map_of (nd_children n) w = Some c \<longrightarrow> map_of nds w = Some (c_node c))" by auto
qed

lemma upd_rel_node_roots:
  assumes "upd_rel D A R h h'" and "heap_ok nds h" and "map_of nds v = Some a"
  shows "node_roots nds h' v =
    (if a \<in> R then node_roots nds h v - D \<union> A else node_roots nds h v)"
proof -
  obtain n where n: "h a = Some n" using heap_okE [OF assms(2,3)] by metis
  from upd_rel_Some [OF assms(1) n] obtain rs where "h' a = Some (n\<lparr>nd_roots := rs\<rparr>)"
    "set rs = (if a \<in> R then set (nd_roots n) - D \<union> A else set (nd_roots n))" by metis
  with n assms(3) show ?thesis by (simp add: node_roots_def)
qed

lemma upd_rel_dom: "upd_rel D A R h h' \<Longrightarrow> h' b = None \<longleftrightarrow> h b = None"
  by (cases "h b") (auto simp: upd_rel_def, metis option.distinct(1))

text \<open>The addresses the recursion reaches from one address.\<close>

definition region :: "(string, addr) gomap \<Rightarrow> (string \<times> string) set \<Rightarrow> addr \<Rightarrow> addr set" where
  "region nds E a = {b. \<exists>w d. map_of nds w = Some a \<and> (w, d) \<in> E\<^sup>* \<and> map_of nds d = Some b}"

lemma set_roots_del: "set (roots_del ds rs) = set rs - set ds"
  unfolding roots_del_def by (induction ds arbitrary: rs) auto

lemma set_roots_add: "set (roots_add as rs) = set rs \<union> set as"
  unfolding roots_add_def by (induction as arbitrary: rs) auto

lemma deepUpdateChildren_spec:
  assumes "\<And>c h. c \<in> set cs \<Longrightarrow> heap_ok nds h \<Longrightarrow> edges_of nds h = E \<Longrightarrow>
    \<exists>h'. deepUpdateRoots ord ds as fuel c h = Val h' \<and> upd_rel (set ds) (set as) (region nds E c) h h'"
    and "heap_ok nds h" and "edges_of nds h = E"
  shows "\<exists>h'. deepUpdateChildren ord ds as fuel cs h = Val h' \<and>
    upd_rel (set ds) (set as) (\<Union>c \<in> set cs. region nds E c) h h'"
  using assms
proof (induction cs arbitrary: h)
  case Nil
  show ?case by (simp add: upd_rel_refl)
next
  case (Cons c cs)
  from Cons.prems(1) [of c h] Cons.prems(2,3) obtain h1
    where h1: "deepUpdateRoots ord ds as fuel c h = Val h1"
      "upd_rel (set ds) (set as) (region nds E c) h h1" by auto
  have "\<exists>h'. deepUpdateChildren ord ds as fuel cs h1 = Val h' \<and>
      upd_rel (set ds) (set as) (\<Union>c \<in> set cs. region nds E c) h1 h'"
  proof (rule Cons.IH)
    show "heap_ok nds h1" by (rule upd_rel_heap_ok [OF h1(2) Cons.prems(2)])
    show "edges_of nds h1 = E" using upd_rel_edges [OF h1(2)] Cons.prems(3) by simp
  qed (use Cons.prems(1) in auto)
  then obtain h2 where "deepUpdateChildren ord ds as fuel cs h1 = Val h2"
    "upd_rel (set ds) (set as) (\<Union>c \<in> set cs. region nds E c) h1 h2" by blast
  with h1 upd_rel_trans [OF h1(2)] show ?case by auto
qed

lemma region_by_children:
  assumes ord: "range_order ord" and ok: "heap_ok nds h" and v: "map_of nds v = Some a" and n: "h a = Some n"
  shows "{a} \<union> (\<Union>c \<in> set (range_children ord n). region nds (edges_of nds h) c) = region nds (edges_of nds h) a"
proof -
  have only: "map_of nds x = Some a \<longleftrightarrow> x = v" for x
    using heap_ok_inj [OF ok _ v, of x] v by (intro iffI) simp_all
  have "b \<in> region nds (edges_of nds h) a \<longleftrightarrow>
      b = a \<or> (\<exists>c \<in> set (range_children ord n). b \<in> region nds (edges_of nds h) c)" for b
  proof -
    have "b \<in> region nds (edges_of nds h) a \<longleftrightarrow> (\<exists>d. (v, d) \<in> (edges_of nds h)\<^sup>* \<and> map_of nds d = Some b)"
      by (simp add: region_def only)
    then show ?thesis unfolding reach_by_children [OF assms] region_def using v by auto
  qed
  then show ?thesis by blast
qed

lemma deepUpdateRoots_spec:
  assumes ord: "range_order ord" and ac: "acyclic E"
  shows "map_of nds v = Some a \<Longrightarrow> card (E\<^sup>+ `` {v}) < fuel \<Longrightarrow> heap_ok nds h \<Longrightarrow>
    edges_of nds h = E \<Longrightarrow>
    \<exists>h'. deepUpdateRoots ord ds as fuel a h = Val h' \<and> upd_rel (set ds) (set as) (region nds E a) h h'"
proof (induction fuel arbitrary: v a h)
  case (Suc fuel)
  obtain n where n: "h a = Some n" using heap_okE [OF Suc.prems(3,1)] by metis
  let ?n = "n\<lparr>nd_roots := roots_add as (roots_del ds (nd_roots n))\<rparr>"
  let ?h = "h(a := Some ?n)"
  have u1: "upd_rel (set ds) (set as) {a} h ?h"
    using n upd_rel_refl [of _ _ h]
    by (auto simp: upd_rel_def set_roots_del set_roots_add)
  have ok1: "heap_ok nds ?h" by (rule upd_rel_heap_ok [OF u1 Suc.prems(3)])
  have E1: "edges_of nds ?h = E" using upd_rel_edges [OF u1] Suc.prems(4) by simp
  have n1: "?h a = Some ?n" by simp
  have fin: "finite E" using finite_edges_of [OF Suc.prems(3)] Suc.prems(4) by simp
  have "\<exists>h'. deepUpdateRoots ord ds as fuel c h0 = Val h' \<and>
      upd_rel (set ds) (set as) (region nds E c) h0 h'"
    if c: "c \<in> set (range_children ord ?n)" "heap_ok nds h0" "edges_of nds h0 = E" for c h0
  proof -
    from c set_range_children [OF ord ok1 Suc.prems(1) n1] E1
    obtain w where w: "(v, w) \<in> E" "map_of nds w = Some c" by blast
    have "card (E\<^sup>+ `` {w}) < fuel"
      using card_descendants [OF fin ac w(1)] Suc.prems(2) by simp
    from Suc.IH [OF w(2) this c(2,3)] show ?thesis .
  qed
  from deepUpdateChildren_spec [OF this ok1 E1] obtain h'
    where h': "deepUpdateChildren ord ds as fuel (range_children ord ?n) ?h = Val h'"
      "upd_rel (set ds) (set as) (\<Union>c \<in> set (range_children ord ?n). region nds E c) ?h h'" by blast
  with upd_rel_trans [OF u1 h'(2)] n region_by_children [OF ord ok1 Suc.prems(1) n1, unfolded E1]
  show ?case by simp
qed simp

declare deepCompareRoots.simps [simp del] deepUpdateRoots.simps [simp del]

end
