(* ===== verification/Multi_Tree_Correct.thy ===== *)
theory Multi_Tree_Correct
  imports Multi_Tree_Heap
begin

text \<open>
  The invariant of the digi-graph and that every operation keeps it: the graph is a multi-tree,
  the roots stored at a node are the sources that reach it, and \<open>mt.trees\<close> holds exactly the
  sources. Each operation is then read on the abstract graph: names and edges.
\<close>

section \<open>The invariant\<close>

definition mt_edges :: "multi_tree \<Rightarrow> (string \<times> string) set" where
  "mt_edges mt = edges_of (mt_nodes mt) (mt_heap mt)"

definition mt_names :: "multi_tree \<Rightarrow> string set" where
  "mt_names mt = dom (map_of (mt_nodes mt))"

definition mt_roots :: "multi_tree \<Rightarrow> string \<Rightarrow> string set" where
  "mt_roots mt v = node_roots (mt_nodes mt) (mt_heap mt) v"

definition roots_ok :: "(string, addr) gomap \<Rightarrow> heap \<Rightarrow> (string \<times> string) set \<Rightarrow> bool" where
  "roots_ok nds h E \<longleftrightarrow>
     (\<forall>v \<in> dom (map_of nds). node_roots nds h v = roots_in (dom (map_of nds)) E v)"

definition trees_ok :: "(string, addr) gomap \<Rightarrow> (string, addr) gomap \<Rightarrow> (string \<times> string) set \<Rightarrow> bool" where
  "trees_ok nds ts E \<longleftrightarrow>
     (\<forall>v. map_of ts v = (if v \<in> sources (dom (map_of nds)) E then map_of nds v else None))"

definition mt_inv :: "multi_tree \<Rightarrow> bool" where
  "mt_inv mt \<longleftrightarrow>
     heap_ok (mt_nodes mt) (mt_heap mt) \<and>
     (\<forall>a. mt_heap mt a \<noteq> None \<longrightarrow> a < mt_next mt) \<and>
     [] \<notin> mt_names mt \<and>
     multitree (mt_edges mt) \<and>
     roots_ok (mt_nodes mt) (mt_heap mt) (mt_edges mt) \<and>
     trees_ok (mt_nodes mt) (mt_trees mt) (mt_edges mt)"

lemma mt_invD:
  assumes "mt_inv mt"
  shows "heap_ok (mt_nodes mt) (mt_heap mt)"
    and "\<And>a. mt_heap mt a \<noteq> None \<Longrightarrow> a < mt_next mt"
    and "[] \<notin> mt_names mt" and "multitree (mt_edges mt)"
    and "roots_ok (mt_nodes mt) (mt_heap mt) (mt_edges mt)"
    and "trees_ok (mt_nodes mt) (mt_trees mt) (mt_edges mt)"
    and "finite (mt_edges mt)" and "mt_edges mt \<subseteq> mt_names mt \<times> mt_names mt"
    and "acyclic (mt_edges mt)"
  using assms finite_edges_of [of "mt_nodes mt" "mt_heap mt"]
    edges_of_nodes [of "mt_nodes mt" "mt_heap mt"]
  unfolding mt_inv_def mt_edges_def mt_names_def by (simp_all add: multitree_acyclic)

lemma in_names: "v \<in> mt_names mt \<longleftrightarrow> (\<exists>a. map_of (mt_nodes mt) v = Some a)"
  by (auto simp: mt_names_def)

lemma mt_node:
  assumes "mt_inv mt" and "map_of (mt_nodes mt) v = Some a"
  obtains n where "mt_heap mt a = Some n" and "nd_value n = v"
    and "set (nd_roots n) = roots_in (mt_names mt) (mt_edges mt) v"
    and "\<And>w. (v, w) \<in> mt_edges mt \<longleftrightarrow> map_of (nd_children n) w \<noteq> None"
proof -
  obtain n where n: "mt_heap mt a = Some n" "nd_value n = v"
    using heap_okE [OF mt_invD(1) [OF assms(1)] assms(2)] by metis
  have "set (nd_roots n) = node_roots (mt_nodes mt) (mt_heap mt) v"
    using n assms(2) by (simp add: node_roots_def)
  also have "\<dots> = roots_in (mt_names mt) (mt_edges mt) v"
    using mt_invD(5) [OF assms(1)] assms(2) by (auto simp: roots_ok_def mt_names_def)
  finally have "set (nd_roots n) = roots_in (mt_names mt) (mt_edges mt) v" .
  with n edges_of_iff [OF mt_invD(1) [OF assms(1)] assms(2) n(1)] that show ?thesis
    by (simp add: mt_edges_def)
qed

lemma mt_roots_spec:
  "mt_inv mt \<Longrightarrow> v \<in> mt_names mt \<Longrightarrow> mt_roots mt v = roots_in (mt_names mt) (mt_edges mt) v"
  using mt_invD(5) by (auto simp: roots_ok_def mt_roots_def mt_names_def)

lemma mt_inv_new: "mt_inv NewMultiTree"
  by (simp add: mt_inv_def NewMultiTree_def heap_ok_def mt_names_def mt_edges_def edges_of_def
      roots_ok_def trees_ok_def sources_def)

section \<open>Changing the children of one node\<close>

lemma heap_upd_children:
  assumes ok: "heap_ok nds h" and v: "map_of nds v = Some a" and n: "h a = Some n"
    and cs: "\<And>w c. map_of cs w = Some c \<Longrightarrow> map_of nds w = Some (c_node c)"
  shows "heap_ok nds (h(a := Some (n\<lparr>nd_children := cs\<rparr>)))"
    and "edges_of nds (h(a := Some (n\<lparr>nd_children := cs\<rparr>))) =
      {(x, y) \<in> edges_of nds h. x \<noteq> v} \<union> {(v, w) |w. map_of cs w \<noteq> None}"
    and "node_roots nds (h(a := Some (n\<lparr>nd_children := cs\<rparr>))) d = node_roots nds h d"
proof -
  let ?h = "h(a := Some (n\<lparr>nd_children := cs\<rparr>))"
  have nv: "nd_value n = v" using heap_okE [OF ok v] n by (metis option.inject)
  have other: "b \<noteq> a" if "map_of nds w = Some b" "w \<noteq> v" for w b
    using heap_ok_inj [OF ok] v that by blast
  show "heap_ok nds ?h"
    unfolding heap_ok_def
  proof (intro allI impI)
    fix w b assume w: "map_of nds w = Some b"
    obtain m where m: "h b = Some m" "nd_value m = w"
      "\<And>u c. map_of (nd_children m) u = Some c \<Longrightarrow> map_of nds u = Some (c_node c)"
      using heap_okE [OF ok w] by metis
    show "\<exists>n. ?h b = Some n \<and> nd_value n = w \<and>
        (\<forall>w c. map_of (nd_children n) w = Some c \<longrightarrow> map_of nds w = Some (c_node c))"
    proof (cases "b = a")
      case True
      with w v ok have "w = v" using heap_ok_inj by blast
      with True nv cs show ?thesis by auto
    next
      case False
      with m show ?thesis by auto
    qed
  qed
  show "edges_of nds ?h = {(x, y) \<in> edges_of nds h. x \<noteq> v} \<union> {(v, w) |w. map_of cs w \<noteq> None}"
  proof (intro equalityI subrelI)
    fix x y assume "(x, y) \<in> edges_of nds ?h"
    then obtain b m c where "map_of nds x = Some b" "?h b = Some m" "map_of (nd_children m) y = Some c"
      by (auto simp: edges_of_def)
    then show "(x, y) \<in> {(x, y) \<in> edges_of nds h. x \<noteq> v} \<union> {(v, w) |w. map_of cs w \<noteq> None}"
      using v other by (cases "x = v") (auto simp: edges_of_def)
  next
    fix x y assume "(x, y) \<in> {(x, y) \<in> edges_of nds h. x \<noteq> v} \<union> {(v, w) |w. map_of cs w \<noteq> None}"
    then show "(x, y) \<in> edges_of nds ?h"
      using v other by (auto simp: edges_of_def split: if_splits)
  qed
  show "node_roots nds ?h d = node_roots nds h d"
    using n by (auto simp: node_roots_def split: option.splits)
qed

lemma region_iff:
  assumes "heap_ok nds h" and "map_of nds v = Some a" and "map_of nds d = Some b"
  shows "b \<in> region nds E a \<longleftrightarrow> (v, d) \<in> E\<^sup>*"
proof
  assume "b \<in> region nds E a"
  then obtain w x where w: "map_of nds w = Some a" "(w, x) \<in> E\<^sup>*" "map_of nds x = Some b"
    by (auto simp: region_def)
  have "w = v" by (rule heap_ok_inj [OF assms(1) w(1) assms(2)])
  moreover have "x = d" by (rule heap_ok_inj [OF assms(1) w(3) assms(3)])
  ultimately show "(v, d) \<in> E\<^sup>*" using w(2) by simp
next
  assume "(v, d) \<in> E\<^sup>*"
  with assms(2,3) show "b \<in> region nds E a" by (auto simp: region_def)
qed

section \<open>AddNode\<close>

lemma AddNode_old: "map_of (mt_nodes mt) n \<noteq> None \<Longrightarrow> AddNode mt n = mt"
  by (simp add: AddNode_def)

lemma AddNode_fresh:
  assumes inv: "mt_inv mt" and new: "map_of (mt_nodes mt) n = None"
  shows "mt_names (AddNode mt n) = insert n (mt_names mt)"
    and "mt_edges (AddNode mt n) = mt_edges mt"
    and "heap_ok (mt_nodes (AddNode mt n)) (mt_heap (AddNode mt n))"
    and "mt_roots (AddNode mt n) v = (if v = n then {n} else mt_roots mt v)"
proof -
  let ?a = "mt_next mt"
  let ?nn = "\<lparr>nd_value = n, nd_children = [], nd_roots = [n]\<rparr>"
  have nodes: "mt_nodes (AddNode mt n) = AList.update n ?a (mt_nodes mt)"
    and heap: "mt_heap (AddNode mt n) = (mt_heap mt)(?a := Some ?nn)"
    using new by (simp_all add: AddNode_def Let_def)
  have old: "b \<noteq> ?a" if "map_of (mt_nodes mt) w = Some b" for w b
    using heap_okE [OF mt_invD(1) [OF inv] that] mt_invD(2) [OF inv] by (metis less_irrefl option.distinct(1))
  show "mt_names (AddNode mt n) = insert n (mt_names mt)"
    by (auto simp: mt_names_def nodes go_map_simps)
  show "mt_edges (AddNode mt n) = mt_edges mt"
    using new old by (auto simp: mt_edges_def edges_of_def nodes heap go_map_simps split: if_splits)
  have no_n: "w \<noteq> n" if "map_of (mt_nodes mt) w = Some b" for w b using that new by auto
  show "heap_ok (mt_nodes (AddNode mt n)) (mt_heap (AddNode mt n))"
    unfolding heap_ok_def
  proof (intro allI impI)
    fix v b assume v: "map_of (mt_nodes (AddNode mt n)) v = Some b"
    show "\<exists>m. mt_heap (AddNode mt n) b = Some m \<and> nd_value m = v \<and>
        (\<forall>w c. map_of (nd_children m) w = Some c \<longrightarrow>
           map_of (mt_nodes (AddNode mt n)) w = Some (c_node c))"
    proof (cases "v = n")
      case True
      with v show ?thesis by (simp add: nodes heap go_map_simps)
    next
      case False
      with v have v': "map_of (mt_nodes mt) v = Some b" by (simp add: nodes go_map_simps)
      obtain m where "mt_heap mt b = Some m" "nd_value m = v"
        "\<And>w c. map_of (nd_children m) w = Some c \<Longrightarrow> map_of (mt_nodes mt) w = Some (c_node c)"
        using heap_okE [OF mt_invD(1) [OF inv] v'] by metis
      with old [OF v'] no_n show ?thesis by (auto simp: nodes heap go_map_simps)
    qed
  qed
  show "mt_roots (AddNode mt n) v = (if v = n then {n} else mt_roots mt v)"
    using old by (auto simp: mt_roots_def node_roots_def nodes heap go_map_simps split: option.splits)
qed

lemma sources_new_node:
  assumes "E \<subseteq> V \<times> V" and "n \<notin> V"
  shows "sources (insert n V) E = insert n (sources V E)"
  using assms by (auto simp: sources_def)

lemma roots_in_new_node:
  assumes sub: "E \<subseteq> V \<times> V" and n: "n \<notin> V"
  shows "roots_in (insert n V) E v = (if v = n then {n} else roots_in V E v)"
proof -
  have to_n: "r = n" if "(r, n) \<in> E\<^sup>*" for r using that sub n by (metis mem_Sigma_iff rtranclE subsetD)
  have from_n: "v = n" if "(n, v) \<in> E\<^sup>*" using that sub n by (metis mem_Sigma_iff converse_rtranclE subsetD)
  have "n \<notin> sources V E" using n by (simp add: sources_def)
  then show ?thesis
    using to_n from_n by (auto simp: roots_in_def sources_new_node [OF assms])
qed

lemma AddNode_inv:
  assumes inv: "mt_inv mt" and n: "n \<noteq> []"
  shows "mt_inv (AddNode mt n)"
proof (cases "map_of (mt_nodes mt) n")
  case (Some a)
  with inv show ?thesis by (simp add: AddNode_old)
next
  case None
  note fresh = AddNode_fresh [OF inv None]
  have nV: "n \<notin> mt_names mt" using None by (auto simp: mt_names_def)
  have trees: "mt_trees (AddNode mt n) = AList.update n (mt_next mt) (mt_trees mt)"
    and nodes: "mt_nodes (AddNode mt n) = AList.update n (mt_next mt) (mt_nodes mt)"
    and next1: "mt_next (AddNode mt n) = Suc (mt_next mt)"
    and heap: "\<And>a. mt_heap (AddNode mt n) a \<noteq> None \<Longrightarrow> a = mt_next mt \<or> mt_heap mt a \<noteq> None"
    using None by (auto simp: AddNode_def Let_def split: if_splits)
  have "roots_ok (mt_nodes (AddNode mt n)) (mt_heap (AddNode mt n)) (mt_edges mt)"
    unfolding roots_ok_def
  proof
    fix v assume "v \<in> dom (map_of (mt_nodes (AddNode mt n)))"
    then have "v = n \<or> v \<in> mt_names mt" using fresh(1) by (auto simp: mt_names_def)
    then show "node_roots (mt_nodes (AddNode mt n)) (mt_heap (AddNode mt n)) v =
        roots_in (dom (map_of (mt_nodes (AddNode mt n)))) (mt_edges mt) v"
      using fresh(4) [of v] mt_roots_spec [OF inv] fresh(1)
        roots_in_new_node [OF mt_invD(8) [OF inv] nV, of v]
      by (auto simp: mt_roots_def mt_names_def split: if_splits)
  qed
  moreover have "trees_ok (mt_nodes (AddNode mt n)) (mt_trees (AddNode mt n)) (mt_edges mt)"
    using mt_invD(6) [OF inv] sources_new_node [OF mt_invD(8) [OF inv] nV] fresh(1)
    by (auto simp: trees_ok_def trees nodes mt_names_def go_map_simps)
  moreover have "\<And>a. mt_heap (AddNode mt n) a \<noteq> None \<Longrightarrow> a < mt_next (AddNode mt n)"
    using heap mt_invD(2) [OF inv] by (metis less_Suc_eq next1)
  ultimately show ?thesis
    using fresh(1-3) mt_invD(3,4) [OF inv] n unfolding mt_inv_def by auto
qed

section \<open>AddEdge\<close>

lemma sources_E_insert:
  "trees_ok nds ts E \<Longrightarrow> trees_ok nds (AList.delete e ts) (insert (s, e) E)"
  unfolding trees_ok_def sources_insert by (simp add: go_map_simps)

text \<open>What the comparison of roots finds out.\<close>

lemma compare_roots:
  assumes ord: "range_order ord" and inv: "mt_inv mt"
    and sa: "map_of (mt_nodes mt) s = Some sa" and ea: "map_of (mt_nodes mt) e = Some ea"
    and sn: "mt_heap mt sa = Some sn"
  obtains res where "deepCompareRoots ord (mt_heap mt) (nd_roots sn) (Suc (mt_next mt)) ea = Val res"
    and "res = None \<longleftrightarrow> no_common (mt_edges mt) s e"
    and "\<And>err. res = Some err \<Longrightarrow> \<exists>d r. err = SharedRoot d r \<and> (e, d) \<in> (mt_edges mt)\<^sup>* \<and>
      r \<in> mt_roots mt s \<inter> mt_roots mt d"
proof -
  let ?E = "mt_edges mt" and ?V = "mt_names mt"
  note ok = mt_invD(1) [OF inv]
  have sV: "s \<in> ?V" and eV: "e \<in> ?V" using sa ea by (auto simp: in_names)
  have rs: "set (nd_roots sn) = mt_roots mt s" using sa sn by (simp add: mt_roots_def node_roots_def)
  have no_empty: "[] \<notin> set (nd_roots sn)"
    using mt_invD(3) [OF inv] mt_roots_spec [OF inv sV] roots_in_subset [of ?V ?E s] unfolding rs by blast
  have fuel: "card (?E\<^sup>+ `` {e}) < Suc (mt_next mt)"
    unfolding mt_edges_def by (rule enough_fuel [OF ok mt_invD(2) [OF inv]])
  have roots: "mt_roots mt d = roots_in ?V ?E d" if "(e, d) \<in> ?E\<^sup>*" for d
    by (rule mt_roots_spec [OF inv reach_in_nodes [OF that mt_invD(8) [OF inv] eV]])
  have nc: "no_common ?E s e \<longleftrightarrow> (\<forall>d. (e, d) \<in> ?E\<^sup>* \<longrightarrow> mt_roots mt d \<inter> mt_roots mt s = {})"
    unfolding no_common_roots [OF mt_invD(7,9,8) [OF inv] sV] using roots mt_roots_spec [OF inv sV] by simp
  obtain res where res: "deepCompareRoots ord (mt_heap mt) (nd_roots sn) (Suc (mt_next mt)) ea = Val res"
    "res = None \<longleftrightarrow> (\<forall>d. (e, d) \<in> ?E\<^sup>* \<longrightarrow> mt_roots mt d \<inter> mt_roots mt s = {})"
    "\<forall>err. res = Some err \<longrightarrow> (\<exists>d r. err = SharedRoot d r \<and> (e, d) \<in> ?E\<^sup>* \<and> r \<in> mt_roots mt d \<inter> mt_roots mt s)"
    using deepCompareRoots_spec [OF ord ok _ no_empty ea, of "Suc (mt_next mt)"] mt_invD(9) [OF inv] fuel
    unfolding mt_edges_def mt_roots_def rs [unfolded mt_roots_def] by blast
  show thesis by (rule that [OF res(1)]) (use res(2,3) nc in blast)+
qed

text \<open>One more child, and one less.\<close>

lemma children_kept:
  assumes "mt_inv mt" and "map_of (mt_nodes mt) s = Some sa" and "mt_heap mt sa = Some sn"
    and "map_of (nd_children sn) w = Some c"
  shows "map_of (mt_nodes mt) w = Some (c_node c)"
  using heap_okE [OF mt_invD(1) [OF assms(1)] assms(2)] assms(3,4) by (metis option.inject)

lemma child_edges:
  assumes "mt_inv mt" and "map_of (mt_nodes mt) s = Some sa" and "mt_heap mt sa = Some sn"
  shows "(s, w) \<in> mt_edges mt \<longleftrightarrow> map_of (nd_children sn) w \<noteq> None"
  using edges_of_iff [OF mt_invD(1) [OF assms(1)] assms(2,3)] by (simp add: mt_edges_def)

lemma below_upd: "mt_inv mt \<Longrightarrow> mt_heap mt a = Some n \<Longrightarrow> ((mt_heap mt)(a := Some n')) b \<noteq> None \<Longrightarrow> b < mt_next mt"
  using mt_invD(2) by (metis fun_upd_apply option.distinct(1))

lemma with_child:
  assumes inv: "mt_inv mt" and sa: "map_of (mt_nodes mt) s = Some sa" and ea: "map_of (mt_nodes mt) e = Some ea"
    and sn: "mt_heap mt sa = Some sn"
  defines "h \<equiv> (mt_heap mt)(sa := Some (sn\<lparr>nd_children :=
    AList.update e \<lparr>c_node = ea, c_status = []\<rparr> (nd_children sn)\<rparr>))"
  shows "heap_ok (mt_nodes mt) h" and "edges_of (mt_nodes mt) h = insert (s, e) (mt_edges mt)"
    and "node_roots (mt_nodes mt) h d = mt_roots mt d" and "\<forall>b. h b \<noteq> None \<longrightarrow> b < mt_next mt"
proof -
  let ?cs = "AList.update e \<lparr>c_node = ea, c_status = []\<rparr> (nd_children sn)"
  have cs: "map_of (mt_nodes mt) w = Some (c_node c)" if "map_of ?cs w = Some c" for w c
    using that ea children_kept [OF inv sa sn] by (auto simp: go_map_simps split: if_splits)
  note up = heap_upd_children [OF mt_invD(1) [OF inv] sa sn, where cs = ?cs, OF cs]
  show "heap_ok (mt_nodes mt) h" "node_roots (mt_nodes mt) h d = mt_roots mt d"
    using up(1,3) by (simp_all add: h_def mt_roots_def)
  show "edges_of (mt_nodes mt) h = insert (s, e) (mt_edges mt)"
    using up(2) child_edges [OF inv sa sn] by (auto simp: h_def mt_edges_def go_map_simps)
  show "\<forall>b. h b \<noteq> None \<longrightarrow> b < mt_next mt" unfolding h_def using below_upd [OF inv sn] by blast
qed

lemma without_child:
  fixes e :: string
  assumes inv: "mt_inv mt" and sa: "map_of (mt_nodes mt) s = Some sa" and sn: "mt_heap mt sa = Some sn"
  defines "h \<equiv> (mt_heap mt)(sa := Some (sn\<lparr>nd_children := AList.delete e (nd_children sn)\<rparr>))"
  shows "heap_ok (mt_nodes mt) h" and "edges_of (mt_nodes mt) h = mt_edges mt - {(s, e)}"
    and "node_roots (mt_nodes mt) h d = mt_roots mt d" and "\<forall>b. h b \<noteq> None \<longrightarrow> b < mt_next mt"
proof -
  let ?cs = "AList.delete e (nd_children sn)"
  have cs: "map_of (mt_nodes mt) w = Some (c_node c)" if "map_of ?cs w = Some c" for w c
    using that children_kept [OF inv sa sn] by (auto simp: go_map_simps split: if_splits)
  note up = heap_upd_children [OF mt_invD(1) [OF inv] sa sn, where cs = ?cs, OF cs]
  show "heap_ok (mt_nodes mt) h" "node_roots (mt_nodes mt) h d = mt_roots mt d"
    using up(1,3) by (simp_all add: h_def mt_roots_def)
  show "edges_of (mt_nodes mt) h = mt_edges mt - {(s, e)}"
    using up(2) child_edges [OF inv sa sn] by (auto simp: h_def mt_edges_def go_map_simps)
  show "\<forall>b. h b \<noteq> None \<longrightarrow> b < mt_next mt" unfolding h_def using below_upd [OF inv sn] by blast
qed

text \<open>The update of the roots below a node, read on the abstract graph.\<close>

lemma update_roots:
  assumes ord: "range_order ord" and ok: "heap_ok nds h" and E: "edges_of nds h = E" and ac: "acyclic E"
    and below: "\<forall>b. h b \<noteq> None \<longrightarrow> b < k" and v: "map_of nds v = Some a"
  shows "\<exists>h'. deepUpdateRoots ord ds as (Suc k) a h = Val h' \<and>
    heap_ok nds h' \<and> edges_of nds h' = E \<and> (\<forall>b. h' b \<noteq> None \<longrightarrow> b < k) \<and>
    (\<forall>d \<in> dom (map_of nds). node_roots nds h' d =
      (if (v, d) \<in> E\<^sup>* then node_roots nds h d - set ds \<union> set as else node_roots nds h d))"
proof -
  have "card (E\<^sup>+ `` {v}) < Suc k" using enough_fuel [OF ok, of k] below unfolding E by blast
  then obtain h' where h': "deepUpdateRoots ord ds as (Suc k) a h = Val h'"
    "upd_rel (set ds) (set as) (region nds E a) h h'"
    using deepUpdateRoots_spec [OF ord ac v _ ok E] by blast
  have "node_roots nds h' d =
      (if (v, d) \<in> E\<^sup>* then node_roots nds h d - set ds \<union> set as else node_roots nds h d)" if d: "d \<in> dom (map_of nds)" for d
  proof -
    from d obtain b where b: "map_of nds d = Some b" by blast
    show ?thesis unfolding upd_rel_node_roots [OF h'(2) ok b] region_iff [OF ok v b] ..
  qed
  with upd_rel_heap_ok [OF h'(2) ok] upd_rel_edges [OF h'(2)] E upd_rel_dom [OF h'(2)] below h'(1)
  show ?thesis by (intro exI [of _ h'] conjI allI ballI impI) simp_all
qed

lemma AddEdge_new:
  assumes ord: "range_order ord" and inv: "mt_inv mt"
    and sa: "map_of (mt_nodes mt) s = Some sa" and ea: "map_of (mt_nodes mt) e = Some ea"
    and new: "(s, e) \<notin> mt_edges mt" and nc: "no_common (mt_edges mt) s e"
  shows "\<exists>mt'. AddEdge ord mt s e = Val (mt', None) \<and> mt_inv mt' \<and>
    mt_names mt' = mt_names mt \<and> mt_edges mt' = insert (s, e) (mt_edges mt)"
proof -
  let ?E = "mt_edges mt" and ?V = "mt_names mt"
  let ?E' = "insert (s, e) ?E"
  obtain sn where sn: "mt_heap mt sa = Some sn" "set (nd_roots sn) = roots_in ?V ?E s"
    using mt_node [OF inv sa] by metis
  have m': "multitree ?E'" by (rule multitree_insert_if [OF mt_invD(4) [OF inv] nc])
  have cmp: "deepCompareRoots ord (mt_heap mt) (nd_roots sn) (Suc (mt_next mt)) ea = Val None"
    by (rule compare_roots [OF ord inv sa ea sn(1)]) (use nc in simp)
  note up = with_child [OF inv sa ea sn(1)]
  let ?sn = "sn\<lparr>nd_children := AList.update e \<lparr>c_node = ea, c_status = []\<rparr> (nd_children sn)\<rparr>"
  let ?h = "(mt_heap mt)(sa := Some ?sn)"
  obtain h' where h': "deepUpdateRoots ord [e] (slice ord (nd_roots ?sn)) (Suc (mt_next mt)) ea ?h = Val h'"
    "heap_ok (mt_nodes mt) h'" "edges_of (mt_nodes mt) h' = ?E'" "\<forall>b. h' b \<noteq> None \<longrightarrow> b < mt_next mt"
    and roots: "\<forall>d \<in> dom (map_of (mt_nodes mt)). node_roots (mt_nodes mt) h' d =
      (if (e, d) \<in> ?E'\<^sup>* then node_roots (mt_nodes mt) ?h d - set [e] \<union> set (slice ord (nd_roots ?sn))
       else node_roots (mt_nodes mt) ?h d)"
    using update_roots [OF ord up(1,2) multitree_acyclic [OF m'] up(4) ea, of "[e]" "slice ord (nd_roots ?sn)"] by blast
  have set_new: "set (slice ord (nd_roots ?sn)) = roots_in ?V ?E s" using sn(2) by (simp add: slice_def range_order_set [OF ord])
  let ?mt = "mt\<lparr>mt_trees := AList.delete e (mt_trees mt), mt_heap := h'\<rparr>"
  have run: "AddEdge ord mt s e = Val (?mt, None)"
    using sa ea sn(1) cmp h'(1) new child_edges [OF inv sa sn(1), of e] by (simp add: AddEdge_def Let_def)
  have E2: "mt_edges ?mt = ?E'" using h'(3) by (simp add: mt_edges_def)
  have reach: "(e, d) \<in> ?E'\<^sup>* \<longleftrightarrow> (e, d) \<in> ?E\<^sup>*" for d
    unfolding rtrancl_insert_iff using no_common_not_back [OF nc] by blast
  have "roots_ok (mt_nodes mt) h' ?E'"
    unfolding roots_ok_def using roots [unfolded set_new up(3) reach] roots_in_insert [OF nc, of ?V] mt_roots_spec [OF inv]
    by (simp add: mt_names_def)
  then have "mt_inv ?mt"
    unfolding mt_inv_def E2
    using h'(2,4) m' mt_invD(3) [OF inv] sources_E_insert [OF mt_invD(6) [OF inv]]
    by (auto simp: mt_names_def)
  with run E2 show ?thesis by (auto simp: mt_names_def)
qed

lemma AddEdge_shared:
  assumes ord: "range_order ord" and inv: "mt_inv mt"
    and sa: "map_of (mt_nodes mt) s = Some sa" and ea: "map_of (mt_nodes mt) e = Some ea"
    and new: "(s, e) \<notin> mt_edges mt" and nc: "\<not> no_common (mt_edges mt) s e"
  shows "\<exists>d r. AddEdge ord mt s e = Val (mt, Some (SharedRoot d r)) \<and>
    (e, d) \<in> (mt_edges mt)\<^sup>* \<and> r \<in> mt_roots mt s \<inter> mt_roots mt d"
proof -
  obtain sn where sn: "mt_heap mt sa = Some sn" using mt_node [OF inv sa] by metis
  obtain res where res: "deepCompareRoots ord (mt_heap mt) (nd_roots sn) (Suc (mt_next mt)) ea = Val res"
    "res = None \<longleftrightarrow> no_common (mt_edges mt) s e"
    "\<And>err. res = Some err \<Longrightarrow> \<exists>d r. err = SharedRoot d r \<and> (e, d) \<in> (mt_edges mt)\<^sup>* \<and>
      r \<in> mt_roots mt s \<inter> mt_roots mt d"
    using compare_roots [OF ord inv sa ea sn] by blast
  from res(2) nc obtain err where err: "res = Some err" by blast
  from res(3) [OF err] obtain d r where e: "err = SharedRoot d r" "(e, d) \<in> (mt_edges mt)\<^sup>*"
    "r \<in> mt_roots mt s \<inter> mt_roots mt d" by blast
  have "AddEdge ord mt s e = Val (mt, Some (SharedRoot d r))"
    using sa ea sn res(1) err e(1) new child_edges [OF inv sa sn, of e] by (simp add: AddEdge_def)
  with e(2,3) show ?thesis by blast
qed

lemma AddEdge_old:
  assumes inv: "mt_inv mt" and "s \<in> mt_names mt" and "e \<in> mt_names mt" and "(s, e) \<in> mt_edges mt"
  shows "AddEdge ord mt s e = Val (mt, None)"
proof -
  obtain sa ea where a: "map_of (mt_nodes mt) s = Some sa" "map_of (mt_nodes mt) e = Some ea"
    using assms(2,3) by (auto simp: in_names)
  from mt_node [OF inv a(1)] assms(4) obtain sn
    where "mt_heap mt sa = Some sn" "map_of (nd_children sn) e \<noteq> None" by metis
  with a show ?thesis by (simp add: AddEdge_def)
qed

section \<open>RemoveEdge\<close>

lemma trees_ok_remove:
  assumes "trees_ok nds ts E" and e: "map_of nds e = Some ea"
  shows "trees_ok nds (if other_parent E s e then ts else AList.update e ea ts) (E - {(s, e)})"
proof -
  have "e \<in> dom (map_of nds)" using e by blast
  from sources_remove [OF this, of E s] assms show ?thesis
    by (auto simp: trees_ok_def go_map_simps)
qed

text \<open>The end of the removed edge gives up the roots of the start; it is a root itself if none is left.\<close>

lemma drop_roots:
  fixes ds :: "string list"
  assumes ok: "heap_ok nds h" and v: "map_of nds v = Some a" and n: "h a = Some n"
    and below: "\<forall>b. h b \<noteq> None \<longrightarrow> b < k"
  defines "h2 \<equiv> h(a := Some (n\<lparr>nd_roots := roots_del ds (nd_roots n)\<rparr>))"
  shows "heap_ok nds h2" and "edges_of nds h2 = edges_of nds h" and "\<forall>b. h2 b \<noteq> None \<longrightarrow> b < k"
    and "d \<in> dom (map_of nds) \<Longrightarrow>
      node_roots nds h2 d = (if d = v then node_roots nds h d - set ds else node_roots nds h d)"
proof -
  have u: "upd_rel (set ds) {} {a} h h2"
    using n upd_rel_refl [of "set ds" "{}" h] by (auto simp: h2_def upd_rel_def set_roots_del)
  show "heap_ok nds h2" "edges_of nds h2 = edges_of nds h"
    by (rule upd_rel_heap_ok [OF u ok]) (rule upd_rel_edges [OF u])
  show "\<forall>b. h2 b \<noteq> None \<longrightarrow> b < k" using upd_rel_dom [OF u] below by simp
  show "node_roots nds h2 d = (if d = v then node_roots nds h d - set ds else node_roots nds h d)"
    if d: "d \<in> dom (map_of nds)"
  proof -
    from d obtain b where b: "map_of nds d = Some b" by blast
    have "b = a \<longleftrightarrow> d = v" using heap_ok_inj [OF ok b, of v] v b by force
    with upd_rel_node_roots [OF u ok b] show ?thesis by simp
  qed
qed

lemma RemoveEdge_edge:
  assumes ord: "range_order ord" and inv: "mt_inv mt" and se: "(s, e) \<in> mt_edges mt"
  shows "\<exists>mt'. RemoveEdge ord mt s e = Val (mt', None) \<and> mt_inv mt' \<and>
    mt_nodes mt' = mt_nodes mt \<and> mt_edges mt' = mt_edges mt - {(s, e)}"
proof -
  let ?E = "mt_edges mt" and ?V = "mt_names mt" and ?nds = "mt_nodes mt"
  let ?F = "?E - {(s, e)}"
  note ok = mt_invD(1) [OF inv] and m = mt_invD(4) [OF inv]
  from se mt_invD(8) [OF inv] have sV: "s \<in> ?V" and eV: "e \<in> ?V" by auto
  then obtain sa ea where sa: "map_of ?nds s = Some sa" and ea: "map_of ?nds e = Some ea"
    by (auto simp: in_names)
  have "s \<noteq> e" using mt_invD(9) [OF inv] se by (auto simp: acyclic_def)
  then have neq: "sa \<noteq> ea" using heap_ok_inj [OF ok sa] ea by blast
  obtain sn where sn: "mt_heap mt sa = Some sn" "set (nd_roots sn) = roots_in ?V ?E s" using mt_node [OF inv sa] by metis
  obtain en where en: "mt_heap mt ea = Some en" "set (nd_roots en) = roots_in ?V ?E e" using mt_node [OF inv ea] by metis
  have mF: "multitree ?F" by (rule multitree_subset [OF m]) blast
  let ?sn = "sn\<lparr>nd_children := AList.delete e (nd_children sn)\<rparr>"
  let ?en = "en\<lparr>nd_roots := roots_del (ord (nd_roots sn)) (nd_roots en)\<rparr>"
  let ?h1 = "(mt_heap mt)(sa := Some ?sn)" let ?h2 = "?h1(ea := Some ?en)"
  note h1 = without_child [OF inv sa sn(1), of e]
  have "?h1 ea = Some en" using en(1) neq by simp
  note h2 = drop_roots [OF h1(1) ea this h1(4), where ds = "ord (nd_roots sn)", unfolded h1(2,3)]
  have set_ord: "set (ord (nd_roots sn)) = roots_in ?V ?E s" using sn(2) by (simp add: range_order_set [OF ord])
  have op: "nd_roots ?en = [] \<longleftrightarrow> \<not> other_parent ?E s e"
    using other_parent_roots [OF m mt_invD(7,8) [OF inv] se] en(2) set_ord
    by (simp add: set_roots_del flip: set_empty)
  let ?add = "if nd_roots ?en = [] then [e] else []"
  obtain h' where h': "deepUpdateRoots ord (slice ord (nd_roots ?sn)) ?add (Suc (mt_next mt)) ea ?h2 = Val h'"
    "heap_ok ?nds h'" "edges_of ?nds h' = ?F" "\<forall>b. h' b \<noteq> None \<longrightarrow> b < mt_next mt"
    and roots: "\<forall>d \<in> dom (map_of ?nds). node_roots ?nds h' d =
      (if (e, d) \<in> ?F\<^sup>* then node_roots ?nds ?h2 d - set (slice ord (nd_roots ?sn)) \<union> set ?add else node_roots ?nds ?h2 d)"
    using update_roots [OF ord h2(1,2) multitree_acyclic [OF mF] h2(3) ea, of "slice ord (nd_roots ?sn)" ?add] by blast
  have cut: "set (slice ord (nd_roots ?sn)) = roots_in ?V ?E s" using set_ord by (simp add: slice_def)
  let ?trees = "if nd_roots ?en = [] then AList.update e ea (mt_trees mt) else mt_trees mt"
  let ?mt = "mt\<lparr>mt_heap := h', mt_trees := ?trees\<rparr>"
  have run: "RemoveEdge ord mt s e = Val (?mt, None)"
    using sa ea sn(1) en(1) neq se child_edges [OF inv sa sn(1), of e] h'(1)
    by (cases "nd_roots ?en = []") (simp_all add: RemoveEdge_def Let_def)
  have E': "mt_edges ?mt = ?F" using h'(3) by (simp add: mt_edges_def)
  have reach: "(e, d) \<in> ?F\<^sup>* \<longleftrightarrow> (e, d) \<in> ?E\<^sup>*" for d
    using acyclic_no_return [OF mt_invD(9) [OF inv] se] by (auto simp: remove_edge_reach [OF m se])
  have "roots_ok ?nds h' ?F"
    unfolding roots_ok_def
  proof
    fix d assume d: "d \<in> dom (map_of ?nds)"
    then have "mt_roots mt d = roots_in ?V ?E d" using mt_roots_spec [OF inv] by (simp add: mt_names_def)
    with h2(4) [OF d]
    have r2: "node_roots ?nds ?h2 d = (if d = e then roots_in ?V ?E d - roots_in ?V ?E s else roots_in ?V ?E d)"
      unfolding set_ord by (simp only:)
    show "node_roots ?nds h' d = roots_in (dom (map_of ?nds)) ?F d"
      unfolding bspec [OF roots d] r2 reach cut mt_names_def [symmetric] roots_in_remove [OF m mt_invD(7,8) [OF inv] se, of d]
      using op by auto
  qed
  moreover have "trees_ok ?nds ?trees ?F"
    using trees_ok_remove [OF mt_invD(6) [OF inv] ea, of s] op by (simp split: if_splits)
  ultimately have "mt_inv ?mt"
    using h'(2,4) mF mt_invD(3) [OF inv] unfolding mt_inv_def E' by (auto simp: mt_names_def)
  with run E' show ?thesis by auto
qed

lemma RemoveEdge_missing:
  assumes inv: "mt_inv mt" and s: "s \<in> mt_names mt" and e: "e \<in> mt_names mt"
    and "(s, e) \<notin> mt_edges mt"
  shows "RemoveEdge ord mt s e = Val (mt, Some (EdgeMissing s e))"
proof -
  obtain sa ea where a: "map_of (mt_nodes mt) s = Some sa" "map_of (mt_nodes mt) e = Some ea"
    using s e by (auto simp: in_names)
  from mt_node [OF inv a(1)] assms(4) obtain sn
    where "mt_heap mt sa = Some sn" "map_of (nd_children sn) e = None" by metis
  with a show ?thesis by (simp add: RemoveEdge_def)
qed

section \<open>RemoveNode\<close>

lemma removeOutEdges_spec:
  assumes ord: "range_order ord"
  shows "mt_inv mt \<Longrightarrow> map_of (mt_nodes mt) name = Some na \<Longrightarrow>
    \<exists>mt'. removeOutEdges ord na ks mt = Val (mt', None) \<and> mt_inv mt' \<and>
      mt_nodes mt' = mt_nodes mt \<and> mt_edges mt' = mt_edges mt - {name} \<times> set ks"
proof (induction ks arbitrary: mt)
  case (Cons k ks)
  note inv = Cons.prems(1) and na = Cons.prems(2)
  obtain n where n: "mt_heap mt na = Some n" "nd_value n = name"
    "\<And>w. (name, w) \<in> mt_edges mt \<longleftrightarrow> map_of (nd_children n) w \<noteq> None"
    using mt_node [OF inv na] by metis
  show ?case
  proof (cases "map_of (nd_children n) k")
    case None
    with Cons.IH [OF inv na] n show ?thesis by auto
  next
    case (Some c)
    with n(3) have edge: "(name, k) \<in> mt_edges mt" by simp
    have "map_of (mt_nodes mt) k = Some (c_node c)"
      using heap_okE [OF mt_invD(1) [OF inv] na] n(1) Some by (metis option.inject)
    from mt_node [OF inv this] obtain cn where cn: "mt_heap mt (c_node c) = Some cn" "nd_value cn = k"
      by metis
    from RemoveEdge_edge [OF ord inv edge] obtain mt1 where mt1: "RemoveEdge ord mt name k = Val (mt1, None)"
      "mt_inv mt1" "mt_nodes mt1 = mt_nodes mt" "mt_edges mt1 = mt_edges mt - {(name, k)}" by blast
    from Cons.IH [of mt1] mt1 na obtain mt2 where "removeOutEdges ord na ks mt1 = Val (mt2, None)"
      "mt_inv mt2" "mt_nodes mt2 = mt_nodes mt" "mt_edges mt2 = mt_edges mt1 - {name} \<times> set ks" by auto
    with mt1 n Some cn show ?thesis by auto
  qed
qed simp

lemma removeInEdges_spec:
  "(\<And>a. a \<in> set as \<Longrightarrow> h a \<noteq> None) \<Longrightarrow>
    removeInEdges name as h = Val (\<lambda>b. if b \<in> set as
      then map_option (\<lambda>n. n\<lparr>nd_children := AList.delete name (nd_children n)\<rparr>) (h b) else h b)"
proof (induction as arbitrary: h)
  case (Cons a as)
  then obtain n where n: "h a = Some n" by fastforce
  let ?h = "h(a := Some (n\<lparr>nd_children := AList.delete name (nd_children n)\<rparr>))"
  have "removeInEdges name as ?h = Val (\<lambda>b. if b \<in> set as
      then map_option (\<lambda>n. n\<lparr>nd_children := AList.delete name (nd_children n)\<rparr>) (?h b) else ?h b)"
    by (rule Cons.IH) (use Cons.prems in auto)
  with n show ?case by (auto simp: fun_eq_iff delete_idem)
qed simp

text \<open>A node without edges out of it, taken out of the children of all nodes and out of the names.\<close>

abbreviation cut_child :: "string \<Rightarrow> node option \<Rightarrow> node option" where
  "cut_child name \<equiv> map_option (\<lambda>n. n\<lparr>nd_children := AList.delete name (nd_children n)\<rparr>)"

lemma heap_cut_child:
  assumes ok: "heap_ok nds h" and leaf: "\<And>w. (name, w) \<notin> edges_of nds h"
    and heap: "\<forall>v b. map_of nds v = Some b \<longrightarrow> h' b = cut_child name (h b)"
  shows "heap_ok (AList.delete name nds) h'"
    and "edges_of (AList.delete name nds) h' = {(x, y) \<in> edges_of nds h. y \<noteq> name}"
    and "v \<noteq> name \<Longrightarrow> node_roots (AList.delete name nds) h' v = node_roots nds h v"
proof -
  have nodes: "map_of (AList.delete name nds) v = Some b \<longleftrightarrow> v \<noteq> name \<and> map_of nds v = Some b" for v b
    by (auto simp: go_map_simps)
  show "heap_ok (AList.delete name nds) h'"
    unfolding heap_ok_def
  proof (intro allI impI)
    fix v b assume "map_of (AList.delete name nds) v = Some b"
    then have v: "v \<noteq> name" "map_of nds v = Some b" using nodes by auto
    obtain m where "h b = Some m" "nd_value m = v"
      "\<And>w c. map_of (nd_children m) w = Some c \<Longrightarrow> map_of nds w = Some (c_node c)"
      using heap_okE [OF ok v(2)] by metis
    then show "\<exists>n. h' b = Some n \<and> nd_value n = v \<and>
        (\<forall>w c. map_of (nd_children n) w = Some c \<longrightarrow> map_of (AList.delete name nds) w = Some (c_node c))"
      using heap [rule_format, OF v(2)] by (auto simp: go_map_simps)
  qed
  show "edges_of (AList.delete name nds) h' = {(x, y) \<in> edges_of nds h. y \<noteq> name}"
  proof (intro equalityI subrelI)
    fix x y assume "(x, y) \<in> edges_of (AList.delete name nds) h'"
    then obtain b m c where x: "map_of nds x = Some b" "h' b = Some m" "map_of (nd_children m) y = Some c"
      unfolding edges_of_def using nodes by blast
    with heap [rule_format, OF x(1)] show "(x, y) \<in> {(x, y) \<in> edges_of nds h. y \<noteq> name}"
      by (cases "h b") (auto simp: edges_of_def go_map_simps split: if_splits)
  next
    fix x y assume xy: "(x, y) \<in> {(x, y) \<in> edges_of nds h. y \<noteq> name}"
    then obtain b m c where b: "map_of nds x = Some b" "h b = Some m" "map_of (nd_children m) y = Some c" "y \<noteq> name"
      by (auto simp: edges_of_def)
    moreover have "x \<noteq> name" using xy leaf by blast
    ultimately show "(x, y) \<in> edges_of (AList.delete name nds) h'"
      using heap [rule_format, OF b(1)] by (auto simp: edges_of_def go_map_simps)
  qed
  show "v \<noteq> name \<Longrightarrow> node_roots (AList.delete name nds) h' v = node_roots nds h v"
    using heap by (auto simp: node_roots_def go_map_simps split: option.splits)
qed

lemma node_addresses:
  assumes "range_order ord"
  shows "set (map (\<lambda>v. the (map_of nds v)) (ord (keys_of nds))) = {a. \<exists>v. map_of nds v = Some a}"
proof -
  have "set (map (\<lambda>v. the (map_of nds v)) (ord (keys_of nds))) = (\<lambda>v. the (map_of nds v)) ` dom (map_of nds)"
    by (simp only: list.set_map range_order_set [OF assms] dom_map_of_conv_image_fst)
  also have "\<dots> = {a. \<exists>v. map_of nds v = Some a}" by (auto simp: dom_def image_iff) (metis option.sel)
  finally show ?thesis .
qed

text \<open>The rest of \<open>RemoveNode\<close>, once no edge leaves the node.\<close>

lemma remove_leaf:
  assumes ord: "range_order ord" and inv: "mt_inv mt" and leaf: "\<And>w. (name, w) \<notin> mt_edges mt"
  obtains h where "removeInEdges name (map (\<lambda>v. the (map_of (mt_nodes mt) v)) (ord (keys_of (mt_nodes mt)))) (mt_heap mt) = Val h"
    and "mt_inv (mt\<lparr>mt_heap := h, mt_nodes := AList.delete name (mt_nodes mt), mt_trees := AList.delete name (mt_trees mt)\<rparr>)"
    and "edges_of (AList.delete name (mt_nodes mt)) h = {(x, y) \<in> mt_edges mt. y \<noteq> name}"
proof -
  let ?E = "mt_edges mt" and ?V = "mt_names mt" and ?nds = "AList.delete name (mt_nodes mt)"
  let ?as = "map (\<lambda>v. the (map_of (mt_nodes mt) v)) (ord (keys_of (mt_nodes mt)))"
  note as_set = node_addresses [OF ord, of "mt_nodes mt"] and ok = mt_invD(1) [OF inv]
  let ?h = "\<lambda>b. if b \<in> set ?as then cut_child name (mt_heap mt b) else mt_heap mt b"
  have used: "mt_heap mt a \<noteq> None" if "a \<in> set ?as" for a
  proof -
    from that [unfolded as_set] obtain v where v: "map_of (mt_nodes mt) v = Some a" by blast
    from heap_okE [OF ok v] show ?thesis by auto
  qed
  have run: "removeInEdges name ?as (mt_heap mt) = Val ?h" by (rule removeInEdges_spec) (rule used)
  have heap: "\<forall>v b. map_of (mt_nodes mt) v = Some b \<longrightarrow> ?h b = cut_child name (mt_heap mt b)"
    using as_set by auto
  note cut = heap_cut_child [where h' = ?h, OF ok leaf [unfolded mt_edges_def] heap, folded mt_edges_def]
  have names: "dom (map_of ?nds) = ?V - {name}" by (auto simp: mt_names_def go_map_simps split: if_splits)
  have "roots_ok ?nds ?h {(x, y) \<in> ?E. y \<noteq> name}"
    unfolding roots_ok_def names
    using cut(3) mt_roots_spec [OF inv] roots_in_remove_node [OF leaf] by (auto simp: mt_roots_def)
  moreover have "trees_ok ?nds (AList.delete name (mt_trees mt)) {(x, y) \<in> ?E. y \<noteq> name}"
    using mt_invD(6) [OF inv] sources_remove_node [OF leaf, of ?V]
    by (auto simp: trees_ok_def names go_map_simps simp flip: mt_names_def)
  moreover have "multitree {(x, y) \<in> ?E. y \<noteq> name}" by (rule multitree_subset [OF mt_invD(4) [OF inv]]) blast
  moreover have "\<And>a. ?h a \<noteq> None \<Longrightarrow> a < mt_next mt" using mt_invD(2) [OF inv] by (auto split: if_splits)
  ultimately have "mt_inv (mt\<lparr>mt_heap := ?h, mt_nodes := ?nds, mt_trees := AList.delete name (mt_trees mt)\<rparr>)"
    using cut(1,2) mt_invD(3) [OF inv] names unfolding mt_inv_def by (auto simp: mt_names_def mt_edges_def)
  with run cut(2) that show thesis by blast
qed

lemma RemoveNode_node:
  assumes ord: "range_order ord" and inv: "mt_inv mt" and name: "name \<in> mt_names mt"
  shows "\<exists>mt'. RemoveNode ord mt name = Val (mt', None) \<and> mt_inv mt' \<and>
    mt_names mt' = mt_names mt - {name} \<and>
    mt_edges mt' = {(x, y) \<in> mt_edges mt. x \<noteq> name \<and> y \<noteq> name}"
proof -
  obtain na where na: "map_of (mt_nodes mt) name = Some na" using name by (auto simp: in_names)
  obtain n where n: "mt_heap mt na = Some n" using mt_node [OF inv na] by metis
  let ?ks = "ord (keys_of (nd_children n))"
  obtain mt1 where mt1: "removeOutEdges ord na ?ks mt = Val (mt1, None)" "mt_inv mt1"
    "mt_nodes mt1 = mt_nodes mt" "mt_edges mt1 = mt_edges mt - {name} \<times> set ?ks"
    using removeOutEdges_spec [OF ord inv na] by blast
  have "w \<in> set ?ks \<longleftrightarrow> (name, w) \<in> mt_edges mt" for w
    using child_edges [OF inv na n] by (simp add: range_order_set [OF ord] keys_of_dom domIff del: set_map)
  then have E1: "mt_edges mt1 = {(x, y) \<in> mt_edges mt. x \<noteq> name}" using mt1(4) by auto
  then have leaf: "(name, w) \<notin> mt_edges mt1" for w by simp
  obtain h where h: "removeInEdges name (map (\<lambda>v. the (map_of (mt_nodes mt1) v)) (ord (keys_of (mt_nodes mt1)))) (mt_heap mt1) = Val h"
    "mt_inv (mt1\<lparr>mt_heap := h, mt_nodes := AList.delete name (mt_nodes mt1), mt_trees := AList.delete name (mt_trees mt1)\<rparr>)"
    "edges_of (AList.delete name (mt_nodes mt1)) h = {(x, y) \<in> mt_edges mt1. y \<noteq> name}"
    by (rule remove_leaf [OF ord mt1(2) leaf])
  have "RemoveNode ord mt name = Val (mt1\<lparr>mt_heap := h, mt_nodes := AList.delete name (mt_nodes mt1),
      mt_trees := AList.delete name (mt_trees mt1)\<rparr>, None)"
    using na n mt1(1) h(1) by (simp add: RemoveNode_def)
  moreover have "mt_edges (mt1\<lparr>mt_heap := h, mt_nodes := AList.delete name (mt_nodes mt1),
      mt_trees := AList.delete name (mt_trees mt1)\<rparr>) = {(x, y) \<in> mt_edges mt. x \<noteq> name \<and> y \<noteq> name}"
    using h(3) unfolding E1 by (auto simp: mt_edges_def)
  moreover have "dom (map_of (AList.delete name (mt_nodes mt1))) = mt_names mt - {name}"
    unfolding mt1(3) by (auto simp: mt_names_def go_map_simps split: if_splits)
  ultimately show ?thesis using h(2) by (simp add: mt_names_def)
qed

section \<open>The operations on the abstract graph\<close>

text \<open>
  The specification: a graph is a set of names and a set of edges. An edge is accepted between
  known nodes when the graph with it is still a multi-tree; a removal of a missing node or edge is
  refused. A refused operation changes nothing.
\<close>

type_synonym graph = "string set \<times> (string \<times> string) set"

fun spec_accepts :: "graph \<Rightarrow> mt_op \<Rightarrow> bool" where
  "spec_accepts (V, E) (OpAddNode n) = True"
| "spec_accepts (V, E) (OpAddEdge s e) = (s \<in> V \<and> e \<in> V \<and> multitree (insert (s, e) E))"
| "spec_accepts (V, E) (OpRemoveEdge s e) = ((s, e) \<in> E)"
| "spec_accepts (V, E) (OpRemoveNode n) = (n \<in> V)"

fun spec_effect :: "graph \<Rightarrow> mt_op \<Rightarrow> graph" where
  "spec_effect (V, E) (OpAddNode n) = (insert n V, E)"
| "spec_effect (V, E) (OpAddEdge s e) = (V, insert (s, e) E)"
| "spec_effect (V, E) (OpRemoveEdge s e) = (V, E - {(s, e)})"
| "spec_effect (V, E) (OpRemoveNode n) = (V - {n}, {(x, y) \<in> E. x \<noteq> n \<and> y \<noteq> n})"

definition mt_abs :: "multi_tree \<Rightarrow> graph" where
  "mt_abs mt = (mt_names mt, mt_edges mt)"

fun op_named :: "mt_op \<Rightarrow> bool" where
  "op_named (OpAddNode n) = (n \<noteq> [])"
| "op_named op = True"

lemma AddNode_abs:
  assumes "mt_inv mt" shows "mt_abs (AddNode mt n) = (insert n (mt_names mt), mt_edges mt)"
proof (cases "map_of (mt_nodes mt) n")
  case None
  with AddNode_fresh [OF assms] show ?thesis by (simp add: mt_abs_def)
next
  case (Some a)
  then show ?thesis by (auto simp: AddNode_old mt_abs_def mt_names_def)
qed

lemma AddEdge_abs:
  assumes ord: "range_order ord" and inv: "mt_inv mt"
  shows "\<exists>mt' res. AddEdge ord mt s e = Val (mt', res) \<and> mt_inv mt' \<and>
    (res = None \<longleftrightarrow> spec_accepts (mt_abs mt) (OpAddEdge s e)) \<and>
    (if res = None then mt_abs mt' = spec_effect (mt_abs mt) (OpAddEdge s e) else mt' = mt)"
proof (cases "s \<in> mt_names mt \<and> e \<in> mt_names mt")
  case False
  then show ?thesis using inv by (auto simp: AddEdge_def mt_abs_def mt_names_def split: option.splits)
next
  case True
  then obtain sa ea where a: "map_of (mt_nodes mt) s = Some sa" "map_of (mt_nodes mt) e = Some ea"
    by (auto simp: in_names)
  consider "(s, e) \<in> mt_edges mt" | "(s, e) \<notin> mt_edges mt" "no_common (mt_edges mt) s e"
    | "(s, e) \<notin> mt_edges mt" "\<not> no_common (mt_edges mt) s e" by blast
  then show ?thesis
  proof cases
    case 1
    with AddEdge_old [OF inv _ _ 1] True inv mt_invD(4) [OF inv] show ?thesis
      by (simp add: mt_abs_def insert_absorb)
  next
    case 2
    with AddEdge_new [OF ord inv a 2] True mt_invD(4) [OF inv] multitree_insert_iff [OF 2(1)]
    show ?thesis by (auto simp: mt_abs_def)
  next
    case 3
    with AddEdge_shared [OF ord inv a 3] inv multitree_insert_iff [OF 3(1)]
    show ?thesis by (auto simp: mt_abs_def)
  qed
qed

lemma RemoveEdge_abs:
  assumes ord: "range_order ord" and inv: "mt_inv mt"
  shows "\<exists>mt' res. RemoveEdge ord mt s e = Val (mt', res) \<and> mt_inv mt' \<and>
    (res = None \<longleftrightarrow> spec_accepts (mt_abs mt) (OpRemoveEdge s e)) \<and>
    (if res = None then mt_abs mt' = spec_effect (mt_abs mt) (OpRemoveEdge s e) else mt' = mt)"
proof -
  consider "(s, e) \<in> mt_edges mt" | "(s, e) \<notin> mt_edges mt" "s \<in> mt_names mt" "e \<in> mt_names mt"
    | "s \<notin> mt_names mt \<or> e \<notin> mt_names mt" by blast
  then show ?thesis
  proof cases
    case 1
    with RemoveEdge_edge [OF ord inv 1] show ?thesis by (auto simp: mt_abs_def mt_names_def)
  next
    case 2
    with RemoveEdge_missing [OF inv 2(2,3,1)] inv show ?thesis by (simp add: mt_abs_def)
  next
    case 3
    then have "(s, e) \<notin> mt_edges mt" using mt_invD(8) [OF inv] by blast
    with 3 inv show ?thesis
      by (auto simp: RemoveEdge_def mt_abs_def mt_names_def split: option.splits)
  qed
qed

lemma RemoveNode_abs:
  assumes ord: "range_order ord" and inv: "mt_inv mt"
  shows "\<exists>mt' res. RemoveNode ord mt n = Val (mt', res) \<and> mt_inv mt' \<and>
    (res = None \<longleftrightarrow> spec_accepts (mt_abs mt) (OpRemoveNode n)) \<and>
    (if res = None then mt_abs mt' = spec_effect (mt_abs mt) (OpRemoveNode n) else mt' = mt)"
proof (cases "n \<in> mt_names mt")
  case True
  with RemoveNode_node [OF ord inv True] show ?thesis by (auto simp: mt_abs_def)
next
  case False
  with inv show ?thesis by (auto simp: RemoveNode_def mt_abs_def mt_names_def split: option.splits)
qed

lemma step_abs:
  assumes "range_order ord" and "mt_inv mt" and "op_named op"
  shows "\<exists>mt' res. mt_step ord mt op = Val (mt', res) \<and> mt_inv mt' \<and>
    (res = None \<longleftrightarrow> spec_accepts (mt_abs mt) op) \<and>
    (if res = None then mt_abs mt' = spec_effect (mt_abs mt) op else mt' = mt)"
proof (cases op)
  case (OpAddNode n)
  with assms AddNode_inv AddNode_abs show ?thesis by (simp add: mt_abs_def)
next
  case (OpAddEdge s e)
  from AddEdge_abs [OF assms(1,2), of s e] show ?thesis unfolding OpAddEdge mt_step.simps .
next
  case (OpRemoveEdge s e)
  from RemoveEdge_abs [OF assms(1,2), of s e] show ?thesis unfolding OpRemoveEdge mt_step.simps .
next
  case (OpRemoveNode n)
  from RemoveNode_abs [OF assms(1,2), of n] show ?thesis unfolding OpRemoveNode mt_step.simps .
qed

lemma run_inv:
  assumes "range_order ord"
  shows "mt_inv mt \<Longrightarrow> \<forall>op \<in> set ops. op_named op \<Longrightarrow> \<exists>mt'. mt_run ord ops mt = Val mt' \<and> mt_inv mt'"
proof (induction ops arbitrary: mt)
  case (Cons op ops)
  from step_abs [OF assms Cons.prems(1), of op] Cons.prems(2)
  obtain mt1 res where "mt_step ord mt op = Val (mt1, res)" "mt_inv mt1" by auto
  with Cons.IH [of mt1] Cons.prems(2) show ?case by simp
qed simp

lemma NodeExists_names: "NodeExists mt v \<longleftrightarrow> v \<in> mt_names mt"
  by (auto simp: NodeExists_def mt_names_def)

lemma EdgeExists_edges: "mt_inv mt \<Longrightarrow> EdgeExists mt s e = Val ((s, e) \<in> mt_edges mt)"
proof (cases "map_of (mt_nodes mt) s")
  case None
  then show "mt_inv mt \<Longrightarrow> ?thesis" by (simp add: EdgeExists_def mt_edges_def edges_of_def)
next
  case (Some a)
  assume inv: "mt_inv mt"
  from mt_node [OF inv Some] obtain n where "mt_heap mt a = Some n"
    "(s, e) \<in> mt_edges mt \<longleftrightarrow> map_of (nd_children n) e \<noteq> None" by metis
  with Some show ?thesis by (simp add: EdgeExists_def)
qed

section \<open>Properties\<close>

text \<open>
  C2. Whatever sequence of AddNode, AddEdge, RemoveEdge and RemoveNode calls is made on a new
  graph, and whatever errors some of them return, no call panics or runs forever, and the graph
  after them is a multi-tree: no cycle, and at most one path between two nodes. The roots stored
  at a node are exactly the sources that reach it, and mt.trees holds exactly the sources.
\<close>

theorem digi_graph_invariant:
  assumes "range_order ord" and "\<forall>op \<in> set ops. op_named op"
  shows "\<exists>mt. mt_run ord ops NewMultiTree = Val mt \<and>
    acyclic (mt_edges mt) \<and>
    (\<forall>x z p q. is_path (mt_edges mt) x p z \<and> is_path (mt_edges mt) x q z \<longrightarrow> p = q) \<and>
    (\<forall>v. NodeExists mt v \<longrightarrow> mt_roots mt v = roots_in (mt_names mt) (mt_edges mt) v) \<and>
    dom (map_of (mt_trees mt)) = sources (mt_names mt) (mt_edges mt)"
proof -
  obtain mt where mt: "mt_run ord ops NewMultiTree = Val mt" "mt_inv mt"
    using run_inv [OF assms(1) mt_inv_new assms(2)] by blast
  have "dom (map_of (mt_trees mt)) = sources (mt_names mt) (mt_edges mt)"
    using mt_invD(6) [OF mt(2)] sources_subset [of "mt_names mt" "mt_edges mt"]
    by (auto simp: trees_ok_def mt_names_def split: if_splits)
  with mt mt_invD(9) [OF mt(2)] multitree_unique_path [OF mt_invD(4) [OF mt(2)]] mt_roots_spec [OF mt(2)]
  show ?thesis by (auto simp: NodeExists_names)
qed

definition sample_ops :: "mt_op list" where
  "sample_ops = [OpAddNode ''a'', OpAddNode ''b'', OpAddNode ''c'', OpAddEdge ''a'' ''b'',
     OpAddEdge ''b'' ''c'', OpAddEdge ''a'' ''c'', OpRemoveNode ''b'']"

lemma digi_graph_invariant_witness:
  "\<exists>mt. mt_run rev sample_ops NewMultiTree = Val mt \<and> acyclic (mt_edges mt)"
  using digi_graph_invariant [of rev sample_ops] by (auto simp: sample_ops_def)

text \<open>
  C1. Refinement: on every graph the operations can build, each operation does what the abstract
  graph prescribes. It returns no error exactly when the specification accepts it (AddEdge: both
  nodes known and the graph with the edge still a multi-tree); then names and edges change as
  specified; otherwise the graph is left as it was.
\<close>

theorem digi_graph_refines:
  assumes "range_order ord" and "\<forall>op \<in> set ops. op_named op" and "op_named op"
    and "mt_run ord ops NewMultiTree = Val mt"
  shows "\<exists>mt' res. mt_step ord mt op = Val (mt', res) \<and>
    (res = None \<longleftrightarrow> spec_accepts (mt_abs mt) op) \<and>
    (if res = None then mt_abs mt' = spec_effect (mt_abs mt) op else mt' = mt)"
proof -
  have "mt_inv mt" using run_inv [OF assms(1) mt_inv_new assms(2)] assms(4) by auto
  from step_abs [OF assms(1) this assms(3)] show ?thesis by blast
qed

lemma digi_graph_refines_witness:
  "\<exists>mt mt' res. mt_run rev sample_ops NewMultiTree = Val mt \<and>
    mt_step rev mt (OpAddEdge ''c'' ''a'') = Val (mt', res) \<and>
    (res = None \<longleftrightarrow> spec_accepts (mt_abs mt) (OpAddEdge ''c'' ''a''))"
proof -
  have named: "\<forall>op \<in> set sample_ops. op_named op" by (simp add: sample_ops_def)
  then obtain mt where "mt_run rev sample_ops NewMultiTree = Val mt"
    using run_inv [OF range_order_rev mt_inv_new] by blast
  with digi_graph_refines [OF range_order_rev named _ this, of "OpAddEdge ''c'' ''a''"]
  show ?thesis by auto
qed

text \<open>
  C8. When AddEdge refuses an edge because of a shared root, the node and the root it names are a
  true reason: the node is the end node or below it, and the root reaches both that node and the
  start node, so the new edge would have made a second path.
\<close>

theorem shared_root_explained:
  assumes "range_order ord" and "\<forall>op \<in> set ops. op_named op"
    and "mt_run ord ops NewMultiTree = Val mt"
    and "AddEdge ord mt s e = Val (mt', Some (SharedRoot d r))"
  shows "(e, d) \<in> (mt_edges mt)\<^sup>* \<and> (r, s) \<in> (mt_edges mt)\<^sup>* \<and> (r, d) \<in> (mt_edges mt)\<^sup>*"
proof -
  have inv: "mt_inv mt" using run_inv [OF assms(1) mt_inv_new assms(2)] assms(3) by auto
  obtain sa ea where a: "map_of (mt_nodes mt) s = Some sa" "map_of (mt_nodes mt) e = Some ea"
    using assms(4) by (auto simp: AddEdge_def split: option.splits)
  then have V: "s \<in> mt_names mt" "e \<in> mt_names mt" by (auto simp: in_names)
  have new: "(s, e) \<notin> mt_edges mt" using AddEdge_old [OF inv V] assms(4) by auto
  moreover have nc: "\<not> no_common (mt_edges mt) s e"
    using AddEdge_new [OF assms(1) inv a new] assms(4) by auto
  ultimately have *: "(e, d) \<in> (mt_edges mt)\<^sup>*" "r \<in> mt_roots mt s \<inter> mt_roots mt d"
    using AddEdge_shared [OF assms(1) inv a] assms(4) by auto
  moreover have "d \<in> mt_names mt" by (rule reach_in_nodes [OF *(1) mt_invD(8) [OF inv] V(2)])
  ultimately show ?thesis using mt_roots_spec [OF inv] V(1) by (auto simp: roots_in_def)
qed

lemma shared_root_explained_witness:
  "\<exists>mt. mt_run rev (take 5 sample_ops) NewMultiTree = Val mt \<and>
    AddEdge rev mt ''a'' ''c'' = Val (mt, Some (SharedRoot ''c'' ''a'')) \<and> (''a'', ''c'') \<in> (mt_edges mt)\<^sup>*"
proof -
  have named: "\<forall>op \<in> set (take 5 sample_ops). op_named op" by (simp add: sample_ops_def)
  then obtain mt where mt: "mt_run rev (take 5 sample_ops) NewMultiTree = Val mt"
    using run_inv [OF range_order_rev mt_inv_new] by blast
  have "(case mt_run rev (take 5 sample_ops) NewMultiTree of Val mt \<Rightarrow>
      (case AddEdge rev mt ''a'' ''c'' of Val (_, res) \<Rightarrow> res = Some (SharedRoot ''c'' ''a'') | _ \<Rightarrow> False)
    | _ \<Rightarrow> False)" by code_simp
  with mt obtain mt' where add: "AddEdge rev mt ''a'' ''c'' = Val (mt', Some (SharedRoot ''c'' ''a''))"
    by (auto split: outcome.splits prod.splits)
  moreover have "mt' = mt"
    using step_abs [of rev mt "OpAddEdge ''a'' ''c''"] add mt run_inv [OF range_order_rev mt_inv_new named]
    by (auto split: if_splits)
  ultimately show ?thesis using mt shared_root_explained [OF range_order_rev named mt add] by auto
qed

text \<open>
  After RemoveNode succeeds the node is gone and no edge leads from or to it, also none from
  a node that keeps a child of that name.
\<close>

theorem remove_node_forgets:
  assumes "range_order ord" and "\<forall>op \<in> set ops. op_named op"
    and "mt_run ord ops NewMultiTree = Val mt" and "RemoveNode ord mt n = Val (mt', None)"
  shows "\<not> NodeExists mt' n \<and>
    (\<forall>v. EdgeExists mt' n v = Val False \<and> EdgeExists mt' v n = Val False)"
proof -
  have inv: "mt_inv mt" using run_inv [OF assms(1) mt_inv_new assms(2)] assms(3) by auto
  from RemoveNode_abs [OF assms(1) inv, of n] assms(4)
  have "mt_inv mt'" and "mt_abs mt' = spec_effect (mt_abs mt) (OpRemoveNode n)" by auto
  then show ?thesis by (auto simp: NodeExists_names EdgeExists_edges mt_abs_def)
qed

lemma remove_node_forgets_witness:
  "\<exists>mt mt'. RemoveNode rev mt ''b'' = Val (mt', None) \<and> EdgeExists mt' ''a'' ''b'' = Val False"
proof -
  have named: "\<forall>op \<in> set (take 5 sample_ops). op_named op" by (simp add: sample_ops_def)
  then obtain mt where mt: "mt_run rev (take 5 sample_ops) NewMultiTree = Val mt"
    using run_inv [OF range_order_rev mt_inv_new] by blast
  have "(case mt_run rev (take 5 sample_ops) NewMultiTree of Val mt \<Rightarrow>
      (case RemoveNode rev mt ''b'' of Val (_, res) \<Rightarrow> res = None | _ \<Rightarrow> False) | _ \<Rightarrow> False)"
    by code_simp
  with mt obtain mt' where "RemoveNode rev mt ''b'' = Val (mt', None)"
    by (auto split: outcome.splits prod.splits)
  with remove_node_forgets [OF range_order_rev named mt this] show ?thesis by blast
qed

text \<open>
  The hypothesis on names is needed: \<open>intersect\<close> returns the first common root, and the caller
  reads the empty string as "none", so a node with an empty name as the shared root goes unseen
  and a second path is accepted.
\<close>

lemma empty_name_defeats_the_check:
  "case mt_run (\<lambda>xs. xs) [OpAddNode '''', OpAddNode ''a'', OpAddNode ''b'', OpAddEdge '''' ''a'',
      OpAddEdge ''a'' ''b''] NewMultiTree of
     Val mt \<Rightarrow> (case AddEdge (\<lambda>xs. xs) mt '''' ''b'' of Val (_, res) \<Rightarrow> res = None | _ \<Rightarrow> False)
   | _ \<Rightarrow> False"
  by code_simp

end
