(* ===== verification/Graph_Interface.thy ===== *)
theory Graph_Interface
  imports Multi_Tree_Correct
begin

text \<open>
  What the mount webhook needs of the digi-graph, as a locale: adding nodes and edges, and the
  law that an edge between known nodes is taken exactly when the graph stays a multi-tree. The
  client is the loop that adds the edges of an object or of a whole cluster. The interpretation
  at the end is the graph of \<open>multitree.go\<close>.
\<close>

text \<open>
  \<open>graph.Edge\<close>, and the loop of \<open>Validator.addMountNodeAndEdges\<close>, with the calls on \<open>v.gc.mt\<close>
  as arguments.
\<close>

record edge =
  e_Start :: string
  e_End :: string
  e_Status :: string

fun addMountNodeAndEdges ::
  "('g \<Rightarrow> string \<Rightarrow> 'g) \<Rightarrow> ('g \<Rightarrow> string \<Rightarrow> string \<Rightarrow> ('g \<times> 'e option) outcome) \<Rightarrow>
   edge list \<Rightarrow> 'g \<Rightarrow> ('g \<times> 'e option) outcome" where
  "addMountNodeAndEdges add_node add_edge [] g = Val (g, None)"
| "addMountNodeAndEdges add_node add_edge (e # es) g =
     obind (add_edge (add_node (add_node g (e_Start e)) (e_End e)) (e_Start e) (e_End e))
       (\<lambda>(g', err).
         case err of
           Some x \<Rightarrow> Val (g', Some x)
         | None \<Rightarrow> addMountNodeAndEdges add_node add_edge es g')"

definition edge_pairs :: "edge list \<Rightarrow> (string \<times> string) set" where
  "edge_pairs es = (\<lambda>e. (e_Start e, e_End e)) ` set es"

definition edges_named :: "edge list \<Rightarrow> bool" where
  "edges_named es \<longleftrightarrow> (\<forall>e \<in> set es. e_Start e \<noteq> [] \<and> e_End e \<noteq> [])"

locale digi_graph =
  fixes inv :: "'g \<Rightarrow> bool"
    and nodes :: "'g \<Rightarrow> string set"
    and edges :: "'g \<Rightarrow> (string \<times> string) set"
    and add_node :: "'g \<Rightarrow> string \<Rightarrow> 'g"
    and add_edge :: "'g \<Rightarrow> string \<Rightarrow> string \<Rightarrow> ('g \<times> 'e option) outcome"
  assumes inv_multitree: "inv g \<Longrightarrow> multitree (edges g)"
    and add_node_inv: "inv g \<Longrightarrow> n \<noteq> [] \<Longrightarrow> inv (add_node g n)"
    and add_node_nodes: "inv g \<Longrightarrow> nodes (add_node g n) = insert n (nodes g)"
    and add_node_edges: "inv g \<Longrightarrow> edges (add_node g n) = edges g"
    and add_edge_law: "inv g \<Longrightarrow> s \<in> nodes g \<Longrightarrow> e \<in> nodes g \<Longrightarrow>
      \<exists>g' res. add_edge g s e = Val (g', res) \<and> inv g' \<and> nodes g' = nodes g \<and>
        (res = None \<longleftrightarrow> multitree (insert (s, e) (edges g))) \<and>
        edges g' = (if res = None then insert (s, e) (edges g) else edges g)"
begin

abbreviation add_all :: "edge list \<Rightarrow> 'g \<Rightarrow> ('g \<times> 'e option) outcome" where
  "add_all \<equiv> addMountNodeAndEdges add_node add_edge"

lemma add_one:
  assumes "inv g" and "e_Start e \<noteq> []" and "e_End e \<noteq> []"
  shows "\<exists>g' res. add_edge (add_node (add_node g (e_Start e)) (e_End e)) (e_Start e) (e_End e) =
      Val (g', res) \<and> inv g' \<and>
    (res = None \<longleftrightarrow> multitree (insert (e_Start e, e_End e) (edges g))) \<and>
    edges g' = (if res = None then insert (e_Start e, e_End e) (edges g) else edges g)"
proof -
  let ?g = "add_node (add_node g (e_Start e)) (e_End e)"
  have inv1: "inv (add_node g (e_Start e))" by (rule add_node_inv [OF assms(1,2)])
  have inv2: "inv ?g" by (rule add_node_inv [OF inv1 assms(3)])
  have nodes: "e_Start e \<in> nodes ?g" "e_End e \<in> nodes ?g"
    using add_node_nodes [OF inv1] add_node_nodes [OF assms(1)] by simp_all
  have edges: "edges ?g = edges g" using add_node_edges [OF inv1] add_node_edges [OF assms(1)] by simp
  from add_edge_law [OF inv2 nodes] show ?thesis unfolding edges by blast
qed

text \<open>
  The loop succeeds exactly when the graph with all the edges is a multi-tree; what is in the
  graph afterwards is all of them, or the old edges and a part of the new ones.
\<close>

lemma add_all_spec:
  "inv g \<Longrightarrow> edges_named es \<Longrightarrow>
    \<exists>g' res. add_all es g = Val (g', res) \<and> inv g' \<and>
      (res = None \<longleftrightarrow> multitree (edges g \<union> edge_pairs es)) \<and>
      edges g \<subseteq> edges g' \<and> edges g' \<subseteq> edges g \<union> edge_pairs es \<and>
      (res = None \<longrightarrow> edges g' = edges g \<union> edge_pairs es)"
proof (induction es arbitrary: g)
  case Nil
  then show ?case using inv_multitree by (auto simp: edge_pairs_def)
next
  case (Cons e es)
  let ?p = "(e_Start e, e_End e)"
  have named: "e_Start e \<noteq> []" "e_End e \<noteq> []" "edges_named es"
    using Cons.prems(2) by (auto simp: edges_named_def)
  have pairs: "edge_pairs (e # es) = insert ?p (edge_pairs es)" by (simp add: edge_pairs_def)
  from add_one [OF Cons.prems(1) named(1,2)] obtain g1 r1 where g1:
    "add_edge (add_node (add_node g (e_Start e)) (e_End e)) (e_Start e) (e_End e) = Val (g1, r1)"
    "inv g1" "r1 = None \<longleftrightarrow> multitree (insert ?p (edges g))"
    "edges g1 = (if r1 = None then insert ?p (edges g) else edges g)" by blast
  show ?case
  proof (cases r1)
    case None
    with g1 have E1: "edges g1 = insert ?p (edges g)" by simp
    from Cons.IH [OF g1(2) named(3)] obtain g2 r2 where "add_all es g1 = Val (g2, r2)" "inv g2"
      "r2 = None \<longleftrightarrow> multitree (edges g1 \<union> edge_pairs es)" "edges g1 \<subseteq> edges g2"
      "edges g2 \<subseteq> edges g1 \<union> edge_pairs es"
      "r2 = None \<longrightarrow> edges g2 = edges g1 \<union> edge_pairs es" by blast
    with g1(1) None show ?thesis unfolding E1 pairs by auto
  next
    case (Some x)
    with g1(3) have "\<not> multitree (insert ?p (edges g))" by simp
    then have "\<not> multitree (edges g \<union> edge_pairs (e # es))"
      unfolding pairs using multitree_subset [of "edges g \<union> insert ?p (edge_pairs es)" "insert ?p (edges g)"]
      by blast
    moreover have "add_all (e # es) g = Val (g1, Some x)" using g1(1) Some by simp
    moreover have "edges g1 = edges g" using g1(4) Some by simp
    ultimately show ?thesis using g1(2) by blast
  qed
qed

text \<open>The verdict depends on the set of the edges only, not on the order they come in.\<close>

lemma add_all_verdict:
  assumes "inv g" and "edges_named es" and "edges_named es'" and "edge_pairs es = edge_pairs es'"
    and "add_all es g = Val (g1, r1)" and "add_all es' g = Val (g2, r2)"
  shows "r1 = None \<longleftrightarrow> r2 = None"
  using add_all_spec [OF assms(1,2)] add_all_spec [OF assms(1,3)] assms(4-6) by auto

end

interpretation mt: digi_graph "\<lambda>mt. range_order ord \<and> mt_inv mt" mt_names mt_edges AddNode "AddEdge ord"
  for ord
proof
  fix g n assume inv: "range_order ord \<and> mt_inv g"
  show "multitree (mt_edges g)" using mt_invD(4) inv by blast
  show "mt_names (AddNode g n) = insert n (mt_names g)" "mt_edges (AddNode g n) = mt_edges g"
    using AddNode_abs [of g n] inv by (auto simp: mt_abs_def)
  show "n \<noteq> [] \<Longrightarrow> range_order ord \<and> mt_inv (AddNode g n)" using AddNode_inv inv by blast
  fix s e assume V: "s \<in> mt_names g" "e \<in> mt_names g"
  obtain g' res where g': "AddEdge ord g s e = Val (g', res)" "mt_inv g'"
    "res = None \<longleftrightarrow> spec_accepts (mt_abs g) (OpAddEdge s e)"
    "if res = None then mt_abs g' = spec_effect (mt_abs g) (OpAddEdge s e) else g' = g"
    using AddEdge_abs [of ord g s e] inv by blast
  have "res = None \<longleftrightarrow> multitree (insert (s, e) (mt_edges g))" using g'(3) V by (simp add: mt_abs_def)
  moreover have "mt_names g' = mt_names g \<and>
      mt_edges g' = (if res = None then insert (s, e) (mt_edges g) else mt_edges g)"
    using g'(4) by (auto simp: mt_abs_def split: if_splits)
  ultimately show "\<exists>g' res. AddEdge ord g s e = Val (g', res) \<and> (range_order ord \<and> mt_inv g') \<and>
      mt_names g' = mt_names g \<and>
      (res = None) = multitree (insert (s, e) (mt_edges g)) \<and>
      mt_edges g' = (if res = None then insert (s, e) (mt_edges g) else mt_edges g)"
    using g'(1,2) inv by blast
qed

end
