(* ===== verification/Json_Value.thy ===== *)
theory Json_Value
  imports Prelude
begin

text \<open>
  Decoded JSON, the \<open>interface{}\<close> values that \<open>encoding/json\<close> and apimachinery's
  \<open>unstructured\<close> package hand to the code, and Go's type assertions on them. Numbers are kept as
  their text: no modelled code computes with them.
\<close>

datatype json =
    JNull
  | JBool bool
  | JNum string
  | JStr string
  | JArr "json list"
  | JObj "(string \<times> json) list"

type_synonym obj = "(string, json) gomap"

text \<open>
  The assertions \<open>v.(map[string]interface{})\<close>, \<open>v.([]interface{})\<close> and \<open>v.(string)\<close> without a
  second result panic on any other value; an entry that a map does not hold is the nil interface,
  here \<open>None\<close>.
\<close>

fun as_map :: "json option \<Rightarrow> obj outcome" where
  "as_map (Some (JObj m)) = Val m"
| "as_map v = Panic ''interface conversion: not map[string]interface {}''"

fun as_slice :: "json option \<Rightarrow> json list outcome" where
  "as_slice (Some (JArr xs)) = Val xs"
| "as_slice v = Panic ''interface conversion: not []interface {}''"

fun as_string :: "json option \<Rightarrow> string outcome" where
  "as_string (Some (JStr s)) = Val s"
| "as_string v = Panic ''interface conversion: not string''"

text \<open>\<open>xs[0]\<close>, which panics on an empty slice.\<close>

fun index0 :: "'a list \<Rightarrow> 'a outcome" where
  "index0 [] = Panic ''index out of range [0] with length 0''"
| "index0 (x # xs) = Val x"

text \<open>A loop whose body may panic, with the results in order.\<close>

fun omap :: "('a \<Rightarrow> 'b outcome) \<Rightarrow> 'a list \<Rightarrow> 'b list outcome" where
  "omap f [] = Val []"
| "omap f (x # xs) = obind (f x) (\<lambda>y. obind (omap f xs) (\<lambda>ys. Val (y # ys)))"

lemma omap_Val: "(\<And>x. x \<in> set xs \<Longrightarrow> f x = Val (g x)) \<Longrightarrow> omap f xs = Val (map g xs)"
  by (induction xs) auto

lemma omap_cong [fundef_cong]:
  "xs = ys \<Longrightarrow> (\<And>x. x \<in> set ys \<Longrightarrow> f x = g x) \<Longrightarrow> omap f xs = omap g ys"
  by (induction ys arbitrary: xs) auto

lemma omap_Val_iff: "omap f xs = Val ys \<longleftrightarrow> list_all2 (\<lambda>x y. f x = Val y) xs ys"
  by (induction xs arbitrary: ys) (auto simp: obind_Val_iff list_all2_Cons1)

end
