(* ===== verification/Model_Uri.thy ===== *)
theory Model_Uri
  imports Prelude
begin

text \<open>
  Names of models: \<open>pkg/core/types.go\<close> (\<open>Kind\<close>, \<open>Auri\<close> and their string forms) and
  \<open>pkg/helper/helper.go\<close> (the tags that multiplex reconciliation requests).

  Code outside the repository is an argument: \<open>pl\<close> is \<open>inflection.Plural\<close> and \<open>nns\<close> is the
  \<open>String\<close> method of apimachinery's \<open>types.NamespacedName\<close>, whose documented form
  \<open>namespace/name\<close> is the hypothesis \<open>nns_documented\<close>.
\<close>

section \<open>Kinds\<close>

text \<open>\<open>UriSeparator\<close> and \<open>AttrPathSeparator\<close>, and the default namespace.\<close>

definition UriSeparator :: char where
  "UriSeparator = CHR ''/''"

definition AttrPathSeparator :: char where
  "AttrPathSeparator = CHR ''.''"

definition DefaultNamespace :: string where
  "DefaultNamespace = ''default''"

declare UriSeparator_def [simp] AttrPathSeparator_def [simp] DefaultNamespace_def [simp]

record kind =
  k_Group :: string
  k_Version :: string
  k_Name :: string

datatype kind_error = ErrInvalidKind

definition Kind_Plural :: "(string \<Rightarrow> string) \<Rightarrow> kind \<Rightarrow> string" where
  "Kind_Plural pl k = pl (to_lower (k_Name k))"

text \<open>\<open>schema.GroupVersionKind\<close> and \<open>schema.GroupVersionResource\<close> are triples of strings.\<close>

type_synonym gvk = "string \<times> string \<times> string"
type_synonym gvr = "string \<times> string \<times> string"

definition Kind_Gvk :: "kind \<Rightarrow> gvk" where
  "Kind_Gvk k = (k_Group k, k_Version k, k_Name k)"

definition Kind_Gvr :: "(string \<Rightarrow> string) \<Rightarrow> kind \<Rightarrow> gvr" where
  "Kind_Gvr pl k = (k_Group k, k_Version k, Kind_Plural pl k)"

definition Kind_String :: "kind \<Rightarrow> string" where
  "Kind_String k =
     [UriSeparator] @ k_Group k @ [UriSeparator] @ k_Version k @ [UriSeparator] @ k_Name k"

definition Kind_EscapedString :: "kind \<Rightarrow> string" where
  "Kind_EscapedString k =
     quote_meta (k_Group k) @ [UriSeparator] @ quote_meta (k_Version k) @ [UriSeparator] @ k_Name k"

definition Kind_GvrString :: "(string \<Rightarrow> string) \<Rightarrow> kind \<Rightarrow> string" where
  "Kind_GvrString pl k =
     k_Group k @ [UriSeparator] @ k_Version k @ [UriSeparator] @ Kind_Plural pl k"

definition Kind_EscapedGvrString :: "(string \<Rightarrow> string) \<Rightarrow> kind \<Rightarrow> string" where
  "Kind_EscapedGvrString pl k = quote_meta (Kind_GvrString pl k)"

definition KindFromString :: "string \<Rightarrow> kind_error + kind" where
  "KindFromString s =
     (let s = trim_char (CHR ''/'') s; segs = split_on (CHR ''/'') s in
      case segs of
        [n] \<Rightarrow> Inr \<lparr>k_Group = ''digi.dev'', k_Version = ''v1'', k_Name = n\<rparr>
      | [g, n] \<Rightarrow> Inr \<lparr>k_Group = g, k_Version = ''v1'', k_Name = n\<rparr>
      | [g, v, n] \<Rightarrow> Inr \<lparr>k_Group = g, k_Version = v, k_Name = n\<rparr>
      | _ \<Rightarrow> Inl ErrInvalidKind)"

text \<open>A kind whose string form can be read back: no slash in a field, group and name not empty.\<close>

definition kind_ok :: "kind \<Rightarrow> bool" where
  "kind_ok k \<longleftrightarrow>
     CHR ''/'' \<notin> set (k_Group k) \<and> CHR ''/'' \<notin> set (k_Version k) \<and> CHR ''/'' \<notin> set (k_Name k) \<and>
     k_Group k \<noteq> [] \<and> k_Name k \<noteq> []"

lemma hd_not_in: "c \<notin> set s \<Longrightarrow> s \<noteq> [] \<Longrightarrow> hd s \<noteq> c"
  by (metis hd_in_set)

lemma last_not_in: "c \<notin> set s \<Longrightarrow> s \<noteq> [] \<Longrightarrow> last s \<noteq> c"
  by (metis last_in_set)

lemma KindFromString_three:
  assumes "kind_ok k"
  shows "KindFromString (k_Group k @ CHR ''/'' # k_Version k @ CHR ''/'' # k_Name k) = Inr k"
proof -
  let ?s = "k_Group k @ CHR ''/'' # k_Version k @ CHR ''/'' # k_Name k"
  have "trim_char (CHR ''/'') ?s = ?s"
    using assms by (intro trim_char_id) (auto simp: kind_ok_def hd_not_in last_not_in)
  moreover have "split_on (CHR ''/'') ?s = [k_Group k, k_Version k, k_Name k]"
    using assms by (simp add: kind_ok_def go_string_simps)
  ultimately show ?thesis by (simp add: KindFromString_def)
qed

lemma KindFromString_String: "kind_ok k \<Longrightarrow> KindFromString (Kind_String k) = Inr k"
  using KindFromString_three [of k] by (simp add: Kind_String_def KindFromString_def)

lemma KindFromString_error_iff:
  "KindFromString s = Inl ErrInvalidKind \<longleftrightarrow>
     3 \<le> count_list (trim_char (CHR ''/'') s) (CHR ''/'')"
proof -
  have "KindFromString s = Inl ErrInvalidKind \<longleftrightarrow>
      3 < length (split_on (CHR ''/'') (trim_char (CHR ''/'') s))"
    by (auto simp: KindFromString_def Let_def split: list.splits)
  then show ?thesis by (auto simp: length_split_on)
qed

section \<open>Auris\<close>

record nsname =
  n_Namespace :: string
  n_Name :: string

record auri =
  a_Kind :: kind
  a_Name :: string
  a_Namespace :: string
  a_Path :: string

type_synonym nn_string = "nsname \<Rightarrow> string"

definition nns_documented :: "nn_string \<Rightarrow> bool" where
  "nns_documented nns \<longleftrightarrow> (\<forall>n. nns n = n_Namespace n @ CHR ''/'' # n_Name n)"

text \<open>The documented form itself, for instances.\<close>

definition nns_plain :: nn_string where
  "nns_plain n = n_Namespace n @ CHR ''/'' # n_Name n"

lemma nns_plain_documented [simp]: "nns_documented nns_plain"
  by (simp add: nns_documented_def nns_plain_def)

definition Auri_Gvr :: "(string \<Rightarrow> string) \<Rightarrow> auri \<Rightarrow> gvr" where
  "Auri_Gvr pl ar = Kind_Gvr pl (a_Kind ar)"

definition Auri_Gvk :: "auri \<Rightarrow> gvk" where
  "Auri_Gvk ar = Kind_Gvk (a_Kind ar)"

definition SpacedName :: "auri \<Rightarrow> nsname" where
  "SpacedName ar = \<lparr>n_Namespace = a_Namespace ar, n_Name = a_Name ar\<rparr>"

definition Auri_String :: "nn_string \<Rightarrow> auri \<Rightarrow> string" where
  "Auri_String nns ar =
     (if a_Path ar = [] then Kind_String (a_Kind ar) @ [UriSeparator] @ nns (SpacedName ar)
      else Kind_String (a_Kind ar) @ [UriSeparator] @ nns (SpacedName ar) @
        [AttrPathSeparator] @ trim_left AttrPathSeparator (a_Path ar))"

definition AttrPathSlice :: "string \<Rightarrow> string list" where
  "AttrPathSlice p = split_on AttrPathSeparator (trim_left AttrPathSeparator p)"

lemma AttrPathSlice_leading_dot: "AttrPathSlice (CHR ''.'' # p) = AttrPathSlice p"
  by (simp add: AttrPathSlice_def trim_left_def)

lemma AttrPathSlice_join:
  assumes "xs \<noteq> []" and "hd xs \<noteq> []" and "\<And>x. x \<in> set xs \<Longrightarrow> CHR ''.'' \<notin> set x"
  shows "AttrPathSlice (join_with ''.'' xs) = xs"
proof -
  obtain y ys where xs: "xs = y # ys" using assms(1) by (cases xs) auto
  with assms have y: "y \<noteq> []" "hd y \<noteq> CHR ''.''" by (auto simp: hd_not_in)
  have "hd (join_with ''.'' xs) \<noteq> CHR ''.''"
    using xs y by (cases ys) (auto simp: hd_append)
  then show ?thesis
    using assms by (simp add: AttrPathSlice_def trim_left_id split_join)
qed

section \<open>Request multiplexing\<close>

text \<open>A reconcile request is the namespaced name of an object (\<open>reconcile.Request\<close>).\<close>

type_synonym request = nsname

definition muxObjectName :: "string \<Rightarrow> string \<Rightarrow> string" where
  "muxObjectName tag name = tag @ ''-'' @ name"

text \<open>
  The transformer \<open>MuxRequest(tag)\<close> maps an object, of which it reads the name and the
  namespace, to one request.
\<close>

definition MuxRequest :: "string \<Rightarrow> nsname \<Rightarrow> request list" where
  "MuxRequest tag m =
     [\<lparr>n_Namespace = n_Namespace m, n_Name = muxObjectName tag (n_Name m)\<rparr>]"

definition DemuxRequest :: "request \<Rightarrow> request \<times> string" where
  "DemuxRequest r =
     (let i = index_byte (n_Name r) (CHR ''-'') in
      if i < 0 then (\<lparr>n_Namespace = n_Namespace r, n_Name = n_Name r\<rparr>, [])
      else (\<lparr>n_Namespace = n_Namespace r, n_Name = drop (nat i + 1) (n_Name r)\<rparr>,
            take (nat i) (n_Name r)))"

datatype name_error = InvalidNamespacedName string

definition NamespacedNameFromString :: "string \<Rightarrow> name_error + nsname" where
  "NamespacedNameFromString s =
     (case split_on UriSeparator s of
        [ns, n] \<Rightarrow> Inr \<lparr>n_Namespace = ns, n_Name = n\<rparr>
      | _ \<Rightarrow> Inl (InvalidNamespacedName s))"

text \<open>The four event filters of \<open>NewPredicateFuncs\<close>; an object is what \<open>filter\<close> reads.\<close>

datatype 'o event = CreateEvent 'o | UpdateEvent 'o 'o | DeleteEvent 'o | GenericEvent 'o

fun NewPredicateFuncs :: "('o \<Rightarrow> bool) \<Rightarrow> 'o event \<Rightarrow> bool" where
  "NewPredicateFuncs filt (CreateEvent m) = filt m"
| "NewPredicateFuncs filt (UpdateEvent old new) = filt new"
| "NewPredicateFuncs filt (DeleteEvent m) = filt m"
| "NewPredicateFuncs filt (GenericEvent m) = filt m"

text \<open>
  \<open>LabelSelectorPredicate\<close>: \<open>as_selector\<close> is apimachinery's \<open>LabelSelectorAsSelector\<close>, \<open>labels\<close>
  the labels of an object. On error the code returns the empty \<open>predicate.Funcs{}\<close>, here \<open>None\<close>.
\<close>

definition LabelSelectorPredicate ::
  "('sel \<Rightarrow> 'e + ('l \<Rightarrow> bool)) \<Rightarrow> ('o \<Rightarrow> 'l) \<Rightarrow> 'sel \<Rightarrow> ('o event \<Rightarrow> bool) option \<times> 'e option" where
  "LabelSelectorPredicate as_selector labels s =
     (case as_selector s of
        Inl err \<Rightarrow> (None, Some err)
      | Inr selector \<Rightarrow> (Some (NewPredicateFuncs (\<lambda>o'. selector (labels o'))), None))"

lemma DemuxRequest_mux:
  assumes "CHR ''-'' \<notin> set tag"
  shows "map DemuxRequest (MuxRequest tag r) =
    [(\<lparr>n_Namespace = n_Namespace r, n_Name = n_Name r\<rparr>, tag)]"
  using assms by (simp add: MuxRequest_def DemuxRequest_def muxObjectName_def go_string_simps)

lemma NamespacedNameFromString_iff:
  "(\<exists>n. NamespacedNameFromString s = Inr n) \<longleftrightarrow> count_list s (CHR ''/'') = 1"
proof -
  have "(\<exists>n. NamespacedNameFromString s = Inr n) \<longleftrightarrow> length (split_on (CHR ''/'') s) = 2"
    by (auto simp: NamespacedNameFromString_def length_Suc_conv numeral_2_eq_2 split: list.splits)
  then show ?thesis by (simp add: length_split_on)
qed

lemma NamespacedNameFromString_plain:
  assumes "CHR ''/'' \<notin> set (n_Namespace n)" and "CHR ''/'' \<notin> set (n_Name n)"
  shows "NamespacedNameFromString (n_Namespace n @ CHR ''/'' # n_Name n) = Inr n"
  using assms by (simp add: NamespacedNameFromString_def go_string_simps)

section \<open>Properties\<close>

text \<open>
  Kinds survive printing and parsing: for a kind with no slash in its fields and a group and
  name that are not empty, \<open>KindFromString\<close> reads back both \<open>String\<close> (leading slash) and the
  bare \<open>group/version/name\<close> form.
\<close>

theorem kind_roundtrip:
  assumes "kind_ok k"
  shows "KindFromString (Kind_String k) = Inr k \<and>
    KindFromString (k_Group k @ ''/'' @ k_Version k @ ''/'' @ k_Name k) = Inr k"
  using KindFromString_String [OF assms] KindFromString_three [OF assms] by simp

theorem kind_roundtrip_witness:
  "KindFromString ''/mock.digi.dev/v1/Lamp'' =
     Inr \<lparr>k_Group = ''mock.digi.dev'', k_Version = ''v1'', k_Name = ''Lamp''\<rparr>"
proof -
  let ?k = "\<lparr>k_Group = ''mock.digi.dev'', k_Version = ''v1'', k_Name = ''Lamp''\<rparr>"
  have "kind_ok ?k" by (simp add: kind_ok_def)
  from kind_roundtrip [OF this] show ?thesis by (simp add: Kind_String_def)
qed

text \<open>
  Demultiplexing undoes multiplexing: a request tagged by \<open>MuxRequest\<close> with a tag without a
  hyphen (the controllers use \<open>sync\<close>, \<open>policy\<close> and \<open>enforce\<close>) is read back by
  \<open>DemuxRequest\<close> as the original request with that tag, whatever hyphens the name holds.
\<close>

theorem mux_roundtrip:
  assumes "CHR ''-'' \<notin> set tag" and "q \<in> set (MuxRequest tag r)"
  shows "DemuxRequest q = (\<lparr>n_Namespace = n_Namespace r, n_Name = n_Name r\<rparr>, tag)"
  using DemuxRequest_mux [OF assms(1), of r] assms(2) by (auto simp: MuxRequest_def)

theorem mux_roundtrip_witness:
  "DemuxRequest \<lparr>n_Namespace = ''default'', n_Name = ''enforce-room-test''\<rparr> =
     (\<lparr>n_Namespace = ''default'', n_Name = ''room-test''\<rparr>, ''enforce'')"
  using mux_roundtrip [of "''enforce''" "\<lparr>n_Namespace = ''default'', n_Name = ''enforce-room-test''\<rparr>"
      "\<lparr>n_Namespace = ''default'', n_Name = ''room-test''\<rparr>"]
  by (simp add: MuxRequest_def muxObjectName_def)

end
