(* ===== verification/Webhook.thy ===== *)
theory Webhook
  imports Graph_Interface Json_Value Model_Uri
begin

text \<open>
  The mount webhook, \<open>space/mount/webhook/cmd/main.go\<close>: the validator of admission reviews over
  the digi-graph, and the discovery that fills the graph when the process starts.

  Parameters stand for the Kubernetes libraries: the JSON decoder of an object (a nil pointer for
  the JSON text \<open>null\<close>), \<open>GetName\<close> and \<open>GetNamespace\<close> of an object, the patch calculation of an
  update, and the discovery calls.
\<close>

definition ActiveStatus :: string where "ActiveStatus = ''active''"
definition InactiveStatus :: string where "InactiveStatus = ''inactive''"

definition MountAttrPath :: string where "MountAttrPath = ''.spec.mount''"

record kube_lib =
  kl_decode :: "string \<Rightarrow> err + obj option"
  kl_GetName :: "obj \<Rightarrow> string"
  kl_GetNamespace :: "obj \<Rightarrow> string"
  kl_nns :: nn_string
  kl_diff :: "obj option \<Rightarrow> obj option \<Rightarrow> err option"

section \<open>References of an object\<close>

definition objId :: "kube_lib \<Rightarrow> obj option \<Rightarrow> bool \<Rightarrow> string outcome" where
  "objId kl p namespaced =
     (case p of
        None \<Rightarrow> nil_deref
      | Some ob \<Rightarrow>
          Val (if namespaced
               then kl_nns kl \<lparr>n_Namespace = kl_GetNamespace kl ob, n_Name = kl_GetName kl ob\<rparr>
               else kl_GetName kl ob))"

record composition_refs =
  cr_mounts :: "(string, string) gomap"
  cr_yields :: "(string, string) gomap"

text \<open>The inner loop of \<open>getFlattenRefs\<close>: the names of one kind with their modes.\<close>

fun flatten_names :: "(string \<times> json) list \<Rightarrow> (string, string) gomap \<Rightarrow> (string, string) gomap outcome" where
  "flatten_names [] refs = Val refs"
| "flatten_names ((n, m) # rest) refs =
     obind (as_string (Some m)) (\<lambda>s. flatten_names rest (AList.update n s refs))"

fun flatten_kinds ::
  "order \<Rightarrow> (string \<times> json) list \<Rightarrow> (string, string) gomap \<Rightarrow> (string, string) gomap outcome" where
  "flatten_kinds ord [] refs = Val refs"
| "flatten_kinds ord ((k, v) # rest) refs =
     obind (as_map (Some v)) (\<lambda>names.
       obind (flatten_names (range_map ord names) refs) (flatten_kinds ord rest))"

definition getFlattenRefs :: "order \<Rightarrow> string \<Rightarrow> obj \<Rightarrow> (string, string) gomap outcome" where
  "getFlattenRefs ord pre ou =
     (case map_of ou pre of
        None \<Rightarrow> Val []
      | Some refByKind \<Rightarrow>
          obind (as_map (Some refByKind)) (\<lambda>kinds. flatten_kinds ord (range_map ord kinds) []))"

definition getCompositionRefs :: "order \<Rightarrow> obj option \<Rightarrow> composition_refs outcome" where
  "getCompositionRefs ord p =
     (case p of
        None \<Rightarrow> nil_deref
      | Some ob \<Rightarrow>
          obind (getFlattenRefs ord MountAttrPath ob) (\<lambda>ms. Val \<lparr>cr_mounts = ms, cr_yields = []\<rparr>))"

definition mountEdges :: "order \<Rightarrow> string \<Rightarrow> composition_refs \<Rightarrow> edge list" where
  "mountEdges ord parent cRefs =
     map (\<lambda>name. \<lparr>e_Start = parent, e_End = name,
            e_Status = (if map_of (cr_yields cRefs) name \<noteq> None then InactiveStatus else ActiveStatus)\<rparr>)
       (ord (keys_of (cr_mounts cRefs)))"

section \<open>Requests\<close>

record validator_result =
  vr_Valid :: bool
  vr_Message :: string

abbreviation no_result :: validator_result where
  "no_result \<equiv> \<lparr>vr_Valid = False, vr_Message = []\<rparr>"

type_synonym verdict = "validator_result \<times> err option"

abbreviation add_mounts :: "order \<Rightarrow> edge list \<Rightarrow> multi_tree \<Rightarrow> (multi_tree \<times> mt_error option) outcome" where
  "add_mounts ord \<equiv> addMountNodeAndEdges AddNode (AddEdge ord)"

definition doCreate :: "kube_lib \<Rightarrow> order \<Rightarrow> string \<Rightarrow> multi_tree \<Rightarrow> (multi_tree \<times> verdict) outcome" where
  "doCreate kl ord njson mt =
     (case kl_decode kl njson of
        Inl e \<Rightarrow> Val (mt, no_result, Some (Wrap ''create: unable to parse object'' e))
      | Inr p \<Rightarrow>
          obind (objId kl p True) (\<lambda>oid.
          obind (getCompositionRefs ord p) (\<lambda>cRefs.
          obind (add_mounts ord (mountEdges ord oid cRefs) mt) (\<lambda>(mt', err).
            case err of
              Some x \<Rightarrow> Val (mt', \<lparr>vr_Valid = False, vr_Message = mt_error_text x\<rparr>, None)
            | None \<Rightarrow> Val (mt', \<lparr>vr_Valid = True, vr_Message = []\<rparr>, None)))))"

definition doUpdate :: "kube_lib \<Rightarrow> string \<Rightarrow> string \<Rightarrow> verdict" where
  "doUpdate kl njson ojson =
     (case kl_decode kl njson of
        Inl e \<Rightarrow> (no_result, Some (Wrap ''update: unable to parse new object'' e))
      | Inr no \<Rightarrow>
     (case kl_decode kl ojson of
        Inl e \<Rightarrow> (no_result, Some (Wrap ''update: unable to parse old object'' e))
      | Inr oo \<Rightarrow>
     (case kl_diff kl no oo of
        Some e \<Rightarrow> (no_result, Some (Wrap ''unable to get diff'' e))
      | None \<Rightarrow> (\<lparr>vr_Valid = True, vr_Message = []\<rparr>, None))))"

record adm_request =
  rq_UID :: string
  rq_Operation :: string
  rq_Object :: string
  rq_OldObject :: string

text \<open>\<open>adv1beta1.Create\<close> and \<open>adv1beta1.Update\<close>.\<close>

abbreviation "op_CREATE \<equiv> ''CREATE''"
abbreviation "op_UPDATE \<equiv> ''UPDATE''"

text \<open>A review without a request is a nil pointer.\<close>

definition Validate ::
  "kube_lib \<Rightarrow> order \<Rightarrow> adm_request option \<Rightarrow> multi_tree \<Rightarrow> (multi_tree \<times> verdict) outcome" where
  "Validate kl ord ar mt =
     (case ar of
        None \<Rightarrow> nil_deref
      | Some rq \<Rightarrow>
          if rq_Operation rq = op_CREATE then doCreate kl ord (rq_Object rq) mt
          else if rq_Operation rq = op_UPDATE
            then Val (mt, doUpdate kl (rq_Object rq) (rq_OldObject rq))
          else Val (mt, \<lparr>vr_Valid = True, vr_Message = ''pass unhandled verb''\<rparr>, None))"

section \<open>Discovery\<close>

record api_resource =
  ar_Name :: string
  ar_Namespaced :: bool

record api_group =
  ag_Name :: string
  ag_Versions :: "(string, api_resource list) gomap"

text \<open>
  The discovery calls: the groups, the text of a group and version (\<open>GroupVersion.String\<close>), and
  the list of a resource, where a failed list gives a nil pointer with its error.
\<close>

record discovery_lib =
  dl_groups :: "err + api_group list"
  dl_gvString :: "string \<Rightarrow> string \<Rightarrow> string"
  dl_list :: "gvr \<Rightarrow> obj list option"

definition object_edges :: "kube_lib \<Rightarrow> order \<Rightarrow> bool \<Rightarrow> obj \<Rightarrow> edge list outcome" where
  "object_edges kl ord namespaced ob =
     obind (objId kl (Some ob) namespaced) (\<lambda>oid.
     obind (getCompositionRefs ord (Some ob)) (\<lambda>cRefs. Val (mountEdges ord oid cRefs)))"

definition resource_edges ::
  "kube_lib \<Rightarrow> discovery_lib \<Rightarrow> order \<Rightarrow> string \<Rightarrow> string \<Rightarrow> api_resource \<Rightarrow> edge list outcome" where
  "resource_edges kl dl ord grp ver r =
     (if contains_str (ar_Name r) ''/'' then Val []
      else (case dl_list dl (grp, ver, ar_Name r) of
              None \<Rightarrow> nil_deref
            | Some items \<Rightarrow> obind (omap (object_edges kl ord (ar_Namespaced r)) items) (\<lambda>ess. Val (concat ess))))"

definition version_edges ::
  "kube_lib \<Rightarrow> discovery_lib \<Rightarrow> order \<Rightarrow> string list \<Rightarrow> string \<Rightarrow> string \<times> api_resource list \<Rightarrow> edge list outcome" where
  "version_edges kl dl ord apiGroups grp vr =
     (if dl_gvString dl grp (fst vr) \<notin> set apiGroups then Val []
      else obind (omap (resource_edges kl dl ord grp (fst vr)) (snd vr)) (\<lambda>ess. Val (concat ess)))"

text \<open>The scan of \<open>discoverGraph\<close>, before it takes the lock.\<close>

definition discover_scan ::
  "kube_lib \<Rightarrow> discovery_lib \<Rightarrow> order \<Rightarrow> string list \<Rightarrow> (err + edge list) outcome" where
  "discover_scan kl dl ord apiGroups =
     (case dl_groups dl of
        Inl e \<Rightarrow> Val (Inl (Wrap ''unable to discover resources'' e))
      | Inr grs \<Rightarrow>
          obind (omap (\<lambda>gr. obind (omap (version_edges kl dl ord apiGroups (ag_Name gr))
                    (range_map ord (ag_Versions gr))) (\<lambda>ess. Val (concat ess))) grs)
            (\<lambda>ess. Val (Inr (concat ess))))"

text \<open>Its second part, under the lock: a new graph takes the place of the old one.\<close>

definition discover_build :: "order \<Rightarrow> edge list \<Rightarrow> (multi_tree \<times> err option) outcome" where
  "discover_build ord edges =
     obind (add_mounts ord edges NewMultiTree) (\<lambda>(mt, err).
       case err of
         Some x \<Rightarrow> Val (mt, Some (Wrap ''unable to create digi graph'' (Err (mt_error_text x))))
       | None \<Rightarrow> Val (mt, None))"

definition discoverGraph ::
  "kube_lib \<Rightarrow> discovery_lib \<Rightarrow> order \<Rightarrow> string list \<Rightarrow> multi_tree \<Rightarrow> (multi_tree \<times> err option) outcome" where
  "discoverGraph kl dl ord apiGroups mt =
     obind (discover_scan kl dl ord apiGroups) (\<lambda>res.
       case res of
         Inl e \<Rightarrow> Val (mt, Some e)
       | Inr edges \<Rightarrow> discover_build ord edges)"

text \<open>
  \<open>apiGroupFromStr\<close>: the texts of the groups in a comma-separated list, with
  \<open>schema.ParseGroupVersion\<close> as an argument.
\<close>

fun parse_groups ::
  "(string \<Rightarrow> err + string \<times> string) \<Rightarrow> (string \<Rightarrow> string \<Rightarrow> string) \<Rightarrow> string list \<Rightarrow>
   (string, string \<times> string) gomap \<Rightarrow> err + (string, string \<times> string) gomap" where
  "parse_groups parse gvs [] ags = Inr ags"
| "parse_groups parse gvs (k # ks) ags =
     (case parse k of
        Inl e \<Rightarrow> Inl e
      | Inr (g, v) \<Rightarrow> parse_groups parse gvs ks (AList.update (gvs g v) (g, v) ags))"

definition apiGroupFromStr ::
  "(string \<Rightarrow> err + string \<times> string) \<Rightarrow> (string \<Rightarrow> string \<Rightarrow> string) \<Rightarrow> string \<Rightarrow>
   err + (string, string \<times> string) gomap" where
  "apiGroupFromStr parse gvs raw = parse_groups parse gvs (split_on (CHR '','') raw) []"

section \<open>The server as a step relation\<close>

text \<open>
  Requests are served while the discovery goroutine runs. Each call takes the lock of the graph
  for its whole change, so the interleavings are those of whole steps: a request, the scan of the
  cluster, and the building of the graph from what the scan found.
\<close>

datatype discovery = NotScanned | Scanned "edge list" | Built

record server =
  sv_mt :: multi_tree
  sv_disc :: discovery

inductive server_step ::
  "kube_lib \<Rightarrow> discovery_lib \<Rightarrow> order \<Rightarrow> string list \<Rightarrow> server \<Rightarrow> server \<Rightarrow> bool"
  for kl dl ord groups where
  request: "Validate kl ord (Some rq) (sv_mt s) = Val (mt', v) \<Longrightarrow>
    server_step kl dl ord groups s (s\<lparr>sv_mt := mt'\<rparr>)"
| panic: "Validate kl ord ar (sv_mt s) = Panic why \<Longrightarrow> server_step kl dl ord groups s s"
    \<comment> \<open>\<open>net/http\<close> recovers a panic of a handler; nothing panics after the graph is first changed\<close>
| scan: "discover_scan kl dl ord groups = Val (Inr es) \<Longrightarrow> sv_disc s = NotScanned \<Longrightarrow>
    server_step kl dl ord groups s (s\<lparr>sv_disc := Scanned es\<rparr>)"
| build: "sv_disc s = Scanned es \<Longrightarrow> discover_build ord es = Val (mt', None) \<Longrightarrow>
    server_step kl dl ord groups s (s\<lparr>sv_mt := mt', sv_disc := Built\<rparr>)"

inductive_cases server_stepE: "server_step kl dl ord groups s s'"

inductive server_reach ::
  "kube_lib \<Rightarrow> discovery_lib \<Rightarrow> order \<Rightarrow> string list \<Rightarrow> server \<Rightarrow> bool"
  for kl dl ord groups where
  start: "server_reach kl dl ord groups \<lparr>sv_mt = NewMultiTree, sv_disc = NotScanned\<rparr>"
| step: "server_reach kl dl ord groups s \<Longrightarrow> server_step kl dl ord groups s s' \<Longrightarrow>
    server_reach kl dl ord groups s'"

section \<open>What a create request does\<close>

lemma mountEdges_mem:
  assumes "range_order ord"
  shows "e \<in> set (mountEdges ord oid refs) \<longleftrightarrow>
    (\<exists>n \<in> set (keys_of (cr_mounts refs)). e = \<lparr>e_Start = oid, e_End = n,
       e_Status = (if map_of (cr_yields refs) n \<noteq> None then InactiveStatus else ActiveStatus)\<rparr>)"
proof -
  have "set (mountEdges ord oid refs) = (\<lambda>n. \<lparr>e_Start = oid, e_End = n,
      e_Status = (if map_of (cr_yields refs) n \<noteq> None then InactiveStatus else ActiveStatus)\<rparr>) `
      set (keys_of (cr_mounts refs))"
    by (simp only: mountEdges_def list.set_map range_order_set [OF assms])
  then show ?thesis by blast
qed

lemma edge_pairs_mountEdges:
  assumes "range_order ord"
  shows "edge_pairs (mountEdges ord oid refs) = {oid} \<times> set (keys_of (cr_mounts refs))"
proof -
  have "p \<in> edge_pairs (mountEdges ord oid refs) \<longleftrightarrow> p \<in> {oid} \<times> set (keys_of (cr_mounts refs))" for p
    by (cases p) (force simp only: edge_pairs_def image_iff Bex_def mountEdges_mem [OF assms] edge.simps)
  then show ?thesis by blast
qed

lemma edges_named_mountEdges:
  "range_order ord \<Longrightarrow> oid \<noteq> [] \<Longrightarrow> [] \<notin> set (keys_of (cr_mounts refs)) \<Longrightarrow>
    edges_named (mountEdges ord oid refs)"
  by (auto simp only: edges_named_def Ball_def mountEdges_mem edge.simps)

lemma nns_not_empty: "nns_documented nns \<Longrightarrow> nns n \<noteq> []"
  by (simp add: nns_documented_def)

definition oid_of :: "kube_lib \<Rightarrow> obj \<Rightarrow> string" where
  "oid_of kl ob = kl_nns kl \<lparr>n_Namespace = kl_GetNamespace kl ob, n_Name = kl_GetName kl ob\<rparr>"

lemma objId_namespaced: "objId kl (Some ob) True = Val (oid_of kl ob)"
  by (simp add: objId_def oid_of_def)

lemma doCreate_spec:
  assumes ord: "range_order ord" and nns: "nns_documented (kl_nns kl)" and inv: "mt_inv mt"
    and dec: "kl_decode kl njson = Inr (Some ob)" and refs: "getCompositionRefs ord (Some ob) = Val refs"
    and named: "[] \<notin> set (keys_of (cr_mounts refs))"
  shows "\<exists>mt' v. doCreate kl ord njson mt = Val (mt', v, None) \<and> mt_inv mt' \<and>
    (vr_Valid v \<longleftrightarrow> multitree (mt_edges mt \<union> {oid_of kl ob} \<times> set (keys_of (cr_mounts refs)))) \<and>
    (vr_Valid v \<longrightarrow> mt_edges mt' = mt_edges mt \<union> {oid_of kl ob} \<times> set (keys_of (cr_mounts refs)))"
proof -
  let ?es = "mountEdges ord (oid_of kl ob) refs"
  have oid: "oid_of kl ob \<noteq> []" using nns_not_empty [OF nns] by (simp add: oid_of_def)
  obtain mt' res where r: "add_mounts ord ?es mt = Val (mt', res)" "mt_inv mt'"
    "res = None \<longleftrightarrow> multitree (mt_edges mt \<union> edge_pairs ?es)"
    "res = None \<longrightarrow> mt_edges mt' = mt_edges mt \<union> edge_pairs ?es"
    using mt.add_all_spec [of ord mt ?es] ord inv edges_named_mountEdges [OF ord oid named] by blast
  with dec refs show ?thesis
    unfolding edge_pairs_mountEdges [OF ord]
    by (cases res) (auto simp: doCreate_def objId_namespaced)
qed

text \<open>What the state is after any request: a graph that satisfies the invariant again.\<close>

definition requests_named :: "kube_lib \<Rightarrow> order \<Rightarrow> bool" where
  "requests_named kl ord \<longleftrightarrow> (\<forall>raw ob refs. kl_decode kl raw = Inr (Some ob) \<longrightarrow>
     getCompositionRefs ord (Some ob) = Val refs \<longrightarrow> [] \<notin> set (keys_of (cr_mounts refs)))"

definition cluster_named :: "kube_lib \<Rightarrow> discovery_lib \<Rightarrow> order \<Rightarrow> string list \<Rightarrow> bool" where
  "cluster_named kl dl ord groups \<longleftrightarrow>
     (\<forall>es. discover_scan kl dl ord groups = Val (Inr es) \<longrightarrow> edges_named es)"

lemma Validate_inv:
  assumes "range_order ord" and "nns_documented (kl_nns kl)" and "requests_named kl ord"
    and inv: "mt_inv mt" and run: "Validate kl ord ar mt = Val (mt', v)"
  shows "mt_inv mt'"
proof (cases "\<exists>rq. ar = Some rq \<and> rq_Operation rq = op_CREATE")
  case False
  with run inv show ?thesis by (auto simp: Validate_def split: option.splits if_splits)
next
  case True
  then obtain rq where rq: "ar = Some rq" "rq_Operation rq = op_CREATE" by blast
  with run have dc: "doCreate kl ord (rq_Object rq) mt = Val (mt', v)" by (simp add: Validate_def)
  show ?thesis
  proof (cases "kl_decode kl (rq_Object rq)")
    case (Inl e)
    with dc inv show ?thesis by (auto simp: doCreate_def)
  next
    case (Inr p)
    with dc obtain ob refs where ob: "p = Some ob" "getCompositionRefs ord p = Val refs"
      by (cases p) (auto simp: doCreate_def objId_def obind_Val_iff)
    with assms(3) Inr have "[] \<notin> set (keys_of (cr_mounts refs))" by (auto simp: requests_named_def)
    from doCreate_spec [OF assms(1,2) inv Inr [unfolded ob(1)] ob(2) [unfolded ob(1)] this] dc
    show ?thesis by auto
  qed
qed

lemma discover_build_spec:
  assumes "range_order ord" and "edges_named es"
  shows "\<exists>mt' err. discover_build ord es = Val (mt', err) \<and> mt_inv mt' \<and>
    (err = None \<longleftrightarrow> multitree (edge_pairs es)) \<and> (err = None \<longrightarrow> mt_edges mt' = edge_pairs es)"
proof -
  have new: "mt_edges NewMultiTree = {}" by (simp add: mt_edges_def edges_of_def NewMultiTree_def)
  obtain mt' res where "add_mounts ord es NewMultiTree = Val (mt', res)" "mt_inv mt'"
    "res = None \<longleftrightarrow> multitree (edge_pairs es)" "res = None \<longrightarrow> mt_edges mt' = edge_pairs es"
    using mt.add_all_spec [of ord NewMultiTree es] assms mt_inv_new unfolding new by auto
  then show ?thesis by (cases res) (auto simp: discover_build_def)
qed

lemma server_reach_inv:
  assumes "range_order ord" and "nns_documented (kl_nns kl)" and "requests_named kl ord"
    and "cluster_named kl dl ord groups" and "server_reach kl dl ord groups s"
  shows "mt_inv (sv_mt s) \<and> (\<forall>es. sv_disc s = Scanned es \<longrightarrow> edges_named es)"
  using assms(5)
proof induction
  case start
  then show ?case by (simp add: mt_inv_new)
next
  case (step s s')
  from step(2) show ?case
  proof (cases rule: server_step.cases)
    case (request rq mt' v)
    have "mt_inv mt'" by (rule Validate_inv [OF assms(1-3) _ request(2)]) (use step.IH in simp)
    with request(1) step.IH show ?thesis by simp
  next
    case (scan es)
    with assms(4) step.IH show ?thesis by (simp add: cluster_named_def)
  next
    case (build es mt')
    with discover_build_spec [OF assms(1), of es] step.IH show ?thesis by auto
  qed (use step.IH in simp)
qed

section \<open>A library to evaluate with\<close>

text \<open>
  Objects as the raw text "kind-less" fixtures name them: the decoder below knows a few texts.
\<close>

definition meta :: "string \<Rightarrow> json" where
  "meta name = JObj [(''name'', JStr name), (''namespace'', JStr ''default'')]"

definition nested_str :: "obj \<Rightarrow> string \<Rightarrow> string" where
  "nested_str ob field =
     (case map_of ob ''metadata'' of
        Some (JObj m) \<Rightarrow> (case map_of m field of Some (JStr s) \<Rightarrow> s | _ \<Rightarrow> [])
      | _ \<Rightarrow> [])"

definition flat_mounts :: "string list \<Rightarrow> json" where
  "flat_mounts ns = JObj [(''lamps'', JObj (map (\<lambda>n. (n, JStr ''hide'')) ns))]"

definition demo_obj :: "string \<Rightarrow> string list \<Rightarrow> obj" where
  "demo_obj name ns = [(''metadata'', meta name), (MountAttrPath, flat_mounts ns)]"

text \<open>A digi as it is stored: the mounts under \<open>spec\<close>, \<open>mount\<close>.\<close>

definition real_obj :: "string \<Rightarrow> string list \<Rightarrow> obj" where
  "real_obj name ns = [(''metadata'', meta name),
     (''spec'', JObj [(''mount'', JObj [(''lamps'', JObj (map (\<lambda>n. (n, JObj [(''mode'', JStr ''hide'')])) ns))])])]"

definition demo_decode :: "string \<Rightarrow> err + obj option" where
  "demo_decode raw =
     (if raw = ''a'' then Inr (Some (demo_obj ''a'' [''default/b'']))
      else if raw = ''b'' then Inr (Some (demo_obj ''b'' [''default/a'']))
      else if raw = ''c'' then Inr (Some (demo_obj ''c'' [''default/d'', ''default/a'', ''default/b'']))
      else if raw = ''real'' then Inr (Some (real_obj ''b'' [''default/a'']))
      else if raw = ''null'' then Inr None
      else Inl (Err ''invalid character''))"

definition demo_lib :: kube_lib where
  "demo_lib = \<lparr>kl_decode = demo_decode, kl_GetName = (\<lambda>ob. nested_str ob ''name''),
     kl_GetNamespace = (\<lambda>ob. nested_str ob ''namespace''), kl_nns = nns_plain,
     kl_diff = (\<lambda>_ _. None)\<rparr>"

lemma demo_lib_nns [simp]: "nns_documented (kl_nns demo_lib)"
  by (simp add: demo_lib_def)

lemma demo_lib_named: "requests_named demo_lib (\<lambda>xs. xs)"
proof -
  have "case getCompositionRefs (\<lambda>xs. xs) (Some ob) of Val refs \<Rightarrow> [] \<notin> set (keys_of (cr_mounts refs)) | _ \<Rightarrow> True"
    if "demo_decode raw = Inr (Some ob)" for raw ob
  proof -
    from that have "ob \<in> set [demo_obj ''a'' [''default/b''], demo_obj ''b'' [''default/a''],
        demo_obj ''c'' [''default/d'', ''default/a'', ''default/b''], real_obj ''b'' [''default/a'']]"
      by (auto simp: demo_decode_def split: if_splits)
    moreover have "list_all (\<lambda>ob. case getCompositionRefs (\<lambda>xs. xs) (Some ob) of
        Val refs \<Rightarrow> [] \<notin> set (keys_of (cr_mounts refs)) | _ \<Rightarrow> True)
      [demo_obj ''a'' [''default/b''], demo_obj ''b'' [''default/a''],
        demo_obj ''c'' [''default/d'', ''default/a'', ''default/b''], real_obj ''b'' [''default/a'']]"
      by code_simp
    ultimately show ?thesis by (auto simp only: list_all_iff)
  qed
  then show ?thesis unfolding requests_named_def demo_lib_def by (fastforce split: outcome.splits)
qed

text \<open>No API groups at all: the discovery finds nothing.\<close>

definition empty_cluster :: discovery_lib where
  "empty_cluster = \<lparr>dl_groups = Inr [], dl_gvString = (\<lambda>g v. g @ ''/'' @ v), dl_list = (\<lambda>_. None)\<rparr>"

lemma empty_cluster_scan: "discover_scan kl empty_cluster ord groups = Val (Inr [])"
  by (simp add: discover_scan_def empty_cluster_def)

lemma empty_cluster_named [simp]: "cluster_named kl empty_cluster ord groups"
  by (simp add: cluster_named_def empty_cluster_scan edges_named_def)

section \<open>Properties\<close>

text \<open>
  C4. In every state the webhook server can reach, by requests in any number and order, panicking
  ones too, interleaved with the discovery of the cluster in any way, the digi-graph is a
  multi-tree.
\<close>

theorem server_graph_is_multitree:
  assumes "range_order ord" and "nns_documented (kl_nns kl)" and "requests_named kl ord"
    and "cluster_named kl dl ord groups" and "server_reach kl dl ord groups s"
  shows "multitree (mt_edges (sv_mt s))"
  using server_reach_inv [OF assms] mt_invD(4) by blast

lemma server_graph_is_multitree_witness:
  "multitree (mt_edges (sv_mt \<lparr>sv_mt = NewMultiTree, sv_disc = Scanned []\<rparr>))"
proof -
  have "server_step demo_lib empty_cluster (\<lambda>xs. xs) []
      \<lparr>sv_mt = NewMultiTree, sv_disc = NotScanned\<rparr> \<lparr>sv_mt = NewMultiTree, sv_disc = Scanned []\<rparr>"
    using server_step.scan [OF empty_cluster_scan, of "\<lparr>sv_mt = NewMultiTree, sv_disc = NotScanned\<rparr>"
        demo_lib "\<lambda>xs. xs" "[]"] by simp
  with server_reach.start have "server_reach demo_lib empty_cluster (\<lambda>xs. xs) []
      \<lparr>sv_mt = NewMultiTree, sv_disc = Scanned []\<rparr>" by (rule server_reach.step)
  from server_graph_is_multitree [OF range_order_id demo_lib_nns demo_lib_named empty_cluster_named this]
  show ?thesis .
qed

text \<open>
  C6. The verdict on a CREATE: the object is allowed exactly when the graph with all its mounts
  added is still a multi-tree, whatever the order in which the mounts are visited; when it is
  allowed all its mounts are in the graph.
\<close>

theorem create_verdict:
  assumes "range_order ord" and "nns_documented (kl_nns kl)" and "requests_named kl ord"
    and "cluster_named kl dl ord groups" and "server_reach kl dl ord groups s"
    and "kl_decode kl raw = Inr (Some ob)" and "getCompositionRefs ord (Some ob) = Val refs"
  shows "\<exists>mt' v. doCreate kl ord raw (sv_mt s) = Val (mt', v, None) \<and>
    (vr_Valid v \<longleftrightarrow>
       multitree (mt_edges (sv_mt s) \<union> {oid_of kl ob} \<times> set (keys_of (cr_mounts refs)))) \<and>
    (vr_Valid v \<longrightarrow>
       mt_edges mt' = mt_edges (sv_mt s) \<union> {oid_of kl ob} \<times> set (keys_of (cr_mounts refs)))"
proof -
  have "[] \<notin> set (keys_of (cr_mounts refs))" using assms(3,6,7) by (auto simp: requests_named_def)
  moreover have "mt_inv (sv_mt s)" using server_reach_inv [OF assms(1-5)] by blast
  ultimately show ?thesis using doCreate_spec [OF assms(1,2) _ assms(6,7)] by blast
qed

lemma create_verdict_witness:
  "\<exists>mt' v (refs :: composition_refs). doCreate demo_lib (\<lambda>xs. xs) ''a'' NewMultiTree = Val (mt', v, None) \<and>
    (vr_Valid v \<longrightarrow> mt_edges mt' = {''default/a''} \<times> set (keys_of (cr_mounts refs)))"
proof -
  let ?ob = "demo_obj ''a'' [''default/b'']"
  have dec: "kl_decode demo_lib ''a'' = Inr (Some ?ob)" by (simp add: demo_lib_def demo_decode_def)
  have refs: "getCompositionRefs (\<lambda>xs. xs) (Some ?ob) =
      Val \<lparr>cr_mounts = [(''default/b'', ''hide'')], cr_yields = []\<rparr>" by code_simp
  have oid: "oid_of demo_lib ?ob = ''default/a''" by code_simp
  have new: "mt_edges NewMultiTree = {}" by (simp add: mt_edges_def edges_of_def NewMultiTree_def)
  let ?refs = "\<lparr>cr_mounts = [(''default/b'', ''hide'')], cr_yields = []\<rparr> :: composition_refs"
  from create_verdict [OF range_order_id demo_lib_nns demo_lib_named empty_cluster_named
      server_reach.start dec refs]
  obtain mt' v where "doCreate demo_lib (\<lambda>xs. xs) ''a'' NewMultiTree = Val (mt', v, None)"
    "vr_Valid v \<longrightarrow> mt_edges mt' = {''default/a''} \<times> set (keys_of (cr_mounts ?refs))"
    unfolding oid server.simps new Un_empty_left by (elim exE conjE)
  then show ?thesis by (intro exI [of _ mt'] exI [of _ v] exI [of _ ?refs] conjI)
qed

text \<open>
  The mounts of a digi are stored under spec, mount; the webhook looks for the single key
  ".spec.mount" at the top of the object, so an object without that literal key is always allowed
  and leaves the graph as it is, whatever it mounts. The webhook checks nothing on such objects.
\<close>

theorem nested_mounts_never_checked:
  assumes "kl_decode kl raw = Inr (Some ob)" and "map_of ob MountAttrPath = None"
    and "range_order ord"
  shows "doCreate kl ord raw mt = Val (mt, \<lparr>vr_Valid = True, vr_Message = []\<rparr>, None)"
proof -
  have "ord [] = []" using assms(3) by (simp add: range_order_def flip: mset_zero_iff)
  with assms(1,2) show ?thesis
    by (simp add: doCreate_def objId_def getCompositionRefs_def getFlattenRefs_def mountEdges_def)
qed

lemma nested_mounts_never_checked_witness:
  "doCreate demo_lib rev ''real'' NewMultiTree =
    Val (NewMultiTree, \<lparr>vr_Valid = True, vr_Message = []\<rparr>, None)"
  by (rule nested_mounts_never_checked [of _ _ "real_obj ''b'' [''default/a'']"])
    (simp_all add: demo_lib_def demo_decode_def real_obj_def MountAttrPath_def)

text \<open>
  A denied CREATE is not undone: the mounts added before the refused one stay in the graph
  although the object does not exist. Here the object c is denied, and the graph keeps its edges
  to d and a.
\<close>

theorem denied_create_leaves_edges:
  "\<exists>mt1 mt2 v. add_mounts (\<lambda>xs. xs) [\<lparr>e_Start = ''default/a'', e_End = ''default/b'', e_Status = ActiveStatus\<rparr>]
      NewMultiTree = Val (mt1, None) \<and>
    doCreate demo_lib (\<lambda>xs. xs) ''c'' mt1 = Val (mt2, v, None) \<and> \<not> vr_Valid v \<and>
    \<not> NodeExists mt1 ''default/c'' \<and>
    EdgeExists mt2 ''default/c'' ''default/d'' = Val True \<and>
    EdgeExists mt2 ''default/c'' ''default/a'' = Val True"
proof -
  have "case add_mounts (\<lambda>xs. xs) [\<lparr>e_Start = ''default/a'', e_End = ''default/b'', e_Status = ActiveStatus\<rparr>]
      NewMultiTree of
     Val (mt1, None) \<Rightarrow>
       (case doCreate demo_lib (\<lambda>xs. xs) ''c'' mt1 of
          Val (mt2, v, None) \<Rightarrow> \<not> vr_Valid v \<and> \<not> NodeExists mt1 ''default/c'' \<and>
            EdgeExists mt2 ''default/c'' ''default/d'' = Val True \<and>
            EdgeExists mt2 ''default/c'' ''default/a'' = Val True
        | _ \<Rightarrow> False)
   | _ \<Rightarrow> False" by code_simp
  then show ?thesis by (auto split: outcome.splits option.splits prod.splits)
qed

text \<open>
  C9. Deletions do not reach the graph: after the object a that mounts b was allowed and then
  deleted, an object b that mounts a is still denied.
\<close>

theorem delete_keeps_blocking:
  assumes "range_order ord" and "nns_documented (kl_nns kl)" and "requests_named kl ord"
    and "cluster_named kl dl ord groups" and "server_reach kl dl ord groups s"
    and a: "kl_decode kl ra = Inr (Some oa)" "getCompositionRefs ord (Some oa) = Val refa"
    and b: "kl_decode kl rb = Inr (Some ob)" "getCompositionRefs ord (Some ob) = Val refb"
    and cycle: "oid_of kl ob \<in> set (keys_of (cr_mounts refa))" "oid_of kl oa \<in> set (keys_of (cr_mounts refb))"
    and ok: "doCreate kl ord ra (sv_mt s) = Val (mt1, v1, None)" "vr_Valid v1"
    and del: "rq_Operation rq = ''DELETE''"
  shows "\<exists>mt2 v2 mt3 v3. Validate kl ord (Some rq) mt1 = Val (mt2, v2) \<and>
    doCreate kl ord rb mt2 = Val (mt3, v3, None) \<and> \<not> vr_Valid v3"
proof -
  have inv: "mt_inv (sv_mt s)" using server_reach_inv [OF assms(1-5)] by blast
  have named: "[] \<notin> set (keys_of (cr_mounts refa))" "[] \<notin> set (keys_of (cr_mounts refb))"
    using assms(3) a b by (auto simp: requests_named_def)
  from doCreate_spec [OF assms(1,2) inv a named(1)] ok
  have mt1: "mt_inv mt1" "(oid_of kl oa, oid_of kl ob) \<in> mt_edges mt1" using cycle(1) by auto
  have same: "Validate kl ord (Some rq) mt1 = Val (mt1, \<lparr>vr_Valid = True, vr_Message = ''pass unhandled verb''\<rparr>, None)"
    using del by (simp add: Validate_def)
  let ?E = "mt_edges mt1 \<union> {oid_of kl ob} \<times> set (keys_of (cr_mounts refb))"
  have "(oid_of kl oa, oid_of kl ob) \<in> ?E" "(oid_of kl ob, oid_of kl oa) \<in> ?E" using mt1(2) cycle(2) by auto
  then have "\<not> multitree ?E" by (rule two_cycle_not_multitree)
  with doCreate_spec [OF assms(1,2) mt1(1) b named(2)] same show ?thesis by fastforce
qed

lemma delete_keeps_blocking_witness:
  "\<exists>mt1 v1 mt3 v3. doCreate demo_lib (\<lambda>xs. xs) ''a'' NewMultiTree = Val (mt1, v1, None) \<and>
    doCreate demo_lib (\<lambda>xs. xs) ''b'' mt1 = Val (mt3, v3, None) \<and> \<not> vr_Valid v3"
proof -
  let ?oa = "demo_obj ''a'' [''default/b'']" and ?ob = "demo_obj ''b'' [''default/a'']"
  let ?ra = "\<lparr>cr_mounts = [(''default/b'', ''hide'')], cr_yields = []\<rparr>"
  let ?rb = "\<lparr>cr_mounts = [(''default/a'', ''hide'')], cr_yields = []\<rparr>"
  let ?rq = "\<lparr>rq_UID = ''1'', rq_Operation = ''DELETE'', rq_Object = [], rq_OldObject = ''a''\<rparr>"
  have a: "kl_decode demo_lib ''a'' = Inr (Some ?oa)" "getCompositionRefs (\<lambda>xs. xs) (Some ?oa) = Val ?ra"
    and b: "kl_decode demo_lib ''b'' = Inr (Some ?ob)" "getCompositionRefs (\<lambda>xs. xs) (Some ?ob) = Val ?rb"
    by (simp add: demo_lib_def demo_decode_def, code_simp, simp add: demo_lib_def demo_decode_def, code_simp)
  have cycle: "oid_of demo_lib ?ob \<in> set (keys_of (cr_mounts ?ra))"
    "oid_of demo_lib ?oa \<in> set (keys_of (cr_mounts ?rb))" by code_simp+
  have "case doCreate demo_lib (\<lambda>xs. xs) ''a'' NewMultiTree of
      Val (mt1, v1, None) \<Rightarrow> vr_Valid v1 | _ \<Rightarrow> False" by code_simp
  then obtain mt1 v1 where ok: "doCreate demo_lib (\<lambda>xs. xs) ''a'' NewMultiTree = Val (mt1, v1, None)" "vr_Valid v1"
    by (auto split: outcome.splits option.splits prod.splits)
  have "\<exists>mt2 v2 mt3 v3. Validate demo_lib (\<lambda>xs. xs) (Some ?rq) mt1 = Val (mt2, v2) \<and>
      doCreate demo_lib (\<lambda>xs. xs) ''b'' mt2 = Val (mt3, v3, None) \<and> \<not> vr_Valid v3"
    by (rule delete_keeps_blocking [OF range_order_id demo_lib_nns demo_lib_named empty_cluster_named
          server_reach.start a b cycle]) (use ok in simp_all)
  with ok(1) show ?thesis by (auto simp: Validate_def)
qed

text \<open>
  C10. The discovery forgets requests served while it runs: the graph it puts in place is that of
  its scan alone, so mounts allowed after the scan and before the build are lost.
\<close>

theorem discovery_forgets_requests:
  assumes "range_order ord" and "nns_documented (kl_nns kl)" and "requests_named kl ord"
    and "cluster_named kl dl ord groups" and "server_reach kl dl ord groups s"
    and "sv_disc s = Scanned es" and "server_step kl dl ord groups s s'" and "sv_disc s' = Built"
  shows "mt_edges (sv_mt s') = edge_pairs es"
  using assms(7)
proof (cases rule: server_step.cases)
  case (build es' mt')
  with server_reach_inv [OF assms(1-5)] discover_build_spec [OF assms(1), of es] assms(6)
  show ?thesis by auto
qed (use assms(6,8) in auto)

lemma discovery_forgets_requests_witness:
  "\<exists>s s'. sv_disc s = Scanned [] \<and> mt_edges (sv_mt s) \<noteq> {} \<and>
    server_step demo_lib empty_cluster (\<lambda>xs. xs) [] s s' \<and> mt_edges (sv_mt s') = edge_pairs []"
proof -
  let ?s0 = "\<lparr>sv_mt = NewMultiTree, sv_disc = NotScanned\<rparr>" and ?s1 = "\<lparr>sv_mt = NewMultiTree, sv_disc = Scanned []\<rparr>"
  let ?rq = "\<lparr>rq_UID = ''1'', rq_Operation = ''CREATE'', rq_Object = ''a'', rq_OldObject = []\<rparr>"
  let ?R = "server_reach demo_lib empty_cluster (\<lambda>xs. xs) []"
  have "server_step demo_lib empty_cluster (\<lambda>xs. xs) [] ?s0 ?s1"
    using server_step.scan [OF empty_cluster_scan, of ?s0 demo_lib "\<lambda>xs. xs" "[]"] by simp
  with server_reach.start have r1: "?R ?s1" by (rule server_reach.step)
  have "case Validate demo_lib (\<lambda>xs. xs) (Some ?rq) NewMultiTree of
      Val (mt1, v, None) \<Rightarrow> EdgeExists mt1 ''default/a'' ''default/b'' = Val True | _ \<Rightarrow> False" by code_simp
  then obtain mt1 v where v: "Validate demo_lib (\<lambda>xs. xs) (Some ?rq) NewMultiTree = Val (mt1, v, None)"
    "EdgeExists mt1 ''default/a'' ''default/b'' = Val True"
    by (auto split: outcome.splits option.splits prod.splits)
  let ?s2 = "?s1\<lparr>sv_mt := mt1\<rparr>"
  have "server_step demo_lib empty_cluster (\<lambda>xs. xs) [] ?s1 ?s2"
    by (rule server_step.request) (use v in simp)
  with r1 have r2: "?R ?s2" by (rule server_reach.step)
  have "mt_inv mt1" using server_reach_inv [OF range_order_id demo_lib_nns demo_lib_named empty_cluster_named r2] by simp
  with v(2) have edge: "(''default/a'', ''default/b'') \<in> mt_edges mt1" by (simp add: EdgeExists_edges)
  let ?s3 = "?s2\<lparr>sv_mt := NewMultiTree, sv_disc := Built\<rparr>"
  have st: "server_step demo_lib empty_cluster (\<lambda>xs. xs) [] ?s2 ?s3"
    by (rule server_step.build [of _ "[]"]) (simp_all add: discover_build_def)
  have lost: "mt_edges (sv_mt ?s3) = edge_pairs []"
    by (rule discovery_forgets_requests [OF range_order_id demo_lib_nns demo_lib_named
          empty_cluster_named r2 _ st]) simp_all
  have "sv_disc ?s2 = Scanned []" and "mt_edges (sv_mt ?s2) \<noteq> {}" using edge by auto
  with st lost show ?thesis by blast
qed

end
