(* ===== verification/Webhook_Http.thy ===== *)
theory Webhook_Http
  imports Webhook
begin

text \<open>
  The webhook around the validator: \<open>validating/webhook.go\<close> turns a verdict into an admission
  response, \<open>http/handler.go\<close> turns an HTTP request into a review and the response into an HTTP
  answer. The \<open>ResponseWriter\<close> of \<open>net/http\<close> is a record: what is set in the header after the
  status line is sent has no effect.
\<close>

section \<open>Admission responses\<close>

abbreviation "StatusSuccess \<equiv> ''Success''"
abbreviation "StatusFailure \<equiv> ''Failure''"

record adm_response =
  rp_UID :: string
  rp_Allowed :: bool
  rp_Result :: "(string \<times> string) option"
    \<comment> \<open>status and message\<close>

definition ToAdmissionErrorResponse :: "string \<Rightarrow> err \<Rightarrow> adm_response" where
  "ToAdmissionErrorResponse uid e =
     \<lparr>rp_UID = uid, rp_Allowed = False, rp_Result = Some (StatusFailure, err_text e)\<rparr>"

definition WebhookConfig_validate :: "string \<Rightarrow> err option" where
  "WebhookConfig_validate cfgName =
     (let errs = (if cfgName = [] then ''name can't be empty'' else [])
      in if errs \<noteq> [] then Some (Wrap ''invalid configuration'' (Err errs)) else None)"

text \<open>A webhook is its name and its validator.\<close>

definition NewWebhook :: "string \<Rightarrow> 'v \<Rightarrow> err + string \<times> 'v" where
  "NewWebhook cfgName validator =
     (case WebhookConfig_validate cfgName of Some e \<Rightarrow> Inl e | None \<Rightarrow> Inr (cfgName, validator))"

type_synonym 's validator = "adm_request option \<Rightarrow> 's \<Rightarrow> ('s \<times> verdict) outcome"

definition Review :: "'s validator \<Rightarrow> adm_request option \<Rightarrow> 's \<Rightarrow> ('s \<times> adm_response) outcome" where
  "Review validate ar s =
     (case ar of
        None \<Rightarrow> nil_deref
      | Some rq \<Rightarrow>
          obind (validate ar s) (\<lambda>(s', res, err).
            case err of
              Some e \<Rightarrow> Val (s', ToAdmissionErrorResponse (rq_UID rq) e)
            | None \<Rightarrow>
                let status = (if vr_Valid res then StatusSuccess else [])
                in Val (s', \<lparr>rp_UID = rq_UID rq, rp_Allowed = vr_Valid res,
                          rp_Result = Some (status, vr_Message res)\<rparr>)))"

section \<open>HTTP\<close>

record http_writer =
  hw_status :: "nat option"
  hw_header :: "(string, string) gomap"
  hw_body :: string

definition fresh_writer :: http_writer where
  "fresh_writer = \<lparr>hw_status = None, hw_header = [], hw_body = []\<rparr>"

definition hdr_set :: "string \<Rightarrow> string \<Rightarrow> http_writer \<Rightarrow> http_writer" where
  "hdr_set k v w = (if hw_status w = None then w\<lparr>hw_header := AList.update k v (hw_header w)\<rparr> else w)"

definition write_header :: "nat \<Rightarrow> http_writer \<Rightarrow> http_writer" where
  "write_header code w = (if hw_status w = None then w\<lparr>hw_status := Some code\<rparr> else w)"

definition write_body :: "string \<Rightarrow> http_writer \<Rightarrow> http_writer" where
  "write_body s w = (let w1 = write_header 200 w in w1\<lparr>hw_body := hw_body w1 @ s\<rparr>)"

definition http_error :: "string \<Rightarrow> nat \<Rightarrow> http_writer \<Rightarrow> http_writer" where
  "http_error msg code w =
     write_body (msg @ [CHR 0x0A]) (write_header code
       (hdr_set ''X-Content-Type-Options'' ''nosniff''
         (hdr_set ''Content-Type'' ''text/plain; charset=utf-8'' w)))"

text \<open>
  The calls the handler makes: the decoder of a review, the encoder of a response, and whether
  writing the body to the connection fails.
\<close>

record http_lib =
  hl_decode :: "string \<Rightarrow> err + adm_request option"
  hl_marshal :: "adm_response \<Rightarrow> err + string"
  hl_write :: "string \<Rightarrow> err option"

text \<open>The body: nil, or the result of reading it.\<close>

definition read_body :: "(err + string) option \<Rightarrow> string" where
  "read_body b = (case b of Some (Inr data) \<Rightarrow> data | _ \<Rightarrow> [])"

definition handle ::
  "http_lib \<Rightarrow> 's validator \<Rightarrow> (err + string) option \<Rightarrow> 's \<Rightarrow> ('s \<times> http_writer) outcome" where
  "handle hl validate rbody s =
     (let w = fresh_writer; body = read_body rbody in
      if body = [] then Val (s, http_error ''no body found'' 400 w)
      else (case hl_decode hl body of
              Inl _ \<Rightarrow> Val (s, http_error ''could not decode the admission review from the request'' 400 w)
            | Inr ar \<Rightarrow>
                obind (Review validate ar s) (\<lambda>(s', admissionResp).
                  case hl_marshal hl admissionResp of
                    Inl _ \<Rightarrow> Val (s', http_error ''error marshaling to json admission review response'' 500 w)
                  | Inr resp \<Rightarrow>
                      let w1 = (case rp_Result admissionResp of
                                  Some (status, _) \<Rightarrow> if status = StatusFailure then write_header 500 w else w
                                | None \<Rightarrow> w);
                          w2 = hdr_set ''Content-Type'' ''application/json'' w1
                      in (case hl_write hl resp of
                            None \<Rightarrow> Val (s', write_body resp w2)
                          | Some e \<Rightarrow>
                              Val (s', http_error (''could not write response: '' @ err_text e) 500
                                         (write_header 200 w2))))))"

text \<open>\<open>HandlerFor\<close> refuses a nil webhook and \<open>MustHandlerFor\<close> panics on its error.\<close>

definition HandlerFor ::
  "http_lib \<Rightarrow> 's validator option \<Rightarrow> err + ((err + string) option \<Rightarrow> 's \<Rightarrow> ('s \<times> http_writer) outcome)" where
  "HandlerFor hl wh =
     (case wh of None \<Rightarrow> Inl (Err ''webhook can't be nil'') | Some v \<Rightarrow> Inr (handle hl v))"

definition MustHandlerFor ::
  "http_lib \<Rightarrow> 's validator option \<Rightarrow> ((err + string) option \<Rightarrow> 's \<Rightarrow> ('s \<times> http_writer) outcome) outcome" where
  "MustHandlerFor hl wh =
     (case HandlerFor hl wh of Inl e \<Rightarrow> Panic (err_text e) | Inr h \<Rightarrow> Val h)"

section \<open>Properties\<close>

lemmas writer_simps = fresh_writer_def hdr_set_def write_header_def write_body_def http_error_def Let_def

text \<open>
  The answer to a review that is decoded, encoded and written without failure: the state is the
  one the validator leaves, and the status is 500 when the validator gives an error.
\<close>

lemma handle_ok:
  assumes "read_body rbody = body" and "body \<noteq> []" and "hl_decode hl body = Inr (Some rq)"
    and "validate (Some rq) s = Val (s', res, err)"
    and "\<And>r. hl_marshal hl r = Inr (enc r)" and "\<And>t. hl_write hl t = None"
  shows "\<exists>w r. handle hl validate rbody s = Val (s', w) \<and>
    hw_status w = Some (if err = None then 200 else 500) \<and> hw_body w = enc r \<and>
    rp_UID r = rq_UID rq \<and> (rp_Allowed r \<longleftrightarrow> err = None \<and> vr_Valid res) \<and>
    (map_of (hw_header w) ''Content-Type'' = (if err = None then Some ''application/json'' else None))"
  using assms
  by (cases err) (auto simp: handle_def Review_def ToAdmissionErrorResponse_def writer_simps)


definition demo_http :: http_lib where
  "demo_http = \<lparr>hl_decode = (\<lambda>b. Inr (Some \<lparr>rq_UID = ''u1'', rq_Operation = op_CREATE, rq_Object = b, rq_OldObject = []\<rparr>)),
     hl_marshal = (\<lambda>r. Inr (rp_UID r @ (if rp_Allowed r then '' yes'' else '' no''))), hl_write = (\<lambda>_. None)\<rparr>"


text \<open>
  When the validator gives an error the answer has no JSON content type: the status line is
  sent before the Content-Type header is set, and headers set after it are dropped.
\<close>

theorem error_answer_without_content_type:
  assumes "kl_decode kl (rq_Object rq) = Inl e" and "rq_Operation rq = op_CREATE"
    and "hl_decode hl body = Inr (Some rq)" and "body \<noteq> []"
    and "\<forall>r. hl_marshal hl r = Inr (enc r)" and "\<forall>t. hl_write hl t = None"
  shows "\<exists>w. handle hl (Validate kl ord) (Some (Inr body)) mt = Val (mt, w) \<and>
    hw_status w = Some 500 \<and> map_of (hw_header w) ''Content-Type'' = None"
proof -
  have "Validate kl ord (Some rq) mt =
      Val (mt, no_result, Some (Wrap ''create: unable to parse object'' e))"
    using assms(1,2) by (simp add: Validate_def doCreate_def)
  from handle_ok [where enc = enc and rbody = "Some (Inr body)" and validate = "Validate kl ord",
      OF _ assms(4,3) this] assms(5,6)
  show ?thesis by (auto simp: read_body_def)
qed

lemma error_answer_without_content_type_witness:
  "\<exists>w. handle demo_http (Validate demo_lib rev) (Some (Inr ''junk'')) NewMultiTree = Val (NewMultiTree, w) \<and>
    hw_status w = Some 500 \<and> map_of (hw_header w) ''Content-Type'' = None"
  by (rule error_answer_without_content_type
      [where rq = "\<lparr>rq_UID = ''u1'', rq_Operation = op_CREATE, rq_Object = ''junk'', rq_OldObject = []\<rparr>"
        and enc = "\<lambda>r. rp_UID r @ (if rp_Allowed r then '' yes'' else '' no'')"])
    (auto simp: demo_http_def demo_lib_def demo_decode_def)

end
