(* ===== verification/Start_Up.thy ===== *)
theory Start_Up
  imports Webhook_Http
begin

text \<open>
  The process of the mount webhook, \<open>main\<close> of \<open>space/mount/webhook/cmd/main.go\<close>: its start, and the
  life of the server until it ends. The construction of clients (\<open>client-go\<close>), the parser of group
  versions and the network are parameters.
\<close>

section \<open>The start\<close>

record webhook_config =
  cf_certFile :: string
  cf_keyFile :: string
  cf_addr :: string
  cf_apiVersionedGroups :: string

text \<open>The flags with their defaults; \<open>given\<close> are those of the command line.\<close>

definition initFlags :: "(string \<rightharpoonup> string) \<Rightarrow> webhook_config" where
  "initFlags given =
     \<lparr>cf_certFile = (case given ''tls-cert-file'' of None \<Rightarrow> [] | Some v \<Rightarrow> v),
      cf_keyFile = (case given ''tls-key-file'' of None \<Rightarrow> [] | Some v \<Rightarrow> v),
      cf_addr = (case given ''listen-addr'' of None \<Rightarrow> '':8080'' | Some v \<Rightarrow> v),
      cf_apiVersionedGroups = (case given ''api-versioned-groups'' of None \<Rightarrow> [] | Some v \<Rightarrow> v)\<rparr>"

record 'c start_env =
  sn_parse :: "string \<Rightarrow> err + string \<times> string"
    \<comment> \<open>\<open>schema.ParseGroupVersion\<close>\<close>
  sn_gvString :: "string \<Rightarrow> string \<Rightarrow> string"
  sn_file_config :: "string \<Rightarrow> err + 'c"
    \<comment> \<open>\<open>clientcmd.BuildConfigFromFlags\<close> on a path\<close>
  sn_cluster_config :: "err + 'c"
    \<comment> \<open>\<open>rest.InClusterConfig\<close>\<close>
  sn_dynamic :: "'c \<Rightarrow> err option"
  sn_generic :: "'c \<Rightarrow> err option"

definition LoadRESTConfig :: "'c start_env \<Rightarrow> string \<Rightarrow> err + 'c" where
  "LoadRESTConfig sn path = (if path \<noteq> [] then sn_file_config sn path else sn_cluster_config sn)"

definition NewApiClient :: "'c start_env \<Rightarrow> 'c \<Rightarrow> err + 'c" where
  "NewApiClient sn c =
     (case sn_dynamic sn c of
        Some e \<Rightarrow> Inl (Wrap ''failed to create dynamic client'' e)
      | None \<Rightarrow>
          (case sn_generic sn c of
             Some e \<Rightarrow> Inl (Wrap ''failed to create generic client'' e)
           | None \<Rightarrow> Inr c))"

text \<open>What \<open>main\<close> does before the goroutine of the discovery: the API groups, or the fatal error.\<close>

definition webhook_start :: "'c start_env \<Rightarrow> webhook_config \<Rightarrow> string list outcome" where
  "webhook_start sn cf =
     (case apiGroupFromStr (sn_parse sn) (sn_gvString sn) (cf_apiVersionedGroups cf) of
        Inl err \<Rightarrow> Exit (''failed to parse api groups: '' @ err_text err)
      | Inr ags \<Rightarrow>
     (case LoadRESTConfig sn ''/etc/kubeconfig'' of
        Inl err \<Rightarrow> Exit (''failed to load kubeconfig: '' @ err_text err)
      | Inr kubeconfig \<Rightarrow>
     (case NewApiClient sn kubeconfig of
        Inl err \<Rightarrow> Exit (''failed to connect api clients: '' @ err_text err)
      | Inr ac \<Rightarrow>
     (case NewWebhook ''dspace-mounter'' () of
        Inl err \<Rightarrow> Exit (''error creating webhook: '' @ err_text err)
      | Inr wh \<Rightarrow> Val (keys_of ags)))))"

section \<open>The process\<close>

text \<open>
  The goroutine of the discovery ends the process when the discovery returns an error, and so does
  a panic in it, which nothing recovers. The main goroutine ends the process when the server does;
  \<open>ends\<close> holds of the results \<open>ListenAndServeTLS\<close> may have.
\<close>

datatype process = Serving server | Exited string | Crashed string | Ended

inductive process_step ::
  "kube_lib \<Rightarrow> discovery_lib \<Rightarrow> order \<Rightarrow> string list \<Rightarrow> (err option \<Rightarrow> bool) \<Rightarrow> process \<Rightarrow> process \<Rightarrow> bool"
  for kl dl ord groups ends where
  serve: "server_step kl dl ord groups s s' \<Longrightarrow> process_step kl dl ord groups ends (Serving s) (Serving s')"
| scan_fails: "sv_disc s = NotScanned \<Longrightarrow> discover_scan kl dl ord groups = Val (Inl e) \<Longrightarrow>
    process_step kl dl ord groups ends (Serving s) (Exited (''error discovering digi-graph: '' @ err_text e))"
| scan_panics: "sv_disc s = NotScanned \<Longrightarrow> discover_scan kl dl ord groups = Panic why \<Longrightarrow>
    process_step kl dl ord groups ends (Serving s) (Crashed why)"
| build_fails: "sv_disc s = Scanned es \<Longrightarrow> discover_build ord es = Val (mt', Some e) \<Longrightarrow>
    process_step kl dl ord groups ends (Serving s) (Exited (''error discovering digi-graph: '' @ err_text e))"
| build_panics: "sv_disc s = Scanned es \<Longrightarrow> discover_build ord es = Panic why \<Longrightarrow>
    process_step kl dl ord groups ends (Serving s) (Crashed why)"
| listen_fails: "ends (Some e) \<Longrightarrow>
    process_step kl dl ord groups ends (Serving s) (Exited (''error serving webhook: '' @ err_text e))"
| listen_returns: "ends None \<Longrightarrow> process_step kl dl ord groups ends (Serving s) Ended"

inductive_cases serving_step: "process_step kl dl ord groups ends (Serving s) p"

text \<open>The states the process may be in after its start.\<close>

definition webhook_main ::
  "'c start_env \<Rightarrow> webhook_config \<Rightarrow> kube_lib \<Rightarrow> discovery_lib \<Rightarrow> order \<Rightarrow> (err option \<Rightarrow> bool) \<Rightarrow> process \<Rightarrow> bool"
where
  "webhook_main sn cf kl dl ord ends p \<longleftrightarrow>
     (case webhook_start sn cf of
        Val groups \<Rightarrow> rtranclp (process_step kl dl ord groups ends)
          (Serving \<lparr>sv_mt = NewMultiTree, sv_disc = NotScanned\<rparr>) p
      | Exit m \<Rightarrow> p = Exited m
      | Panic m \<Rightarrow> p = Crashed m
      | Diverge \<Rightarrow> False)"

section \<open>When the discovery completes\<close>

text \<open>What the discovery has done so far, given what its scan finds.\<close>

definition disc_inv :: "edge list \<Rightarrow> process \<Rightarrow> bool" where
  "disc_inv es p \<longleftrightarrow> (\<forall>s. p = Serving s \<longrightarrow> (case sv_disc s of
     NotScanned \<Rightarrow> True
   | Scanned es' \<Rightarrow> es' = es
   | Built \<Rightarrow> multitree (edge_pairs es)))"

lemma process_step_inv:
  assumes ord: "range_order ord" and es: "discover_scan kl dl ord groups = Val (Inr es)" "edges_named es"
    and step: "process_step kl dl ord groups ends p q" and inv: "disc_inv es p"
  shows "disc_inv es q"
  using step
proof cases
  case (serve s s')
  from serve(3) show ?thesis
  proof (cases rule: server_step.cases)
    case (build es' mt')
    with inv serve(1) have "es' = es" by (simp add: disc_inv_def)
    with build discover_build_spec [OF ord es(2)] have "multitree (edge_pairs es)" by auto
    with build(1) serve(2) show ?thesis by (simp add: disc_inv_def)
  qed (use inv serve(1,2) es(1) in \<open>simp_all add: disc_inv_def\<close>)
qed (simp_all add: disc_inv_def)

interpretation discovering: step_invariant "process_step kl dl ord groups ends"
    "\<lambda>p. range_order ord \<longrightarrow> discover_scan kl dl ord groups = Val (Inr es) \<longrightarrow> edges_named es \<longrightarrow> disc_inv es p"
  for kl dl ord groups ends es
  by unfold_locales (blast intro: process_step_inv)

text \<open>From the scan on: the discovery completes, or ends the process.\<close>

lemma discovery_goes_on:
  assumes ord: "range_order ord" and es: "discover_scan kl dl ord groups = Val (Inr es)" "edges_named es"
    and inv: "disc_inv es (Serving s)"
  shows "if multitree (edge_pairs es)
    then \<exists>s'. rtranclp (process_step kl dl ord groups ends) (Serving s) (Serving s') \<and> sv_disc s' = Built
    else \<exists>m. rtranclp (process_step kl dl ord groups ends) (Serving s) (Exited m)"
proof -
  let ?step = "process_step kl dl ord groups ends"
  obtain mt' err where b: "discover_build ord es = Val (mt', err)" "err = None \<longleftrightarrow> multitree (edge_pairs es)"
    using discover_build_spec [OF ord es(2)] by blast
  have built: "if multitree (edge_pairs es)
      then \<exists>s'. rtranclp ?step (Serving t) (Serving s') \<and> sv_disc s' = Built
      else \<exists>m. rtranclp ?step (Serving t) (Exited m)" if "sv_disc t = Scanned es" for t
  proof (cases err)
    case None
    with b have b': "discover_build ord es = Val (mt', None)" "multitree (edge_pairs es)" by simp_all
    have "?step (Serving t) (Serving (t\<lparr>sv_mt := mt', sv_disc := Built\<rparr>))"
      by (rule process_step.serve, rule server_step.build [OF that b'(1)])
    moreover have "sv_disc (t\<lparr>sv_mt := mt', sv_disc := Built\<rparr>) = Built" by simp
    ultimately show ?thesis unfolding if_P [OF b'(2)] by blast
  next
    case (Some e)
    with b have b': "discover_build ord es = Val (mt', Some e)" "\<not> multitree (edge_pairs es)" by simp_all
    show ?thesis unfolding if_not_P [OF b'(2)]
      using process_step.build_fails [OF that b'(1)] by blast
  qed
  show ?thesis
  proof (cases "sv_disc s")
    case NotScanned
    let ?t = "s\<lparr>sv_disc := Scanned es\<rparr>"
    have "?step (Serving s) (Serving ?t)"
      by (rule process_step.serve, rule server_step.scan [OF es(1) NotScanned])
    with built [of ?t] show ?thesis
      by (cases "multitree (edge_pairs es)") (auto intro: converse_rtranclp_into_rtranclp)
  next
    case (Scanned es')
    with inv built [of s] show ?thesis by (simp add: disc_inv_def)
  next
    case Built
    with inv show ?thesis by (auto simp: disc_inv_def)
  qed
qed

text \<open>
  C5. The webhook comes up exactly on clusters whose mounts form a multi-tree. Where they do, the
  discovery can always still complete, whatever requests came first; where they do not, it never
  completes, and every state in which the webhook serves is on the way to its end.
\<close>

theorem discovery_completes_iff:
  assumes "range_order ord" and "webhook_start sn cf = Val groups"
    and "discover_scan kl dl ord groups = Val (Inr es)" and "cluster_named kl dl ord groups"
  shows "((\<exists>s. webhook_main sn cf kl dl ord ends (Serving s) \<and> sv_disc s = Built) \<longleftrightarrow> multitree (edge_pairs es)) \<and>
    (\<forall>s. webhook_main sn cf kl dl ord ends (Serving s) \<longrightarrow>
      (if multitree (edge_pairs es)
       then \<exists>s'. rtranclp (process_step kl dl ord groups ends) (Serving s) (Serving s') \<and> sv_disc s' = Built
       else \<exists>m. rtranclp (process_step kl dl ord groups ends) (Serving s) (Exited m)))"
proof -
  let ?s0 = "Serving \<lparr>sv_mt = NewMultiTree, sv_disc = NotScanned\<rparr>"
  have named: "edges_named es" using assms(3,4) by (simp add: cluster_named_def)
  have main: "webhook_main sn cf kl dl ord ends p \<longleftrightarrow> rtranclp (process_step kl dl ord groups ends) ?s0 p" for p
    by (simp add: webhook_main_def assms(2))
  have start: "disc_inv es ?s0" by (simp add: disc_inv_def)
  have inv: "disc_inv es p" if "webhook_main sn cf kl dl ord ends p" for p
    using discovering.reached [OF that [unfolded main], of es] assms(1,3) named start by blast
  note go = discovery_goes_on [OF assms(1,3) named]
  have "multitree (edge_pairs es)" if "webhook_main sn cf kl dl ord ends (Serving s)" "sv_disc s = Built" for s
    using inv [OF that(1)] that(2) by (simp add: disc_inv_def)
  moreover have "\<exists>s. webhook_main sn cf kl dl ord ends (Serving s) \<and> sv_disc s = Built" if "multitree (edge_pairs es)"
    using go [OF start, of ends] that by (simp add: main)
  ultimately show ?thesis using go inv by blast
qed

text \<open>A start that succeeds, and a cluster of two objects that mount each other.\<close>

definition sample_start :: "unit start_env" where
  "sample_start = \<lparr>sn_parse = (\<lambda>k. Inr (''digi.dev'', ''v1'')), sn_gvString = (\<lambda>g v. g @ ''/'' @ v),
     sn_file_config = (\<lambda>p. Inr ()), sn_cluster_config = Inl (Err ''not in a cluster''),
     sn_dynamic = (\<lambda>c. None), sn_generic = (\<lambda>c. None)\<rparr>"

definition sample_cluster :: "obj list \<Rightarrow> discovery_lib" where
  "sample_cluster obs = \<lparr>dl_groups = Inr [\<lparr>ag_Name = ''digi.dev'',
       ag_Versions = [(''v1'', [\<lparr>ar_Name = ''lamps'', ar_Namespaced = True\<rparr>])]\<rparr>],
     dl_gvString = (\<lambda>g v. g @ ''/'' @ v), dl_list = (\<lambda>r. Some obs)\<rparr>"

definition sample_config :: webhook_config where
  "sample_config = initFlags [''api-versioned-groups'' \<mapsto> ''digi.dev/v1'']"

lemma sample_starts: "webhook_start sample_start sample_config = Val [''digi.dev/v1'']"
  by code_simp

definition cyclic_edges :: "edge list" where
  "cyclic_edges = [\<lparr>e_Start = ''default/a'', e_End = ''default/b'', e_Status = ActiveStatus\<rparr>,
     \<lparr>e_Start = ''default/b'', e_End = ''default/a'', e_Status = ActiveStatus\<rparr>]"

lemma cyclic_scan:
  "discover_scan demo_lib (sample_cluster [demo_obj ''a'' [''default/b''], demo_obj ''b'' [''default/a'']]) (\<lambda>xs. xs)
     [''digi.dev/v1''] = Val (Inr cyclic_edges)"
  by code_simp

lemma cyclic_edges_not_multitree: "\<not> multitree (edge_pairs cyclic_edges)"
  by (rule two_cycle_not_multitree [of "''default/a''" "''default/b''"])
    (simp_all add: edge_pairs_def cyclic_edges_def)

lemma discovery_completes_iff_witness:
  "let dl = sample_cluster [demo_obj ''a'' [''default/b''], demo_obj ''b'' [''default/a'']];
       s0 = \<lparr>sv_mt = NewMultiTree, sv_disc = NotScanned\<rparr> in
     \<not> (\<exists>s. webhook_main sample_start sample_config demo_lib dl (\<lambda>xs. xs) (\<lambda>e. False) (Serving s) \<and> sv_disc s = Built) \<and>
     (\<exists>m. rtranclp (process_step demo_lib dl (\<lambda>xs. xs) [''digi.dev/v1''] (\<lambda>e. False)) (Serving s0) (Exited m))"
proof -
  let ?dl = "sample_cluster [demo_obj ''a'' [''default/b''], demo_obj ''b'' [''default/a'']]"
  have "cluster_named demo_lib ?dl (\<lambda>xs. xs) [''digi.dev/v1'']"
    by (simp add: cluster_named_def cyclic_scan edges_named_def cyclic_edges_def)
  note verdict = discovery_completes_iff [OF range_order_id sample_starts cyclic_scan this, of "\<lambda>e. False"]
  have "webhook_main sample_start sample_config demo_lib ?dl (\<lambda>xs. xs) (\<lambda>e. False)
      (Serving \<lparr>sv_mt = NewMultiTree, sv_disc = NotScanned\<rparr>)"
    by (simp add: webhook_main_def sample_starts)
  with verdict show ?thesis by (simp add: cyclic_edges_not_multitree Let_def)
qed

text \<open>
  A resource whose list fails is logged and then read through a nil pointer, in a goroutine whose
  panic nothing recovers: the discovery takes the process down.
\<close>

lemma failed_list_crashes:
  assumes "dl_groups dl = Inr (gr # grs)" "range_map ord (ag_Versions gr) = vr # vrs"
    and "dl_gvString dl (ag_Name gr) (fst vr) \<in> set groups" "snd vr = r # rs"
    and "\<not> contains_str (ar_Name r) ''/''" "dl_list dl (ag_Name gr, fst vr, ar_Name r) = None"
  shows "\<exists>why. process_step kl dl ord groups ends (Serving \<lparr>sv_mt = mt, sv_disc = NotScanned\<rparr>) (Crashed why)"
proof -
  obtain why where why: "discover_scan kl dl ord groups = Panic why"
    using assms by (simp add: discover_scan_def version_edges_def resource_edges_def)
  show ?thesis by (rule exI, rule process_step.scan_panics [OF _ why]) simp
qed

end
