(* ===== verification/Api_Client.thy ===== *)
theory Api_Client
  imports Model_Uri Json_Value
begin

text \<open>
  The apiserver client of the command line, \<open>api/client/client.go\<close>. The apiserver and the client
  library are a parameter: a record of the calls the code makes, on a state \<open>'w\<close> of the
  cluster. JSON text is a parameter type \<open>'j\<close>, with the encoder and the decoder of
  \<open>encoding/json\<close> among the calls.
\<close>

record ('w, 'j, 'g) api =
  api_groups :: "'w \<Rightarrow> err + 'g"
    \<comment> \<open>\<open>restmapper.GetAPIGroupResources\<close>\<close>
  api_mapping :: "'g \<Rightarrow> string \<times> string \<Rightarrow> string \<Rightarrow> err + gvr"
    \<comment> \<open>\<open>RESTMapping\<close> of the discovery mapper, on a group and kind and a version\<close>
  api_list :: "'w \<Rightarrow> gvr \<Rightarrow> string option \<Rightarrow> err + obj list"
    \<comment> \<open>\<open>List\<close>, in a namespace or in all\<close>
  api_get :: "'w \<Rightarrow> gvr \<Rightarrow> string \<Rightarrow> string \<Rightarrow> err + obj"
    \<comment> \<open>\<open>Get\<close> by namespace and name\<close>
  api_update :: "'w \<Rightarrow> gvr \<Rightarrow> string \<Rightarrow> obj \<Rightarrow> 'w \<times> err option"
    \<comment> \<open>\<open>Update\<close>\<close>
  api_marshal :: "obj \<Rightarrow> err + 'j"
  api_unmarshal :: "'j \<Rightarrow> err + obj"
  api_gvk :: "obj \<Rightarrow> gvk"
    \<comment> \<open>\<open>GroupVersionKind\<close> of an unstructured object\<close>
  api_namespace :: "obj \<Rightarrow> string"
    \<comment> \<open>\<open>GetNamespace\<close> of an unstructured object\<close>

section \<open>Discovery\<close>

text \<open>The version, group and kind a CRD object names; any missing part is a panic.\<close>

definition crd_names :: "obj \<Rightarrow> (string \<times> string \<times> string) outcome" where
  "crd_names crd =
     obind (as_map (map_of crd ''spec'')) (\<lambda>spec.
     obind (as_slice (map_of spec ''versions'')) (\<lambda>versions.
     obind (index0 versions) (\<lambda>v0.
     obind (as_map (Some v0)) (\<lambda>v.
     obind (as_string (map_of v ''name'')) (\<lambda>version.
     obind (as_string (map_of spec ''group'')) (\<lambda>grp.
     obind (as_map (map_of spec ''names'')) (\<lambda>names.
     obind (as_string (map_of names ''kind'')) (\<lambda>kind.
     Val (version, grp, kind)))))))))"

text \<open>The body of the inner loop: the Duri of one custom resource.\<close>

definition duri_of_item :: "string \<times> string \<times> string \<Rightarrow> obj \<Rightarrow> auri outcome" where
  "duri_of_item crd item =
     (case crd of (version, grp, kind) \<Rightarrow>
     obind (as_map (map_of item ''metadata'')) (\<lambda>metadata.
     obind (as_string (map_of metadata ''namespace'')) (\<lambda>namespace.
     obind (as_string (map_of metadata ''name'')) (\<lambda>name.
     Val \<lparr>a_Kind = \<lparr>k_Group = grp, k_Version = version, k_Name = kind\<rparr>,
          a_Name = name, a_Namespace = namespace, a_Path = []\<rparr>))))"

text \<open>The outer loop: a kind whose resources cannot be listed is skipped.\<close>

fun discover_crds ::
  "(string \<Rightarrow> string) \<Rightarrow> ('w, 'j, 'g) api \<Rightarrow> 'w \<Rightarrow> obj list \<Rightarrow> auri list outcome" where
  "discover_crds pl a w [] = Val []"
| "discover_crds pl a w (crd # crds) =
     obind (crd_names crd) (\<lambda>(version, grp, kind).
       case api_list a w (grp, version, pl (to_lower kind)) (Some ''default'') of
         Inl err \<Rightarrow> discover_crds pl a w crds
       | Inr items \<Rightarrow>
           obind (omap (duri_of_item (version, grp, kind)) items) (\<lambda>ds.
           obind (discover_crds pl a w crds) (\<lambda>rest. Val (ds @ rest))))"

definition crd_gvr :: gvr where
  "crd_gvr = (''apiextensions.k8s.io'', ''v1'', ''customresourcedefinitions'')"

definition Discover ::
  "(string \<Rightarrow> string) \<Rightarrow> ('w, 'j, 'g) api \<Rightarrow> 'w \<Rightarrow> (err + auri list) outcome" where
  "Discover pl a w =
     (case api_list a w crd_gvr None of
        Inl err \<Rightarrow> Val (Inl err)
      | Inr crds \<Rightarrow> obind (discover_crds pl a w crds) (\<lambda>ds. Val (Inr ds)))"

section \<open>Reading and writing models\<close>

definition GetModelJson ::
  "(string \<Rightarrow> string) \<Rightarrow> ('w, 'j, 'g) api \<Rightarrow> 'w \<Rightarrow> auri \<Rightarrow> err + 'j" where
  "GetModelJson pl a w ar =
     (case api_get a w (Auri_Gvr pl ar) (a_Namespace ar) (a_Name ar) of
        Inl err \<Rightarrow> Inl (Wrap ''unable to get digi'' err)
      | Inr d \<Rightarrow>
          (case api_marshal a d of
             Inl err \<Rightarrow> Inl (Wrap ''unable to parse digi'' err)
           | Inr j \<Rightarrow> Inr j))"

definition getResource :: "('w, 'j, 'g) api \<Rightarrow> 'w \<Rightarrow> obj \<Rightarrow> err + gvr" where
  "getResource a w ob =
     (case api_gvk a ob of (grp, version, kind) \<Rightarrow>
        (case api_groups a w of
           Inl err \<Rightarrow> Inl (Wrap ''unable to discover resources'' err)
         | Inr groups \<Rightarrow>
             (case api_mapping a groups (grp, kind) version of
                Inl err \<Rightarrow> Inl (Wrap ''unable to map resource'' err)
              | Inr resource \<Rightarrow> Inr resource)))"

text \<open>
  The retry loop of \<open>UpdateFromJson\<close> over the values of \<open>i\<close> that are left. The \<open>err\<close> that
  \<open>getResource\<close> and \<open>Update\<close> set is declared inside the loop body; the function returns the outer
  \<open>err\<close>, which is nil once the text is decoded. The second component of the result lists the
  attempts after which the code prints a notice and sleeps.
\<close>

fun update_loop ::
  "('w, 'j, 'g) api \<Rightarrow> obj \<Rightarrow> int \<Rightarrow> int list \<Rightarrow> 'w \<Rightarrow> 'w \<times> int list \<times> err option" where
  "update_loop a ob numRetry [] w = (w, [], None)"
| "update_loop a ob numRetry (i # is) w =
     (case getResource a w ob of
        Inl err \<Rightarrow> (w, [], Some err)
      | Inr res \<Rightarrow>
          (case api_update a w res (api_namespace a ob) ob of
             (w', None) \<Rightarrow> (w', [], None)
           | (w', Some err) \<Rightarrow>
               (case update_loop a ob numRetry is w' of (w'', sl, r) \<Rightarrow>
                  (w'', (if i < numRetry then i # sl else sl), r))))"

definition UpdateFromJson ::
  "('w, 'j, 'g) api \<Rightarrow> 'w \<Rightarrow> 'j \<Rightarrow> int \<Rightarrow> 'w \<times> int list \<times> err option" where
  "UpdateFromJson a w j numRetry =
     (case api_unmarshal a j of
        Inl err \<Rightarrow> (w, [], Some (Wrap ''unable to unmarshall'' err))
      | Inr ob \<Rightarrow> update_loop a ob numRetry [1..numRetry + 1] w)"

subsection \<open>What the loop does\<close>

text \<open>
  The states the cluster goes through when every update but the last fails: \<open>update_fails w ws\<close>
  says the updates started in \<open>w\<close> fail one after the other and leave the states \<open>ws\<close>.
\<close>

fun update_fails :: "('w, 'j, 'g) api \<Rightarrow> gvr \<Rightarrow> obj \<Rightarrow> 'w \<Rightarrow> 'w list \<Rightarrow> bool" where
  "update_fails a res ob w [] = True"
| "update_fails a res ob w (w' # ws) =
     ((\<exists>e. api_update a w res (api_namespace a ob) ob = (w', Some e)) \<and>
      update_fails a res ob w' ws)"

lemma update_loop_all_fail:
  assumes "\<And>w'. getResource a w' ob = Inr res" and "update_fails a res ob w ws"
    and "length is = length ws"
  shows "update_loop a ob n is w = (last (w # ws), filter (\<lambda>i. i < n) is, None)"
  using assms(2,3)
proof (induction "is" arbitrary: w ws)
  case (Cons i "is")
  then obtain w' ws' e where ws: "ws = w' # ws'"
    and e: "api_update a w res (api_namespace a ob) ob = (w', Some e)"
    and rest: "update_fails a res ob w' ws'" and len: "length is = length ws'"
    by (cases ws) auto
  from Cons.IH [OF rest len] show ?case
    using ws e assms(1) by simp
qed simp

lemma update_loop_success:
  assumes "\<And>w'. getResource a w' ob = Inr res" and "update_fails a res ob w ws"
    and "api_update a (last (w # ws)) res (api_namespace a ob) ob = (w', None)"
    and "length ws < length is"
  shows "fst (update_loop a ob n is w) = w' \<and> snd (snd (update_loop a ob n is w)) = None"
  using assms(2-4)
proof (induction "is" arbitrary: w ws)
  case (Cons i "is")
  show ?case
  proof (cases ws)
    case Nil
    with Cons.prems assms(1) show ?thesis by simp
  next
    case (Cons v vs)
    with Cons.prems obtain e where e: "api_update a w res (api_namespace a ob) ob = (v, Some e)"
      and rest: "update_fails a res ob v vs" by auto
    have "fst (update_loop a ob n is v) = w' \<and> snd (snd (update_loop a ob n is v)) = None"
      using Cons.IH [OF rest] Cons Cons.prems by simp
    then show ?thesis
      using e assms(1) by (auto split: prod.splits)
  qed
qed simp

lemma update_loop_error:
  "snd (snd (update_loop a ob n is w)) = Some e \<Longrightarrow> \<exists>w'. getResource a w' ob = Inl e"
proof (induction "is" arbitrary: w)
  case (Cons i "is")
  show ?case
  proof (cases "getResource a w ob")
    case (Inl err)
    with Cons.prems show ?thesis by auto
  next
    case (Inr res)
    obtain w' r where upd: "api_update a w res (api_namespace a ob) ob = (w', r)" by fastforce
    with Inr Cons.prems Cons.IH [of w'] show ?thesis
      by (auto split: option.splits prod.splits)
  qed
qed simp

lemma upto_length: "length [1..n + 1] = nat (n + 1)"
  by simp

section \<open>Properties\<close>

text \<open>
  C13. \<open>UpdateFromJson\<close> tries an update at most \<open>numRetry + 1\<close> times and stops at the first that
  succeeds, which is then the last change made to the cluster; no error is returned.
\<close>

theorem update_retries_until_success:
  assumes "api_unmarshal a j = Inr ob" and "\<And>w'. getResource a w' ob = Inr res"
    and "update_fails a res ob w ws" and "int (length ws) \<le> numRetry"
    and "api_update a (last (w # ws)) res (api_namespace a ob) ob = (w', None)"
  shows "fst (UpdateFromJson a w j numRetry) = w' \<and> snd (snd (UpdateFromJson a w j numRetry)) = None"
proof -
  have "length ws < length [1..numRetry + 1]"
    unfolding upto_length using assms(4) by linarith
  then have "fst (update_loop a ob numRetry [1..numRetry + 1] w) = w' \<and>
      snd (snd (update_loop a ob numRetry [1..numRetry + 1] w)) = None"
    using assms(2,3,5) by (intro update_loop_success) auto
  with assms(1) show ?thesis by (simp add: UpdateFromJson_def)
qed

text \<open>A cluster that counts updates and accepts only the third one.\<close>

definition third_time_api :: "(nat, obj, unit) api" where
  "third_time_api = \<lparr>
     api_groups = (\<lambda>w. Inr ()),
     api_mapping = (\<lambda>g gk v. Inr (fst gk, v, snd gk)),
     api_list = (\<lambda>w r ns. Inr []),
     api_get = (\<lambda>w r ns n. Inr []),
     api_update = (\<lambda>w r ns ob. if w < 2 then (Suc w, Some (Err ''conflict'')) else (100, None)),
     api_marshal = Inr,
     api_unmarshal = Inr,
     api_gvk = (\<lambda>ob. (''digi.dev'', ''v1'', ''Lamp'')),
     api_namespace = (\<lambda>ob. ''default'')\<rparr>"

theorem update_retries_until_success_witness:
  "fst (UpdateFromJson third_time_api 0 [] 3) = 100 \<and>
   snd (snd (UpdateFromJson third_time_api 0 [] 3)) = None"
  by (rule update_retries_until_success
      [where ob = "[]" and res = "(''digi.dev'', ''v1'', ''Lamp'')" and ws = "[1, 2]"])
    (simp_all add: third_time_api_def getResource_def)

text \<open>
  \<open>UpdateFromJson\<close> never reports a failed update. When every attempt fails, all
  \<open>numRetry + 1\<close> of them, it returns no error: the \<open>err\<close> of the update is declared in the loop
  body and the function returns the outer one.
\<close>

theorem update_failure_not_reported:
  assumes "api_unmarshal a j = Inr ob" and "\<And>w'. getResource a w' ob = Inr res"
    and "update_fails a res ob w ws" and "int (length ws) = numRetry + 1"
  shows "fst (UpdateFromJson a w j numRetry) = last (w # ws) \<and>
    snd (snd (UpdateFromJson a w j numRetry)) = None"
proof -
  have "length [1..numRetry + 1] = length ws"
    unfolding upto_length using assms(4) by linarith
  then have "update_loop a ob numRetry [1..numRetry + 1] w =
      (last (w # ws), filter (\<lambda>i. i < numRetry) [1..numRetry + 1], None)"
    using assms(2,3) by (intro update_loop_all_fail) auto
  with assms(1) show ?thesis by (simp add: UpdateFromJson_def)
qed

theorem update_failure_not_reported_witness:
  "fst (UpdateFromJson third_time_api 0 [] 1) = 2 \<and>
   snd (snd (UpdateFromJson third_time_api 0 [] 1)) = None"
  using update_failure_not_reported [of third_time_api "[]" "[]"
      "(''digi.dev'', ''v1'', ''Lamp'')" 0 "[1, 2]" 1]
  by (simp add: third_time_api_def getResource_def)

end
