(* ===== verification/Local_Store.thy ===== *)
theory Local_Store
  imports Api_Client
begin

text \<open>
  The command line's local store: aliases (\<open>api/alias/alias.go\<close>) and configuration values
  (\<open>api/config/config.go\<close>), both kept through the viper library. Viper is a parameter: a record
  of the calls the code makes, on a state \<open>'w\<close>. What the code relies on, that a value set is
  the value read until it is set again, also after the file is written, is \<open>viper_ok\<close>.
\<close>

type_synonym alias_map = "(string, auri option) gomap"
  \<comment> \<open>\<open>map[string]*core.Auri\<close>; \<open>None\<close> is a nil pointer\<close>
type_synonym config_map = "(string, string) gomap"

record 'w viper =
  v_aliases :: "'w \<Rightarrow> err + alias_map"
    \<comment> \<open>\<open>viper.UnmarshalKey("alias", &m)\<close> into an empty map\<close>
  v_configs :: "'w \<Rightarrow> err + config_map"
    \<comment> \<open>\<open>viper.UnmarshalKey("config", &m)\<close> into an empty map\<close>
  v_set_aliases :: "alias_map \<Rightarrow> 'w \<Rightarrow> 'w"
    \<comment> \<open>\<open>viper.Set("alias", m)\<close>\<close>
  v_set_configs :: "config_map \<Rightarrow> 'w \<Rightarrow> 'w"
  v_write :: "'w \<Rightarrow> 'w \<times> err option"
    \<comment> \<open>\<open>viper.WriteConfig()\<close>\<close>

definition viper_ok :: "'w viper \<Rightarrow> bool" where
  "viper_ok v \<longleftrightarrow>
     (\<forall>m w. v_aliases v (v_set_aliases v m w) = Inr m) \<and>
     (\<forall>m w. v_configs v (v_set_configs v m w) = Inr m) \<and>
     (\<forall>m w. v_configs v (v_set_aliases v m w) = v_configs v w) \<and>
     (\<forall>m w. v_aliases v (v_set_configs v m w) = v_aliases v w) \<and>
     (\<forall>w. v_aliases v (fst (v_write v w)) = v_aliases v w) \<and>
     (\<forall>w. v_configs v (fst (v_write v w)) = v_configs v w)"

lemma viper_ok_simps:
  assumes "viper_ok v"
  shows "v_aliases v (v_set_aliases v m w) = Inr m"
    and "v_configs v (v_set_configs v c w) = Inr c"
    and "v_configs v (v_set_aliases v m w) = v_configs v w"
    and "v_aliases v (v_set_configs v c w) = v_aliases v w"
    and "v_aliases v (fst (v_write v w)) = v_aliases v w"
    and "v_configs v (fst (v_write v w)) = v_configs v w"
  using assms by (auto simp: viper_ok_def)

section \<open>Aliases\<close>

record alias_entry =
  al_Name :: string
  al_Duri :: "auri option"

definition Alias_Set :: "'w viper \<Rightarrow> alias_entry \<Rightarrow> 'w \<Rightarrow> 'w \<times> err option" where
  "Alias_Set v a w =
     (case v_aliases v w of
        Inl err \<Rightarrow> (w, Some err)
      | Inr aliases \<Rightarrow>
          v_write v (v_set_aliases v (AList.update (al_Name a) (al_Duri a) aliases) w))"

definition Resolve :: "'w viper \<Rightarrow> 'w \<Rightarrow> string \<Rightarrow> err + auri option" where
  "Resolve v w name =
     (case v_aliases v w of
        Inl err \<Rightarrow> Inl err
      | Inr aliases \<Rightarrow>
          (case map_of aliases name of
             None \<Rightarrow> Inl (Err (''alias '' @ name @ '' not found''))
           | Some duri \<Rightarrow> Inr duri))"

text \<open>What \<open>fmt.Println\<close> writes for a \<open>*core.Auri\<close>: its \<open>String\<close>, or \<open><nil>\<close>.\<close>

definition show_auri :: "nn_string \<Rightarrow> auri option \<Rightarrow> string" where
  "show_auri nns p = (case p of None \<Rightarrow> ''<nil>'' | Some ar \<Rightarrow> Auri_String nns ar)"

text \<open>The lines printed, and the error.\<close>

definition ResolveAndPrint ::
  "nn_string \<Rightarrow> 'w viper \<Rightarrow> 'w \<Rightarrow> string \<Rightarrow> string list \<times> err option" where
  "ResolveAndPrint nns v w name =
     (case Resolve v w name of
        Inl err \<Rightarrow> ([], Some err)
      | Inr duri \<Rightarrow> ([show_auri nns duri], None))"

definition ResolveFromLocal ::
  "nn_string \<Rightarrow> 'w viper \<Rightarrow> 'w \<Rightarrow> string \<Rightarrow> string list \<times> err option" where
  "ResolveFromLocal nns v w name = ResolveAndPrint nns v w name"

definition LocalAlias :: "order \<Rightarrow> 'w viper \<Rightarrow> 'w \<Rightarrow> err + alias_entry list" where
  "LocalAlias ord v w =
     (case v_aliases v w of
        Inl err \<Rightarrow> Inl err
      | Inr duris \<Rightarrow>
          Inr (map (\<lambda>k. \<lparr>al_Name = k, al_Duri = Option.bind (map_of duris k) (\<lambda>d. d)\<rparr>)
                (ord (keys_of duris))))"

definition PrintAlias :: "nn_string \<Rightarrow> alias_entry list \<Rightarrow> string list" where
  "PrintAlias nns as = map (\<lambda>a. al_Name a @ '' : '' @ show_auri nns (al_Duri a)) as"

definition ClearAlias :: "'w viper \<Rightarrow> 'w \<Rightarrow> 'w \<times> err option" where
  "ClearAlias v w = v_write v (v_set_aliases v [] w)"

definition DiscoverAlias ::
  "(string \<Rightarrow> string) \<Rightarrow> ('c, 'j, 'g) api \<Rightarrow> 'c \<Rightarrow> (err + alias_entry list) outcome" where
  "DiscoverAlias pl a c =
     obind (Discover pl a c) (\<lambda>r.
       case r of
         Inl err \<Rightarrow> Val (Inl err)
       | Inr duris \<Rightarrow>
           Val (Inr (map (\<lambda>duri. \<lparr>al_Name = a_Name duri, al_Duri = Some duri\<rparr>) duris)))"

fun set_all :: "'w viper \<Rightarrow> alias_entry list \<Rightarrow> 'w \<Rightarrow> 'w \<times> err option" where
  "set_all v [] w = (w, None)"
| "set_all v (a # as) w =
     (case Alias_Set v a w of
        (w', Some err) \<Rightarrow> (w', Some err)
      | (w', None) \<Rightarrow> set_all v as w')"

definition DiscoverAliasAndSet ::
  "(string \<Rightarrow> string) \<Rightarrow> ('c, 'j, 'g) api \<Rightarrow> 'c \<Rightarrow> 'w viper \<Rightarrow> 'w \<Rightarrow> ('w \<times> err option) outcome" where
  "DiscoverAliasAndSet pl a c v w =
     obind (DiscoverAlias pl a c) (\<lambda>r.
       case r of Inl err \<Rightarrow> Val (w, Some err) | Inr aliases \<Rightarrow> Val (set_all v aliases w))"

section \<open>Configuration\<close>

definition Config_Get :: "'w viper \<Rightarrow> 'w \<Rightarrow> string \<Rightarrow> err + string" where
  "Config_Get v w key =
     (case v_configs v w of
        Inl err \<Rightarrow> Inl err
      | Inr configs \<Rightarrow>
          (case map_of configs (to_lower key) of
             None \<Rightarrow> Inl (Err (''config '' @ key @ '' not found''))
           | Some config \<Rightarrow> Inr config))"

definition Config_Set :: "'w viper \<Rightarrow> string \<Rightarrow> string \<Rightarrow> 'w \<Rightarrow> 'w \<times> err option" where
  "Config_Set v key val w =
     (case v_configs v w of
        Inl err \<Rightarrow> (w, Some err)
      | Inr configs \<Rightarrow>
          v_write v (v_set_configs v (AList.update (to_lower key) val configs) w))"

definition ShowAll :: "order \<Rightarrow> 'w viper \<Rightarrow> 'w \<Rightarrow> string list \<times> err option" where
  "ShowAll ord v w =
     (case v_configs v w of
        Inl err \<Rightarrow> ([], Some err)
      | Inr configs \<Rightarrow>
          (map (\<lambda>k. k @ '' : '' @ the (map_of configs k)) (ord (keys_of configs)), None))"

definition ClearConfig :: "'w viper \<Rightarrow> 'w \<Rightarrow> 'w \<times> err option" where
  "ClearConfig v w = v_write v (v_set_configs v [] w)"

section \<open>A store in memory\<close>

text \<open>An instance of the parameter, for witnesses: a pair of maps, and a file never fails.\<close>

definition mem_viper :: "(alias_map \<times> config_map) viper" where
  "mem_viper = \<lparr>
     v_aliases = (\<lambda>w. Inr (fst w)),
     v_configs = (\<lambda>w. Inr (snd w)),
     v_set_aliases = (\<lambda>m w. (m, snd w)),
     v_set_configs = (\<lambda>m w. (fst w, m)),
     v_write = (\<lambda>w. (w, None))\<rparr>"

lemma mem_viper_ok [simp]: "viper_ok mem_viper"
  by (simp add: viper_ok_def mem_viper_def)

section \<open>Lemmas\<close>

lemma Alias_Set_aliases:
  assumes "viper_ok v" and "v_aliases v w = Inr m"
  shows "v_aliases v (fst (Alias_Set v a w)) = Inr (AList.update (al_Name a) (al_Duri a) m)"
  using assms by (simp add: Alias_Set_def viper_ok_simps)

lemma Resolve_Alias_Set:
  assumes "viper_ok v" and "v_aliases v w = Inr m"
  shows "Resolve v (fst (Alias_Set v a w)) n =
    (if n = al_Name a then Inr (al_Duri a) else Resolve v w n)"
  using assms by (simp add: Resolve_def Alias_Set_aliases go_map_simps)

lemma set_all_aliases:
  assumes "viper_ok v" and "v_aliases v w = Inr m" and "snd (set_all v as w) = None"
  shows "v_aliases v (fst (set_all v as w)) =
    Inr (fold (\<lambda>a. AList.update (al_Name a) (al_Duri a)) as m)"
  using assms(2,3)
proof (induction as arbitrary: w m)
  case (Cons a as)
  obtain w' where w': "Alias_Set v a w = (w', None)"
    using Cons.prems(2) by (auto split: prod.splits option.splits)
  have "v_aliases v w' = Inr (AList.update (al_Name a) (al_Duri a) m)"
    using Alias_Set_aliases [OF assms(1) Cons.prems(1), of a] w' by simp
  from Cons.IH [OF this] Cons.prems(2) w' show ?case by simp
qed simp

lemma map_of_fold_update:
  "map_of (fold (\<lambda>a. AList.update (al_Name a) (al_Duri a)) as m) n =
    (case find (\<lambda>a. al_Name a = n) (rev as) of
       None \<Rightarrow> map_of m n
     | Some a \<Rightarrow> Some (al_Duri a))"
  by (induction as rule: rev_induct) (auto simp: go_map_simps)

section \<open>Properties\<close>

text \<open>
  After \<open>DiscoverAliasAndSet\<close> has set all discovered aliases, a name resolves to the last
  discovered digi of that name, and a name that was not discovered resolves as before: digis of
  different kinds that share a name shadow each other.
\<close>

theorem discover_last_wins:
  assumes "viper_ok v" and "v_aliases v w = Inr m" and "snd (set_all v as w) = None"
  shows "Resolve v (fst (set_all v as w)) n =
    (case find (\<lambda>a. al_Name a = n) (rev as) of
       Some a \<Rightarrow> Inr (al_Duri a)
     | None \<Rightarrow> Resolve v w n)"
  using assms(2)
  by (simp add: Resolve_def set_all_aliases [OF assms] map_of_fold_update split: option.split)

definition sample_auri :: "string \<Rightarrow> string \<Rightarrow> auri" where
  "sample_auri kn n = \<lparr>a_Kind = \<lparr>k_Group = ''digi.dev'', k_Version = ''v1'', k_Name = kn\<rparr>,
     a_Name = n, a_Namespace = ''default'', a_Path = []\<rparr>"

theorem discover_last_wins_witness:
  "Resolve mem_viper
     (fst (set_all mem_viper
       [\<lparr>al_Name = ''x'', al_Duri = Some (sample_auri ''Lamp'' ''x'')\<rparr>,
        \<lparr>al_Name = ''x'', al_Duri = Some (sample_auri ''Room'' ''x'')\<rparr>] ([], []))) ''x'' =
   Inr (Some (sample_auri ''Room'' ''x''))"
  by (subst discover_last_wins [where m = "[]"])
    (simp_all add: mem_viper_def viper_ok_def Alias_Set_def)

text \<open>
  Configuration keys are read case-insensitively: after \<open>Set key val\<close>, \<open>Get\<close> finds
  \<open>val\<close> under every key equal to it up to ASCII case, and every other key is as before.
\<close>

theorem config_get_after_set:
  assumes "viper_ok v" and "v_configs v w = Inr c"
  shows "Config_Get v (fst (Config_Set v key val w)) key' =
    (if to_lower key' = to_lower key then Inr val else Config_Get v w key')"
  using assms by (simp add: Config_Get_def Config_Set_def viper_ok_simps go_map_simps)

theorem config_get_after_set_witness:
  "Config_Get mem_viper (fst (Config_Set mem_viper ''DRIVER_REPO'' ''docker.io/d'' ([], [])))
     ''driver_repo'' = Inr ''docker.io/d''"
proof -
  have "to_lower ''driver_repo'' = to_lower ''DRIVER_REPO''" by code_simp
  then show ?thesis
    by (subst config_get_after_set [where c = "[]"])
      (simp_all add: mem_viper_def viper_ok_def)
qed

end
