(* ===== verification/Cli_Base.thy ===== *)
theory Cli_Base
  imports Local_Store "HOL-Library.Word"
begin

text \<open>
  What the commands of the command line share: programs that act on the world, write lines and may
  end the process; the flags of cobra and pflag; file paths; and \<open>cmd/digi/helper/helper.go\<close>, whose
  \<open>RunMake\<close> hands every command over to \<open>make\<close>. The programs \<open>make\<close> starts, the terminal and the
  files are parameters, the fields of \<open>cli\<close>, on a state \<open>'w\<close> of the world.
\<close>

section \<open>Programs\<close>

text \<open>A run of \<open>make\<close>: its environment, target and directory, and whether it has a terminal.\<close>

record make_run =
  mk_env :: "(string \<times> string) list"
  mk_target :: string
  mk_dir :: string
  mk_tty :: bool

text \<open>What can be observed of a command, in order.\<close>

datatype event = EvMake make_run | EvPrint string | EvLog string

type_synonym ('w, 'a) cmd = "'w \<Rightarrow> 'w \<times> event list \<times> 'a outcome"

definition creturn :: "'a \<Rightarrow> ('w, 'a) cmd" where
  "creturn x w = (w, [], Val x)"

definition cbind :: "('w, 'a) cmd \<Rightarrow> ('a \<Rightarrow> ('w, 'b) cmd) \<Rightarrow> ('w, 'b) cmd" where
  "cbind m f w =
     (case m w of (w1, es1, r) \<Rightarrow>
        (case r of
           Val x \<Rightarrow> (case f x w1 of (w2, es2, r2) \<Rightarrow> (w2, es1 @ es2, r2))
         | Panic s \<Rightarrow> (w1, es1, Panic s)
         | Exit s \<Rightarrow> (w1, es1, Exit s)
         | Diverge \<Rightarrow> (w1, es1, Diverge)))"

definition cthen :: "('w, unit) cmd \<Rightarrow> ('w, 'b) cmd \<Rightarrow> ('w, 'b) cmd" where
  "cthen m k = cbind m (\<lambda>u. k)"

definition clift :: "'a outcome \<Rightarrow> ('w, 'a) cmd" where
  "clift r w = (w, [], r)"

definition cread :: "('w \<Rightarrow> 'a) \<Rightarrow> ('w, 'a) cmd" where
  "cread f w = (w, [], Val (f w))"

definition cstep :: "('w \<Rightarrow> 'w \<times> 'a) \<Rightarrow> ('w, 'a) cmd" where
  "cstep f w = (case f w of (w', x) \<Rightarrow> (w', [], Val x))"

definition cemit :: "event \<Rightarrow> ('w, unit) cmd" where
  "cemit e w = (w, [e], Val ())"

definition cprint :: "string \<Rightarrow> ('w, unit) cmd" where
  "cprint s = cemit (EvPrint s)"

text \<open>\<open>fmt.Println\<close> of one string.\<close>

definition cprintln :: "string \<Rightarrow> ('w, unit) cmd" where
  "cprintln s = cprint (s @ [CHR 0x0A])"

definition cfatal :: "string \<Rightarrow> ('w, 'a) cmd" where
  "cfatal s = clift (Exit s)"

definition cwhen :: "bool \<Rightarrow> ('w, unit) cmd \<Rightarrow> ('w, unit) cmd" where
  "cwhen b m = (if b then m else creturn ())"

fun cforeach :: "'a list \<Rightarrow> ('a \<Rightarrow> ('w, unit) cmd) \<Rightarrow> ('w, unit) cmd" where
  "cforeach [] f = creturn ()"
| "cforeach (x # xs) f = cthen (f x) (cforeach xs f)"

definition nil_deref :: string where
  "nil_deref = ''invalid memory address or nil pointer dereference''"

named_theorems cmd_simps \<open>running commands on a world\<close>

lemmas cmd_basic [cmd_simps] =
  creturn_def clift_def cread_def cstep_def cemit_def cprint_def cfatal_def cthen_def

lemma cbind_run [cmd_simps]:
  "m w = (w1, es1, Val x) \<Longrightarrow> f x w1 = (w2, es2, r) \<Longrightarrow> cbind m f w = (w2, es1 @ es2, r)"
  by (simp add: cbind_def)

lemma cbind_Val_iff:
  "cbind m f w = (w', es, Val y) \<longleftrightarrow>
    (\<exists>w1 es1 x es2. m w = (w1, es1, Val x) \<and> f x w1 = (w', es2, Val y) \<and> es = es1 @ es2)"
  unfolding cbind_def by (auto split: prod.splits outcome.splits)

lemma cbind_creturn [simp]: "cbind (creturn x) f = f x"
  by (rule ext) (simp add: cbind_def creturn_def)

lemma cthen_creturn [simp]: "cthen (creturn ()) m = m"
  by (simp add: cthen_def)

lemma cbind_clift_Val [simp]: "cbind (clift (Val x)) f = f x"
  by (rule ext) (simp add: cbind_def clift_def)

lemma cbind_cread [simp]: "cbind (cread g) f w = f (g w) w"
  by (simp add: cbind_def cread_def split: prod.split)

lemma cbind_cfatal [simp]: "cbind (cfatal s) f w = cfatal s w"
  by (simp add: cbind_def cfatal_def clift_def)

lemma cfatal_run [simp]: "cfatal s w = (w, [], Exit s)"
  by (simp add: cfatal_def clift_def)

lemma cbind_panic [simp]: "cbind (clift (Panic s)) f w = (w, [], Panic s)"
  by (simp add: cbind_def clift_def)

lemma cbind_cstep [simp]: "g w = (w', x) \<Longrightarrow> cbind (cstep g) f w = f x w'"
  by (simp add: cbind_def cstep_def split: prod.split)

lemma cthen_cprint [simp]:
  "cthen (cprint s) m w = (case m w of (w', es, r) \<Rightarrow> (w', EvPrint s # es, r))"
  by (simp add: cthen_def cbind_def cprint_def cemit_def split: prod.split)

lemma cwhen_simps [simp]: "cwhen True m = m" "cwhen False m = creturn ()"
  by (simp_all add: cwhen_def)

section \<open>Flags\<close>

text \<open>
  A flag has a type; a getter for another type, or of a flag that was not registered, returns the
  zero value (and an error the code drops). A floating-point number is its text under \<open>%f\<close>.
\<close>

datatype flag_value =
  FBool bool | FStr string | FInt int | FInt8 "8 word" | FFloat32 string | FFloat64 string |
  FStrs "string list"

type_synonym flags = "(string, flag_value) gomap"

fun same_type :: "flag_value \<Rightarrow> flag_value \<Rightarrow> bool" where
  "same_type (FBool a) (FBool b) = True"
| "same_type (FStr a) (FStr b) = True"
| "same_type (FInt a) (FInt b) = True"
| "same_type (FInt8 a) (FInt8 b) = True"
| "same_type (FFloat32 a) (FFloat32 b) = True"
| "same_type (FFloat64 a) (FFloat64 b) = True"
| "same_type (FStrs a) (FStrs b) = True"
| "same_type a b = False"

definition GetBool :: "flags \<Rightarrow> string \<Rightarrow> bool" where
  "GetBool fs n = (case map_of fs n of Some (FBool b) \<Rightarrow> b | _ \<Rightarrow> False)"

definition GetString :: "flags \<Rightarrow> string \<Rightarrow> string" where
  "GetString fs n = (case map_of fs n of Some (FStr s) \<Rightarrow> s | _ \<Rightarrow> [])"

definition GetInt :: "flags \<Rightarrow> string \<Rightarrow> int" where
  "GetInt fs n = (case map_of fs n of Some (FInt i) \<Rightarrow> i | _ \<Rightarrow> 0)"

definition GetInt8 :: "flags \<Rightarrow> string \<Rightarrow> 8 word" where
  "GetInt8 fs n = (case map_of fs n of Some (FInt8 i) \<Rightarrow> i | _ \<Rightarrow> 0)"

definition GetFloat32 :: "flags \<Rightarrow> string \<Rightarrow> string" where
  "GetFloat32 fs n = (case map_of fs n of Some (FFloat32 x) \<Rightarrow> x | _ \<Rightarrow> ''0.000000'')"

definition GetStringSlice :: "flags \<Rightarrow> string \<Rightarrow> string list" where
  "GetStringSlice fs n = (case map_of fs n of Some (FStrs xs) \<Rightarrow> xs | _ \<Rightarrow> [])"

text \<open>
  The command line sets registered flags to values of their type; anything else is refused before
  the command runs.
\<close>

definition accepts :: "flags \<Rightarrow> flags \<Rightarrow> bool" where
  "accepts defs given \<longleftrightarrow>
     list_all (\<lambda>(n, v). case map_of defs n of None \<Rightarrow> False | Some d \<Rightarrow> same_type d v) given"

definition set_flags :: "flags \<Rightarrow> flags \<Rightarrow> flags" where
  "set_flags defs given = fold (\<lambda>(n, v). AList.update n v) given defs"

lemma map_of_set_flags:
  "map_of (set_flags defs given) n =
     (case map_of (rev given) n of Some v \<Rightarrow> Some v | None \<Rightarrow> map_of defs n)"
proof -
  have "map_of (fold (\<lambda>(n, v). AList.update n v) given defs) n =
      (case map_of (rev given) n of Some v \<Rightarrow> Some v | None \<Rightarrow> map_of defs n)" for defs
    by (induction given arbitrary: defs) (auto simp: go_map_simps split: option.split)
  then show ?thesis by (simp add: set_flags_def)
qed

lemma accepted_type:
  assumes "accepts defs given"
  shows "map_of defs n = None \<Longrightarrow> map_of (set_flags defs given) n = None"
    and "map_of defs n = Some d \<Longrightarrow> \<exists>v. map_of (set_flags defs given) n = Some v \<and> (v = d \<or> same_type d v)"
proof -
  have given: "map_of (rev given) n = Some v \<Longrightarrow> \<exists>d. map_of defs n = Some d \<and> same_type d v" for v
    using assms map_of_SomeD [of "rev given" n v]
    by (fastforce simp: accepts_def list_all_iff split: option.splits)
  show "map_of (set_flags defs given) n = None" if "map_of defs n = None"
    using that given by (cases "map_of (rev given) n") (auto simp: map_of_set_flags)
  show "\<exists>v. map_of (set_flags defs given) n = Some v \<and> (v = d \<or> same_type d v)"
    if "map_of defs n = Some d"
    using that given by (cases "map_of (rev given) n") (auto simp: map_of_set_flags)
qed

text \<open>A getter of the wrong type, or of an unknown flag, sees nothing of what was given.\<close>

lemma unregistered_bool: "accepts defs given \<Longrightarrow> map_of defs n = None \<Longrightarrow> \<not> GetBool (set_flags defs given) n"
  by (simp add: GetBool_def accepted_type(1))

lemma float64_read_as_float32:
  assumes "accepts defs given" and "map_of defs n = Some (FFloat64 x)"
  shows "GetFloat32 (set_flags defs given) n = ''0.000000''"
proof -
  obtain v where v: "map_of (set_flags defs given) n = Some v" "v = FFloat64 x \<or> same_type (FFloat64 x) v"
    using accepted_type(2) [OF assms] by blast
  then show ?thesis by (cases v) (simp_all add: GetFloat32_def)
qed

section \<open>File paths\<close>

text \<open>
  \<open>filepath.Clean\<close> and \<open>filepath.Join\<close>: empty and \<open>.\<close> elements go, and \<open>..\<close> takes back the
  element before it.
\<close>

fun clean_parts :: "bool \<Rightarrow> string list \<Rightarrow> string list \<Rightarrow> string list" where
  "clean_parts rooted acc [] = rev acc"
| "clean_parts rooted acc (x # xs) =
     (if x = [] \<or> x = ''.'' then clean_parts rooted acc xs
      else if x = ''..'' then
        (case acc of
           [] \<Rightarrow> clean_parts rooted (if rooted then [] else [x]) xs
         | a # as \<Rightarrow> clean_parts rooted (if a = ''..'' then x # acc else as) xs)
      else clean_parts rooted (x # acc) xs)"

definition path_clean :: "string \<Rightarrow> string" where
  "path_clean p =
     (let rooted = (p \<noteq> [] \<and> hd p = CHR ''/'');
          parts = clean_parts rooted [] (split_on (CHR ''/'') p);
          s = (if rooted then ''/'' else []) @ join_with ''/'' parts
      in if s = [] then ''.'' else s)"

definition path_join :: "string list \<Rightarrow> string" where
  "path_join ps =
     (let qs = filter (\<lambda>p. p \<noteq> []) ps in if qs = [] then [] else path_clean (join_with ''/'' qs))"

section \<open>Helpers of the commands\<close>

datatype stat = StatMissing | StatError err | StatDir | StatFile

record 'w cli =
  c_environ :: "(string, string) gomap"
    \<comment> \<open>\<open>os.Environ()\<close>; an entry \<open>k=v\<close> is the pair of both\<close>
  c_home :: string
    \<comment> \<open>\<open>homeDir\<close>, the directory \<open>.digi\<close> of the user\<close>
  c_getwd :: "err + string"
    \<comment> \<open>\<open>os.Getwd()\<close>\<close>
  c_order :: order
    \<comment> \<open>the order of \<open>range\<close> over a map\<close>
  c_make :: "make_run \<Rightarrow> 'w \<Rightarrow> 'w \<times> string \<times> bool"
    \<comment> \<open>what \<open>make\<close> does to the world, what it writes, and whether it succeeded\<close>
  c_pty :: "err option"
    \<comment> \<open>the error of \<open>pty.Start\<close>\<close>
  c_raw :: "err option"
    \<comment> \<open>the error of \<open>term.MakeRaw\<close>, when the input is no terminal\<close>
  c_viper :: "'w viper"
  c_read :: "'w \<Rightarrow> string \<Rightarrow> err + string"
    \<comment> \<open>\<open>ioutil.ReadFile\<close>\<close>
  c_stat :: "'w \<Rightarrow> string \<Rightarrow> stat"
    \<comment> \<open>\<open>os.Stat\<close>\<close>
  c_profile :: "string \<Rightarrow> err + kind"
    \<comment> \<open>\<open>yaml.Unmarshal\<close> of a model file: its group, version and kind\<close>
  c_plural :: "string \<Rightarrow> string"
    \<comment> \<open>the plural of a kind\<close>

definition Getenv :: "'w cli \<Rightarrow> string \<Rightarrow> string" where
  "Getenv cl k = (case map_of (c_environ cl) k of None \<Rightarrow> [] | Some v \<Rightarrow> v)"

text \<open>
  The environment is a list of entries; of several for one variable the last counts
  (\<open>os/exec\<close>).
\<close>

definition env_of :: "make_run \<Rightarrow> string \<Rightarrow> string option" where
  "env_of r k = map_of (rev (mk_env r)) k"

definition make_command :: "'w cli \<Rightarrow> (string, string) gomap \<Rightarrow> string \<Rightarrow> bool \<Rightarrow> make_run outcome" where
  "make_command cl args target tty =
     (let env = c_environ cl @ range_map (c_order cl) args;
          run = (\<lambda>env. \<lparr>mk_env = env, mk_target = target, mk_dir = c_home cl, mk_tty = tty\<rparr>)
      in if Getenv cl ''WORKDIR'' = [] then
           (case c_getwd cl of
              Inl err \<Rightarrow> Exit (''unable to find work dir: '' @ err_text err)
            | Inr curDir \<Rightarrow> Val (run (env @ [(''WORKDIR'', curDir)])))
         else Val (run env))"

text \<open>Running it: the success is dropped by \<open>Output\<close> and \<open>Run\<close>, and never asked for on a terminal.\<close>

definition make_go :: "'w cli \<Rightarrow> make_run \<Rightarrow> ('w, string) cmd" where
  "make_go cl r w = (case c_make cl r w of (w', out, ok) \<Rightarrow> (w', [EvMake r], Val out))"

definition RunMake :: "'w cli \<Rightarrow> (string, string) gomap \<Rightarrow> string \<Rightarrow> bool \<Rightarrow> bool \<Rightarrow> ('w, err option) cmd" where
  "RunMake cl args target usePtx quiet =
     cbind (clift (make_command cl args target (usePtx \<and> \<not> quiet))) (\<lambda>r.
       if \<not> usePtx \<or> quiet then
         cbind (make_go cl r) (\<lambda>out. cthen (cwhen (\<not> quiet) (cprint out)) (creturn None))
       else
         (case c_pty cl of
            Some err \<Rightarrow> clift (Panic (err_text err))
          | None \<Rightarrow>
              cbind (make_go cl r) (\<lambda>out.
                case c_raw cl of
                  Some err \<Rightarrow> clift (Panic (err_text err))
                | None \<Rightarrow> cthen (cprint out) (creturn None))))"

text \<open>\<open>_ = helper.RunMake(...)\<close>\<close>

definition run_make :: "'w cli \<Rightarrow> (string, string) gomap \<Rightarrow> string \<Rightarrow> bool \<Rightarrow> bool \<Rightarrow> ('w, unit) cmd" where
  "run_make cl args target usePtx quiet =
     cbind (RunMake cl args target usePtx quiet) (\<lambda>e. creturn ())"

definition work_dir :: "'w cli \<Rightarrow> string" where
  "work_dir cl = (if Getenv cl ''WORKDIR'' = [] then ''.'' else Getenv cl ''WORKDIR'')"

definition GetKindFromProfile :: "'w cli \<Rightarrow> string \<Rightarrow> 'w \<Rightarrow> err + kind" where
  "GetKindFromProfile cl dirName w =
     (case c_read cl w (path_join [work_dir cl, dirName, ''model.yaml'']) of
        Inl err \<Rightarrow> Inl (Wrap ''cannot open model file'' err)
      | Inr modelFile \<Rightarrow>
          (case c_profile cl modelFile of
             Inl err \<Rightarrow> Inl (Wrap ''cannot unmarshal model file'' err)
           | Inr raw \<Rightarrow> Inr \<lparr>k_Group = to_lower (k_Group raw), k_Version = to_lower (k_Version raw),
               k_Name = to_lower (k_Name raw)\<rparr>))"

definition alias_of :: "kind \<Rightarrow> string \<Rightarrow> string \<Rightarrow> alias_entry" where
  "alias_of kind name namespace =
     \<lparr>al_Name = name, al_Duri = Some \<lparr>a_Kind = kind, a_Name = name, a_Namespace = namespace, a_Path = []\<rparr>\<rparr>"

definition CreateAlias :: "'w cli \<Rightarrow> kind \<Rightarrow> string \<Rightarrow> string \<Rightarrow> 'w \<Rightarrow> 'w \<times> err option" where
  "CreateAlias cl kind name namespace w =
     (case Alias_Set (c_viper cl) (alias_of kind name namespace) w of
        (w', e) \<Rightarrow> (w', map_option (Wrap ''unable to create alias'') e))"

section \<open>Ranges in arguments\<close>

text \<open>
  \<open>(.*)\{(\d{1,})..(\d{1,})\}(.*)\<close> on one line: the first \<open>.*\<close> takes the last range, the digits are
  as many as possible, and the two dots stand for any two characters. \<open>range_from n t\<close> tries the
  numbers of at most \<open>n\<close> digits at the start of \<open>t\<close>.
\<close>

fun range_from :: "nat \<Rightarrow> string \<Rightarrow> (string \<times> string \<times> string) option" where
  "range_from 0 t = None"
| "range_from (Suc n) t =
     (let r = drop (Suc (Suc (Suc n))) t;
          b = takeWhile is_digit r;
          r' = dropWhile is_digit r
      in if b \<noteq> [] \<and> r' \<noteq> [] \<and> hd r' = CHR 0x7D then Some (take (Suc n) t, b, tl r')
         else range_from n t)"

fun last_range :: "string \<Rightarrow> (string \<times> string \<times> string \<times> string) option" where
  "last_range [] = None"
| "last_range (c # cs) =
     (case last_range cs of
        Some (p, a, b, s) \<Rightarrow> Some (c # p, a, b, s)
      | None \<Rightarrow>
          (if c = CHR 0x7B then map_option (\<lambda>(a, b, s). ([], a, b, s))
             (range_from (length (takeWhile is_digit cs)) cs)
           else None))"

text \<open>The dot does not match a line feed: the leftmost match is in the first line that has one.\<close>

fun first_some :: "('a \<Rightarrow> 'b option) \<Rightarrow> 'a list \<Rightarrow> 'b option" where
  "first_some f [] = None"
| "first_some f (x # xs) = (case f x of Some y \<Rightarrow> Some y | None \<Rightarrow> first_some f xs)"

definition find_range :: "string \<Rightarrow> (string \<times> string \<times> string \<times> string) option" where
  "find_range arg = first_some last_range (split_on (CHR 0x0A) arg)"

definition isExpandSyntax :: "string \<Rightarrow> bool" where
  "isExpandSyntax arg \<longleftrightarrow> find_range arg \<noteq> None"

text \<open>\<open>strconv.Atoi\<close> on a non-empty string of digits, an \<open>int\<close> of 64 bits.\<close>

definition digits_value :: "string \<Rightarrow> int" where
  "digits_value s = fold (\<lambda>c v. 10 * v + (of_char c - 48)) s 0"

definition max_int :: int where
  "max_int = 2 ^ 63 - 1"

definition atoi_digits :: "string \<Rightarrow> int option" where
  "atoi_digits s = (let v = digits_value s in if v \<le> max_int then Some v else None)"

lemma last_range_length: "last_range s = Some (p, a, b, t) \<Longrightarrow> length p < length s"
  by (induction s arbitrary: p) (auto split: option.splits if_splits prod.splits)

lemma find_range_length: "find_range s = Some (p, a, b, t) \<Longrightarrow> length p < length s"
proof -
  assume "find_range s = Some (p, a, b, t)"
  moreover have "first_some last_range ls = Some (p, a, b, t) \<Longrightarrow> \<exists>l \<in> set ls. last_range l = Some (p, a, b, t)" for ls
    by (induction ls) (auto split: option.splits)
  ultimately obtain l where l: "l \<in> set (split_on (CHR 0x0A) s)" "last_range l = Some (p, a, b, t)"
    unfolding find_range_def by blast
  have "length l \<le> length s"
    using l(1) by (induction s arbitrary: l) (auto split: if_splits list.splits, fastforce+)
  with last_range_length [OF l(2)] show ?thesis by simp
qed

text \<open>
  One argument. The counter of the loop is an \<open>int\<close>: with the largest one as the end the loop
  never ends.
\<close>

function expand_arg :: "string \<Rightarrow> string list outcome" where
  "expand_arg arg =
     (if isExpandSyntax arg then
        (case find_range arg of
           None \<Rightarrow> Val [arg]
         | Some (p, a, b, s) \<Rightarrow>
             (case atoi_digits a of
                None \<Rightarrow> Panic ''value out of range''
              | Some from \<Rightarrow>
                  (case atoi_digits b of
                     None \<Rightarrow> Panic ''value out of range''
                   | Some til \<Rightarrow>
                       obind (expand_arg p) (\<lambda>ps.
                         if ps \<noteq> [] \<and> til = max_int then Diverge
                         else Val (concat (map (\<lambda>q. map (\<lambda>i. q @ itoa i @ s) [from..til]) ps))))))
      else Val [arg])"
  by pat_completeness auto
termination
  by (relation "measure length") (auto dest: find_range_length)

declare expand_arg.simps [simp del]

fun ExpandArgs :: "string list \<Rightarrow> string list outcome" where
  "ExpandArgs [] = Val []"
| "ExpandArgs (arg # args) =
     obind (expand_arg arg) (\<lambda>es. obind (ExpandArgs args) (\<lambda>rest. Val (es @ rest)))"

section \<open>Lemmas\<close>

lemma cbind_clift_no_Val: "(\<And>x. r \<noteq> Val x) \<Longrightarrow> \<exists>r'. cbind (clift r) f w = (w, [], r') \<and> (\<forall>x. r' \<noteq> Val x)"
  by (cases r) (auto simp: cbind_def clift_def)

lemma RunMake_cases:
  assumes "RunMake cl args target tty quiet w = (w', es, r)"
  obtains "es = []" and "\<And>e. r \<noteq> Val e"
  | m out ok where "make_command cl args target (tty \<and> \<not> quiet) = Val m"
      and "c_make cl m w = (w', out, ok)" and "es = [EvMake m] \<or> es = [EvMake m, EvPrint out]"
      and "\<And>e. r = Val e \<Longrightarrow> e = None"
proof (cases "make_command cl args target (tty \<and> \<not> quiet)")
  case (Val m)
  obtain w2 out ok where go: "c_make cl m w = (w2, out, ok)"
    by (metis prod_cases3)
  have g: "make_go cl m w = (w2, [EvMake m], Val out)"
    by (simp add: make_go_def go)
  show thesis
  proof (cases "(tty \<and> \<not> quiet) \<and> c_pty cl \<noteq> None")
    case True
    then obtain e where "c_pty cl = Some e" by blast
    with assms Val True have "es = [] \<and> (\<forall>e. r \<noteq> Val e)"
      by (auto simp: RunMake_def clift_def)
    with that(1) show thesis by blast
  next
    case False
    with assms Val g
    have "w' = w2 \<and> (es = [EvMake m] \<or> es = [EvMake m, EvPrint out]) \<and> (\<forall>e. r = Val e \<longrightarrow> e = None)"
      by (cases quiet; cases tty; cases "c_raw cl")
        (auto simp: RunMake_def cbind_def clift_def cthen_def creturn_def cprint_def cemit_def)
    with that(2) go Val show thesis by blast
  qed
qed (use assms that(1) in \<open>auto simp: RunMake_def cbind_def clift_def\<close>)

lemma make_command_result:
  assumes "make_command cl args target tty = Val m"
  shows "mk_target m = target \<and> mk_dir m = c_home cl \<and> mk_tty m = tty \<and>
    (Getenv cl ''WORKDIR'' = [] \<longrightarrow> (\<exists>d. c_getwd cl = Inr d)) \<and>
    mk_env m = c_environ cl @ range_map (c_order cl) args @
      (if Getenv cl ''WORKDIR'' = [] then [(''WORKDIR'', projr (c_getwd cl))] else [])"
  using assms by (auto simp: make_command_def Let_def split: if_splits sum.splits)

lemma map_of_rev_distinct: "distinct (map fst xs) \<Longrightarrow> map_of (rev xs) = map_of xs"
proof (induction xs)
  case (Cons x xs)
  then have "map_of (rev xs) (fst x) = None"
    by (auto simp: map_of_eq_None_iff)
  with Cons show ?case by (auto simp: map_add_def fun_eq_iff split: option.split)
qed simp

lemma map_of_range_map:
  assumes "range_order ord"
  shows "map_of (range_map ord m) k = map_of m k"
proof (cases "map_of m k")
  case None
  with set_range_map [OF assms, of m] have "k \<notin> fst ` set (range_map ord m)" by auto
  then have "map_of (range_map ord m) k = None" by (simp only: map_of_eq_None_iff not_False_eq_True)
  with None show ?thesis by simp
next
  case (Some v)
  with set_range_map [OF assms, of m] have "k \<in> fst ` set (range_map ord m)" by force
  then obtain v' where v': "map_of (range_map ord m) k = Some v'"
    by (metis map_of_eq_None_iff not_None_eq)
  then have "(k, v') \<in> set (range_map ord m)" by (rule map_of_SomeD)
  with v' Some set_range_map [OF assms, of m] show ?thesis by auto
qed

lemma distinct_range_map:
  "range_order ord \<Longrightarrow> gomap_ok m \<Longrightarrow> distinct (map fst (range_map ord m))"
  by (simp add: range_map_def gomap_ok_def comp_def range_order_distinct)

lemma env_of_entries:
  assumes "range_order ord" and "gomap_ok args"
  shows "map_of (rev (environ @ range_map ord args @ tail)) k =
    (case map_of (rev tail) k of Some v \<Rightarrow> Some v
     | None \<Rightarrow> (case map_of args k of Some v \<Rightarrow> Some v | None \<Rightarrow> map_of (rev environ) k))"
  using map_of_rev_distinct [OF distinct_range_map [OF assms]] map_of_range_map [OF assms(1), of args k]
  by (simp add: map_add_def split: option.split)

lemma RunMake_nil: "RunMake cl args target tty quiet w = (w', es, Val e) \<Longrightarrow> e = None"
  by (erule RunMake_cases) auto

text \<open>The value of a variable in the environment of a run of \<open>make\<close>.\<close>

lemma RunMake_env:
  assumes "range_order (c_order cl)" and "gomap_ok args"
    and "RunMake cl args target tty quiet w = (w', es, r)" and "EvMake m \<in> set es"
  shows "env_of m k =
      (if k = ''WORKDIR'' \<and> Getenv cl k = [] then Some (projr (c_getwd cl))
       else case map_of args k of Some v \<Rightarrow> Some v | None \<Rightarrow> map_of (rev (c_environ cl)) k)"
    and "mk_target m = target" and "mk_dir m = c_home cl"
proof -
  from assms(3) obtain tty' where 2: "make_command cl args target tty' = Val m"
    using assms(4) by (cases rule: RunMake_cases) auto
  note f = make_command_result [OF this]
  let ?tail = "if Getenv cl ''WORKDIR'' = [] then [(''WORKDIR'', projr (c_getwd cl))] else []"
  have "env_of m k = (case map_of (rev ?tail) k of Some v \<Rightarrow> Some v
      | None \<Rightarrow> (case map_of args k of Some v \<Rightarrow> Some v | None \<Rightarrow> map_of (rev (c_environ cl)) k))"
    using f env_of_entries [OF assms(1,2), of "c_environ cl" ?tail k] by (simp add: env_of_def)
  then show "env_of m k =
      (if k = ''WORKDIR'' \<and> Getenv cl k = [] then Some (projr (c_getwd cl))
       else case map_of args k of Some v \<Rightarrow> Some v | None \<Rightarrow> map_of (rev (c_environ cl)) k)"
    by auto
  from f show "mk_target m = target" and "mk_dir m = c_home cl" by auto
qed

lemma run_make_events:
  assumes "run_make cl args target tty quiet w = (w', es, r)"
  obtains r' where "RunMake cl args target tty quiet w = (w', es, r')"
    and "r = Val () \<longleftrightarrow> (\<exists>e. r' = Val e)"
proof -
  obtain w1 es1 r1 where "RunMake cl args target tty quiet w = (w1, es1, r1)"
    by (metis prod_cases3)
  with assms that show thesis
    by (cases r1) (auto simp: run_make_def cbind_def creturn_def)
qed

section \<open>Ranges of numbers\<close>

lemma last_range_none: "CHR 0x7B \<notin> set s \<Longrightarrow> last_range s = None"
  by (induction s) auto

lemma takeWhile_digits:
  "list_all is_digit b \<Longrightarrow> \<not> is_digit c \<Longrightarrow> takeWhile is_digit (b @ c # s) = b \<and> dropWhile is_digit (b @ c # s) = c # s"
  by (induction b) auto

lemma is_digit_other [simp]: "\<not> is_digit (CHR 0x7D)" "\<not> is_digit (CHR 0x7B)" "\<not> is_digit (CHR ''.'')"
    "\<not> is_digit (CHR 0x0A)"
  by (simp_all add: is_digit_def)

lemma range_from_hit:
  assumes "a \<noteq> []" and "b \<noteq> []" and "list_all is_digit b"
  shows "range_from (length a) (a @ CHR ''.'' # CHR ''.'' # b @ CHR 0x7D # s) = Some (a, b, s)"
proof -
  obtain n where n: "length a = Suc n" using assms(1) by (cases a) auto
  then have "drop (Suc (Suc (Suc n))) (a @ CHR ''.'' # CHR ''.'' # b @ CHR 0x7D # s) = b @ CHR 0x7D # s"
    by simp
  moreover have "take (Suc n) (a @ CHR ''.'' # CHR ''.'' # b @ CHR 0x7D # s) = a"
    using n by simp
  ultimately show ?thesis
    using assms(2) takeWhile_digits [OF assms(3) is_digit_other(1), of s] unfolding n range_from.simps Let_def by simp
qed

lemma last_range_hit:
  assumes "a \<noteq> []" "b \<noteq> []" "list_all is_digit a" "list_all is_digit b" "CHR 0x7B \<notin> set s"
  shows "last_range (p @ CHR 0x7B # a @ CHR ''.'' # CHR ''.'' # b @ CHR 0x7D # s) = Some (p, a, b, s)"
proof (induction p)
  case Nil
  have "CHR 0x7B \<notin> set (a @ CHR ''.'' # CHR ''.'' # b @ CHR 0x7D # s)"
    using assms by (auto simp: list_all_iff)
  moreover have "length (takeWhile is_digit (a @ CHR ''.'' # CHR ''.'' # b @ CHR 0x7D # s)) = length a"
    using takeWhile_digits [OF assms(3) is_digit_other(3)] by simp
  ultimately show ?case
    using range_from_hit [OF assms(1,2,4)] by (simp add: last_range_none)
qed simp

lemma is_digit_digit_char: "d < 10 \<Longrightarrow> is_digit (digit_char d)"
  by (simp add: is_digit_def digit_char_def)

lemma of_char_digit_char: "d < 10 \<Longrightarrow> (of_char (digit_char d) :: int) = 48 + int d"
proof -
  assume "d < 10"
  then have "(of_char (digit_char d) :: nat) = 48 + d" by (simp add: digit_char_def)
  then show ?thesis by (metis of_nat_of_char of_nat_add of_nat_numeral)
qed

lemma nat_str_digits: "nat_str n \<noteq> [] \<and> list_all is_digit (nat_str n)"
  by (induction n rule: nat_str.induct) (subst (1 2) nat_str.simps, simp add: is_digit_digit_char)

lemma digits_value_snoc: "digits_value (s @ [c]) = 10 * digits_value s + (of_char c - 48)"
  by (simp add: digits_value_def)

lemma digits_value_nat_str: "digits_value (nat_str n) = int n"
proof (induction n rule: nat_str.induct)
  case (1 n)
  show ?case
  proof (cases "n < 10")
    case True
    then show ?thesis
      by (subst nat_str.simps) (simp add: digits_value_def of_char_digit_char)
  next
    case False
    with 1 show ?thesis
      by (subst nat_str.simps) (simp add: digits_value_snoc of_char_digit_char,
        metis of_nat_add of_nat_mult of_nat_numeral mult_div_mod_eq)
  qed
qed

lemma digits_no_special:
  "list_all is_digit s \<Longrightarrow> CHR 0x0A \<notin> set s"
  by (auto simp: list_all_iff)

lemma expand_no_brace: "CHR 0x7B \<notin> set p \<Longrightarrow> expand_arg p = Val [p]"
proof -
  assume "CHR 0x7B \<notin> set p"
  moreover have "l \<in> set (split_on c s) \<Longrightarrow> set l \<subseteq> set s" for l c s
    by (induction s arbitrary: l) (auto split: if_splits list.splits, fastforce+)
  ultimately have none: "\<forall>l \<in> set (split_on (CHR 0x0A) p). last_range l = None"
    using last_range_none by blast
  have "\<forall>l \<in> set ls. last_range l = None \<Longrightarrow> first_some last_range ls = None" for ls
    by (induction ls) auto
  from this [OF none] show ?thesis
    by (subst expand_arg.simps) (simp add: isExpandSyntax_def find_range_def)
qed

section \<open>Properties\<close>

text \<open>
  C32. A run of \<open>make\<close> gets the target asked for, in the directory of digi, and an environment in
  which every parameter of the command has its value, whatever the order of the map and whatever
  the caller's environment holds; all other variables are the caller's. Only \<open>WORKDIR\<close> is special:
  where the caller has none, it is the current directory. And whether \<open>make\<close> succeeds or not, the
  caller of \<open>RunMake\<close> is told that it did.
\<close>

theorem make_sees_parameters:
  assumes "range_order (c_order cl)" and "gomap_ok args"
    and "RunMake cl args target tty quiet w = (w', es, r)" and "EvMake m \<in> set es"
  shows "env_of m k =
      (if k = ''WORKDIR'' \<and> Getenv cl k = [] then Some (projr (c_getwd cl))
       else case map_of args k of Some v \<Rightarrow> Some v | None \<Rightarrow> map_of (rev (c_environ cl)) k) \<and>
    mk_target m = target \<and> mk_dir m = c_home cl \<and> r \<notin> range (Val \<circ> Some)"
proof -
  have "r \<notin> range (Val \<circ> Some)"
    using assms(3) by (auto simp: image_iff dest: RunMake_nil)
  with RunMake_env [OF assms] show ?thesis by simp
qed

text \<open>A command line whose \<open>make\<close> always fails, in the directory \<open>/home/u/digis\<close>.\<close>

definition sample_cli :: "'w viper \<Rightarrow> 'w cli" where
  "sample_cli v = \<lparr>c_environ = [(''NAME'', ''old''), (''HOME'', ''/home/u'')], c_home = ''/home/u/.digi'',
     c_getwd = Inr ''/home/u/digis'', c_order = rev, c_make = (\<lambda>r w. (w, ''error'', False)),
     c_pty = None, c_raw = None, c_viper = v,
     c_read = (\<lambda>w p. if p = ''lamp/model.yaml'' then Inr ''lamp'' else Inl (Err ''no such file'')),
     c_stat = (\<lambda>w p. StatMissing),
     c_profile = (\<lambda>t. Inr \<lparr>k_Group = ''digi.dev'', k_Version = ''v1'', k_Name = t\<rparr>),
     c_plural = (\<lambda>s. s @ ''s'')\<rparr>"

lemma make_sees_parameters_witness:
  "let m = \<lparr>mk_env = [(''NAME'', ''old''), (''HOME'', ''/home/u''), (''KIND'', ''lamp''), (''NAME'', ''l1''),
         (''WORKDIR'', ''/home/u/digis'')], mk_target = ''stop'', mk_dir = ''/home/u/.digi'', mk_tty = False\<rparr>
   in env_of m ''NAME'' = Some ''l1''"
  using make_sees_parameters [where cl = "sample_cli mem_viper" and args = "[(''NAME'', ''l1''), (''KIND'', ''lamp'')]"
    and target = "''stop''" and tty = False and quiet = True and w = "([], [])" and w' = "([], [])"
    and k = "''NAME''" and r = "Val None"
    and m = "\<lparr>mk_env = [(''NAME'', ''old''), (''HOME'', ''/home/u''), (''KIND'', ''lamp''), (''NAME'', ''l1''),
         (''WORKDIR'', ''/home/u/digis'')], mk_target = ''stop'', mk_dir = ''/home/u/.digi'', mk_tty = False\<rparr>"
    and es = "[EvMake \<lparr>mk_env = [(''NAME'', ''old''), (''HOME'', ''/home/u''), (''KIND'', ''lamp''), (''NAME'', ''l1''),
         (''WORKDIR'', ''/home/u/digis'')], mk_target = ''stop'', mk_dir = ''/home/u/.digi'', mk_tty = False\<rparr>]"]
  by (simp add: sample_cli_def gomap_ok_def RunMake_def make_command_def make_go_def Getenv_def range_map_def
      cbind_def clift_def cthen_def creturn_def)

text \<open>
  C33. A range \<open>{a..b}\<close> of numbers in an argument stands for all numbers from \<open>a\<close> to \<open>b\<close>: the
  argument is expanded to all combinations of what the text before the range expands to with these
  numbers, in order.
\<close>

theorem expand_range:
  assumes "CHR 0x0A \<notin> set p" and "CHR 0x0A \<notin> set s" and "CHR 0x7B \<notin> set s"
    and "a < 2 ^ 63" and "b < 2 ^ 63 - 1"
  shows "ExpandArgs [p @ ''{'' @ nat_str a @ ''..'' @ nat_str b @ ''}'' @ s] =
    obind (ExpandArgs [p]) (\<lambda>ps.
      Val (concat (map (\<lambda>q. map (\<lambda>i. q @ itoa i @ s) [int a..int b]) ps)))"
proof -
  let ?arg = "p @ CHR 0x7B # nat_str a @ CHR ''.'' # CHR ''.'' # nat_str b @ CHR 0x7D # s"
  have d: "nat_str n \<noteq> []" "list_all is_digit (nat_str n)" for n
    using nat_str_digits by auto
  have "CHR 0x0A \<notin> set ?arg"
    using assms(1,2) digits_no_special [OF d(2)] by auto
  then have fr: "find_range ?arg = Some (p, nat_str a, nat_str b, s)"
    using last_range_hit [OF d(1) d(1) d(2) d(2) assms(3)]
    by (simp add: find_range_def split_on_no_sep)
  have at: "atoi_digits (nat_str a) = Some (int a)" "atoi_digits (nat_str b) = Some (int b)"
    and "int b \<noteq> max_int"
    using assms(4,5) by (auto simp: atoi_digits_def digits_value_nat_str max_int_def)
  with fr have "expand_arg ?arg = obind (expand_arg p) (\<lambda>ps.
      Val (concat (map (\<lambda>q. map (\<lambda>i. q @ itoa i @ s) [int a..int b]) ps)))"
    by (subst expand_arg.simps) (simp add: isExpandSyntax_def)
  then show ?thesis by (simp add: obind_assoc)
qed

lemma expand_range_witness:
  "ExpandArgs [''l{1..3}''] = Val [''l1'', ''l2'', ''l3'']"
proof -
  have n: "nat_str 1 = ''1''" "nat_str 2 = ''2''" "nat_str 3 = ''3''" by code_simp+
  from n have "itoa 1 = ''1''" "itoa 2 = ''2''" "itoa 3 = ''3''" by (simp_all add: itoa_def)
  moreover have "[1..3] = [1, 2, 3 :: int]" by (simp add: upto.simps)
  ultimately show ?thesis
    using expand_range [where p = "''l''" and s = "[]" and a = 1 and b = 3] n
    by (simp del: ExpandArgs.simps) (simp add: expand_no_brace)
qed

text \<open>
  The two dots of the expression stand for any characters, so a number in braces is taken for a
  range too, here an empty one: the argument disappears.
\<close>

lemma number_in_braces_disappears: "ExpandArgs [''x{12345}''] = Val []"
proof -
  have fr: "find_range ''x{12345}'' = Some (''x'', ''12'', ''5'', [])" by code_simp
  have "[12..5] = ([] :: int list)" by simp
  then show ?thesis
    using fr by (simp, subst expand_arg.simps)
      (simp add: isExpandSyntax_def expand_no_brace atoi_digits_def digits_value_def max_int_def)
qed

end
