(* ===== verification/Webhook_Util.thy ===== *)
theory Webhook_Util
  imports Start_Up Cli_Base
begin

text \<open>
  The rest of the webhook's helpers, \<open>space/mount/webhook/util/util.go\<close>, which no program of the
  repository calls: object creators and the client of custom resources. Decoders, type assertions
  and the construction of clients are arguments.
\<close>

definition GroupVersionResourceToString :: "gvr \<Rightarrow> string" where
  "GroupVersionResourceToString r = (case r of (grp, ver, res) \<Rightarrow> concat [grp, ''/'', ver, ''/'', res])"

text \<open>A new object of the static type, if it is a runtime object, into which the text is decoded.\<close>

definition static_NewObject :: "'o option \<Rightarrow> (string \<Rightarrow> 'o \<Rightarrow> err + 'o) \<Rightarrow> string \<Rightarrow> err + 'o" where
  "static_NewObject new_obj decode rawJSON =
     (case new_obj of
        None \<Rightarrow> Inl (Err ''could not type assert metav1.Object to runtime.Object'')
      | Some ob \<Rightarrow>
          (case decode rawJSON ob of
             Inl err \<Rightarrow> Inl (Wrap ''error deseralizing request raw object'' err)
           | Inr ob' \<Rightarrow> Inr ob'))"

definition dynamic_NewObject :: "(string \<Rightarrow> err + 'o) \<Rightarrow> (string \<Rightarrow> err + 'o) \<Rightarrow> string \<Rightarrow> err + 'o" where
  "dynamic_NewObject universal unstructured rawJSON =
     (case universal rawJSON of Inl err \<Rightarrow> unstructured rawJSON | Inr ob \<Rightarrow> Inr ob)"

definition GetK8sCRDClients ::
  "(string \<Rightarrow> string) \<Rightarrow> string \<Rightarrow> 'c start_env \<Rightarrow> ('c \<Rightarrow> err option) \<Rightarrow> string \<Rightarrow> err + 'c" where
  "GetK8sCRDClients env home sn new_for kubehome =
     (let file = (if kubehome \<noteq> [] then kubehome
                  else if env ''KUBECONFIG'' \<noteq> [] then env ''KUBECONFIG''
                  else path_join [home, ''.kube'', ''config'']) in
      case sn_file_config sn file of
        Inl err \<Rightarrow> Inl (Wrap ''could not load configuration'' err)
      | Inr config \<Rightarrow>
          (case new_for config of
             Some err \<Rightarrow> Inl (Wrap ''could not create crd client'' err)
           | None \<Rightarrow> Inr config))"

text \<open>An object of an unknown kind is read all the same, as long as one of the decoders reads it.\<close>

lemma dynamic_NewObject_reads:
  "(\<exists>ob. dynamic_NewObject universal unstructured raw = Inr ob) \<longleftrightarrow>
    (\<exists>ob. universal raw = Inr ob) \<or> (\<exists>ob. unstructured raw = Inr ob)"
  by (auto simp: dynamic_NewObject_def split: sum.splits)

end
