(* ===== verification/Parse_Auri.thy ===== *)
theory Parse_Auri
  imports Model_Uri
begin

text \<open>
  \<open>api/core/core.go\<close>: an Auri from a string, in full (\<open>/group/version/kind/namespace/name.path\<close>),
  without the namespace, or as an alias. The alias table is an argument: \<open>resolve\<close> is
  \<open>alias.Resolve\<close>, which may give a nil pointer (\<open>None\<close>).
\<close>

definition splitAttr :: "string \<Rightarrow> string list" where
  "splitAttr s = split_on AttrPathSeparator s"

text \<open>Reading or setting a field of a nil \<open>*Auri\<close> is a panic.\<close>

definition fromAlias :: "(string \<Rightarrow> err + auri option) \<Rightarrow> string \<Rightarrow> (err + auri) outcome" where
  "fromAlias resolve s =
     (case splitAttr s of
        [] \<Rightarrow> Panic ''index out of range''
      | n # rest \<Rightarrow>
          (case resolve n of
             Inl err \<Rightarrow> Val (Inl err)
           | Inr None \<Rightarrow> Panic ''invalid memory address or nil pointer dereference''
           | Inr (Some auri) \<Rightarrow>
               Val (Inr (if rest \<noteq> [] then auri\<lparr>a_Path := join_with [AttrPathSeparator] rest\<rparr>
                         else auri))))"

text \<open>The end of the function, common to the two long forms.\<close>

definition auri_of_parts ::
  "string \<Rightarrow> string \<Rightarrow> string \<Rightarrow> string \<Rightarrow> string \<Rightarrow> auri" where
  "auri_of_parts g v kn ns oth =
     (let ss = splitAttr oth;
          (n, path) = (if length ss > 1
             then (hd ss, join_with [AttrPathSeparator] (tl ss))
             else (oth, []))
      in \<lparr>a_Kind = \<lparr>k_Group = g, k_Version = v, k_Name = kn\<rparr>,
          a_Name = n, a_Namespace = ns, a_Path = path\<rparr>)"

definition ParseAuri :: "(string \<Rightarrow> err + auri option) \<Rightarrow> string \<Rightarrow> (err + auri) outcome" where
  "ParseAuri resolve s =
     (let ss = split_on UriSeparator s in
      case ss of
        [_, g, v, kn, ns, oth] \<Rightarrow> Val (Inr (auri_of_parts g v kn ns oth))
      | [_, g, v, kn, oth] \<Rightarrow> Val (Inr (auri_of_parts g v kn DefaultNamespace oth))
      | [_, _, _] \<Rightarrow> Val (Inl (Err ''unimplemented''))
      | [_, n] \<Rightarrow> fromAlias resolve n
      | [n] \<Rightarrow> fromAlias resolve n
      | _ \<Rightarrow> Val (Inl (Err (''auri needs to have either 5, 2, or 1 fields, given '' @
               itoa (int (length ss) - 1) @ '' in '' @ s))))"

text \<open>An Auri without slashes in its parts.\<close>

definition no_slashes :: "auri \<Rightarrow> bool" where
  "no_slashes ar \<longleftrightarrow>
     CHR ''/'' \<notin> set (k_Group (a_Kind ar)) \<and> CHR ''/'' \<notin> set (k_Version (a_Kind ar)) \<and>
     CHR ''/'' \<notin> set (k_Name (a_Kind ar)) \<and> CHR ''/'' \<notin> set (a_Namespace ar) \<and>
     CHR ''/'' \<notin> set (a_Name ar) \<and> CHR ''/'' \<notin> set (a_Path ar)"

text \<open>What is printed after the last slash.\<close>

definition printed_end :: "auri \<Rightarrow> string" where
  "printed_end ar = (if a_Path ar = [] then [] else CHR ''.'' # trim_left (CHR ''.'') (a_Path ar))"

lemma auri_of_parts_path:
  assumes "CHR ''.'' \<notin> set n"
  shows "auri_of_parts g v kn ns (n @ CHR ''.'' # p) =
    \<lparr>a_Kind = \<lparr>k_Group = g, k_Version = v, k_Name = kn\<rparr>, a_Name = n, a_Namespace = ns, a_Path = p\<rparr>"
  using assms by (simp add: auri_of_parts_def splitAttr_def go_string_simps join_split)

lemma auri_of_parts_no_path:
  assumes "CHR ''.'' \<notin> set n"
  shows "auri_of_parts g v kn ns n =
    \<lparr>a_Kind = \<lparr>k_Group = g, k_Version = v, k_Name = kn\<rparr>, a_Name = n, a_Namespace = ns, a_Path = []\<rparr>"
  using assms by (simp add: auri_of_parts_def splitAttr_def go_string_simps)

lemma ParseAuri_full:
  assumes "\<forall>x \<in> {g, v, kn, ns, oth}. CHR ''/'' \<notin> set x"
  shows "ParseAuri resolve (''/'' @ g @ ''/'' @ v @ ''/'' @ kn @ ''/'' @ ns @ ''/'' @ oth) =
    Val (Inr (auri_of_parts g v kn ns oth))"
  using assms by (simp add: ParseAuri_def go_string_simps)

lemma ParseAuri_no_namespace:
  assumes "\<forall>x \<in> {g, v, kn, oth}. CHR ''/'' \<notin> set x"
  shows "ParseAuri resolve (''/'' @ g @ ''/'' @ v @ ''/'' @ kn @ ''/'' @ oth) =
    Val (Inr (auri_of_parts g v kn ''default'' oth))"
  using assms by (simp add: ParseAuri_def go_string_simps)

lemma ParseAuri_alias:
  assumes "CHR ''/'' \<notin> set s"
  shows "ParseAuri resolve s = fromAlias resolve s"
    and "ParseAuri resolve (''/'' @ s) = fromAlias resolve s"
  using assms by (simp_all add: ParseAuri_def go_string_simps)

lemma fromAlias_path:
  assumes "CHR ''.'' \<notin> set n" and "resolve n = Inr (Some ar)"
  shows "fromAlias resolve (n @ CHR ''.'' # p) = Val (Inr (ar\<lparr>a_Path := p\<rparr>))"
    and "fromAlias resolve n = Val (Inr ar)"
  using assms by (simp_all add: fromAlias_def splitAttr_def go_string_simps join_split)

lemma ParseAuri_three: "length (split_on (CHR ''/'') s) = 3 \<Longrightarrow>
  ParseAuri resolve s = Val (Inl (Err ''unimplemented''))"
  by (auto simp: ParseAuri_def length_Suc_conv numeral_3_eq_3)

section \<open>Properties\<close>

lemma ParseAuri_printed:
  assumes "nns_documented nns" and "no_slashes ar"
  shows "ParseAuri resolve (Auri_String nns ar) = Val (Inr (auri_of_parts (k_Group (a_Kind ar)) (k_Version (a_Kind ar))
    (k_Name (a_Kind ar)) (a_Namespace ar) (a_Name ar @ printed_end ar)))"
proof -
  let ?k = "a_Kind ar"
  have str: "Auri_String nns ar = ''/'' @ k_Group ?k @ ''/'' @ k_Version ?k @ ''/'' @ k_Name ?k @
      ''/'' @ a_Namespace ar @ ''/'' @ (a_Name ar @ printed_end ar)"
    using assms by (auto simp: Auri_String_def Kind_String_def SpacedName_def nns_documented_def printed_end_def)
  have "CHR ''/'' \<notin> set (printed_end ar)"
    using assms(2) by (auto simp: no_slashes_def printed_end_def trim_left_def dest: set_dropWhileD)
  then show ?thesis
    unfolding str using assms(2) by (subst ParseAuri_full) (auto simp: no_slashes_def)
qed

text \<open>
  C12. Printing and parsing an Auri without slashes, for every alias table: \<open>ParseAuri\<close> reads the string
  that \<open>Auri.String\<close> prints back as the same Auri exactly if the name has no dot and the path does not
  start with one. A name with a dot, which Kubernetes allows, is cut at its first dot, and the rest of
  it is read as the beginning of the path.
\<close>

theorem auri_roundtrip:
  assumes "nns_documented nns" and "no_slashes ar"
  shows "(ParseAuri resolve (Auri_String nns ar) = Val (Inr ar) \<longleftrightarrow>
      CHR ''.'' \<notin> set (a_Name ar) \<and> (a_Path ar \<noteq> [] \<longrightarrow> hd (a_Path ar) \<noteq> CHR ''.'')) \<and>
    (\<forall>n rest. a_Name ar = n @ CHR ''.'' # rest \<longrightarrow> CHR ''.'' \<notin> set n \<longrightarrow>
       ParseAuri resolve (Auri_String nns ar) = Val (Inr (ar\<lparr>a_Name := n, a_Path := rest @ printed_end ar\<rparr>)))"
proof -
  note parsed = ParseAuri_printed [OF assms, of resolve]
  have cut: "ParseAuri resolve (Auri_String nns ar) = Val (Inr (ar\<lparr>a_Name := n, a_Path := rest @ printed_end ar\<rparr>))"
    if "a_Name ar = n @ CHR ''.'' # rest" "CHR ''.'' \<notin> set n" for n rest
    using that unfolding parsed by (simp add: auri_of_parts_path)
  have plain: "ParseAuri resolve (Auri_String nns ar) = Val (Inr (ar\<lparr>a_Path := trim_left (CHR ''.'') (a_Path ar)\<rparr>))"
    if "CHR ''.'' \<notin> set (a_Name ar)"
    using that unfolding parsed
    by (cases "a_Path ar = []") (simp_all add: printed_end_def auri_of_parts_path auri_of_parts_no_path trim_left_def)
  have "ParseAuri resolve (Auri_String nns ar) = Val (Inr ar) \<longleftrightarrow>
      CHR ''.'' \<notin> set (a_Name ar) \<and> (a_Path ar \<noteq> [] \<longrightarrow> hd (a_Path ar) \<noteq> CHR ''.'')"
  proof (cases "CHR ''.'' \<in> set (a_Name ar)")
    case True
    then obtain n rest where "a_Name ar = n @ CHR ''.'' # rest" "CHR ''.'' \<notin> set n" by (auto dest: split_list_first)
    with cut [OF this] True show ?thesis by (cases ar) auto
  next
    case False
    have "trim_left (CHR ''.'') p = p \<longleftrightarrow> (p \<noteq> [] \<longrightarrow> hd p \<noteq> CHR ''.'')" for p
      by (auto simp: trim_left_def dropWhile_eq_self_iff)
    with plain [OF False] False show ?thesis by (cases ar) auto
  qed
  with cut show ?thesis by blast
qed

theorem auri_roundtrip_witness:
  "ParseAuri (\<lambda>n. Inl (Err n)) ''/digi.dev/v1/Lamp/default/l1.spec.data'' =
     Val (Inr \<lparr>a_Kind = \<lparr>k_Group = ''digi.dev'', k_Version = ''v1'', k_Name = ''Lamp''\<rparr>,
       a_Name = ''l1'', a_Namespace = ''default'', a_Path = ''spec.data''\<rparr>) \<and>
   ParseAuri (\<lambda>n. Inl (Err n)) (Auri_String nns_plain \<lparr>a_Kind = \<lparr>k_Group = ''digi.dev'', k_Version = ''v1'', k_Name = ''Lamp''\<rparr>,
       a_Name = ''l.1'', a_Namespace = ''default'', a_Path = ''a''\<rparr>) =
     Val (Inr \<lparr>a_Kind = \<lparr>k_Group = ''digi.dev'', k_Version = ''v1'', k_Name = ''Lamp''\<rparr>,
       a_Name = ''l'', a_Namespace = ''default'', a_Path = ''1.a''\<rparr>)"
proof -
  let ?ar = "\<lambda>n p. \<lparr>a_Kind = \<lparr>k_Group = ''digi.dev'', k_Version = ''v1'', k_Name = ''Lamp''\<rparr>,
    a_Name = n, a_Namespace = ''default'', a_Path = p\<rparr>"
  have ok: "no_slashes (?ar ''l1'' ''spec.data'')" "no_slashes (?ar ''l.1'' ''a'')" by (simp_all add: no_slashes_def)
  have "ParseAuri (\<lambda>n. Inl (Err n)) (Auri_String nns_plain (?ar ''l1'' ''spec.data'')) = Val (Inr (?ar ''l1'' ''spec.data''))"
    using auri_roundtrip [OF nns_plain_documented ok(1), of "\<lambda>n. Inl (Err n)"] by simp
  moreover have "ParseAuri (\<lambda>n. Inl (Err n)) (Auri_String nns_plain (?ar ''l.1'' ''a'')) = Val (Inr (?ar ''l'' ''1.a''))"
    using auri_roundtrip [OF nns_plain_documented ok(2), of "\<lambda>n. Inl (Err n)", THEN conjunct2, rule_format, of "''l''" "''1''"]
    by (simp add: printed_end_def trim_left_def)
  moreover have "Auri_String nns_plain (?ar ''l1'' ''spec.data'') = ''/digi.dev/v1/Lamp/default/l1.spec.data''" by code_simp
  ultimately show ?thesis by simp
qed

text \<open>
  The short forms go through the alias table: with and without the leading slash,
  \<open>name.path\<close> is the Auri the alias stands for with its path replaced, and \<open>name\<close> alone is
  that Auri unchanged; the form \<open>/namespace/name\<close> that the comment lists is an error.
\<close>

theorem auri_alias_forms:
  assumes "resolve n = Inr (Some ar)" and "CHR ''.'' \<notin> set n" and "CHR ''/'' \<notin> set n"
    and "CHR ''/'' \<notin> set p" and "CHR ''/'' \<notin> set ns"
  shows "ParseAuri resolve (n @ ''.'' @ p) = Val (Inr (ar\<lparr>a_Path := p\<rparr>)) \<and>
    ParseAuri resolve (''/'' @ n @ ''.'' @ p) = Val (Inr (ar\<lparr>a_Path := p\<rparr>)) \<and>
    ParseAuri resolve n = Val (Inr ar) \<and> ParseAuri resolve (''/'' @ n) = Val (Inr ar) \<and>
    ParseAuri resolve (''/'' @ ns @ ''/'' @ n @ ''.'' @ p) = Val (Inl (Err ''unimplemented''))"
proof (intro conjI)
  have sl: "CHR ''/'' \<notin> set (n @ ''.'' @ p)" using assms by simp
  have al: "fromAlias resolve (n @ ''.'' @ p) = Val (Inr (ar\<lparr>a_Path := p\<rparr>))"
    using fromAlias_path(1) [of n resolve ar p] assms by simp
  show "ParseAuri resolve (n @ ''.'' @ p) = Val (Inr (ar\<lparr>a_Path := p\<rparr>))"
    and "ParseAuri resolve (''/'' @ n @ ''.'' @ p) = Val (Inr (ar\<lparr>a_Path := p\<rparr>))"
    using ParseAuri_alias [OF sl] al by simp_all
  show "ParseAuri resolve n = Val (Inr ar)" and "ParseAuri resolve (''/'' @ n) = Val (Inr ar)"
    using ParseAuri_alias [OF assms(3)] fromAlias_path(2) [where resolve = resolve, OF assms(2,1)] by simp_all
  show "ParseAuri resolve (''/'' @ ns @ ''/'' @ n @ ''.'' @ p) = Val (Inl (Err ''unimplemented''))"
    using assms by (intro ParseAuri_three) (simp add: go_string_simps)
qed

theorem auri_alias_forms_witness:
  "ParseAuri (\<lambda>n. Inr (Some (\<lparr>a_Kind = \<lparr>k_Group = ''g'', k_Version = ''v'', k_Name = ''K''\<rparr>,
      a_Name = n, a_Namespace = ''default'', a_Path = []\<rparr>))) ''/l1.a.b'' =
    Val (Inr \<lparr>a_Kind = \<lparr>k_Group = ''g'', k_Version = ''v'', k_Name = ''K''\<rparr>,
      a_Name = ''l1'', a_Namespace = ''default'', a_Path = ''a.b''\<rparr>)"
  using auri_alias_forms [of "\<lambda>n. Inr (Some (\<lparr>a_Kind = \<lparr>k_Group = ''g'', k_Version = ''v'', k_Name = ''K''\<rparr>,
      a_Name = n, a_Namespace = ''default'', a_Path = []\<rparr>))" "''l1''" _ "''a.b''" "''default''"]
  by simp

end
