(* ===== verification/Kube_Config.thy ===== *)
theory Kube_Config
  imports Prelude
begin

text \<open>
  The command line's kube config files, \<open>api/k8s/kubeconfig.go\<close> with the helpers it uses of
  \<open>util.go\<close>: loading, listing, deleting, merging and the repair of a fresh cluster's file. Reading,
  writing and merging files is done by client-go, a parameter on a file system of type \<open>'w\<close>;
  \<open>kube_files_ok\<close> states what its documentation says of them.
\<close>

section \<open>Configurations\<close>

text \<open>
  The fields of \<open>clientcmdapi.Config\<close> the code reads or writes; what it only copies is kept as one
  text.
\<close>

record kc_cluster =
  cl_Server :: string
  cl_rest :: string

record kc_context =
  cx_Cluster :: string
  cx_rest :: string

record kube_config =
  kc_Clusters :: "(string, kc_cluster) gomap"
  kc_AuthInfos :: "(string, string) gomap"
  kc_Contexts :: "(string, kc_context) gomap"
  kc_CurrentContext :: string

definition NewConfig :: kube_config where
  "NewConfig = \<lparr>kc_Clusters = [], kc_AuthInfos = [], kc_Contexts = [], kc_CurrentContext = []\<rparr>"

datatype load_error = NotExist | LoadErr err

record 'w kube_files =
  kf_load :: "'w \<Rightarrow> string \<Rightarrow> load_error + kube_config"
    \<comment> \<open>\<open>clientcmd.LoadFromFile\<close>\<close>
  kf_write :: "kube_config \<Rightarrow> string \<Rightarrow> 'w \<Rightarrow> 'w \<times> err option"
    \<comment> \<open>\<open>clientcmd.WriteToFile\<close>\<close>
  kf_temp :: "'w \<Rightarrow> 'w \<times> string option"
    \<comment> \<open>\<open>ioutil.TempFile\<close>: the name of the file, or nil\<close>
  kf_remove :: "string \<Rightarrow> 'w \<Rightarrow> 'w \<times> err option"
    \<comment> \<open>\<open>os.Remove\<close>\<close>
  kf_merge :: "'w \<Rightarrow> string list \<Rightarrow> err + kube_config"
    \<comment> \<open>\<open>ClientConfigLoadingRules{Precedence: files}.Load()\<close>\<close>
  kf_resolve_cluster :: "string \<Rightarrow> kc_cluster \<Rightarrow> kc_cluster"
    \<comment> \<open>\<open>clientcmd.ResolveLocalPaths\<close> for a cluster of the file\<close>
  kf_resolve_user :: "string \<Rightarrow> string \<Rightarrow> string"
    \<comment> \<open>and for a user of it\<close>
  kf_home :: string
    \<comment> \<open>\<open>kubeConfigFile\<close>, set up from the home directory\<close>

definition KubeConfigFile :: "'w kube_files \<Rightarrow> string" where
  "KubeConfigFile kf = kf_home kf"

section \<open>Operations\<close>

definition LoadKubeConfig :: "'w kube_files \<Rightarrow> string list \<Rightarrow> 'w \<Rightarrow> err + kube_config" where
  "LoadKubeConfig kf src w =
     (let file = (case src of [] \<Rightarrow> KubeConfigFile kf | f # _ \<Rightarrow> f) in
      case kf_load kf w file of
        Inl (LoadErr e) \<Rightarrow> Inl (Wrap (''error loading kube config '' @ file) e)
      | Inl NotExist \<Rightarrow> Inr NewConfig
      | Inr config \<Rightarrow> Inr config)"

text \<open>
  \<open>make([]string, n-1)\<close> has the length \<open>n - 1\<close>, all of it empty strings, and panics for an
  empty map; the names are appended behind.
\<close>

definition map_ids :: "order \<Rightarrow> (string, 'v) gomap \<Rightarrow> string list outcome" where
  "map_ids ord m =
     (if length m = 0 then Panic ''makeslice: len out of range''
      else Val (replicate (length m - 1) [] @ ord (keys_of m)))"

definition Clusters :: "order \<Rightarrow> kube_config \<Rightarrow> string list outcome" where
  "Clusters ord kc = map_ids ord (kc_Clusters kc)"

definition Users :: "order \<Rightarrow> kube_config \<Rightarrow> string list outcome" where
  "Users ord kc = map_ids ord (kc_AuthInfos kc)"

definition Contexts :: "order \<Rightarrow> kube_config \<Rightarrow> string list outcome" where
  "Contexts ord kc = map_ids ord (kc_Contexts kc)"

definition CurrentContext :: "kube_config \<Rightarrow> string" where
  "CurrentContext kc = kc_CurrentContext kc"

definition ClusterToContextMap :: "order \<Rightarrow> kube_config \<Rightarrow> (string, string) gomap" where
  "ClusterToContextMap ord kc =
     fold (\<lambda>(n, c) cm. AList.update n (cx_Cluster c) cm) (range_map ord (kc_Contexts kc)) []"

definition clusterExists :: "string \<Rightarrow> kube_config \<Rightarrow> bool" where
  "clusterExists i config \<longleftrightarrow> map_of (kc_Clusters config) i \<noteq> None"

text \<open>With an error the configuration is nil, and looking into it a panic.\<close>

definition ClusterExistsLocal :: "'w kube_files \<Rightarrow> string \<Rightarrow> 'w \<Rightarrow> (bool \<times> err option) outcome" where
  "ClusterExistsLocal kf i w =
     (case LoadKubeConfig kf [KubeConfigFile kf] w of
        Inl e \<Rightarrow> Panic ''invalid memory address or nil pointer dereference''
      | Inr localConfig \<Rightarrow> Val (clusterExists i localConfig, None))"

definition DeleteKubeConfig :: "kube_config \<Rightarrow> string \<Rightarrow> kube_config \<times> err option" where
  "DeleteKubeConfig kc i =
     (kc\<lparr>kc_Clusters := AList.delete i (kc_Clusters kc),
         kc_AuthInfos := AList.delete i (kc_AuthInfos kc),
         kc_Contexts := AList.delete i (kc_Contexts kc)\<rparr>, None)"

fun DeleteFiles :: "'w kube_files \<Rightarrow> string list \<Rightarrow> bool \<Rightarrow> 'w \<Rightarrow> 'w \<times> err option" where
  "DeleteFiles kf [] succeed w =
     (w, if succeed then None else Some (Err ''some files cannot be removed, check log for details''))"
| "DeleteFiles kf (f # fs) succeed w =
     (case kf_remove kf f w of (w', e) \<Rightarrow> DeleteFiles kf fs (succeed \<and> e = None) w')"

text \<open>The list of files starts with one empty name per configuration.\<close>

fun write_temps ::
  "'w kube_files \<Rightarrow> kube_config list \<Rightarrow> string list \<Rightarrow> 'w \<Rightarrow> ('w \<times> (err + string list)) outcome" where
  "write_temps kf [] files w = Val (w, Inr files)"
| "write_temps kf (k # ks) files w =
     (case kf_temp kf w of
        (w1, None) \<Rightarrow> Panic ''invalid memory address or nil pointer dereference''
      | (w1, Some f) \<Rightarrow>
          (case kf_write kf k f w1 of
             (w2, Some e) \<Rightarrow> Val (fst (DeleteFiles kf files True w2), Inl (Wrap ''unable to merge'' e))
           | (w2, None) \<Rightarrow> write_temps kf ks (files @ [f]) w2))"

definition MergeKubeConfigs ::
  "'w kube_files \<Rightarrow> kube_config list \<Rightarrow> 'w \<Rightarrow> ('w \<times> (err + kube_config)) outcome" where
  "MergeKubeConfigs kf kcs w =
     obind (write_temps kf kcs (replicate (length kcs) []) w) (\<lambda>(w', r).
       case r of
         Inl e \<Rightarrow> Val (w', Inl e)
       | Inr files \<Rightarrow> Val (w', kf_merge kf w' files))"

definition WriteKubeConfig :: "'w kube_files \<Rightarrow> kube_config \<Rightarrow> string list \<Rightarrow> 'w \<Rightarrow> 'w \<times> err option" where
  "WriteKubeConfig kf c dest w =
     kf_write kf c (case dest of [] \<Rightarrow> KubeConfigFile kf | f # _ \<Rightarrow> f) w"

subsection \<open>Repairing the file of a new cluster\<close>

definition fix_clusters ::
  "(string \<Rightarrow> bool) \<Rightarrow> string \<Rightarrow> string \<Rightarrow> kube_config \<Rightarrow> (err + kube_config) outcome" where
  "fix_clusters valid clusterID clusterAddr config =
     (if \<not> valid clusterAddr then Val (Inl (Err (''invalid address: '' @ clusterAddr)))
      else case kc_Clusters config of
        [] \<Rightarrow> Panic ''invalid memory address or nil pointer dereference''
      | [(oldName, cluster)] \<Rightarrow>
          (let cluster' = cluster\<lparr>cl_Server := clusterAddr\<rparr> in
           Val (Inr (config\<lparr>kc_Clusters :=
             AList.delete oldName (AList.update clusterID cluster' [(oldName, cluster')])\<rparr>)))
      | cs \<Rightarrow> Val (Inl (Err (''the master config file contains multiple clusters: '' @
               itoa (int (length cs))))))"

definition fix_contexts :: "string \<Rightarrow> kube_config \<Rightarrow> (err + kube_config) outcome" where
  "fix_contexts clusterID config0 =
     (let config = config0\<lparr>kc_CurrentContext := clusterID\<rparr> in
      case kc_Contexts config of
        [] \<Rightarrow> Panic ''invalid memory address or nil pointer dereference''
      | [(oldName, cx)] \<Rightarrow>
          (let cx' = cx\<lparr>cx_Cluster := clusterID\<rparr> in
           Val (Inr (config\<lparr>kc_Contexts :=
             AList.delete oldName (AList.update clusterID cx' [(oldName, cx')])\<rparr>)))
      | cs \<Rightarrow> Val (Inl (Err (''the master config file contains multiple contexts: '' @
               itoa (int (length cs))))))"

text \<open>The first match of \<open>(\w+)=([\S]+)\<close> in a modifier.\<close>

definition is_word :: "char \<Rightarrow> bool" where
  "is_word c \<longleftrightarrow> is_letter c \<or> is_digit c \<or> c = CHR ''_''"

definition is_re_space :: "char \<Rightarrow> bool" where
  "is_re_space c \<longleftrightarrow> (of_char c :: nat) \<in> {9, 10, 12, 13, 32}"

fun find_kv :: "string \<Rightarrow> (string \<times> string) option" where
  "find_kv [] = None"
| "find_kv (c # cs) =
     (let k = takeWhile is_word (c # cs);
          r = dropWhile is_word (c # cs);
          v = takeWhile (\<lambda>x. \<not> is_re_space x) (tl r)
      in if k \<noteq> [] \<and> r \<noteq> [] \<and> hd r = CHR ''='' \<and> v \<noteq> [] then Some (k, v) else find_kv cs)"

fun fix_modifiers :: "string \<Rightarrow> string list \<Rightarrow> kube_config \<Rightarrow> (err + kube_config) outcome" where
  "fix_modifiers clusterID [] config = Val (Inr config)"
| "fix_modifiers clusterID (m # ms) config =
     (case find_kv m of
        None \<Rightarrow> Val (Inl (Err (''unable to parse modifier: '' @ m)))
      | Some (k, v) \<Rightarrow>
          (if k = ''server'' then
             (case map_of (kc_Clusters config) clusterID of
                None \<Rightarrow> Panic ''invalid memory address or nil pointer dereference''
              | Some cl \<Rightarrow> fix_modifiers clusterID ms
                  (config\<lparr>kc_Clusters := AList.update clusterID (cl\<lparr>cl_Server := v\<rparr>) (kc_Clusters config)\<rparr>))
           else Val (Inl (Err (''unsupported modifier: '' @ k @ ''='' @ v)))))"

text \<open>\<open>valid\<close> is \<open>ValidURL(s) || ValidIP(s)\<close>, two parsers of the standard library.\<close>

definition FixKubeConfig ::
  "'w kube_files \<Rightarrow> (string \<Rightarrow> bool) \<Rightarrow> string \<Rightarrow> string \<Rightarrow> string \<Rightarrow> string list \<Rightarrow> 'w \<Rightarrow>
   ('w \<times> err option) outcome" where
  "FixKubeConfig kf valid file clusterID clusterAddr modifiers w =
     (case kf_load kf w file of
        Inl (LoadErr e) \<Rightarrow> Val (w, Some e)
      | Inl NotExist \<Rightarrow> Val (w, Some (Err ''no such file or directory''))
      | Inr config \<Rightarrow>
          obind (fix_clusters valid clusterID clusterAddr config) (\<lambda>r1.
            case r1 of Inl e \<Rightarrow> Val (w, Some e) | Inr config1 \<Rightarrow>
            obind (fix_contexts clusterID config1) (\<lambda>r2.
              case r2 of Inl e \<Rightarrow> Val (w, Some e) | Inr config2 \<Rightarrow>
              obind (fix_modifiers clusterID modifiers config2) (\<lambda>r3.
                case r3 of Inl e \<Rightarrow> Val (w, Some e)
                | Inr config3 \<Rightarrow> Val (kf_write kf config3 file w)))))"

section \<open>What client-go promises\<close>

text \<open>
  \<open>Load\<close> merges files: of every name, the entry of the first file that has it. Relative paths in an entry
  are resolved against the folder of that file.
\<close>

fun first_entry :: "('a \<Rightarrow> (string, 'v) gomap) \<Rightarrow> 'a list \<Rightarrow> string \<Rightarrow> ('a \<times> 'v) option" where
  "first_entry sel [] k = None"
| "first_entry sel (c # cs) k =
     (case map_of (sel c) k of Some v \<Rightarrow> Some (c, v) | None \<Rightarrow> first_entry sel cs k)"

definition merged_of :: "'w kube_files \<Rightarrow> (string \<times> kube_config) list \<Rightarrow> kube_config \<Rightarrow> bool" where
  "merged_of kf fcs m \<longleftrightarrow>
     (\<forall>k. map_of (kc_Clusters m) k =
        map_option (\<lambda>(fc, v). kf_resolve_cluster kf (fst fc) v) (first_entry (kc_Clusters \<circ> snd) fcs k)) \<and>
     (\<forall>k. map_of (kc_AuthInfos m) k =
        map_option (\<lambda>(fc, v). kf_resolve_user kf (fst fc) v) (first_entry (kc_AuthInfos \<circ> snd) fcs k)) \<and>
     (\<forall>k. map_of (kc_Contexts m) k = map_option snd (first_entry (kc_Contexts \<circ> snd) fcs k))"

definition kube_files_ok :: "'w kube_files \<Rightarrow> bool" where
  "kube_files_ok kf \<longleftrightarrow>
     (\<forall>w w' c f g. kf_write kf c f w = (w', None) \<longrightarrow>
        kf_load kf w' g = (if g = f then Inr c else kf_load kf w g)) \<and>
     (\<forall>w w' f g. kf_temp kf w = (w', Some f) \<longrightarrow>
        f \<noteq> [] \<and> kf_load kf w f = Inl NotExist \<and> (g \<noteq> f \<longrightarrow> kf_load kf w' g = kf_load kf w g)) \<and>
     (\<forall>w fs cs. map (kf_load kf w) (filter (\<lambda>f. f \<noteq> []) fs) = map Inr cs \<longrightarrow>
        (\<exists>m. kf_merge kf w fs = Inr m \<and> merged_of kf (zip (filter (\<lambda>f. f \<noteq> []) fs) cs) m))"

lemma kube_write_load:
  "kube_files_ok kf \<Longrightarrow> kf_write kf c f w = (w', None) \<Longrightarrow>
     kf_load kf w' g = (if g = f then Inr c else kf_load kf w g)"
  by (simp add: kube_files_ok_def)

lemma kube_temp_fresh:
  assumes "kube_files_ok kf" and "kf_temp kf w = (w', Some f)"
  shows "f \<noteq> []" and "kf_load kf w f = Inl NotExist" and "g \<noteq> f \<Longrightarrow> kf_load kf w' g = kf_load kf w g"
  using assms unfolding kube_files_ok_def by blast+

lemma kube_merge:
  assumes "kube_files_ok kf" and "map (kf_load kf w) (filter (\<lambda>f. f \<noteq> []) fs) = map Inr cs"
  obtains m where "kf_merge kf w fs = Inr m" and "merged_of kf (zip (filter (\<lambda>f. f \<noteq> []) fs) cs) m"
  using assms unfolding kube_files_ok_def by blast

subsection \<open>Files in memory\<close>

definition merge_two :: "kube_config \<Rightarrow> kube_config \<Rightarrow> kube_config" where
  "merge_two a b =
     \<lparr>kc_Clusters = kc_Clusters a @ filter (\<lambda>p. map_of (kc_Clusters a) (fst p) = None) (kc_Clusters b),
      kc_AuthInfos = kc_AuthInfos a @ filter (\<lambda>p. map_of (kc_AuthInfos a) (fst p) = None) (kc_AuthInfos b),
      kc_Contexts = kc_Contexts a @ filter (\<lambda>p. map_of (kc_Contexts a) (fst p) = None) (kc_Contexts b),
      kc_CurrentContext = (if kc_CurrentContext a = [] then kc_CurrentContext b else kc_CurrentContext a)\<rparr>"

definition merge_all :: "kube_config list \<Rightarrow> kube_config" where
  "merge_all cs = foldr merge_two cs NewConfig"

text \<open>What is kept of an entry is one path, resolved against the folder of the file.\<close>

definition mem_resolve :: "string \<Rightarrow> string \<Rightarrow> string" where
  "mem_resolve f p = (if p = [] \<or> hd p = CHR ''/'' then p else rev (dropWhile (\<lambda>c. c \<noteq> CHR ''/'') (rev f)) @ p)"

definition mem_resolve_cluster :: "string \<Rightarrow> kc_cluster \<Rightarrow> kc_cluster" where
  "mem_resolve_cluster f c = c\<lparr>cl_rest := mem_resolve f (cl_rest c)\<rparr>"

definition resolved :: "string \<times> kube_config \<Rightarrow> kube_config" where
  "resolved = (\<lambda>(f, c). c\<lparr>kc_Clusters := map (\<lambda>(n, v). (n, mem_resolve_cluster f v)) (kc_Clusters c),
     kc_AuthInfos := map (\<lambda>(n, v). (n, mem_resolve f v)) (kc_AuthInfos c)\<rparr>)"

definition mem_files :: "string \<Rightarrow> (string, kube_config) gomap kube_files" where
  "mem_files home =
     \<lparr>kf_load = (\<lambda>w f. case map_of w f of None \<Rightarrow> Inl NotExist | Some c \<Rightarrow> Inr c),
      kf_write = (\<lambda>c f w. (AList.update f c w, None)),
      kf_temp = (\<lambda>w. let f = ''/tmp/'' @ concat (keys_of w) in (AList.update f NewConfig w, Some f)),
      kf_remove = (\<lambda>f w. (AList.delete f w, None)),
      kf_merge = (\<lambda>w fs. Inr (merge_all (map (\<lambda>f. resolved (f, the (map_of w f))) (filter (\<lambda>f. f \<noteq> []) fs)))),
      kf_resolve_cluster = mem_resolve_cluster, kf_resolve_user = mem_resolve,
      kf_home = home\<rparr>"

lemma map_of_merge_part:
  "map_of (xs @ filter (\<lambda>p. map_of xs (fst p) = None) ys) k =
     (case map_of xs k of Some v \<Rightarrow> Some v | None \<Rightarrow> map_of ys k)"
  using map_of_filter_key [of "\<lambda>x. map_of xs x = None" ys k]
  by (simp add: map_add_def split: option.split)

lemma merge_two_maps:
  "map_of (kc_Clusters (merge_two a b)) k = (case map_of (kc_Clusters a) k of Some v \<Rightarrow> Some v | None \<Rightarrow> map_of (kc_Clusters b) k)"
  "map_of (kc_AuthInfos (merge_two a b)) k = (case map_of (kc_AuthInfos a) k of Some v \<Rightarrow> Some v | None \<Rightarrow> map_of (kc_AuthInfos b) k)"
  "map_of (kc_Contexts (merge_two a b)) k = (case map_of (kc_Contexts a) k of Some v \<Rightarrow> Some v | None \<Rightarrow> map_of (kc_Contexts b) k)"
  by (simp_all only: merge_two_def kube_config.simps map_of_merge_part)

lemma map_of_resolved:
  "map_of (kc_Clusters (resolved (f, c))) k = map_option (mem_resolve_cluster f) (map_of (kc_Clusters c) k)"
  "map_of (kc_AuthInfos (resolved (f, c))) k = map_option (mem_resolve f) (map_of (kc_AuthInfos c) k)"
  "kc_Contexts (resolved (f, c)) = kc_Contexts c"
  by (simp_all add: resolved_def map_of_map)

lemma merge_all_merged: "merged_of (mem_files home) fcs (merge_all (map resolved fcs))"
proof (induction fcs)
  case Nil
  show ?case by (simp add: merged_of_def merge_all_def NewConfig_def)
next
  case (Cons x fcs)
  obtain f c where x: "x = (f, c)" by fastforce
  have "merge_all (map resolved (x # fcs)) = merge_two (resolved (f, c)) (merge_all (map resolved fcs))"
    by (simp add: merge_all_def x)
  with Cons show ?case
    unfolding merged_of_def x
    by (simp add: merge_two_maps map_of_resolved mem_files_def split: option.splits)
qed

lemma long_name_fresh: "map_of w (''/tmp/'' @ concat (keys_of w)) = None"
proof -
  have "length f \<le> length (concat (keys_of w))" if "f \<in> set (keys_of w)" for f
    using that by (induction w) (force simp: trans_le_add2)+
  then have "''/tmp/'' @ concat (keys_of w) \<notin> set (keys_of w)" by fastforce
  then show ?thesis by (simp add: map_of_eq_None_iff)
qed

lemma mem_files_ok [simp]: "kube_files_ok (mem_files home)"
  unfolding kube_files_ok_def
proof (intro conjI allI impI)
  fix w :: "(string, kube_config) gomap" and fs :: "string list" and cs
  let ?fs = "filter (\<lambda>f. f \<noteq> []) fs"
  assume "map (kf_load (mem_files home) w) ?fs = map Inr cs"
  then have "map (\<lambda>f. the (map_of w f)) ?fs = cs"
    by (induction fs arbitrary: cs) (auto simp: mem_files_def split: option.splits)
  then have "map (\<lambda>f. resolved (f, the (map_of w f))) ?fs = map resolved (zip ?fs cs)"
    by (auto simp: zip_map2 comp_def zip_same_conv_map)
  then show "\<exists>m. kf_merge (mem_files home) w fs = Inr m \<and> merged_of (mem_files home) (zip ?fs cs) m"
    using merge_all_merged [of home "zip ?fs cs"] by (simp add: mem_files_def)
qed (auto simp: mem_files_def Let_def go_map_simps long_name_fresh [simplified] simp del: concat_map_singleton)

section \<open>Properties\<close>

text \<open>
  C31. Repairing the file of a new cluster, which has one cluster and one context, points the
  cluster to the given address, makes the given id the name of both and the current context, and
  keeps everything else, in this file and in all others. But an entry that has this name already
  is deleted.
\<close>

theorem fix_kube_config_renames:
  assumes "kube_files_ok kf" and "kf_load kf w f = Inr c"
    and "kc_Clusters c = [(n, cl)]" and "kc_Contexts c = [(m, cx)]" and "valid addr"
  shows "\<exists>c' :: kube_config.
    FixKubeConfig kf valid f i addr [] w = Val (kf_write kf c' f w) \<and>
    map_of (kc_Clusters c') = (if n = i then Map.empty else [i \<mapsto> cl\<lparr>cl_Server := addr\<rparr>]) \<and>
    map_of (kc_Contexts c') = (if m = i then Map.empty else [i \<mapsto> cx\<lparr>cx_Cluster := i\<rparr>]) \<and>
    kc_CurrentContext c' = i \<and> kc_AuthInfos c' = kc_AuthInfos c \<and>
    (\<forall>w' g. kf_write kf c' f w = (w', None) \<longrightarrow>
       kf_load kf w' g = (if g = f then Inr c' else kf_load kf w g))"
  (is "\<exists>c'. ?P c'")
proof -
  let ?c = "c\<lparr>kc_Clusters := if n = i then [] else [(i, cl\<lparr>cl_Server := addr\<rparr>)],
    kc_CurrentContext := i, kc_Contexts := if m = i then [] else [(i, cx\<lparr>cx_Cluster := i\<rparr>)]\<rparr>"
  have "FixKubeConfig kf valid f i addr [] w = Val (kf_write kf ?c f w)"
    using assms(2-5) by (auto simp: FixKubeConfig_def fix_clusters_def fix_contexts_def Let_def)
  then have "?P ?c"
    using kube_write_load [OF assms(1)] by auto
  then show ?thesis by blast
qed

lemma fix_kube_config_renames_witness:
  "let c = \<lparr>kc_Clusters = [(''kubernetes'', \<lparr>cl_Server = ''https://127.0.0.1'', cl_rest = []\<rparr>)],
         kc_AuthInfos = [(''admin'', [])],
         kc_Contexts = [(''admin@kubernetes'', \<lparr>cx_Cluster = ''kubernetes'', cx_rest = []\<rparr>)],
         kc_CurrentContext = ''admin@kubernetes''\<rparr>;
       kf = mem_files ''config''
   in \<exists>c' :: kube_config.
     FixKubeConfig kf (\<lambda>s. s \<noteq> []) ''new'' ''home'' ''10.0.0.7'' [] [(''new'', c)] =
       Val (kf_write kf c' ''new'' [(''new'', c)]) \<and>
     map_of (kc_Clusters c') = [''home'' \<mapsto> \<lparr>cl_Server = ''10.0.0.7'', cl_rest = []\<rparr>] \<and>
     kc_CurrentContext c' = ''home''"
  using fix_kube_config_renames [where kf = "mem_files ''config''" and f = "''new''"
    and valid = "\<lambda>s. s \<noteq> []" and addr = "''10.0.0.7''" and i = "''home''"
    and n = "''kubernetes''" and m = "''admin@kubernetes''"
    and cl = "\<lparr>cl_Server = ''https://127.0.0.1'', cl_rest = []\<rparr>"
    and cx = "\<lparr>cx_Cluster = ''kubernetes'', cx_rest = []\<rparr>"
    and c = "\<lparr>kc_Clusters = [(''kubernetes'', \<lparr>cl_Server = ''https://127.0.0.1'', cl_rest = []\<rparr>)],
         kc_AuthInfos = [(''admin'', [])],
         kc_Contexts = [(''admin@kubernetes'', \<lparr>cx_Cluster = ''kubernetes'', cx_rest = []\<rparr>)],
         kc_CurrentContext = ''admin@kubernetes''\<rparr>"
    and w = "[(''new'', \<lparr>kc_Clusters = [(''kubernetes'', \<lparr>cl_Server = ''https://127.0.0.1'', cl_rest = []\<rparr>)],
         kc_AuthInfos = [(''admin'', [])],
         kc_Contexts = [(''admin@kubernetes'', \<lparr>cx_Cluster = ''kubernetes'', cx_rest = []\<rparr>)],
         kc_CurrentContext = ''admin@kubernetes''\<rparr>)]", OF mem_files_ok]
  by (simp add: mem_files_def Let_def) blast

text \<open>So a second repair of the same file empties it of clusters, and a third one panics.\<close>

lemma third_repair_panics:
  assumes "kf_load kf w f = Inr c" and "kc_Clusters c = []" and "valid addr"
  shows "FixKubeConfig kf valid f i addr ms w = Panic ''invalid memory address or nil pointer dereference''"
  using assms by (simp add: FixKubeConfig_def fix_clusters_def)

end
