(* ===== verification/Space_Model.thy ===== *)
theory Space_Model
  imports Model_Uri Json_Value
begin

text \<open>
  Models in the cluster as the space controllers and the command line read and write them: mount
  references (\<open>space/space.go\<close>), their decoding and encoding (\<open>space/helper/model.go\<close>), and the
  access to an object and to an attribute (\<open>pkg/helper/model.go\<close>).

  The record \<open>kube\<close> stands for the client and for apimachinery's accessors of nested fields, on a
  state \<open>'w\<close> of the cluster. \<open>kube_laws\<close> states what the code relies on: a successful update is
  what the next get returns, and a nested field that was set is the one that is read.
\<close>

section \<open>Mounts\<close>

definition MountModeAttrPath :: string where "MountModeAttrPath = ''.mode''"
definition DefaultMountMode :: string where "DefaultMountMode = ''hide''"
definition MountStatusAttrPath :: string where "MountStatusAttrPath = ''.status''"
definition MountActiveStatus :: string where "MountActiveStatus = ''active''"
definition MountInactiveStatus :: string where "MountInactiveStatus = ''inactive''"

definition MountAttrPathSlice :: "string list" where
  "MountAttrPathSlice = AttrPathSlice ''.spec.mount''"

record mount =
  m_Source :: auri
  m_Target :: auri
  m_Mode :: string
  m_Status :: string

text \<open>\<open>MountRefs\<close> maps names to pointers; a JSON \<open>null\<close> gives a nil pointer.\<close>

type_synonym mount_refs = "(string, mount option) gomap"
type_synonym mounts = "(string, mount_refs) gomap"

section \<open>The cluster and nested fields\<close>

datatype get_error = NotFound string | OtherError string

record 'w kube =
  ku_get :: "'w \<Rightarrow> gvk \<Rightarrow> nsname \<Rightarrow> get_error + obj"
  ku_update :: "obj \<Rightarrow> 'w \<Rightarrow> 'w \<times> err option"
  ku_patch :: "obj \<Rightarrow> obj \<Rightarrow> 'w \<Rightarrow> 'w \<times> err option"
    \<comment> \<open>the old and the new object of a merge patch\<close>
  ku_watch :: "obj \<Rightarrow> 'w \<Rightarrow> 'w \<times> err option"
  ku_key :: "obj \<Rightarrow> gvk \<times> nsname"
  ku_nested :: "obj \<Rightarrow> string list \<Rightarrow> err + json option"
    \<comment> \<open>\<open>NestedFieldCopy\<close>\<close>
  ku_set_nested :: "obj \<Rightarrow> json \<Rightarrow> string list \<Rightarrow> err + obj"
    \<comment> \<open>\<open>SetNestedField\<close>\<close>
  ku_nested_map :: "obj \<Rightarrow> string list \<Rightarrow> err + obj option"
  ku_set_nested_map :: "obj \<Rightarrow> obj \<Rightarrow> string list \<Rightarrow> err + obj"

definition spec_path :: "string list \<Rightarrow> bool" where
  "spec_path p \<longleftrightarrow> p \<noteq> [] \<and> hd p \<notin> {''metadata'', ''kind'', ''apiVersion''}"

definition kube_laws :: "'w kube \<Rightarrow> bool" where
  "kube_laws ku \<longleftrightarrow>
     (\<forall>w g n ob. ku_get ku w g n = Inr ob \<longrightarrow> ku_key ku ob = (g, n)) \<and>
     (\<forall>w w' ob g n. ku_update ku ob w = (w', None) \<longrightarrow>
        ku_get ku w' g n = (if ku_key ku ob = (g, n) then Inr ob else ku_get ku w g n)) \<and>
     (\<forall>w w' ob e g n. ku_update ku ob w = (w', Some e) \<longrightarrow> ku_get ku w' g n = ku_get ku w g n) \<and>
     (\<forall>ob ob' v p. ku_set_nested ku ob v p = Inr ob' \<longrightarrow>
        ku_nested ku ob' p = Inr (Some v) \<and> (spec_path p \<longrightarrow> ku_key ku ob' = ku_key ku ob))"

definition GetObj :: "'w kube \<Rightarrow> 'w \<Rightarrow> auri \<Rightarrow> get_error + obj" where
  "GetObj ku w ar = ku_get ku w (Auri_Gvk ar) (SpacedName ar)"

definition GetAttr :: "'w kube \<Rightarrow> obj \<Rightarrow> string \<Rightarrow> err + json" where
  "GetAttr ku ob path =
     (case ku_nested ku ob (AttrPathSlice path) of
        Inl e \<Rightarrow> Inl e
      | Inr None \<Rightarrow> Inl (Err (''unable to find attrs in source given '' @ path))
      | Inr (Some v) \<Rightarrow> Inr v)"

section \<open>Mounts of a model\<close>

text \<open>
  The JSON calls of the helper: to text (of some type \<open>'t\<close>) and back, for values and for mount
  references.
\<close>

record 't mount_json =
  mj_marshal :: "json \<Rightarrow> err + 't"
  mj_unmarshal_refs :: "'t \<Rightarrow> err + mount_refs"
  mj_marshal_mounts :: "mounts \<Rightarrow> err + 't"
  mj_unmarshal_obj :: "'t \<Rightarrow> err + obj"

fun get_mounts_loop :: "'t mount_json \<Rightarrow> (string \<times> json) list \<Rightarrow> mounts \<Rightarrow> err + mounts" where
  "get_mounts_loop mj [] ms = Inr ms"
| "get_mounts_loop mj ((n, m) # rest) ms =
     (case mj_marshal mj m of
        Inl e \<Rightarrow> Inl (Wrap ''error marshalling mount references'' e)
      | Inr body \<Rightarrow>
     (case mj_unmarshal_refs mj body of
        Inl e \<Rightarrow> Inl (Wrap ''error unmarshalling mount references'' e)
      | Inr mr \<Rightarrow> get_mounts_loop mj rest (AList.update n mr ms)))"

text \<open>No mounts at all is a nil map, which reads as an empty one.\<close>

definition GetMounts :: "'w kube \<Rightarrow> 't mount_json \<Rightarrow> order \<Rightarrow> obj \<Rightarrow> err + mounts" where
  "GetMounts ku mj ord ob =
     (case ku_nested_map ku ob MountAttrPathSlice of
        Inl e \<Rightarrow> Inl e
      | Inr None \<Rightarrow> Inr []
      | Inr (Some raw) \<Rightarrow> get_mounts_loop mj (range_map ord raw) [])"

definition SetMounts :: "'w kube \<Rightarrow> 't mount_json \<Rightarrow> obj \<Rightarrow> mounts \<Rightarrow> err + obj" where
  "SetMounts ku mj ob mts =
     (case mj_marshal_mounts mj mts of
        Inl e \<Rightarrow> Inl e
      | Inr body \<Rightarrow>
     (case mj_unmarshal_obj mj body of
        Inl e \<Rightarrow> Inl e
      | Inr um \<Rightarrow> ku_set_nested_map ku ob um MountAttrPathSlice))"

text \<open>The order in which the kinds are read makes no difference to what is read.\<close>

definition decode_refs :: "'t mount_json \<Rightarrow> json \<Rightarrow> mount_refs option" where
  "decode_refs mj v =
     (case mj_marshal mj v of
        Inl e \<Rightarrow> None
      | Inr body \<Rightarrow> (case mj_unmarshal_refs mj body of Inl e \<Rightarrow> None | Inr mr \<Rightarrow> Some mr))"

lemma get_mounts_loop_Cons:
  "get_mounts_loop mj (x # xs) ms = Inr ms' \<longleftrightarrow>
    (\<exists>mr. decode_refs mj (snd x) = Some mr \<and> get_mounts_loop mj xs (AList.update (fst x) mr ms) = Inr ms')"
  by (cases x) (auto simp: decode_refs_def split: sum.splits)

lemma get_mounts_loop_ok:
  "(\<exists>ms'. get_mounts_loop mj xs ms = Inr ms') \<longleftrightarrow> (\<forall>x \<in> set xs. decode_refs mj (snd x) \<noteq> None)"
proof (induction xs arbitrary: ms)
  case (Cons x xs)
  show ?case
    by (simp only: get_mounts_loop_Cons ex_comm [of "\<lambda>ms' mr. _ ms' mr"] ex_simps Cons.IH) auto
qed simp

lemma get_mounts_loop_val:
  "get_mounts_loop mj xs ms = Inr ms' \<Longrightarrow> (\<And>v'. (n, v') \<in> set xs \<Longrightarrow> v' = v) \<Longrightarrow>
    map_of ms' n = (if (n, v) \<in> set xs then decode_refs mj v else map_of ms n)"
proof (induction xs arbitrary: ms)
  case (Cons x xs)
  obtain k u where x: "x = (k, u)" by fastforce
  with Cons.prems(1) obtain mr where mr: "decode_refs mj u = Some mr"
    "get_mounts_loop mj xs (AList.update k mr ms) = Inr ms'" by (auto simp only: get_mounts_loop_Cons fst_conv snd_conv)
  have IH: "map_of ms' n = (if (n, v) \<in> set xs then decode_refs mj v else map_of (AList.update k mr ms) n)"
    by (rule Cons.IH [OF mr(2)]) (use Cons.prems(2) in simp)
  have u: "u = v" if "k = n" using Cons.prems(2) [of u] x that by simp
  show ?case
  proof (cases "k = n")
    case True
    with IH u mr(1) x show ?thesis by (simp add: go_map_simps)
  next
    case False
    with IH x show ?thesis by (simp add: go_map_simps)
  qed
qed simp

lemma GetMounts_order:
  assumes "GetMounts ku mj ord ob = Inr ms" and "range_order ord" and "range_order ord'"
  shows "\<exists>ms'. GetMounts ku mj ord' ob = Inr ms' \<and> map_of ms' = map_of ms"
proof (cases "ku_nested_map ku ob MountAttrPathSlice")
  case (Inr raw)
  show ?thesis
  proof (cases raw)
    case (Some r)
    note run = assms(1) [unfolded GetMounts_def Inr Some sum.case option.case]
    have same: "set (range_map ord' r) = set (range_map ord r)" by (simp only: set_range_map [OF assms(2)] set_range_map [OF assms(3)])
    with run get_mounts_loop_ok [of mj "range_map ord r" "[]"] get_mounts_loop_ok [of mj "range_map ord' r" "[]"]
    obtain ms' where ms': "get_mounts_loop mj (range_map ord' r) [] = Inr ms'" by auto
    have "map_of ms' n = map_of ms n" for n
    proof -
      have "v' = the (map_of r n)" if "(n, v') \<in> set (range_map ord r)" for v'
        using that by (simp add: set_range_map [OF assms(2)])
      then show ?thesis
        using get_mounts_loop_val [OF run] get_mounts_loop_val [OF ms', unfolded same] by metis
    qed
    with ms' Inr Some show ?thesis by (auto simp: GetMounts_def)
  qed (use assms(1) Inr in \<open>simp add: GetMounts_def\<close>)
qed (use assms(1) in \<open>simp add: GetMounts_def\<close>)

section \<open>A cluster in memory\<close>

text \<open>
  An instance of the parameters for examples: objects by kind and name, and nested fields as
  apimachinery documents them, so that a field below a value that is no map is an error.
\<close>

type_synonym mem = "((gvk \<times> nsname) \<times> obj) list"

fun nested :: "json \<Rightarrow> string list \<Rightarrow> err + json option" where
  "nested v [] = Inr (Some v)"
| "nested (JObj m) (k # ks) = (case map_of m k of None \<Rightarrow> Inr None | Some v \<Rightarrow> nested v ks)"
| "nested v (k # ks) = Inl (Err ''accessor error: not a map'')"

fun set_nested :: "json \<Rightarrow> json \<Rightarrow> string list \<Rightarrow> err + json" where
  "set_nested v x [] = Inr x"
| "set_nested (JObj m) x (k # ks) =
     (case set_nested (case map_of m k of None \<Rightarrow> JObj [] | Some v \<Rightarrow> v) x ks of
        Inl e \<Rightarrow> Inl e
      | Inr v' \<Rightarrow> Inr (JObj (AList.update k v' m)))"
| "set_nested v x (k # ks) = Inl (Err ''value cannot be set: not a map'')"

definition obj_of :: "json \<Rightarrow> obj" where
  "obj_of v = (case v of JObj m \<Rightarrow> m | _ \<Rightarrow> [])"

definition str_at :: "obj \<Rightarrow> string list \<Rightarrow> string" where
  "str_at ob p = (case nested (JObj ob) p of Inr (Some (JStr s)) \<Rightarrow> s | _ \<Rightarrow> [])"

definition mem_key :: "obj \<Rightarrow> gvk \<times> nsname" where
  "mem_key ob =
     ((case split_on (CHR ''/'') (str_at ob [''apiVersion'']) of
         [g, v] \<Rightarrow> (g, v, str_at ob [''kind''])
       | vs \<Rightarrow> ([], concat vs, str_at ob [''kind''])),
      \<lparr>n_Namespace = str_at ob [''metadata'', ''namespace''], n_Name = str_at ob [''metadata'', ''name'']\<rparr>)"

definition mem_get :: "mem \<Rightarrow> gvk \<Rightarrow> nsname \<Rightarrow> get_error + obj" where
  "mem_get w g n =
     (case map_of w (g, n) of
        Some ob \<Rightarrow> if mem_key ob = (g, n) then Inr ob else Inl (OtherError ''corrupt'')
      | None \<Rightarrow> Inl (NotFound (n_Name n)))"

definition mem_kube :: "(obj \<Rightarrow> bool) \<Rightarrow> mem kube" where
  "mem_kube refused = \<lparr>ku_get = mem_get,
     ku_update = (\<lambda>ob w. if refused ob then (w, Some (Err ''conflict'')) else (AList.update (mem_key ob) ob w, None)),
     ku_patch = (\<lambda>old new w. (AList.update (mem_key new) new w, None)),
     ku_watch = (\<lambda>ob w. (w, None)),
     ku_key = mem_key,
     ku_nested = (\<lambda>ob p. nested (JObj ob) p),
     ku_set_nested = (\<lambda>ob v p. if p = [] then Inl (Err ''no fields'') else map_sum id obj_of (set_nested (JObj ob) v p)),
     ku_nested_map = (\<lambda>ob p. case nested (JObj ob) p of
        Inl e \<Rightarrow> Inl e | Inr None \<Rightarrow> Inr None | Inr (Some (JObj m)) \<Rightarrow> Inr (Some m)
      | Inr (Some v) \<Rightarrow> Inl (Err ''accessor error: not a map'')),
     ku_set_nested_map = (\<lambda>ob v p. map_sum id obj_of (set_nested (JObj ob) (JObj v) p))\<rparr>"

lemma nested_set_nested: "set_nested v x p = Inr v' \<Longrightarrow> nested v' p = Inr (Some x)"
  by (induction v x p arbitrary: v' rule: set_nested.induct)
    (auto simp: go_map_simps split: sum.splits)

lemma set_nested_JObj: "set_nested (JObj m) x (k # ks) = Inr v' \<Longrightarrow> \<exists>m'. v' = JObj m' \<and> (\<forall>k'. k' \<noteq> k \<longrightarrow> map_of m' k' = map_of m k')"
  by (auto simp: go_map_simps split: sum.splits)

lemma mem_key_cong:
  "(\<And>k. k \<in> {''metadata'', ''kind'', ''apiVersion''} \<Longrightarrow> map_of m' k = map_of m k) \<Longrightarrow> mem_key m' = mem_key m"
proof -
  assume h: "\<And>k. k \<in> {''metadata'', ''kind'', ''apiVersion''} \<Longrightarrow> map_of m' k = map_of m k"
  have "str_at m' (k # ks) = str_at m (k # ks)" if "k \<in> {''metadata'', ''kind'', ''apiVersion''}" for k ks
    using h [OF that] by (simp only: str_at_def nested.simps)
  then show ?thesis by (simp only: mem_key_def insertI1 insertI2)
qed

lemma mem_kube_laws [simp]: "kube_laws (mem_kube refused)"
  unfolding kube_laws_def
proof (intro conjI allI impI)
  fix w g n ob assume "ku_get (mem_kube refused) w g n = Inr ob"
  then show "ku_key (mem_kube refused) ob = (g, n)"
    by (auto simp: mem_kube_def mem_get_def split: option.splits if_splits)
next
  fix w w' ob g n assume "ku_update (mem_kube refused) ob w = (w', None)"
  then show "ku_get (mem_kube refused) w' g n =
      (if ku_key (mem_kube refused) ob = (g, n) then Inr ob else ku_get (mem_kube refused) w g n)"
    by (auto simp: mem_kube_def mem_get_def go_map_simps split: if_splits)
next
  fix w w' ob e g n assume "ku_update (mem_kube refused) ob w = (w', Some e)"
  then show "ku_get (mem_kube refused) w' g n = ku_get (mem_kube refused) w g n"
    by (auto simp: mem_kube_def split: if_splits)
next
  fix ob ob' v p assume h: "ku_set_nested (mem_kube refused) ob v p = Inr ob'"
  then obtain v' k ks where p: "p = k # ks" "set_nested (JObj ob) v p = Inr v'" "ob' = obj_of v'"
    by (cases p) (auto simp: mem_kube_def map_sum_def split: sum.splits if_splits)
  with set_nested_JObj obtain m' where m': "v' = JObj m'" "\<forall>k'. k' \<noteq> k \<longrightarrow> map_of m' k' = map_of ob k'"
    by metis
  with p nested_set_nested [OF p(2)] show "ku_nested (mem_kube refused) ob' p = Inr (Some v)"
    by (simp add: mem_kube_def obj_of_def)
  show "ku_key (mem_kube refused) ob' = ku_key (mem_kube refused) ob" if "spec_path p"
    using m' p that by (auto simp: mem_kube_def obj_of_def spec_path_def intro!: mem_key_cong)
qed

end
