(* ===== verification/Mounts.thy ===== *)
theory Mounts
  imports Space_Model Api_Client Parse_Auri
begin

text \<open>
  Mounting from the command line, \<open>api/mount/mount.go\<close>: the model of the target is read as JSON
  text, edited at the path of each mount reference, and written back. The text editor \<open>sjson\<close> is a
  parameter on a type \<open>'j\<close> of texts, in which no object repeats a key; \<open>sjson_laws\<close> states its
  documented behaviour: a path is a list of keys separated by dots, a backslash makes the next
  character a part of the key, and an edit changes the value at its path only. It is stated for the
  paths that \<open>sjson\<close> reads in this way: made of letters, digits, hyphens, underscores, slashes, dots and
  backslashes, without a key that is a number, which stands for a position of an array.
\<close>

section \<open>Paths of the text editor\<close>

definition cons_key :: "char \<Rightarrow> string list \<Rightarrow> string list" where
  "cons_key c ks = (case ks of [] \<Rightarrow> [[c]] | k # rest \<Rightarrow> (c # k) # rest)"

fun sjson_path :: "string \<Rightarrow> string list" where
  "sjson_path [] = [[]]"
| "sjson_path (c # cs) =
     (if c = CHR ''.'' then [] # sjson_path cs
      else if c = CHR 0x5C then (case cs of [] \<Rightarrow> [[]] | d # ds \<Rightarrow> cons_key d (sjson_path ds))
      else cons_key c (sjson_path cs))"

lemma cons_key_neq_Nil [simp]: "cons_key c ks \<noteq> []"
  by (simp add: cons_key_def split: list.split)

lemma sjson_path_neq_Nil [simp]: "sjson_path s \<noteq> []"
  by (cases s; cases "tl s") simp_all

lemma sjson_path_dot: "sjson_path (CHR ''.'' # b) = [] # sjson_path b"
  by simp

lemma sjson_path_char: "c \<noteq> CHR ''.'' \<Longrightarrow> c \<noteq> CHR 0x5C \<Longrightarrow> sjson_path (c # b) = cons_key c (sjson_path b)"
  by simp

lemma sjson_path_escape: "sjson_path (CHR 0x5C # d # b) = cons_key d (sjson_path b)"
  by simp

declare sjson_path.simps(2) [simp del]

definition plain_key :: "string \<Rightarrow> bool" where
  "plain_key s \<longleftrightarrow> CHR ''.'' \<notin> set s \<and> CHR 0x5C \<notin> set s"

definition prefix_key :: "string \<Rightarrow> string list \<Rightarrow> string list" where
  "prefix_key a ks = (a @ hd ks) # tl ks"

lemma prefix_key_Nil: "ks \<noteq> [] \<Longrightarrow> prefix_key [] ks = ks"
  by (simp add: prefix_key_def)

lemma cons_key_prefix: "cons_key c (prefix_key a ks) = prefix_key (c # a) ks"
  by (simp add: cons_key_def prefix_key_def)

lemma sjson_path_plain: "plain_key a \<Longrightarrow> sjson_path (a @ b) = prefix_key a (sjson_path b)"
  by (induction a) (auto simp: plain_key_def prefix_key_Nil sjson_path_char cons_key_prefix)

lemma sjson_path_quoted: "sjson_path (quote_meta a @ b) = prefix_key a (sjson_path b)"
proof (induction a)
  case (Cons c a)
  show ?case
  proof (cases "is_meta c")
    case True
    with Cons show ?thesis by (simp add: sjson_path_escape cons_key_prefix)
  next
    case False
    then have "c \<noteq> CHR ''.''" "c \<noteq> CHR 0x5C" by (auto simp: is_meta_def)
    with False Cons show ?thesis by (simp add: sjson_path_char cons_key_prefix)
  qed
qed (simp add: prefix_key_Nil)

lemma prefix_key_dot: "prefix_key a (sjson_path (CHR ''.'' # b)) = a # sjson_path b"
  by (simp add: prefix_key_def sjson_path_dot)

lemma prefix_key_end: "prefix_key a (sjson_path []) = [a]"
  by (simp add: prefix_key_def)

section \<open>The mounter\<close>

definition MOUNT :: int where "MOUNT = 0"
definition UNMOUNT :: int where "UNMOUNT = 1"
definition YIELD :: int where "YIELD = 2"
definition ACTIVATE :: int where "ACTIVATE = 3"

record mounter =
  mo_Mounts :: "mount list"
  mo_Op :: int
  mo_NumRetry :: int

fun new_mounts ::
  "(string \<Rightarrow> err + auri option) \<Rightarrow> auri \<Rightarrow> string \<Rightarrow> string list \<Rightarrow> (err + mount list) outcome" where
  "new_mounts resolve target mode [] = Val (Inr [])"
| "new_mounts resolve target mode (name # names) =
     obind (ParseAuri resolve name) (\<lambda>res.
       case res of
         Inl e \<Rightarrow> Val (Inl e)
       | Inr source \<Rightarrow>
           obind (new_mounts resolve target mode names) (\<lambda>rest.
             Val (case rest of
                    Inl e \<Rightarrow> Inl e
                  | Inr ms \<Rightarrow> Inr (\<lparr>m_Source = source, m_Target = target, m_Mode = mode,
                                  m_Status = MountActiveStatus\<rparr> # ms))))"

definition NewMounter ::
  "(string \<Rightarrow> err + auri option) \<Rightarrow> string list \<Rightarrow> string \<Rightarrow> int \<Rightarrow> string \<Rightarrow> int \<Rightarrow> (err + mounter) outcome" where
  "NewMounter resolve sourceNames targetName opr mode numRetry =
     obind (ParseAuri resolve targetName) (\<lambda>res.
       case res of
         Inl e \<Rightarrow> Val (Inl e)
       | Inr target \<Rightarrow>
           obind (new_mounts resolve target mode sourceNames) (\<lambda>ms.
             Val (case ms of
                    Inl e \<Rightarrow> Inl e
                  | Inr ms \<Rightarrow> Inr \<lparr>mo_Mounts = ms, mo_Op = opr, mo_NumRetry = numRetry\<rparr>)))"

record 'j sjson =
  sj_SetRaw :: "'j \<Rightarrow> string \<Rightarrow> string \<Rightarrow> err + 'j"
  sj_Delete :: "'j \<Rightarrow> string \<Rightarrow> err + 'j"
  sj_decode :: "'j \<Rightarrow> err + obj"
  sj_nested_map :: "obj \<Rightarrow> string list \<Rightarrow> err + obj option"

text \<open>The path of a mount reference, as a slice of keys and as a path for \<open>sjson\<close>.\<close>

definition pathPrefix :: "(string \<Rightarrow> string) \<Rightarrow> nn_string \<Rightarrow> mount \<Rightarrow> string list" where
  "pathPrefix pl nns m =
     MountAttrPathSlice @ [Kind_GvrString pl (a_Kind (m_Source m)), nns (SpacedName (m_Source m))]"

definition pathPrefixStr :: "(string \<Rightarrow> string) \<Rightarrow> nn_string \<Rightarrow> mount \<Rightarrow> string" where
  "pathPrefixStr pl nns m =
     trim_left (CHR ''.'') ''.spec.mount'' @ CHR ''.'' # Kind_EscapedGvrString pl (a_Kind (m_Source m)) @
     CHR ''.'' # nns (SpacedName (m_Source m))"

definition mountExists :: "'j sjson \<Rightarrow> 'j \<Rightarrow> string list \<Rightarrow> bool \<times> err option" where
  "mountExists sj j path =
     (case sj_decode sj j of
        Inl e \<Rightarrow> (False, Some e)
      | Inr ob \<Rightarrow>
     (case sj_nested_map sj ob path of
        Inl e \<Rightarrow> (False, Some e)
      | Inr None \<Rightarrow> (False, None)
      | Inr (Some _) \<Rightarrow> (True, None)))"

definition quoted :: "string \<Rightarrow> string" where
  "quoted s = [CHR 0x22] @ s @ [CHR 0x22]"

abbreviation missing_mount :: "err option \<Rightarrow> err" where
  "missing_mount e \<equiv> Wrap ''unable to find mount'' (case e of None \<Rightarrow> Err ''<nil>'' | Some x \<Rightarrow> x)"

text \<open>One round of the loop of \<open>Do\<close>: the edited text, and the mount with the status it is given.\<close>

definition do_mount ::
  "(string \<Rightarrow> string) \<Rightarrow> nn_string \<Rightarrow> 'j sjson \<Rightarrow> int \<Rightarrow> mount \<Rightarrow> 'j \<Rightarrow> err + 'j \<times> mount" where
  "do_mount pl nns sj opr m tj =
     (let pre = pathPrefixStr pl nns m;
          modePath = pre @ MountModeAttrPath;
          statusPath = pre @ MountStatusAttrPath;
          found = mountExists sj tj (pathPrefix pl nns m);
          set_status = (\<lambda>m'. (case sj_SetRaw sj tj statusPath (quoted (m_Status m')) of
                          Inl e \<Rightarrow> Inl (Wrap ''unable to merge json'' e)
                        | Inr tj' \<Rightarrow> Inr (tj', m')))
      in if opr = MOUNT then
           (case sj_SetRaw sj tj modePath (quoted (m_Mode m)) of
              Inl e \<Rightarrow> Inl (Wrap ''unable to merge json'' e)
            | Inr tj1 \<Rightarrow>
           (case sj_SetRaw sj tj1 statusPath (quoted (m_Status m)) of
              Inl e \<Rightarrow> Inl (Wrap ''unable to merge json'' e)
            | Inr tj2 \<Rightarrow> Inr (tj2, m)))
         else if opr = UNMOUNT then
           (if found \<noteq> (True, None) then Inl (missing_mount (snd found))
            else (case sj_Delete sj tj pre of Inl e \<Rightarrow> Inl e | Inr tj' \<Rightarrow> Inr (tj', m)))
         else if opr = YIELD then
           (if found \<noteq> (True, None) then Inl (missing_mount (snd found))
            else set_status (m\<lparr>m_Status := MountInactiveStatus\<rparr>))
         else if opr = ACTIVATE then
           (if found \<noteq> (True, None) then Inl (missing_mount (snd found))
            else set_status (m\<lparr>m_Status := MountActiveStatus\<rparr>))
         else Inl (Err ''unrecognized mount mode''))"

fun do_mounts ::
  "(string \<Rightarrow> string) \<Rightarrow> nn_string \<Rightarrow> 'j sjson \<Rightarrow> int \<Rightarrow> mount list \<Rightarrow> 'j \<Rightarrow> err + 'j" where
  "do_mounts pl nns sj opr [] tj = Inr tj"
| "do_mounts pl nns sj opr (m # ms) tj =
     (case do_mount pl nns sj opr m tj of
        Inl e \<Rightarrow> Inl e
      | Inr (tj', m') \<Rightarrow> do_mounts pl nns sj opr ms tj')"

text \<open>\<open>Do\<close>, with the error of creating the client as an argument.\<close>

definition Mounter_Do ::
  "(string \<Rightarrow> string) \<Rightarrow> nn_string \<Rightarrow> 'j sjson \<Rightarrow> ('w, 'j, 'g) api \<Rightarrow> err option \<Rightarrow> mounter \<Rightarrow> 'w \<Rightarrow>
   ('w \<times> err option) outcome" where
  "Mounter_Do pl nns sj a client_err m w =
     (case client_err of
        Some e \<Rightarrow> Val (w, Some (Wrap ''unable to create k8s client'' e))
      | None \<Rightarrow>
          obind (index0 (mo_Mounts m)) (\<lambda>m0.
            case GetModelJson pl a w (m_Target m0) of
              Inl e \<Rightarrow> Val (w, Some e)
            | Inr tj \<Rightarrow>
           (case do_mounts pl nns sj (mo_Op m) (mo_Mounts m) tj of
              Inl e \<Rightarrow> Val (w, Some e)
            | Inr tj' \<Rightarrow>
               (case UpdateFromJson a w tj' (mo_NumRetry m) of (w', _, e) \<Rightarrow> Val (w', e)))))"

section \<open>What the edits do\<close>

definition json_at :: "'j sjson \<Rightarrow> 'j \<Rightarrow> string list \<Rightarrow> json option" where
  "json_at sj j p =
     (case sj_decode sj j of
        Inl _ \<Rightarrow> None
      | Inr ob \<Rightarrow> (case nested (JObj ob) p of Inl _ \<Rightarrow> None | Inr r \<Rightarrow> r))"

definition apart :: "string list \<Rightarrow> string list \<Rightarrow> bool" where
  "apart p q \<longleftrightarrow> \<not> prefix p q \<and> \<not> prefix q p"

text \<open>A string of printable ASCII characters without quotes and backslashes is its own JSON text.\<close>

definition plain_text :: "string \<Rightarrow> bool" where
  "plain_text s \<longleftrightarrow> (\<forall>c \<in> set s. c \<noteq> CHR 0x22 \<and> c \<noteq> CHR 0x5C \<and> 32 \<le> (of_char c :: nat) \<and> (of_char c :: nat) < 127)"

text \<open>The paths that go through the keys of objects: no wildcard, no modifier, no position of an array.\<close>

definition digit :: "char \<Rightarrow> bool" where
  "digit c \<longleftrightarrow> 48 \<le> (of_char c :: nat) \<and> (of_char c :: nat) \<le> 57"

definition label_char :: "char \<Rightarrow> bool" where
  "label_char c \<longleftrightarrow> (let n = of_char c :: nat in
     48 \<le> n \<and> n \<le> 57 \<or> 65 \<le> n \<and> n \<le> 90 \<or> 97 \<le> n \<and> n \<le> 122 \<or> c = CHR ''-'' \<or> c = CHR ''_'')"

definition object_key :: "string \<Rightarrow> bool" where
  "object_key k \<longleftrightarrow> k \<noteq> ''-1'' \<and> \<not> list_all digit k"

definition object_path :: "string \<Rightarrow> bool" where
  "object_path p \<longleftrightarrow> list_all (\<lambda>c. label_char c \<or> c = CHR ''.'' \<or> c = CHR ''/'' \<or> c = CHR 0x5C) p \<and>
     list_all object_key (sjson_path p)"

definition sjson_laws :: "'j sjson \<Rightarrow> bool" where
  "sjson_laws sj \<longleftrightarrow>
     (\<forall>j p s j'. object_path p \<longrightarrow> plain_text s \<longrightarrow> sj_SetRaw sj j p (quoted s) = Inr j' \<longrightarrow>
        json_at sj j' (sjson_path p) = Some (JStr s) \<and>
        (\<forall>q. apart q (sjson_path p) \<longrightarrow> json_at sj j q \<noteq> None \<longrightarrow> json_at sj j' q = json_at sj j q))"

lemma sjson_lawsD:
  assumes "sjson_laws sj"
  shows "\<And>j p s j'. object_path p \<Longrightarrow> plain_text s \<Longrightarrow> sj_SetRaw sj j p (quoted s) = Inr j' \<Longrightarrow>
      json_at sj j' (sjson_path p) = Some (JStr s)"
    and "\<And>j p s j' q. object_path p \<Longrightarrow> plain_text s \<Longrightarrow> sj_SetRaw sj j p (quoted s) = Inr j' \<Longrightarrow> apart q (sjson_path p) \<Longrightarrow>
      json_at sj j q \<noteq> None \<Longrightarrow> json_at sj j' q = json_at sj j q"
  using assms unfolding sjson_laws_def by blast+

text \<open>
  A source named by labels: its name and its namespace are letters, digits, hyphens and underscores, so they
  have no dots; the kind may have dots.
\<close>

definition label :: "string \<Rightarrow> bool" where
  "label s \<longleftrightarrow> list_all label_char s"

definition plain_source :: "(string \<Rightarrow> string) \<Rightarrow> mount \<Rightarrow> bool" where
  "plain_source pl m \<longleftrightarrow> label (a_Namespace (m_Source m)) \<and> label (a_Name (m_Source m)) \<and>
     list_all (\<lambda>c. label_char c \<or> c = CHR ''.'' \<or> c = CHR ''/'') (Kind_GvrString pl (a_Kind (m_Source m)))"

lemma label_plain_key: "label s \<Longrightarrow> plain_key s"
  by (auto simp: label_def plain_key_def label_char_def Let_def list_all_iff)

lemma MountAttrPathSlice_val: "MountAttrPathSlice = [''spec'', ''mount'']"
  by code_simp

lemma pathPrefixStr_keys:
  assumes "nns_documented nns" and "plain_source pl m" and "\<And>c cs. s = c # cs \<Longrightarrow> c = CHR ''.''"
  shows "sjson_path (pathPrefixStr pl nns m @ s) =
    pathPrefix pl nns m @ (case s of [] \<Rightarrow> [] | c # cs \<Rightarrow> sjson_path cs)"
proof -
  let ?n = "nns (SpacedName (m_Source m))"
  have n: "plain_key ?n"
    using assms(1,2) label_plain_key by (auto simp: nns_documented_def SpacedName_def plain_source_def plain_key_def)
  have spec: "trim_left (CHR ''.'') ''.spec.mount'' = ''spec'' @ CHR ''.'' # ''mount''" by code_simp
  have k: "plain_key ''spec''" "plain_key ''mount''" by (simp_all add: plain_key_def)
  have "sjson_path (?n @ s) = ?n # (case s of [] \<Rightarrow> [] | c # cs \<Rightarrow> sjson_path cs)"
    using assms(3) sjson_path_plain [OF n, of s] by (cases s) (auto simp: prefix_key_def sjson_path_dot)
  then show ?thesis
    unfolding pathPrefixStr_def pathPrefix_def spec MountAttrPathSlice_val Kind_EscapedGvrString_def
      append_assoc append_Cons [of _ _ s] append_Cons [of "CHR ''.''"]
      sjson_path_plain [OF k(1)] sjson_path_plain [OF k(2)] prefix_key_dot sjson_path_quoted
    by simp
qed

lemma apart_len: "length p = length q \<Longrightarrow> p \<noteq> q \<Longrightarrow> apart p q"
  unfolding apart_def prefix_def by auto

lemma apart_sym: "apart p q \<Longrightarrow> apart q p"
  by (auto simp: apart_def)

abbreviation mode_at :: "(string \<Rightarrow> string) \<Rightarrow> nn_string \<Rightarrow> 'j sjson \<Rightarrow> 'j \<Rightarrow> mount \<Rightarrow> json option" where
  "mode_at pl nns sj j m \<equiv> json_at sj j (pathPrefix pl nns m @ [''mode''])"

abbreviation status_at :: "(string \<Rightarrow> string) \<Rightarrow> nn_string \<Rightarrow> 'j sjson \<Rightarrow> 'j \<Rightarrow> mount \<Rightarrow> json option" where
  "status_at pl nns sj j m \<equiv> json_at sj j (pathPrefix pl nns m @ [''status''])"

lemma attr_paths:
  assumes "nns_documented nns" and "plain_source pl m"
  shows "sjson_path (pathPrefixStr pl nns m @ MountModeAttrPath) = pathPrefix pl nns m @ [''mode'']"
    and "sjson_path (pathPrefixStr pl nns m @ MountStatusAttrPath) = pathPrefix pl nns m @ [''status'']"
    and "sjson_path (pathPrefixStr pl nns m) = pathPrefix pl nns m"
proof -
  have "sjson_path ''mode'' = [''mode'']" "sjson_path ''status'' = [''status'']" by code_simp+
  with pathPrefixStr_keys [OF assms, of MountModeAttrPath] pathPrefixStr_keys [OF assms, of MountStatusAttrPath]
    pathPrefixStr_keys [OF assms, of "[]"]
  show "sjson_path (pathPrefixStr pl nns m @ MountModeAttrPath) = pathPrefix pl nns m @ [''mode'']"
    and "sjson_path (pathPrefixStr pl nns m @ MountStatusAttrPath) = pathPrefix pl nns m @ [''status'']"
    and "sjson_path (pathPrefixStr pl nns m) = pathPrefix pl nns m"
    by (simp_all add: MountModeAttrPath_def MountStatusAttrPath_def)
qed

lemma quote_meta_chars: "list_all P s \<Longrightarrow> P (CHR 0x5C) \<Longrightarrow> list_all P (quote_meta s)"
  by (induction s) auto

text \<open>The texts of these paths are read as keys.\<close>

lemma object_attr_paths:
  assumes "nns_documented nns" and "plain_source pl m"
  shows "object_path (pathPrefixStr pl nns m @ MountModeAttrPath)" and "object_path (pathPrefixStr pl nns m @ MountStatusAttrPath)"
    and "object_path (pathPrefixStr pl nns m)"
proof -
  let ?ok = "\<lambda>c. label_char c \<or> c = CHR ''.'' \<or> c = CHR ''/'' \<or> c = CHR 0x5C"
  let ?k = "Kind_GvrString pl (a_Kind (m_Source m))" and ?n = "nns (SpacedName (m_Source m))"
  have "list_all ?ok ?n" using assms by (auto simp: nns_documented_def SpacedName_def plain_source_def label_def list_all_iff)
  moreover have "list_all ?ok (quote_meta ?k)"
    using assms(2) by (intro quote_meta_chars) (auto simp: plain_source_def list_all_iff)
  moreover have "list_all ?ok (trim_left (CHR ''.'') ''.spec.mount'')" by code_simp
  ultimately have pre: "list_all ?ok (pathPrefixStr pl nns m)" by (simp add: pathPrefixStr_def Kind_EscapedGvrString_def)
  have suf: "list_all ?ok MountModeAttrPath" "list_all ?ok MountStatusAttrPath" by code_simp+
  have slash: "\<not> digit (CHR ''/'')" by (simp add: digit_def)
  have "object_key s" if "CHR ''/'' \<in> set s" for s
    using that slash by (auto simp: object_key_def list_all_iff)
  then have keys: "object_key ?k" "object_key ?n" using assms(1) by (simp_all add: Kind_GvrString_def nns_documented_def)
  have words: "object_key ''spec''" "object_key ''mount''" "object_key ''mode''" "object_key ''status''" by code_simp+
  from pre suf keys words show "object_path (pathPrefixStr pl nns m @ MountModeAttrPath)"
    "object_path (pathPrefixStr pl nns m @ MountStatusAttrPath)" "object_path (pathPrefixStr pl nns m)"
    unfolding object_path_def attr_paths [OF assms] by (simp_all add: pathPrefix_def MountAttrPathSlice_val)
qed

lemma length_pathPrefix: "length (pathPrefix pl nns m) = 4"
  by (simp add: pathPrefix_def MountAttrPathSlice_val)

lemma paths_apart:
  "pathPrefix pl nns m @ [k] \<noteq> pathPrefix pl nns m' @ [k'] \<Longrightarrow> apart (pathPrefix pl nns m @ [k]) (pathPrefix pl nns m' @ [k'])"
  by (rule apart_len) (simp_all add: length_pathPrefix)

lemma do_mount_MOUNT:
  assumes laws: "sjson_laws sj" and nns: "nns_documented nns" and src: "plain_source pl m"
    and pt: "plain_text (m_Mode m)" "plain_text (m_Status m)"
    and run: "do_mount pl nns sj MOUNT m tj = Inr (tj', m')"
  shows "mode_at pl nns sj tj' m = Some (JStr (m_Mode m))" and "status_at pl nns sj tj' m = Some (JStr (m_Status m))"
    and "\<And>m2. mode_at pl nns sj tj m2 = Some (JStr (m_Mode m)) \<Longrightarrow> mode_at pl nns sj tj' m2 = Some (JStr (m_Mode m))"
    and "\<And>m2. status_at pl nns sj tj m2 = Some (JStr (m_Status m)) \<Longrightarrow> status_at pl nns sj tj' m2 = Some (JStr (m_Status m))"
proof -
  let ?P = "pathPrefix pl nns"
  note L = sjson_lawsD [OF laws] and ap = attr_paths [OF nns src] and op = object_attr_paths [OF nns src]
  obtain t1 where t: "sj_SetRaw sj tj (pathPrefixStr pl nns m @ MountModeAttrPath) (quoted (m_Mode m)) = Inr t1"
    "sj_SetRaw sj t1 (pathPrefixStr pl nns m @ MountStatusAttrPath) (quoted (m_Status m)) = Inr tj'"
    using run by (auto simp: do_mount_def MOUNT_def Let_def split: sum.splits)
  note s1 = L(1) [OF op(1) pt(1) t(1)] L(2) [OF op(1) pt(1) t(1)] and s2 = L(1) [OF op(2) pt(2) t(2)] L(2) [OF op(2) pt(2) t(2)]
  have neq: "?P m2 @ [''mode''] \<noteq> ?P m @ [''status'']" "?P m2 @ [''status''] \<noteq> ?P m @ [''mode'']" for m2 by simp_all
  show m: "mode_at pl nns sj tj' m = Some (JStr (m_Mode m))"
    using s1(1) s2(2) [of "?P m @ [''mode'']"] paths_apart [OF neq(1)] unfolding ap by auto
  show st: "status_at pl nns sj tj' m = Some (JStr (m_Status m))" using s2(1) unfolding ap .
  show "mode_at pl nns sj tj' m2 = Some (JStr (m_Mode m))" if "mode_at pl nns sj tj m2 = Some (JStr (m_Mode m))" for m2
  proof (cases "?P m2 = ?P m")
    case False
    then have "apart (?P m2 @ [''mode'']) (?P m @ [''mode''])" by (intro paths_apart) simp
    with s1(2) that have "mode_at pl nns sj t1 m2 = Some (JStr (m_Mode m))" unfolding ap by auto
    with s2(2) paths_apart [OF neq(1)] show ?thesis unfolding ap by auto
  qed (use m in simp)
  show "status_at pl nns sj tj' m2 = Some (JStr (m_Status m))" if "status_at pl nns sj tj m2 = Some (JStr (m_Status m))" for m2
  proof (cases "?P m2 = ?P m")
    case False
    then have a: "apart (?P m2 @ [''status'']) (?P m @ [''status''])" by (intro paths_apart) simp
    have "status_at pl nns sj t1 m2 = Some (JStr (m_Status m))"
      using s1(2) [of "?P m2 @ [''status'']"] that paths_apart [OF neq(2)] unfolding ap by auto
    with s2(2) a show ?thesis unfolding ap by auto
  qed (use st in simp)
qed

lemma do_mounts_MOUNT:
  assumes laws: "sjson_laws sj" and nns: "nns_documented nns" and pt: "plain_text mode" "plain_text st"
  shows "\<forall>m \<in> set ms. plain_source pl m \<and> m_Mode m = mode \<and> m_Status m = st \<Longrightarrow>
    do_mounts pl nns sj MOUNT ms tj = Inr tj' \<Longrightarrow>
    (\<forall>m. m \<in> set ms \<or> mode_at pl nns sj tj m = Some (JStr mode) \<longrightarrow> mode_at pl nns sj tj' m = Some (JStr mode)) \<and>
    (\<forall>m. m \<in> set ms \<or> status_at pl nns sj tj m = Some (JStr st) \<longrightarrow> status_at pl nns sj tj' m = Some (JStr st))"
proof (induction ms arbitrary: tj)
  case (Cons m ms)
  obtain t1 m1 where t1: "do_mount pl nns sj MOUNT m tj = Inr (t1, m1)" "do_mounts pl nns sj MOUNT ms t1 = Inr tj'"
    using Cons.prems(2) by (auto split: sum.splits prod.splits)
  have m: "plain_source pl m" "m_Mode m = mode" "m_Status m = st" using Cons.prems(1) by auto
  from do_mount_MOUNT [OF laws nns m(1) _ _ t1(1)] pt m(2,3)
  have s: "mode_at pl nns sj t1 m = Some (JStr mode)" "status_at pl nns sj t1 m = Some (JStr st)"
    "\<And>m2. mode_at pl nns sj tj m2 = Some (JStr mode) \<Longrightarrow> mode_at pl nns sj t1 m2 = Some (JStr mode)"
    "\<And>m2. status_at pl nns sj tj m2 = Some (JStr st) \<Longrightarrow> status_at pl nns sj t1 m2 = Some (JStr st)" by auto
  from Cons.IH [OF _ t1(2)] Cons.prems(1) s show ?case by auto
qed simp

lemma new_mounts_fields:
  "new_mounts resolve target mode names = Val (Inr ms) \<Longrightarrow>
    \<forall>m \<in> set ms. m_Target m = target \<and> m_Mode m = mode \<and> m_Status m = MountActiveStatus"
proof (induction names arbitrary: ms)
  case (Cons name names)
  from Cons.prems obtain x where x: "ParseAuri resolve name = Val x" by (auto simp: obind_Val_iff)
  then obtain y where y: "new_mounts resolve target mode names = Val y" "x \<noteq> Inl e" for e
    using Cons.prems by (cases x) (auto simp: obind_Val_iff)
  from Cons.prems x y(1) obtain source rest where "y = Inr rest"
    "ms = \<lparr>m_Source = source, m_Target = target, m_Mode = mode, m_Status = MountActiveStatus\<rparr> # rest"
    by (cases x; cases y) auto
  with Cons.IH y(1) show ?case by auto
qed simp

lemma NewMounter_ms:
  assumes "NewMounter resolve names target opr mode n = Val (Inr mo)"
  obtains t ms where "new_mounts resolve t mode names = Val (Inr ms)" "mo = \<lparr>mo_Mounts = ms, mo_Op = opr, mo_NumRetry = n\<rparr>"
proof -
  from assms obtain x where x: "ParseAuri resolve target = Val x" by (auto simp: NewMounter_def obind_Val_iff)
  with assms obtain t where t: "x = Inr t" by (cases x) (auto simp: NewMounter_def)
  with x assms obtain y where y: "new_mounts resolve t mode names = Val y" by (auto simp: NewMounter_def obind_Val_iff)
  with x t assms obtain ms where "y = Inr ms" "mo = \<lparr>mo_Mounts = ms, mo_Op = opr, mo_NumRetry = n\<rparr>"
    by (cases y) (auto simp: NewMounter_def)
  with y that show thesis by blast
qed

lemma NewMounter_fields:
  assumes "NewMounter resolve names target opr mode n = Val (Inr mo)"
  shows "\<forall>m \<in> set (mo_Mounts mo). m_Mode m = mode \<and> m_Status m = MountActiveStatus"
  by (rule NewMounter_ms [OF assms]) (auto dest: new_mounts_fields)

lemma mounted_references:
  assumes "sjson_laws sj" and "nns_documented nns" and "plain_text mode"
    and "NewMounter resolve names target MOUNT mode n = Val (Inr mo)"
    and "\<forall>m \<in> set (mo_Mounts mo). plain_source pl m"
    and "do_mounts pl nns sj (mo_Op mo) (mo_Mounts mo) tj = Inr tj'"
  shows "\<forall>m \<in> set (mo_Mounts mo).
    json_at sj tj' (pathPrefix pl nns m @ [''mode'']) = Some (JStr mode) \<and>
    json_at sj tj' (pathPrefix pl nns m @ [''status'']) = Some (JStr ''active'')"
proof -
  obtain t ms where ms: "new_mounts resolve t mode names = Val (Inr ms)" "mo = \<lparr>mo_Mounts = ms, mo_Op = MOUNT, mo_NumRetry = n\<rparr>"
    by (rule NewMounter_ms [OF assms(4)])
  have act: "plain_text ''active''" by (simp add: plain_text_def)
  have "\<forall>m \<in> set ms. plain_source pl m \<and> m_Mode m = mode \<and> m_Status m = ''active''"
    using new_mounts_fields [OF ms(1)] assms(5) ms(2) by (simp add: MountActiveStatus_def)
  from do_mounts_MOUNT [OF assms(1,2,3) act this] assms(6) ms(2) show ?thesis by auto
qed

section \<open>An editor on values\<close>

fun put_path :: "json \<Rightarrow> json \<Rightarrow> string list \<Rightarrow> json" where
  "put_path v x [] = x"
| "put_path v x (k # ks) =
     JObj (AList.update k (put_path (case map_of (obj_of v) k of None \<Rightarrow> JNull | Some u \<Rightarrow> u) x ks) (obj_of v))"

fun del_path :: "json \<Rightarrow> string list \<Rightarrow> json" where
  "del_path v [] = v"
| "del_path v [k] = (case v of JObj m \<Rightarrow> JObj (AList.delete k m) | _ \<Rightarrow> v)"
| "del_path v (k # k' # ks) =
     (case v of
        JObj m \<Rightarrow> (case map_of m k of None \<Rightarrow> v | Some u \<Rightarrow> JObj (AList.update k (del_path u (k' # ks)) m))
      | _ \<Rightarrow> v)"

definition value_at :: "json \<Rightarrow> string list \<Rightarrow> json option" where
  "value_at v p = (case nested v p of Inl _ \<Rightarrow> None | Inr r \<Rightarrow> r)"

lemma value_at_Nil [simp]: "value_at v [] = Some v"
  by (simp add: value_at_def)

lemma value_at_Cons: "value_at v (k # ks) =
    (case v of JObj m \<Rightarrow> (case map_of m k of None \<Rightarrow> None | Some u \<Rightarrow> value_at u ks) | _ \<Rightarrow> None)"
  by (cases v) (auto simp: value_at_def split: option.splits)

lemma value_at_put: "value_at (put_path v x p) p = Some x"
  by (induction v x p rule: put_path.induct) (auto simp: value_at_Cons go_map_simps)

lemma apart_Cons: "apart (k # p) (k' # q) \<longleftrightarrow> k \<noteq> k' \<or> apart p q"
  by (auto simp: apart_def)

lemma value_at_put_apart: "apart q p \<Longrightarrow> value_at v q \<noteq> None \<Longrightarrow> value_at (put_path v x p) q = value_at v q"
proof (induction v x p arbitrary: q rule: put_path.induct)
  case (1 v x)
  then show ?case by (simp add: apart_def)
next
  case (2 v x k ks)
  then obtain k' q' where q: "q = k' # q'" by (cases q) (auto simp: apart_def)
  with 2 show ?case
    by (auto simp: value_at_Cons go_map_simps apart_Cons obj_of_def split: json.splits option.splits)
qed

definition tree_sjson :: "obj sjson" where
  "tree_sjson = \<lparr>sj_SetRaw = (\<lambda>j p raw. Inr (obj_of (put_path (JObj j) (JStr (butlast (tl raw))) (sjson_path p)))),
     sj_Delete = (\<lambda>j p. Inr (obj_of (del_path (JObj j) (sjson_path p)))),
     sj_decode = Inr,
     sj_nested_map = (\<lambda>ob p. case nested (JObj ob) p of
        Inl e \<Rightarrow> Inl e | Inr None \<Rightarrow> Inr None | Inr (Some (JObj m)) \<Rightarrow> Inr (Some m)
      | Inr (Some v) \<Rightarrow> Inl (Err ''accessor error: not a map''))\<rparr>"

lemma json_at_tree: "json_at tree_sjson j p = value_at (JObj j) p"
  by (simp add: json_at_def tree_sjson_def value_at_def)

lemma obj_of_put: "JObj (obj_of (put_path (JObj j) x (sjson_path p))) = put_path (JObj j) x (sjson_path p)"
  by (cases "sjson_path p") (auto simp: obj_of_def)

lemma tree_sjson_laws [simp]: "sjson_laws tree_sjson"
  unfolding sjson_laws_def json_at_tree
  by (auto simp: tree_sjson_def obj_of_put quoted_def value_at_put value_at_put_apart)

section \<open>Properties\<close>

text \<open>
  The text path that the mounter edits and the key path that it looks a mount up by are the
  same path, for every kind (dots in the group are escaped) and for names and namespaces without
  dots and backslashes.
\<close>

theorem mount_paths_agree:
  assumes "nns_documented nns" and "plain_source pl m"
  shows "sjson_path (pathPrefixStr pl nns m) = pathPrefix pl nns m"
  by (rule attr_paths(3) [OF assms])

definition sample_mount :: "string \<Rightarrow> mount" where
  "sample_mount n = \<lparr>m_Source = \<lparr>a_Kind = \<lparr>k_Group = ''mock.digi.dev'', k_Version = ''v1'', k_Name = ''Lamp''\<rparr>,
       a_Name = n, a_Namespace = ''default'', a_Path = []\<rparr>,
     m_Target = \<lparr>a_Kind = \<lparr>k_Group = ''digi.dev'', k_Version = ''v1'', k_Name = ''Room''\<rparr>,
       a_Name = ''r'', a_Namespace = ''default'', a_Path = []\<rparr>,
     m_Mode = ''hide'', m_Status = ''active''\<rparr>"

abbreviation add_s :: "string \<Rightarrow> string" where "add_s n \<equiv> n @ ''s''"

lemma mount_paths_agree_witness:
  "sjson_path (pathPrefixStr add_s nns_plain (sample_mount ''l1'')) =
    [''spec'', ''mount'', ''mock.digi.dev/v1/lamps'', ''default/l1'']"
proof -
  have "plain_source add_s (sample_mount ''l1'')" by code_simp
  moreover have "pathPrefix add_s nns_plain (sample_mount ''l1'') =
      [''spec'', ''mount'', ''mock.digi.dev/v1/lamps'', ''default/l1'']" by code_simp
  ultimately show ?thesis using mount_paths_agree [OF nns_plain_documented] by metis
qed

text \<open>
  C25. Mounting any number of sources whose names and namespaces are labels, that is letters, digits, hyphens
  and underscores without dots, with a mode in plain text: a successful edit sets, in the text that is
  written back, the mode and the active status of the reference to every one of the sources, at the keys
  that the other operations look it up by, also when some are named twice.
\<close>

theorem mount_sets_references:
  assumes "sjson_laws sj" and "nns_documented nns" and "plain_text mode"
    and "NewMounter resolve names target MOUNT mode n = Val (Inr mo)"
    and "\<forall>m \<in> set (mo_Mounts mo). plain_source pl m"
    and "do_mounts pl nns sj (mo_Op mo) (mo_Mounts mo) tj = Inr tj'"
  shows "\<forall>m \<in> set (mo_Mounts mo).
    json_at sj tj' (pathPrefix pl nns m @ [''mode'']) = Some (JStr mode) \<and>
    json_at sj tj' (pathPrefix pl nns m @ [''status'']) = Some (JStr ''active'')"
  by (rule mounted_references [OF assms])

lemma mount_sets_references_witness:
  "\<exists>mo tj'. NewMounter (\<lambda>_. Inl (Err ''no alias'')) [''/d/v1/Lamp/default/l1'', ''/d/v1/Lamp/default/l1'']
      ''/d/v1/Room/default/r'' MOUNT ''hide'' 3 = Val (Inr mo) \<and>
    do_mounts add_s nns_plain tree_sjson (mo_Op mo) (mo_Mounts mo) [] = Inr tj' \<and>
    json_at tree_sjson tj' [''spec'', ''mount'', ''d/v1/lamps'', ''default/l1'', ''mode''] = Some (JStr ''hide'')"
proof -
  let ?new = "NewMounter (\<lambda>_. Inl (Err ''no alias'')) [''/d/v1/Lamp/default/l1'', ''/d/v1/Lamp/default/l1'']
      ''/d/v1/Room/default/r'' MOUNT ''hide'' 3"
  have "case ?new of Val (Inr mo) \<Rightarrow> list_all (plain_source add_s) (mo_Mounts mo) \<and>
      pathPrefix add_s nns_plain (hd (mo_Mounts mo)) = [''spec'', ''mount'', ''d/v1/lamps'', ''default/l1''] \<and>
      mo_Mounts mo \<noteq> [] \<and>
      (case do_mounts add_s nns_plain tree_sjson (mo_Op mo) (mo_Mounts mo) [] of Inr tj \<Rightarrow> True | _ \<Rightarrow> False)
    | _ \<Rightarrow> False" by code_simp
  then obtain mo tj' where mo: "?new = Val (Inr mo)" "\<forall>m \<in> set (mo_Mounts mo). plain_source add_s m"
    "pathPrefix add_s nns_plain (hd (mo_Mounts mo)) = [''spec'', ''mount'', ''d/v1/lamps'', ''default/l1'']"
    "hd (mo_Mounts mo) \<in> set (mo_Mounts mo)"
    "do_mounts add_s nns_plain tree_sjson (mo_Op mo) (mo_Mounts mo) [] = Inr tj'"
    by (auto simp: list_all_iff split: outcome.splits sum.splits)
  have "plain_text ''hide''" by (simp add: plain_text_def)
  from mount_sets_references [OF tree_sjson_laws nns_plain_documented this mo(1,2,5)] mo(3,4)
  have "json_at tree_sjson tj' ([''spec'', ''mount'', ''d/v1/lamps'', ''default/l1''] @ [''mode'']) = Some (JStr ''hide'')"
    by metis
  with mo(1,5) show ?thesis by auto
qed

text \<open>
  A source whose name has a dot, which Kubernetes allows, is mounted under a split key: after a
  successful mount of it the unmount of the same digi does not find it.
\<close>

theorem dotted_name_cannot_be_unmounted:
  "case do_mounts add_s nns_plain tree_sjson MOUNT [sample_mount ''l.a''] [] of
     Inr tj \<Rightarrow> do_mounts add_s nns_plain tree_sjson UNMOUNT [sample_mount ''l.a''] tj =
       Inl (Wrap ''unable to find mount'' (Err ''<nil>''))
   | Inl e \<Rightarrow> False"
  by code_simp

end
