(* ===== verification/Watch_Cache.thy ===== *)
theory Watch_Cache
  imports Prelude
begin

text \<open>
  The caches of the two controllers in \<open>space/sync\<close> and \<open>space/policy\<close> have one shape: entries by
  their name, and for each model the entries that mention it as source or target, so that an event
  of a model finds the entries to enforce. The locale states the laws of putting an entry in and
  taking it out, and proves once when the reverse index agrees with the entries.
\<close>

definition lookup2 :: "(string, (string, 'v) gomap) gomap \<Rightarrow> string \<Rightarrow> string \<Rightarrow> 'v option" where
  "lookup2 m k1 k2 = (case map_of m k1 of None \<Rightarrow> None | Some inner \<Rightarrow> map_of inner k2)"

text \<open>The \<open>setFunc\<close> both controllers define inside \<open>Add\<close>.\<close>

definition setFunc ::
  "(string, (string, 'v) gomap) gomap \<Rightarrow> string \<Rightarrow> string \<Rightarrow> 'v \<Rightarrow> (string, (string, 'v) gomap) gomap" where
  "setFunc m k1 k2 v =
     AList.update k1 (AList.update k2 v (case map_of m k1 of None \<Rightarrow> [] | Some inner \<Rightarrow> inner)) m"

text \<open>\<open>if inner, ok := m[k1]; ok { delete(inner, k2) }\<close>.\<close>

definition unsetFunc ::
  "(string, (string, 'v) gomap) gomap \<Rightarrow> string \<Rightarrow> string \<Rightarrow> (string, (string, 'v) gomap) gomap" where
  "unsetFunc m k1 k2 =
     (case map_of m k1 of None \<Rightarrow> m | Some inner \<Rightarrow> AList.update k1 (AList.delete k2 inner) m)"

lemma lookup2_setFunc [go_map_simps]:
  "lookup2 (setFunc m a n v) k1 k2 = (if k1 = a \<and> k2 = n then Some v else lookup2 m k1 k2)"
  by (auto simp: lookup2_def setFunc_def go_map_simps split: option.splits)

lemma lookup2_unsetFunc [go_map_simps]:
  "lookup2 (unsetFunc m a n) k1 k2 = (if k1 = a \<and> k2 = n then None else lookup2 m k1 k2)"
  by (auto simp: lookup2_def unsetFunc_def go_map_simps split: option.splits)

lemma lookup2_Nil [simp]: "lookup2 [] k1 k2 = None"
  by (simp add: lookup2_def)

text \<open>A map of maps with distinct keys on both levels.\<close>

definition gomap2_ok :: "(string, (string, 'v) gomap) gomap \<Rightarrow> bool" where
  "gomap2_ok m \<longleftrightarrow> gomap_ok m \<and> (\<forall>k inner. map_of m k = Some inner \<longrightarrow> gomap_ok inner)"

lemma gomap2_ok_Nil [simp]: "gomap2_ok []"
  by (simp add: gomap2_ok_def)

lemma gomap2_ok_setFunc [simp, intro]: "gomap2_ok m \<Longrightarrow> gomap2_ok (setFunc m a n v)"
  using gomap_ok_update [OF gomap_ok_Nil, of n v]
  by (auto simp: gomap2_ok_def setFunc_def go_map_simps simp del: update.simps split: if_splits option.splits)

lemma gomap2_ok_unsetFunc [simp, intro]: "gomap2_ok m \<Longrightarrow> gomap2_ok (unsetFunc m a n)"
  by (auto simp: gomap2_ok_def unsetFunc_def go_map_simps split: if_splits option.splits)

locale reverse_index =
  fixes entries :: "'c \<Rightarrow> (string, 'b) gomap"
    and index :: "'c \<Rightarrow> (string, (string, 'b) gomap) gomap"
    and name :: "'b \<Rightarrow> string"
    and src :: "'b \<Rightarrow> string"
    and tgt :: "'b \<Rightarrow> string"
    and put :: "'b \<Rightarrow> 'c \<Rightarrow> 'c"
    and remove :: "string \<Rightarrow> 'c \<Rightarrow> 'c"
  assumes put_entries: "map_of (entries (put b c)) k = (if k = name b then Some b else map_of (entries c) k)"
    and put_index: "lookup2 (index (put b c)) m k =
      (if k = name b \<and> (m = src b \<or> m = tgt b) then Some b else lookup2 (index c) m k)"
    and remove_entries: "map_of (entries (remove n c)) k = (if k = n then None else map_of (entries c) k)"
    and remove_index: "lookup2 (index (remove n c)) m k =
      (if k = n \<and> (\<exists>b. map_of (entries c) n = Some b \<and> (m = src b \<or> m = tgt b)) then None
       else lookup2 (index c) m k)"
begin

definition mentions :: "'b \<Rightarrow> string \<Rightarrow> bool" where
  "mentions b m \<longleftrightarrow> m = src b \<or> m = tgt b"

definition consistent :: "'c \<Rightarrow> bool" where
  "consistent c \<longleftrightarrow>
     (\<forall>m n b. lookup2 (index c) m n = Some b \<longleftrightarrow> map_of (entries c) n = Some b \<and> mentions b m)"

lemma put_consistent:
  assumes "consistent c"
    and "\<And>b0. map_of (entries c) (name b) = Some b0 \<Longrightarrow> src b0 \<in> {src b, tgt b} \<and> tgt b0 \<in> {src b, tgt b}"
  shows "consistent (put b c)"
  unfolding consistent_def
proof (intro allI)
  fix m k b'
  from assms(1) have c: "lookup2 (index c) m k = Some b' \<longleftrightarrow> map_of (entries c) k = Some b' \<and> mentions b' m"
    by (simp add: consistent_def)
  show "lookup2 (index (put b c)) m k = Some b' \<longleftrightarrow>
      map_of (entries (put b c)) k = Some b' \<and> mentions b' m"
  proof (cases "k = name b")
    case False
    with c show ?thesis by (simp add: put_entries put_index)
  next
    case True
    show ?thesis
    proof (cases "mentions b m")
      case True
      with \<open>k = name b\<close> show ?thesis by (auto simp: put_entries put_index mentions_def)
    next
      case False
      have "lookup2 (index c) m (name b) = None"
      proof (rule ccontr)
        assume "lookup2 (index c) m (name b) \<noteq> None"
        then obtain b0 where "map_of (entries c) (name b) = Some b0" "mentions b0 m"
          using assms(1) by (auto simp: consistent_def)
        with assms(2) [of b0] False show False by (auto simp: mentions_def)
      qed
      with False \<open>k = name b\<close> show ?thesis by (auto simp: put_entries put_index mentions_def)
    qed
  qed
qed

lemma remove_consistent: "consistent c \<Longrightarrow> consistent (remove n c)"
  unfolding consistent_def remove_entries remove_index mentions_def by auto

text \<open>
  Putting an entry in again under its name with other endpoints leaves the old entry in the index,
  and taking the name out afterwards does not remove it.
\<close>

lemma moved_entry_stays:
  assumes "consistent c" and "map_of (entries c) (name b) = Some b0" and "mentions b0 m" and "\<not> mentions b m"
  shows "lookup2 (index (remove (name b) (put b c))) m (name b) = Some b0"
    and "map_of (entries (remove (name b) (put b c))) (name b) = None"
  using assms by (auto simp: consistent_def remove_entries remove_index put_entries put_index mentions_def)

text \<open>
  After any sequence of changes (\<open>Inl\<close>: put, \<open>Inr\<close>: remove), a model finds every entry that mentions it.
  What it finds beside was put in under its name with this model once, and so was another that does
  not mention the model.
\<close>

fun change :: "'b + string \<Rightarrow> 'c \<Rightarrow> 'c" where
  "change (Inl b) c = put b c"
| "change (Inr n) c = remove n c"

definition complete :: "'c \<Rightarrow> bool" where
  "complete c \<longleftrightarrow> (\<forall>m n b. map_of (entries c) n = Some b \<and> mentions b m \<longrightarrow> lookup2 (index c) m n = Some b)"

definition stale :: "('b + string) list \<Rightarrow> string \<Rightarrow> string \<Rightarrow> bool" where
  "stale chs m n \<longleftrightarrow> (\<exists>b'. Inl b' \<in> set chs \<and> name b' = n \<and> \<not> mentions b' m)"

definition sound :: "('b + string) list \<Rightarrow> 'c \<Rightarrow> bool" where
  "sound chs c \<longleftrightarrow> (\<forall>m n b. lookup2 (index c) m n = Some b \<longrightarrow> Inl b \<in> set chs \<and> name b = n \<and> mentions b m \<and>
     (map_of (entries c) n = Some b \<or> stale chs m n))"

lemma put_complete: "complete c \<Longrightarrow> complete (put b c)"
  by (simp add: complete_def put_entries put_index mentions_def)

lemma remove_complete: "complete c \<Longrightarrow> complete (remove n c)"
  by (auto simp: complete_def remove_entries remove_index)

lemma stale_snoc: "stale chs m n \<Longrightarrow> stale (chs @ [x]) m n"
  by (auto simp: stale_def)

lemma put_sound:
  assumes "sound chs c"
  shows "sound (chs @ [Inl b0]) (put b0 c)"
  unfolding sound_def
proof (intro allI impI)
  fix m n b assume new: "lookup2 (index (put b0 c)) m n = Some b"
  show "Inl b \<in> set (chs @ [Inl b0]) \<and> name b = n \<and> mentions b m \<and>
      (map_of (entries (put b0 c)) n = Some b \<or> stale (chs @ [Inl b0]) m n)"
  proof (cases "n = name b0 \<and> mentions b0 m")
    case True
    with new show ?thesis by (auto simp: put_index put_entries mentions_def)
  next
    case False
    with new have "lookup2 (index c) m n = Some b" by (auto simp: put_index mentions_def split: if_splits)
    with assms have old: "Inl b \<in> set chs" "name b = n" "mentions b m" "map_of (entries c) n = Some b \<or> stale chs m n"
      by (auto simp: sound_def)
    have "map_of (entries (put b0 c)) n = Some b \<or> stale (chs @ [Inl b0]) m n"
    proof (cases "n = name b0")
      case True
      with False show ?thesis by (auto simp: stale_def)
    next
      case False
      with old(4) stale_snoc show ?thesis by (auto simp: put_entries)
    qed
    with old(1-3) show ?thesis by simp
  qed
qed

lemma remove_sound:
  assumes "sound chs c"
  shows "sound (chs @ [Inr n0]) (remove n0 c)"
  unfolding sound_def
proof (intro allI impI)
  fix m n b assume "lookup2 (index (remove n0 c)) m n = Some b"
  then have now: "lookup2 (index c) m n = Some b" "n = n0 \<Longrightarrow> map_of (entries c) n0 = Some b' \<Longrightarrow> \<not> mentions b' m" for b'
    by (auto simp: remove_index mentions_def split: if_splits)
  with assms have old: "Inl b \<in> set chs" "name b = n" "mentions b m" "map_of (entries c) n = Some b \<or> stale chs m n"
    by (auto simp: sound_def)
  have "map_of (entries (remove n0 c)) n = Some b \<or> stale (chs @ [Inr n0]) m n"
    using old(3,4) now(2) stale_snoc by (cases "n = n0") (auto simp: remove_entries)
  with old(1-3) show "Inl b \<in> set (chs @ [Inr n0]) \<and> name b = n \<and> mentions b m \<and>
      (map_of (entries (remove n0 c)) n = Some b \<or> stale (chs @ [Inr n0]) m n)" by simp
qed

lemma changes_found: "complete c \<Longrightarrow> sound [] c \<Longrightarrow> complete (fold change chs c) \<and> sound chs (fold change chs c)"
proof (induction chs rule: rev_induct)
  case (snoc x chs)
  then show ?case by (cases x) (simp_all add: put_complete remove_complete put_sound remove_sound)
qed simp

text \<open>
  Nothing of a name is left, and what there is of a name lies within a set of models. As long as an
  entry stays with its models, taking its name out leaves nothing of it.
\<close>

definition absent :: "'c \<Rightarrow> string \<Rightarrow> bool" where
  "absent c n \<longleftrightarrow> map_of (entries c) n = None \<and> (\<forall>m. lookup2 (index c) m n = None)"

definition within :: "string set \<Rightarrow> 'c \<Rightarrow> string \<Rightarrow> bool" where
  "within E c n \<longleftrightarrow> (\<forall>b. map_of (entries c) n = Some b \<longrightarrow> {src b, tgt b} = E) \<and>
     (\<forall>m. lookup2 (index c) m n \<noteq> None \<longrightarrow> m \<in> E \<and> map_of (entries c) n \<noteq> None)"

lemma absent_within: "absent c n \<Longrightarrow> within E c n"
  by (simp add: absent_def within_def)

lemma remove_absent:
  assumes "within E c n"
  shows "absent (remove n c) n"
proof (cases "map_of (entries c) n")
  case None
  with assms show ?thesis by (auto simp: within_def absent_def remove_entries remove_index)
next
  case (Some b)
  have "lookup2 (index (remove n c)) m n = None" for m
  proof (rule ccontr)
    assume *: "lookup2 (index (remove n c)) m n \<noteq> None"
    with Some have "lookup2 (index c) m n \<noteq> None" "m \<noteq> src b" "m \<noteq> tgt b"
      by (auto simp: remove_index split: if_splits)
    with assms Some show False by (auto simp: within_def)
  qed
  then show ?thesis by (simp add: absent_def remove_entries)
qed

lemma remove_other:
  "n' \<noteq> n \<Longrightarrow> absent (remove n' c) n = absent c n"
  "n' \<noteq> n \<Longrightarrow> within E (remove n' c) n = within E c n"
  by (simp_all add: absent_def within_def remove_entries remove_index)

text \<open>A cache that has one more entry, in the index or not yet.\<close>

definition added :: "'b \<Rightarrow> 'c \<Rightarrow> 'c \<Rightarrow> bool" where
  "added b c c' \<longleftrightarrow> (\<forall>n. map_of (entries c') n = (if n = name b then Some b else map_of (entries c) n)) \<and>
     (\<forall>m n. lookup2 (index c') m n = lookup2 (index c) m n \<or>
        n = name b \<and> (m = src b \<or> m = tgt b) \<and> lookup2 (index c') m n = Some b)"

lemma added_other:
  assumes "added b c c'" and "name b \<noteq> n"
  shows "absent c' n = absent c n" and "within E c' n = within E c n"
proof -
  from assms have "map_of (entries c') n = map_of (entries c) n" "lookup2 (index c') m n = lookup2 (index c) m n" for m
    by (auto simp: added_def)
  then show "absent c' n = absent c n" and "within E c' n = within E c n" by (simp_all add: absent_def within_def)
qed

lemma added_within:
  assumes "added b c c'" and "within E c (name b)" and "{src b, tgt b} = E"
  shows "within E c' (name b)"
proof -
  have "m \<in> E" if "lookup2 (index c') m (name b) \<noteq> None" for m
  proof (cases "m = src b \<or> m = tgt b")
    case False
    with assms(1) that have "lookup2 (index c) m (name b) \<noteq> None" unfolding added_def by metis
    with assms(2) show ?thesis by (simp add: within_def)
  qed (use assms(3) in auto)
  with assms(1,3) show ?thesis by (auto simp: within_def added_def)
qed

end

end
