(* ===== verification/Sync_Ctl.thy ===== *)
theory Sync_Ctl
  imports Watch_Cache Space_Model
begin

text \<open>
  The sync controller, \<open>space/sync/pkg/controller/sync/sync_controller.go\<close>: the binding cache and
  the reconciler that copies attributes between models. The state is the cache and the cluster
  \<open>'w\<close>; \<open>ku\<close> is the client, \<open>gs\<close> the typed get of a Sync object.
\<close>

section \<open>Bindings and their cache\<close>

definition SyncMode :: string where "SyncMode = ''sync''"
definition MatchMode :: string where "MatchMode = ''match''"

record sync_spec =
  sc_Source :: auri
  sc_Target :: auri
  sc_Mode :: string

record binding = sync_spec +
  bd_name :: string

record binding_cache =
  bc_bindings :: "(string, binding) gomap"
  bc_modelToBindings :: "(string, (string, binding) gomap) gomap"
  bc_watched :: "string list"

definition new_binding_cache :: binding_cache where
  "new_binding_cache = \<lparr>bc_bindings = [], bc_modelToBindings = [], bc_watched = []\<rparr>"

definition bd_src :: "nn_string \<Rightarrow> binding \<Rightarrow> string" where
  "bd_src nns b = nns (SpacedName (sc_Source b))"

definition bd_tgt :: "nn_string \<Rightarrow> binding \<Rightarrow> string" where
  "bd_tgt nns b = nns (SpacedName (sc_Target b))"

fun as_err :: "get_error \<Rightarrow> err" where
  "as_err (NotFound s) = Err (s @ '' not found'')"
| "as_err (OtherError s) = Err s"

text \<open>\<open>addWatchFunc\<close>: the attribute is looked up for a warning only.\<close>

definition addWatchFunc :: "'w kube \<Rightarrow> auri \<Rightarrow> 'w \<Rightarrow> 'w \<times> err option" where
  "addWatchFunc ku ar w =
     (case GetObj ku w ar of
        Inl e \<Rightarrow> (w, Some (as_err e))
      | Inr ob \<Rightarrow> ku_watch ku ob w)"

definition watch_kind :: "'w kube \<Rightarrow> auri \<Rightarrow> binding_cache \<times> 'w \<Rightarrow> (binding_cache \<times> 'w) \<times> err option" where
  "watch_kind ku ar = (\<lambda>(bc, w).
     let k = Kind_String (a_Kind ar) in
     if k \<in> set (bc_watched bc) then ((bc, w), None)
     else (case addWatchFunc ku ar w of
             (w', Some e) \<Rightarrow> ((bc, w'), Some e)
           | (w', None) \<Rightarrow> ((bc\<lparr>bc_watched := List.insert k (bc_watched bc)\<rparr>, w'), None)))"

definition bc_enter :: "binding \<Rightarrow> binding_cache \<Rightarrow> binding_cache" where
  "bc_enter b bc = bc\<lparr>bc_bindings := AList.update (bd_name b) b (bc_bindings bc)\<rparr>"

definition bc_link :: "nn_string \<Rightarrow> binding \<Rightarrow> binding_cache \<Rightarrow> binding_cache" where
  "bc_link nns b bc = bc\<lparr>bc_modelToBindings :=
     setFunc (setFunc (bc_modelToBindings bc) (bd_src nns b) (bd_name b) b) (bd_tgt nns b) (bd_name b) b\<rparr>"

definition BindingCache_Add ::
  "'w kube \<Rightarrow> nn_string \<Rightarrow> binding \<Rightarrow> binding_cache \<times> 'w \<Rightarrow> (binding_cache \<times> 'w) \<times> err option" where
  "BindingCache_Add ku nns b = (\<lambda>(bc, w).
     if sc_Mode b \<noteq> MatchMode \<and> sc_Mode b \<noteq> SyncMode
     then ((bc, w), Some (Err (''unknown sync mode '' @ sc_Mode b)))
     else (case watch_kind ku (sc_Source b) (bc_enter b bc, w) of
             (st, Some e) \<Rightarrow> (st, Some e)
           | (st, None) \<Rightarrow>
          (case watch_kind ku (sc_Target b) st of
             (st, Some e) \<Rightarrow> (st, Some e)
           | ((bc', w'), None) \<Rightarrow> ((bc_link nns b bc', w'), None))))"

definition BindingCache_Remove :: "nn_string \<Rightarrow> string \<Rightarrow> binding_cache \<Rightarrow> binding_cache" where
  "BindingCache_Remove nns name bc =
     (case map_of (bc_bindings bc) name of
        None \<Rightarrow> bc
      | Some bd \<Rightarrow> bc\<lparr>bc_bindings := AList.delete name (bc_bindings bc),
          bc_modelToBindings :=
            unsetFunc (unsetFunc (bc_modelToBindings bc) (bd_src nns bd) name) (bd_tgt nns bd) name\<rparr>)"

definition BindingCache_Exist :: "binding \<Rightarrow> binding_cache \<Rightarrow> bool" where
  "BindingCache_Exist b bc \<longleftrightarrow> map_of (bc_bindings bc) (bd_name b) \<noteq> None"

section \<open>Enforcing\<close>

definition matchAttr :: "'w kube \<Rightarrow> obj \<Rightarrow> string \<Rightarrow> obj \<Rightarrow> string \<Rightarrow> 'w \<Rightarrow> 'w \<times> err option" where
  "matchAttr ku src srcPath target targetPath w =
     (case GetAttr ku src srcPath of
        Inl e \<Rightarrow> (w, Some e)
      | Inr srcAttr \<Rightarrow>
     (case ku_set_nested ku target srcAttr (AttrPathSlice targetPath) of
        Inl e \<Rightarrow> (w, Some e)
      | Inr target' \<Rightarrow> ku_update ku target' w))"

text \<open>One round of the loop of \<open>doEnforce\<close>, with the value of \<open>err\<close> it leaves.\<close>

definition enforce_binding :: "'w kube \<Rightarrow> nn_string \<Rightarrow> string \<Rightarrow> binding \<Rightarrow> 'w \<Rightarrow> 'w \<times> err option" where
  "enforce_binding ku nns reqName bd w =
     (case GetObj ku w (sc_Source bd) of
        Inl e \<Rightarrow> (w, Some (as_err e))
      | Inr bdSrc \<Rightarrow>
     (case GetObj ku w (sc_Target bd) of
        Inl e \<Rightarrow> (w, Some (as_err e))
      | Inr bdTarget \<Rightarrow>
          if sc_Mode bd = SyncMode then
            (if reqName = bd_src nns bd
             then matchAttr ku bdSrc (a_Path (sc_Source bd)) bdTarget (a_Path (sc_Target bd)) w
             else if reqName = bd_tgt nns bd
             then matchAttr ku bdTarget (a_Path (sc_Target bd)) bdSrc (a_Path (sc_Source bd)) w
             else (w, None))
          else if sc_Mode bd = MatchMode
            then matchAttr ku bdSrc (a_Path (sc_Source bd)) bdTarget (a_Path (sc_Target bd)) w
          else (w, None)))"

fun enforce_loop ::
  "'w kube \<Rightarrow> nn_string \<Rightarrow> string \<Rightarrow> binding list \<Rightarrow> 'w \<times> err option \<Rightarrow> 'w \<times> err option" where
  "enforce_loop ku nns reqName [] (w, err) = (w, err)"
| "enforce_loop ku nns reqName (bd # bds) (w, err) =
     enforce_loop ku nns reqName bds (enforce_binding ku nns reqName bd w)"

definition doEnforce ::
  "'w kube \<Rightarrow> nn_string \<Rightarrow> order \<Rightarrow> request \<Rightarrow> binding_cache \<Rightarrow> 'w \<Rightarrow> 'w \<times> err option" where
  "doEnforce ku nns ord rq bc w =
     (case map_of (bc_modelToBindings bc) (nns rq) of
        None \<Rightarrow> (w, None)
      | Some bds \<Rightarrow> enforce_loop ku nns (nns rq) (map snd (range_map ord bds)) (w, None))"

text \<open>Errors of \<open>finalize\<close> are logged and dropped.\<close>

definition finalize :: "'w kube \<Rightarrow> string \<Rightarrow> binding_cache \<Rightarrow> 'w \<Rightarrow> 'w" where
  "finalize ku name bc w =
     (case map_of (bc_bindings bc) name of
        None \<Rightarrow> w
      | Some bd \<Rightarrow>
          if sc_Mode bd = MatchMode then
            (case GetObj ku w (sc_Target bd) of
               Inl e \<Rightarrow> w
             | Inr bdTarget \<Rightarrow>
            (case ku_set_nested ku bdTarget JNull (AttrPathSlice (a_Path (sc_Target bd))) of
               Inl e \<Rightarrow> w
             | Inr target' \<Rightarrow> fst (ku_patch ku bdTarget target' w)))
          else w)"

type_synonym 'w get_sync = "'w \<Rightarrow> nsname \<Rightarrow> get_error + sync_spec"

definition doSync ::
  "'w kube \<Rightarrow> 'w get_sync \<Rightarrow> nn_string \<Rightarrow> order \<Rightarrow> request \<Rightarrow> binding_cache \<times> 'w \<Rightarrow>
   (binding_cache \<times> 'w) \<times> err option" where
  "doSync ku gs nns ord rq = (\<lambda>(bc, w).
     let name = nns rq in
     (case gs w rq of
        Inl (NotFound s) \<Rightarrow> ((BindingCache_Remove nns name bc, finalize ku name bc w), None)
      | Inl (OtherError s) \<Rightarrow> ((bc, w), Some (Err s))
      | Inr spec \<Rightarrow>
          (case BindingCache_Add ku nns (sync_spec.extend spec (binding.fields name)) (bc, w) of
             (st, Some e) \<Rightarrow> (st, Some e)
           | ((bc', w'), None) \<Rightarrow>
               (case doEnforce ku nns ord (SpacedName (sc_Source spec)) bc' w' of
                  (w'', e) \<Rightarrow> ((bc', w''), e)))))"

definition syncTag :: string where "syncTag = ''sync''"
definition enforceTag :: string where "enforceTag = ''enforce''"

definition Reconcile ::
  "'w kube \<Rightarrow> 'w get_sync \<Rightarrow> nn_string \<Rightarrow> order \<Rightarrow> request \<Rightarrow> binding_cache \<times> 'w \<Rightarrow>
   (binding_cache \<times> 'w) \<times> err option" where
  "Reconcile ku gs nns ord rq0 st =
     (case DemuxRequest rq0 of (rq, tag) \<Rightarrow>
        if tag = syncTag then doSync ku gs nns ord rq st
        else if tag = enforceTag then
          (case st of (bc, w) \<Rightarrow> (case doEnforce ku nns ord rq bc w of (w', e) \<Rightarrow> ((bc, w'), e)))
        else (st, None))"

section \<open>The cache as a reverse index\<close>

definition bc_put :: "nn_string \<Rightarrow> binding \<Rightarrow> binding_cache \<Rightarrow> binding_cache" where
  "bc_put nns b bc = bc_link nns b (bc_enter b bc)"

interpretation bindings: reverse_index bc_bindings bc_modelToBindings bd_name "bd_src nns" "bd_tgt nns"
    "bc_put nns" "BindingCache_Remove nns" for nns
  by unfold_locales
    (auto simp: bc_put_def bc_link_def bc_enter_def BindingCache_Remove_def go_map_simps split: option.splits)

lemma bindings_new: "bindings.consistent nns new_binding_cache"
  by (simp add: bindings.consistent_def new_binding_cache_def)

text \<open>A successful \<open>Add\<close> is \<open>bc_put\<close> up to the set of watched kinds; a failed one links nothing.\<close>

lemma watch_kind_cache:
  "watch_kind ku ar (bc, w) = ((bc', w'), e) \<Longrightarrow>
    bc_bindings bc' = bc_bindings bc \<and> bc_modelToBindings bc' = bc_modelToBindings bc"
  by (auto simp: watch_kind_def Let_def split: if_splits prod.splits option.splits)

lemma Add_cache:
  assumes "BindingCache_Add ku nns b (bc, w) = ((bc', w'), None)"
  shows "bc_bindings bc' = bc_bindings (bc_put nns b bc)"
    and "bc_modelToBindings bc' = bc_modelToBindings (bc_put nns b bc)"
proof -
  obtain bc1 w1 bc2 where st: "watch_kind ku (sc_Source b) (bc_enter b bc, w) = ((bc1, w1), None)"
    "watch_kind ku (sc_Target b) (bc1, w1) = ((bc2, w'), None)" "bc' = bc_link nns b bc2"
    using assms by (auto simp: BindingCache_Add_def split: if_splits prod.splits option.splits)
  from watch_kind_cache [OF st(1)] watch_kind_cache [OF st(2)] st(3)
  show "bc_bindings bc' = bc_bindings (bc_put nns b bc)"
    and "bc_modelToBindings bc' = bc_modelToBindings (bc_put nns b bc)"
    by (simp_all add: bc_put_def bc_link_def)
qed

lemma Add_consistent:
  assumes "bindings.consistent nns bc" and "BindingCache_Add ku nns b (bc, w) = ((bc', w'), None)"
    and "map_of (bc_bindings bc) (bd_name b) = None"
  shows "bindings.consistent nns bc'"
  using bindings.put_consistent [OF assms(1), of b] Add_cache [OF assms(2)] assms(3)
  by (simp add: bindings.consistent_def)

section \<open>What enforcing does to the cluster\<close>

lemma kube_lawsD:
  assumes "kube_laws ku"
  shows "\<And>w g n ob. ku_get ku w g n = Inr ob \<Longrightarrow> ku_key ku ob = (g, n)"
    and "\<And>w w' ob g n. ku_update ku ob w = (w', None) \<Longrightarrow>
        ku_get ku w' g n = (if ku_key ku ob = (g, n) then Inr ob else ku_get ku w g n)"
    and "\<And>w w' ob e g n. ku_update ku ob w = (w', Some e) \<Longrightarrow> ku_get ku w' g n = ku_get ku w g n"
    and "\<And>ob ob' v p. ku_set_nested ku ob v p = Inr ob' \<Longrightarrow> ku_nested ku ob' p = Inr (Some v)"
    and "\<And>ob ob' v p. ku_set_nested ku ob v p = Inr ob' \<Longrightarrow> spec_path p \<Longrightarrow> ku_key ku ob' = ku_key ku ob"
  using assms unfolding kube_laws_def by blast+

text \<open>A copy without error: the attribute was there, and the target has it now; nothing else changed.\<close>

lemma matchAttr_ok:
  assumes laws: "kube_laws ku" and "GetObj ku w to_ar = Inr target" and "spec_path (AttrPathSlice toPath)"
    and "matchAttr ku src fromPath target toPath w = (w', None)"
  obtains v target' where "GetAttr ku src fromPath = Inr v"
    and "GetObj ku w' to_ar = Inr target'" and "GetAttr ku target' toPath = Inr v"
    and "\<And>g n. (g, n) \<noteq> (Auri_Gvk to_ar, SpacedName to_ar) \<Longrightarrow> ku_get ku w' g n = ku_get ku w g n"
proof -
  note L = kube_lawsD [OF laws]
  obtain v target' where v: "GetAttr ku src fromPath = Inr v"
    "ku_set_nested ku target v (AttrPathSlice toPath) = Inr target'" "ku_update ku target' w = (w', None)"
    using assms(4) by (auto simp: matchAttr_def split: sum.splits)
  have key: "ku_key ku target' = (Auri_Gvk to_ar, SpacedName to_ar)"
    using L(5) [OF v(2) assms(3)] L(1) assms(2) by (simp add: GetObj_def)
  have "GetObj ku w' to_ar = Inr target'" using L(2) [OF v(3)] key by (simp add: GetObj_def)
  moreover have "GetAttr ku target' toPath = Inr v" using L(4) [OF v(2)] by (simp add: GetAttr_def)
  moreover have "ku_get ku w' g n = ku_get ku w g n"
    if "(g, n) \<noteq> (Auri_Gvk to_ar, SpacedName to_ar)" for g n using L(2) [OF v(3)] key that by auto
  ultimately show ?thesis using that v(1) by blast
qed

lemma enforce_single:
  "map_of (bc_modelToBindings bc) (nns rq) = Some [(n, b)] \<Longrightarrow> range_order ord \<Longrightarrow>
    doEnforce ku nns ord rq bc w = enforce_binding ku nns (nns rq) b w"
proof -
  assume h: "map_of (bc_modelToBindings bc) (nns rq) = Some [(n, b)]" "range_order ord"
  from h(2) have "mset (ord [n]) = mset [n]" by (simp only: range_order_def)
  then have "ord [n] = [n]" by simp
  with h(1) show ?thesis by (cases "enforce_binding ku nns (nns rq) b w") (simp add: doEnforce_def range_map_def)
qed

definition same_object :: "auri \<Rightarrow> auri \<Rightarrow> bool" where
  "same_object a b \<longleftrightarrow> Auri_Gvk a = Auri_Gvk b \<and> SpacedName a = SpacedName b"

definition attr_at :: "'w kube \<Rightarrow> 'w \<Rightarrow> auri \<Rightarrow> json option" where
  "attr_at ku w ar =
     (case GetObj ku w ar of Inl _ \<Rightarrow> None
      | Inr ob \<Rightarrow> (case GetAttr ku ob (a_Path ar) of Inl _ \<Rightarrow> None | Inr v \<Rightarrow> Some v))"

lemma enforce_copy:
  assumes laws: "kube_laws ku" and "\<not> same_object from_ar to_ar"
    and "spec_path (AttrPathSlice (a_Path to_ar))"
    and "GetObj ku w from_ar = Inr src" and "GetObj ku w to_ar = Inr target"
    and "matchAttr ku src (a_Path from_ar) target (a_Path to_ar) w = (w', None)"
  shows "\<exists>v. attr_at ku w from_ar = Some v \<and> attr_at ku w' to_ar = Some v \<and> attr_at ku w' from_ar = Some v \<and>
    (\<forall>g n. (g, n) \<noteq> (Auri_Gvk to_ar, SpacedName to_ar) \<longrightarrow> ku_get ku w' g n = ku_get ku w g n)"
proof -
  from matchAttr_ok [OF laws assms(5,3,6)] obtain v target' where v:
    "GetAttr ku src (a_Path from_ar) = Inr v" "GetObj ku w' to_ar = Inr target'"
    "GetAttr ku target' (a_Path to_ar) = Inr v"
    "\<And>g n. (g, n) \<noteq> (Auri_Gvk to_ar, SpacedName to_ar) \<Longrightarrow> ku_get ku w' g n = ku_get ku w g n" by metis
  have "GetObj ku w' from_ar = GetObj ku w from_ar"
    using v(4) [of "Auri_Gvk from_ar" "SpacedName from_ar"] assms(2) by (auto simp: GetObj_def same_object_def)
  with v assms(4) show ?thesis by (simp add: attr_at_def)
qed

section \<open>Example bindings\<close>

definition lamp_kind :: kind where
  "lamp_kind = \<lparr>k_Group = ''digi.dev'', k_Version = ''v1'', k_Name = ''Lamp''\<rparr>"

definition room_kind :: kind where
  "room_kind = \<lparr>k_Group = ''digi.dev'', k_Version = ''v1'', k_Name = ''Room''\<rparr>"

definition lamp_auri :: "string \<Rightarrow> auri" where
  "lamp_auri n = \<lparr>a_Kind = lamp_kind, a_Name = n, a_Namespace = ''default'', a_Path = ''.spec.power''\<rparr>"

definition room_auri :: "string \<Rightarrow> auri" where
  "room_auri n = \<lparr>a_Kind = room_kind, a_Name = n, a_Namespace = ''default'', a_Path = ''.spec.power''\<rparr>"

definition model_obj :: "string \<Rightarrow> string \<Rightarrow> string \<Rightarrow> obj" where
  "model_obj kd n pw = [(''apiVersion'', JStr ''digi.dev/v1''), (''kind'', JStr kd),
     (''metadata'', JObj [(''name'', JStr n), (''namespace'', JStr ''default'')]),
     (''spec'', JObj [(''power'', JStr pw)])]"

definition model_entry :: "string \<Rightarrow> string \<Rightarrow> string \<Rightarrow> (gvk \<times> nsname) \<times> obj" where
  "model_entry kd n pw =
     (((''digi.dev'', ''v1'', kd), \<lparr>n_Namespace = ''default'', n_Name = n\<rparr>), model_obj kd n pw)"

definition two_lamps :: mem where
  "two_lamps = [model_entry ''Lamp'' ''l1'' ''on'', model_entry ''Lamp'' ''l2'' ''off'']"

definition bind :: "string \<Rightarrow> string \<Rightarrow> auri \<Rightarrow> auri \<Rightarrow> binding" where
  "bind n mode s t = \<lparr>sc_Source = s, sc_Target = t, sc_Mode = mode, bd_name = n\<rparr>"

definition req :: "string \<Rightarrow> request" where
  "req n = \<lparr>n_Namespace = ''default'', n_Name = n\<rparr>"

abbreviation never :: "obj \<Rightarrow> bool" where "never \<equiv> \<lambda>_. False"

definition cache_with :: "binding list \<Rightarrow> binding_cache" where
  "cache_with bs = fold (bc_put nns_plain) bs new_binding_cache"

section \<open>Properties\<close>

text \<open>
  C15. Enforcing a match binding that ends without error has made the target's attribute the value
  the source's attribute had; the source still has it, and no other object of the cluster changed.
\<close>

theorem match_copies_attribute:
  assumes "kube_laws ku" and "range_order ord"
    and "map_of (bc_modelToBindings bc) (nns rq) = Some [(n, b)]" and "sc_Mode b = MatchMode"
    and "\<not> same_object (sc_Source b) (sc_Target b)"
    and "spec_path (AttrPathSlice (a_Path (sc_Target b)))"
    and "doEnforce ku nns ord rq bc w = (w', None)"
  shows "\<exists>v. attr_at ku w (sc_Source b) = Some v \<and> attr_at ku w' (sc_Target b) = Some v \<and>
    attr_at ku w' (sc_Source b) = Some v \<and>
    (\<forall>g n. (g, n) \<noteq> (Auri_Gvk (sc_Target b), SpacedName (sc_Target b)) \<longrightarrow>
       ku_get ku w' g n = ku_get ku w g n)"
proof -
  have "sc_Mode b \<noteq> SyncMode" using assms(4) by (simp add: MatchMode_def SyncMode_def)
  moreover have "enforce_binding ku nns (nns rq) b w = (w', None)"
    using enforce_single [of bc nns rq n b ord ku w] assms(2,3,7) by simp
  ultimately obtain src target where "GetObj ku w (sc_Source b) = Inr src" "GetObj ku w (sc_Target b) = Inr target"
    "matchAttr ku src (a_Path (sc_Source b)) target (a_Path (sc_Target b)) w = (w', None)"
    using assms(4) by (auto simp: enforce_binding_def split: sum.splits)
  from enforce_copy [OF assms(1,5,6) this] show ?thesis .
qed

lemma match_copies_attribute_witness:
  "\<exists>w'. doEnforce (mem_kube never) nns_plain rev (req ''l1'')
      (cache_with [bind ''default/s'' MatchMode (lamp_auri ''l1'') (lamp_auri ''l2'')]) two_lamps = (w', None) \<and>
    attr_at (mem_kube never) w' (lamp_auri ''l2'') = attr_at (mem_kube never) two_lamps (lamp_auri ''l1'')"
proof -
  let ?b = "bind ''default/s'' MatchMode (lamp_auri ''l1'') (lamp_auri ''l2'')"
  let ?run = "doEnforce (mem_kube never) nns_plain rev (req ''l1'') (cache_with [?b]) two_lamps"
  have idx: "map_of (bc_modelToBindings (cache_with [?b])) (nns_plain (req ''l1'')) = Some [(''default/s'', ?b)]"
    and ok: "snd ?run = None" and sp: "spec_path (AttrPathSlice (a_Path (sc_Target ?b)))"
    and ns: "\<not> same_object (sc_Source ?b) (sc_Target ?b)" and md: "sc_Mode ?b = MatchMode" by code_simp+
  obtain w' where w': "?run = (w', None)" using ok by (cases ?run) simp
  from match_copies_attribute [OF mem_kube_laws range_order_rev idx md ns sp w'] w'
  show ?thesis by (auto simp: bind_def)
qed

text \<open>
  A sync binding settles: after the change of the source is enforced, the event that the
  write of the target causes is enforced without changing the outcome, and both attributes keep
  the value the source had.
\<close>

theorem sync_settles:
  assumes "kube_laws ku" and "sc_Mode b = SyncMode" and "bd_src nns b \<noteq> bd_tgt nns b"
    and "\<not> same_object (sc_Source b) (sc_Target b)"
    and "spec_path (AttrPathSlice (a_Path (sc_Source b)))" and "spec_path (AttrPathSlice (a_Path (sc_Target b)))"
    and "enforce_binding ku nns (bd_src nns b) b w = (w1, None)"
    and "enforce_binding ku nns (bd_tgt nns b) b w1 = (w2, None)"
  shows "\<exists>v. attr_at ku w (sc_Source b) = Some v \<and> attr_at ku w2 (sc_Source b) = Some v \<and>
    attr_at ku w2 (sc_Target b) = Some v"
proof -
  obtain s t where 1: "GetObj ku w (sc_Source b) = Inr s" "GetObj ku w (sc_Target b) = Inr t"
    "matchAttr ku s (a_Path (sc_Source b)) t (a_Path (sc_Target b)) w = (w1, None)"
    using assms(2,7) by (auto simp: enforce_binding_def split: sum.splits)
  obtain s' t' where 2: "GetObj ku w1 (sc_Source b) = Inr s'" "GetObj ku w1 (sc_Target b) = Inr t'"
    "matchAttr ku t' (a_Path (sc_Target b)) s' (a_Path (sc_Source b)) w1 = (w2, None)"
    using assms(2,3,8) by (auto simp: enforce_binding_def split: sum.splits if_splits)
  have "\<not> same_object (sc_Target b) (sc_Source b)" using assms(4) by (auto simp: same_object_def)
  from enforce_copy [OF assms(1) this assms(5) 2(2,1,3)] enforce_copy [OF assms(1,4,6) 1]
  show ?thesis by auto
qed

lemma sync_settles_witness:
  "\<exists>w1 w2. enforce_binding (mem_kube never) nns_plain ''default/l1''
      (bind ''default/s'' SyncMode (lamp_auri ''l1'') (lamp_auri ''l2'')) two_lamps = (w1, None) \<and>
    attr_at (mem_kube never) w2 (lamp_auri ''l2'') = Some (JStr ''on'')"
proof -
  let ?b = "bind ''default/s'' SyncMode (lamp_auri ''l1'') (lamp_auri ''l2'')"
  let ?e = "enforce_binding (mem_kube never) nns_plain"
  have c: "sc_Mode ?b = SyncMode" "bd_src nns_plain ?b \<noteq> bd_tgt nns_plain ?b"
    "\<not> same_object (sc_Source ?b) (sc_Target ?b)" "spec_path (AttrPathSlice (a_Path (sc_Source ?b)))"
    "spec_path (AttrPathSlice (a_Path (sc_Target ?b)))" by code_simp+
  have n: "bd_src nns_plain ?b = ''default/l1''" and v0: "attr_at (mem_kube never) two_lamps (sc_Source ?b) = Some (JStr ''on'')"
    and t: "sc_Target ?b = lamp_auri ''l2''" by code_simp+
  have "snd (?e (bd_src nns_plain ?b) ?b two_lamps) = None"
    and "snd (?e (bd_tgt nns_plain ?b) ?b (fst (?e (bd_src nns_plain ?b) ?b two_lamps))) = None" by code_simp+
  then obtain w1 w2 where w: "?e (bd_src nns_plain ?b) ?b two_lamps = (w1, None)"
    "?e (bd_tgt nns_plain ?b) ?b w1 = (w2, None)" by (metis fst_conv prod.collapse)
  from sync_settles [OF mem_kube_laws c w] v0 w(1) show ?thesis unfolding n t by auto
qed

text \<open>
  Models are looked up by namespace and name without their kind: when source and target of a
  sync binding have the same name, an event of either one copies the source over the target, so a
  change of the target is lost instead of carried back.
\<close>

theorem same_name_target_change_lost:
  assumes "kube_laws ku" and "sc_Mode b = SyncMode" and "SpacedName (sc_Source b) = SpacedName (sc_Target b)"
    and "Auri_Gvk (sc_Source b) \<noteq> Auri_Gvk (sc_Target b)"
    and "spec_path (AttrPathSlice (a_Path (sc_Target b)))"
    and "enforce_binding ku nns (nns (SpacedName (sc_Target b))) b w = (w', None)"
  shows "attr_at ku w' (sc_Target b) = attr_at ku w (sc_Source b) \<and>
    attr_at ku w' (sc_Source b) = attr_at ku w (sc_Source b)"
proof -
  obtain s t where 1: "GetObj ku w (sc_Source b) = Inr s" "GetObj ku w (sc_Target b) = Inr t"
    "matchAttr ku s (a_Path (sc_Source b)) t (a_Path (sc_Target b)) w = (w', None)"
    using assms(2,3,6) by (auto simp: enforce_binding_def bd_src_def split: sum.splits)
  have "\<not> same_object (sc_Source b) (sc_Target b)" using assms(4) by (simp add: same_object_def)
  from enforce_copy [OF assms(1) this assms(5) 1] show ?thesis by auto
qed

lemma same_name_target_change_lost_witness:
  "attr_at (mem_kube never)
     (fst (enforce_binding (mem_kube never) nns_plain ''default/x''
        (bind ''default/s'' SyncMode (lamp_auri ''x'') (room_auri ''x''))
        [model_entry ''Lamp'' ''x'' ''old'', model_entry ''Room'' ''x'' ''new'']))
     (room_auri ''x'') = Some (JStr ''old'')"
proof -
  let ?b = "bind ''default/s'' SyncMode (lamp_auri ''x'') (room_auri ''x'')"
  let ?w = "[model_entry ''Lamp'' ''x'' ''old'', model_entry ''Room'' ''x'' ''new'']"
  let ?run = "enforce_binding (mem_kube never) nns_plain (nns_plain (SpacedName (sc_Target ?b))) ?b ?w"
  have c: "sc_Mode ?b = SyncMode" "SpacedName (sc_Source ?b) = SpacedName (sc_Target ?b)"
    "Auri_Gvk (sc_Source ?b) \<noteq> Auri_Gvk (sc_Target ?b)" "spec_path (AttrPathSlice (a_Path (sc_Target ?b)))"
    by code_simp+
  have n: "nns_plain (SpacedName (room_auri ''x'')) = ''default/x''" and t: "sc_Target ?b = room_auri ''x''"
    and v: "attr_at (mem_kube never) ?w (sc_Source ?b) = Some (JStr ''old'')" and ok: "snd ?run = None" by code_simp+
  have "?run = (fst ?run, None)" using ok by (metis prod.collapse)
  from same_name_target_change_lost [OF mem_kube_laws c this] v show ?thesis by (simp only: t n)
qed

text \<open>
  The error of doEnforce is that of the last binding the loop visits: with one binding whose
  target is missing and one that works, the failure is reported or not depending on the order of
  the range loop, and a request whose failure is not reported is not queued again.
\<close>

theorem enforce_keeps_last_error_only:
  "let bc = cache_with [bind ''default/bad'' MatchMode (lamp_auri ''l1'') (lamp_auri ''gone''),
                        bind ''default/good'' MatchMode (lamp_auri ''l1'') (lamp_auri ''l2'')];
       run = (\<lambda>ord. snd (doEnforce (mem_kube never) nns_plain ord (req ''l1'') bc two_lamps))
   in run (\<lambda>xs. xs) = None \<and> run rev = Some (Err ''gone not found'')"
  by code_simp



text \<open>
  Editing the source of a Sync object and deleting it later leaves the old binding behind: the
  model that was the source before the edit still finds it, and it is enforced on every event of
  that model, although the Sync object is gone from the cache.
\<close>

theorem moved_binding_survives_deletion:
  assumes "bindings.consistent nns bc" and "map_of (bc_bindings bc) (bd_name b) = Some b0"
    and "bd_src nns b0 \<noteq> bd_src nns b" and "bd_src nns b0 \<noteq> bd_tgt nns b"
    and "BindingCache_Add ku nns b (bc, w) = ((bc', w'), None)"
  shows "lookup2 (bc_modelToBindings (BindingCache_Remove nns (bd_name b) bc')) (bd_src nns b0) (bd_name b) = Some b0 \<and>
    map_of (bc_bindings (BindingCache_Remove nns (bd_name b) bc')) (bd_name b) = None"
proof -
  have "BindingCache_Remove nns n bc' =
      (BindingCache_Remove nns n (bc_put nns b bc))\<lparr>bc_watched := bc_watched bc'\<rparr>" for n
    using Add_cache [OF assms(5)] by (cases bc') (simp add: BindingCache_Remove_def bc_put_def bc_link_def bc_enter_def split: option.splits)
  with bindings.moved_entry_stays [OF assms(1,2), of "bd_src nns b0"] assms(3,4)
  show ?thesis by (simp add: bindings.mentions_def)
qed

lemma moved_binding_survives_deletion_witness:
  "\<exists>bc'. lookup2 (bc_modelToBindings (BindingCache_Remove nns_plain ''s'' bc')) ''default/l1'' ''s'' \<noteq> None \<and>
    map_of (bc_bindings (BindingCache_Remove nns_plain ''s'' bc')) ''s'' = None"
proof -
  let ?old = "bind ''s'' MatchMode (lamp_auri ''l1'') (lamp_auri ''l2'')"
  let ?b = "bind ''s'' MatchMode (lamp_auri ''l2'') (lamp_auri ''l2'')"
  have "bindings.consistent nns_plain (bc_put nns_plain ?old new_binding_cache)"
    by (rule bindings.put_consistent [OF bindings_new]) (simp add: new_binding_cache_def)
  then have c: "bindings.consistent nns_plain (cache_with [?old])" by (simp add: cache_with_def)
  have n: "bd_name ?b = ''s''" "bd_src nns_plain ?old = ''default/l1''" by code_simp+
  have h: "map_of (bc_bindings (cache_with [?old])) (bd_name ?b) = Some ?old"
    "bd_src nns_plain ?old \<noteq> bd_src nns_plain ?b" "bd_src nns_plain ?old \<noteq> bd_tgt nns_plain ?b" by code_simp+
  let ?run = "BindingCache_Add (mem_kube never) nns_plain ?b (cache_with [?old], two_lamps)"
  have "snd ?run = None" by code_simp
  then obtain bc' w' where "?run = ((bc', w'), None)" by (metis prod.collapse)
  from moved_binding_survives_deletion [OF c h this] show ?thesis unfolding n by auto
qed

end
