(* ===== verification/Pipe.thy ===== *)
theory Pipe
  imports Sync_Ctl Parse_Auri
begin

text \<open>
  Piping from the command line, \<open>api/pipe/pipe.go\<close>: a pipe between two attributes is a Sync object
  in match mode, whose name is made from both ends. The typed client is a parameter on a state
  \<open>'w\<close>; \<open>sync_laws\<close> states what create and delete change when they succeed, that creating fails on a
  name that is taken and deleting on one that is free, and that a refused request changes nothing. That
  the API server accepts a name is no law: it validates the names of objects.
\<close>

section \<open>Pipers\<close>

record piper =
  pp_Source :: auri
  pp_Target :: auri

definition normalizePath :: "string \<Rightarrow> string" where
  "normalizePath p =
     (if \<not> prefix ''spec.data.'' p then
        (if prefix ''data.'' p then ''spec.'' @ p else ''spec.data.'' @ p)
      else p)"

definition normalize_end :: "auri \<Rightarrow> auri" where
  "normalize_end ar = ar\<lparr>a_Path := normalizePath (a_Path ar),
     a_Kind := (a_Kind ar)\<lparr>k_Name := title (k_Name (a_Kind ar))\<rparr>\<rparr>"

definition NewPiper :: "(string \<Rightarrow> err + auri option) \<Rightarrow> string \<Rightarrow> string \<Rightarrow> (err + piper) outcome" where
  "NewPiper resolve s t =
     obind (ParseAuri resolve s) (\<lambda>rs.
       case rs of
         Inl e \<Rightarrow> Val (Inl e)
       | Inr si \<Rightarrow>
           obind (ParseAuri resolve t) (\<lambda>rt.
             case rt of
               Inl e \<Rightarrow> Val (Inl e)
             | Inr ti \<Rightarrow> Val (Inr \<lparr>pp_Source = normalize_end si, pp_Target = normalize_end ti\<rparr>)))"

definition NewChainPiperFromStr :: "string \<Rightarrow> err + piper" where
  "NewChainPiperFromStr s = Inl (Err ''unimplemented'')"

definition syncBindingName :: "nn_string \<Rightarrow> piper \<Rightarrow> string" where
  "syncBindingName nns p =
     (let bdName = nns (SpacedName (pp_Source p)) @ ''-'' @ a_Path (pp_Source p) @ ''-match-'' @
            a_Path (pp_Target p) @ ''-'' @ nns (SpacedName (pp_Target p))
      in replace_all ''/'' ''-'' bdName)"

text \<open>A Sync object: its namespaced name and its spec.\<close>

definition newSyncBinding :: "nn_string \<Rightarrow> piper \<Rightarrow> nsname \<times> sync_spec" where
  "newSyncBinding nns p =
     (\<lparr>n_Namespace = ''default'', n_Name = syncBindingName nns p\<rparr>,
      \<lparr>sc_Source = pp_Source p, sc_Target = pp_Target p, sc_Mode = ''match''\<rparr>)"

record 'w sync_api =
  sa_create :: "nsname \<times> sync_spec \<Rightarrow> 'w \<Rightarrow> 'w \<times> err option"
  sa_delete :: "nsname \<times> sync_spec \<Rightarrow> 'w \<Rightarrow> 'w \<times> err option"
  sa_find :: "'w \<Rightarrow> nsname \<Rightarrow> sync_spec option"

text \<open>\<open>newClientForSyncBinding\<close> may fail: its error is an argument.\<close>

definition createSyncBinding ::
  "nn_string \<Rightarrow> 'w sync_api \<Rightarrow> err option \<Rightarrow> piper \<Rightarrow> 'w \<Rightarrow> 'w \<times> err option" where
  "createSyncBinding nns sa client_err p w =
     (case client_err of
        Some e \<Rightarrow> (w, Some (Wrap ''unable to create sync binding'' e))
      | None \<Rightarrow> sa_create sa (newSyncBinding nns p) (fst (sa_delete sa (newSyncBinding nns p) w)))"

definition deleteSyncBinding ::
  "nn_string \<Rightarrow> 'w sync_api \<Rightarrow> err option \<Rightarrow> piper \<Rightarrow> 'w \<Rightarrow> 'w \<times> err option" where
  "deleteSyncBinding nns sa client_err p w =
     (case client_err of
        Some e \<Rightarrow> (w, Some (Wrap ''unable to create api client for sync binding'' e))
      | None \<Rightarrow> sa_delete sa (newSyncBinding nns p) w)"

definition Piper_Pipe ::
  "nn_string \<Rightarrow> 'w sync_api \<Rightarrow> err option \<Rightarrow> piper \<Rightarrow> 'w \<Rightarrow> 'w \<times> err option" where
  "Piper_Pipe nns sa client_err p w = createSyncBinding nns sa client_err p w"

definition Piper_Unpipe ::
  "nn_string \<Rightarrow> 'w sync_api \<Rightarrow> err option \<Rightarrow> piper \<Rightarrow> 'w \<Rightarrow> 'w \<times> err option" where
  "Piper_Unpipe nns sa client_err p w = deleteSyncBinding nns sa client_err p w"

definition sync_laws :: "'w sync_api \<Rightarrow> bool" where
  "sync_laws sa \<longleftrightarrow>
     (\<forall>n s w w'. sa_create sa (n, s) w = (w', None) \<longrightarrow>
        sa_find sa w n = None \<and> sa_find sa w' = (sa_find sa w)(n \<mapsto> s)) \<and>
     (\<forall>n s w w' e. sa_create sa (n, s) w = (w', Some e) \<longrightarrow> sa_find sa w' = sa_find sa w) \<and>
     (\<forall>n s w w'. sa_delete sa (n, s) w = (w', None) \<longrightarrow>
        sa_find sa w n \<noteq> None \<and> sa_find sa w' = (sa_find sa w)(n := None)) \<and>
     (\<forall>n s w w' e. sa_delete sa (n, s) w = (w', Some e) \<longrightarrow> sa_find sa w' = sa_find sa w)"

lemma sync_lawsD:
  assumes "sync_laws sa"
  shows "\<And>n s w w'. sa_create sa (n, s) w = (w', None) \<Longrightarrow> sa_find sa w n = None"
    and "\<And>n s w w'. sa_create sa (n, s) w = (w', None) \<Longrightarrow> sa_find sa w' = (sa_find sa w)(n \<mapsto> s)"
    and "\<And>n s w w' e. sa_create sa (n, s) w = (w', Some e) \<Longrightarrow> sa_find sa w' = sa_find sa w"
    and "\<And>n s w w'. sa_delete sa (n, s) w = (w', None) \<Longrightarrow> sa_find sa w n \<noteq> None"
    and "\<And>n s w w'. sa_delete sa (n, s) w = (w', None) \<Longrightarrow> sa_find sa w' = (sa_find sa w)(n := None)"
    and "\<And>n s w w' e. sa_delete sa (n, s) w = (w', Some e) \<Longrightarrow> sa_find sa w' = sa_find sa w"
  using assms unfolding sync_laws_def by blast+

text \<open>The server accepts a name: it creates the object when there is none and deletes it when there is one.\<close>

definition accepts_name :: "'w sync_api \<Rightarrow> nsname \<Rightarrow> bool" where
  "accepts_name sa n \<longleftrightarrow>
     (\<forall>w s. sa_find sa w n = None \<longrightarrow> snd (sa_create sa (n, s) w) = None) \<and>
     (\<forall>w s. sa_find sa w n \<noteq> None \<longrightarrow> snd (sa_delete sa (n, s) w) = None)"

text \<open>
  The names an API server accepts for objects: subdomains of the domain name system, of small letters,
  digits, hyphens and dots, each label with a letter or digit at both ends, of at most 253 characters.
\<close>

definition dns_alnum :: "char \<Rightarrow> bool" where
  "dns_alnum c \<longleftrightarrow> (let n = of_char c :: nat in 48 \<le> n \<and> n \<le> 57 \<or> 97 \<le> n \<and> n \<le> 122)"

definition dns_label :: "string \<Rightarrow> bool" where
  "dns_label s \<longleftrightarrow> s \<noteq> [] \<and> dns_alnum (hd s) \<and> dns_alnum (last s) \<and> list_all (\<lambda>c. dns_alnum c \<or> c = CHR ''-'') s"

definition dns_subdomain :: "string \<Rightarrow> bool" where
  "dns_subdomain s \<longleftrightarrow> length s \<le> 253 \<and> list_all dns_label (split_on (CHR ''.'') s)"

text \<open>A server in memory that validates names.\<close>

definition mem_sync :: "(nsname \<times> sync_spec) list sync_api" where
  "mem_sync = \<lparr>sa_create = (\<lambda>(n, s) w. if \<not> dns_subdomain (n_Name n) then (w, Some (Err ''invalid name''))
       else if map_of w n = None then (AList.update n s w, None) else (w, Some (Err ''already exists''))),
     sa_delete = (\<lambda>(n, s) w. if map_of w n = None then (w, Some (Err ''not found'')) else (AList.delete n w, None)),
     sa_find = map_of\<rparr>"

lemma mem_sync_laws [simp]: "sync_laws mem_sync"
  by (auto simp: sync_laws_def mem_sync_def update_conv' delete_conv' restrict_map_def split: if_splits)

lemma mem_sync_accepts: "dns_subdomain (n_Name n) \<Longrightarrow> accepts_name mem_sync n"
  by (simp add: accepts_name_def mem_sync_def)

section \<open>Properties\<close>

abbreviation binding_key :: "nn_string \<Rightarrow> piper \<Rightarrow> nsname" where
  "binding_key nns p \<equiv> \<lparr>n_Namespace = ''default'', n_Name = syncBindingName nns p\<rparr>"

abbreviation binding_spec :: "piper \<Rightarrow> sync_spec" where
  "binding_spec p \<equiv> \<lparr>sc_Source = pp_Source p, sc_Target = pp_Target p, sc_Mode = MatchMode\<rparr>"

lemma newSyncBinding_parts: "newSyncBinding nns p = (binding_key nns p, binding_spec p)"
  by (simp add: newSyncBinding_def MatchMode_def)

text \<open>What piping and unpiping do to the Sync objects, whatever was stored under the name before.\<close>

lemma pipe_effect:
  assumes laws: "sync_laws sa" and run: "Piper_Pipe nns sa None p w = (w1, e)"
  shows "e = None \<Longrightarrow> sa_find sa w1 = (sa_find sa w)(binding_key nns p \<mapsto> binding_spec p)"
    and "m \<noteq> binding_key nns p \<Longrightarrow> sa_find sa w1 m = sa_find sa w m"
    and "e \<noteq> None \<Longrightarrow> sa_find sa w1 (binding_key nns p) \<in> {None, sa_find sa w (binding_key nns p)}"
    and "accepts_name sa (binding_key nns p) \<Longrightarrow> e = None"
proof -
  let ?k = "binding_key nns p" and ?s = "binding_spec p"
  note L = sync_lawsD [OF laws]
  obtain wd ed where del: "sa_delete sa (?k, ?s) w = (wd, ed)" by fastforce
  with run have new: "sa_create sa (?k, ?s) wd = (w1, e)"
    by (simp add: Piper_Pipe_def createSyncBinding_def newSyncBinding_parts)
  have wd: "sa_find sa wd = sa_find sa w \<or> sa_find sa wd = (sa_find sa w)(?k := None)"
    using L(5,6) del by (cases ed) blast+
  show "e = None \<Longrightarrow> sa_find sa w1 = (sa_find sa w)(?k \<mapsto> ?s)"
    using L(2) new wd by auto
  show "m \<noteq> ?k \<Longrightarrow> sa_find sa w1 m = sa_find sa w m"
    using L(2,3) [of ?k ?s wd w1] new wd by (cases e) auto
  show "e \<noteq> None \<Longrightarrow> sa_find sa w1 ?k \<in> {None, sa_find sa w ?k}"
    using L(3) new wd by auto
  show "e = None" if "accepts_name sa ?k"
  proof -
    have "sa_find sa wd ?k = None"
    proof (cases "sa_find sa w ?k")
      case None
      with wd show ?thesis by auto
    next
      case (Some x)
      with that have "ed = None" using del unfolding accepts_name_def by (metis option.distinct(1) snd_conv)
      with L(5) del show ?thesis by simp
    qed
    with that show ?thesis using new unfolding accepts_name_def by (metis snd_conv)
  qed
qed

lemma unpipe_effect:
  assumes laws: "sync_laws sa" and run: "Piper_Unpipe nns sa None p w = (w1, e)"
  shows "e = None \<Longrightarrow> sa_find sa w1 = (sa_find sa w)(binding_key nns p := None)"
    and "e \<noteq> None \<Longrightarrow> sa_find sa w1 = sa_find sa w"
    and "accepts_name sa (binding_key nns p) \<Longrightarrow> sa_find sa w (binding_key nns p) \<noteq> None \<Longrightarrow> e = None"
proof -
  have del: "sa_delete sa (binding_key nns p, binding_spec p) w = (w1, e)"
    using run by (simp add: Piper_Unpipe_def deleteSyncBinding_def newSyncBinding_parts)
  note L = sync_lawsD [OF laws]
  show "e = None \<Longrightarrow> sa_find sa w1 = (sa_find sa w)(binding_key nns p := None)" using L(5) del by simp
  show "e \<noteq> None \<Longrightarrow> sa_find sa w1 = sa_find sa w" using L(6) del by auto
  show "accepts_name sa (binding_key nns p) \<Longrightarrow> sa_find sa w (binding_key nns p) \<noteq> None \<Longrightarrow> e = None"
    using del unfolding accepts_name_def by (metis snd_conv)
qed

lemma normalizePath_prefix: "prefix ''spec.data.'' (normalizePath p)"
  by (auto simp: normalizePath_def prefix_def)

text \<open>
  A normalised path starts with spec.data., and normalising it again changes nothing, so the
  attribute of a pipe does not depend on which of the accepted spellings was used.
\<close>

theorem normalizePath_stable:
  "prefix ''spec.data.'' (normalizePath p) \<and> normalizePath (normalizePath p) = normalizePath p \<and>
   normalizePath (''data.'' @ p) = ''spec.data.'' @ p \<and> normalizePath (''spec.data.'' @ p) = ''spec.data.'' @ p"
  by (auto simp: normalizePath_def prefix_def)

text \<open>
  C26. Piping and unpiping, whatever was stored before. When the API server accepts the name made from
  both ends, piping succeeds, also a second time over its own binding, and so does unpiping. Without an
  error, a pipe stores the one binding under its name, a second pipe changes nothing, and unpiping
  removes it. A refused pipe reports the error and stores nothing, but may have removed an older binding
  of its name. Sync objects of other names are untouched throughout.
\<close>

theorem pipe_then_unpipe:
  assumes "sync_laws sa" and "Piper_Pipe nns sa None p w = (w1, e1)"
    and "Piper_Pipe nns sa None p w1 = (w2, e2)" and "Piper_Unpipe nns sa None p w2 = (w3, e3)"
  shows "(accepts_name sa (binding_key nns p) \<longrightarrow> e1 = None \<and> e2 = None \<and> e3 = None) \<and>
    (e1 = None \<longrightarrow> sa_find sa w1 =
       (sa_find sa w)(binding_key nns p \<mapsto> \<lparr>sc_Source = pp_Source p, sc_Target = pp_Target p, sc_Mode = MatchMode\<rparr>)) \<and>
    (e1 \<noteq> None \<longrightarrow> sa_find sa w1 (binding_key nns p) \<in> {None, sa_find sa w (binding_key nns p)}) \<and>
    (e1 = None \<longrightarrow> e2 = None \<longrightarrow> sa_find sa w2 = sa_find sa w1) \<and>
    (e3 = None \<longrightarrow> sa_find sa w3 (binding_key nns p) = None) \<and>
    (e3 \<noteq> None \<longrightarrow> sa_find sa w3 = sa_find sa w2) \<and>
    (\<forall>m. m \<noteq> binding_key nns p \<longrightarrow> sa_find sa w1 m = sa_find sa w m \<and> sa_find sa w2 m = sa_find sa w m \<and>
       sa_find sa w3 m = sa_find sa w m)"
proof (intro conjI impI allI)
  note 1 = pipe_effect [OF assms(1,2)] and 2 = pipe_effect [OF assms(1,3)] and 3 = unpipe_effect [OF assms(1,4)]
  show "e1 = None" "e2 = None" if "accepts_name sa (binding_key nns p)" using 1(4) 2(4) that by blast+
  show "e3 = None" if "accepts_name sa (binding_key nns p)" using 2(1,4) 3(3) that by simp
  show "sa_find sa w2 = sa_find sa w1" if "e1 = None" "e2 = None" using 1(1) 2(1) that by simp
  fix m assume m: "m \<noteq> binding_key nns p"
  then show "sa_find sa w2 m = sa_find sa w m" using 1(2) 2(2) by simp
  then show "sa_find sa w3 m = sa_find sa w m" using 3(1,2) m by (cases e3) auto
qed (use pipe_effect [OF assms(1,2)] unpipe_effect [OF assms(1,4)] in auto)

definition lamp_end :: "string \<Rightarrow> auri" where
  "lamp_end n = (lamp_auri n)\<lparr>a_Path := ''power''\<rparr>"

definition pipe_between :: "auri \<Rightarrow> auri \<Rightarrow> piper" where
  "pipe_between s t = \<lparr>pp_Source = normalize_end s, pp_Target = normalize_end t\<rparr>"

lemma pipe_then_unpipe_witness:
  "let p = pipe_between (lamp_end ''l1'') (lamp_end ''l2'') in
   snd (Piper_Unpipe nns_plain mem_sync None p
     (fst (Piper_Pipe nns_plain mem_sync None p (fst (Piper_Pipe nns_plain mem_sync None p []))))) = None"
proof -
  have "dns_subdomain (syncBindingName nns_plain (pipe_between (lamp_end ''l1'') (lamp_end ''l2'')))" by code_simp
  then have "accepts_name mem_sync (binding_key nns_plain (pipe_between (lamp_end ''l1'') (lamp_end ''l2'')))"
    by (intro mem_sync_accepts) simp
  then show ?thesis
    unfolding Let_def
    using pipe_then_unpipe [OF mem_sync_laws prod.collapse [symmetric] prod.collapse [symmetric] prod.collapse [symmetric]]
    by blast
qed

text \<open>
  The name of a binding is made from the paths of the attributes as they are: an attribute whose name
  holds a capital letter, an underscore or any other character that is not allowed in the name of an
  object gives a name that no API server accepts, so it cannot be piped.
\<close>

theorem attribute_makes_name_invalid:
  assumes "c \<in> set (a_Path (pp_Source p)) \<union> set (a_Path (pp_Target p))"
    and "\<not> dns_alnum c" and "c \<noteq> CHR ''-''" and "c \<noteq> CHR ''.''" and "c \<noteq> CHR ''/''"
  shows "\<not> dns_subdomain (syncBindingName nns p)"
proof
  assume valid: "dns_subdomain (syncBindingName nns p)"
  have "c \<in> set (syncBindingName nns p)"
    using assms(1,5) by (auto simp: syncBindingName_def Let_def replace_all_char)
  then have "c \<in> set (join_with ''.'' (split_on (CHR ''.'') (syncBindingName nns p)))" by (simp add: join_split)
  then obtain l where "l \<in> set (split_on (CHR ''.'') (syncBindingName nns p))" "c \<in> set l"
    using assms(4) by (auto dest!: join_with_mem)
  with valid assms(2,3) show False by (auto simp: dns_subdomain_def dns_label_def list_all_iff)
qed

lemma attribute_makes_name_invalid_witness:
  "snd (Piper_Pipe nns_plain mem_sync None (pipe_between ((lamp_end ''l1'')\<lparr>a_Path := ''maxPower''\<rparr>) (lamp_end ''l2'')) []) =
    Some (Err ''invalid name'')"
proof -
  let ?p = "pipe_between ((lamp_end ''l1'')\<lparr>a_Path := ''maxPower''\<rparr>) (lamp_end ''l2'')"
  have "CHR ''P'' \<in> set (a_Path (pp_Source ?p)) \<union> set (a_Path (pp_Target ?p))" "\<not> dns_alnum (CHR ''P'')" by code_simp+
  from attribute_makes_name_invalid [OF this] have "\<not> dns_subdomain (syncBindingName nns_plain ?p)" by simp
  then show ?thesis
    by (simp add: Piper_Pipe_def createSyncBinding_def newSyncBinding_parts mem_sync_def)
qed

text \<open>
  The name of a binding does not identify the pipe: the slash between namespace and name
  becomes a dash, so the pipes from digi x-a in namespace default and from digi a in namespace
  default-x share one name, and creating the second silently deletes the binding of the first.
\<close>

theorem pipes_with_equal_names_collide:
  assumes "sync_laws sa" and "syncBindingName nns p = syncBindingName nns q" and "pp_Source p \<noteq> pp_Source q"
    and "Piper_Pipe nns sa None p w = (w1, None)" and "Piper_Pipe nns sa None q w1 = (w2, None)"
  shows "sa_find sa w2 m = Some s \<Longrightarrow> sc_Source s = pp_Source p \<Longrightarrow> sa_find sa w m = Some s"
  using pipe_effect(1) [OF assms(1,4)] pipe_effect(1) [OF assms(1,5)] assms(2,3)
  by (auto split: if_splits)

definition auri_in :: "string \<Rightarrow> string \<Rightarrow> auri" where
  "auri_in ns n = (lamp_end n)\<lparr>a_Namespace := ns\<rparr>"

lemma pipes_with_equal_names_collide_witness:
  "\<exists>w1 w2. Piper_Pipe nns_plain mem_sync None (pipe_between (auri_in ''default'' ''x-a'') (lamp_end ''t'')) [] = (w1, None) \<and>
    Piper_Pipe nns_plain mem_sync None (pipe_between (auri_in ''default-x'' ''a'') (lamp_end ''t'')) w1 = (w2, None) \<and>
    (\<forall>m s. sa_find mem_sync w2 m = Some s \<longrightarrow>
       sc_Source s \<noteq> pp_Source (pipe_between (auri_in ''default'' ''x-a'') (lamp_end ''t'')))"
proof -
  let ?p = "pipe_between (auri_in ''default'' ''x-a'') (lamp_end ''t'')"
  let ?q = "pipe_between (auri_in ''default-x'' ''a'') (lamp_end ''t'')"
  have n: "syncBindingName nns_plain ?p = syncBindingName nns_plain ?q" "pp_Source ?p \<noteq> pp_Source ?q"
    by code_simp+
  have "snd (Piper_Pipe nns_plain mem_sync None ?p []) = None" by code_simp
  then obtain w1 where 1: "Piper_Pipe nns_plain mem_sync None ?p [] = (w1, None)" by (metis prod.collapse)
  have "dns_subdomain (syncBindingName nns_plain ?q)" by code_simp
  then have "accepts_name mem_sync (binding_key nns_plain ?q)" by (intro mem_sync_accepts) simp
  with pipe_effect(4) [OF mem_sync_laws prod.collapse [symmetric]]
  obtain w2 where 2: "Piper_Pipe nns_plain mem_sync None ?q w1 = (w2, None)" by (metis prod.collapse)
  have none: "sa_find mem_sync [] m = None" for m by (simp add: mem_sync_def)
  from pipes_with_equal_names_collide [OF mem_sync_laws n 1 2] 1 2 show ?thesis
    by (metis none option.distinct(1))
qed
end
