(* ===== verification/Cli_Space.thy ===== *)
theory Cli_Space
  imports Cli_Base Kube_Config Mounts Pipe
begin

text \<open>
  The commands on a dSpace, \<open>cmd/digi/space/command.go\<close>, and on its lake,
  \<open>cmd/digi/lake/command.go\<close>. Each command is the body of its \<open>Run\<close> function behind the check of
  the number of arguments. What it calls beside \<open>make\<close> and the local store is a field of
  \<open>space_env\<close>.
\<close>

section \<open>Numbers of arguments\<close>

definition MinimumNArgs :: "nat \<Rightarrow> string list \<Rightarrow> ('w, unit) cmd \<Rightarrow> ('w, unit) cmd" where
  "MinimumNArgs n args body =
     (if length args < n then cfatal (''requires at least '' @ nat_str n @ '' arg(s), only received '' @
        nat_str (length args)) else body)"

definition MaximumNArgs :: "nat \<Rightarrow> string list \<Rightarrow> ('w, unit) cmd \<Rightarrow> ('w, unit) cmd" where
  "MaximumNArgs n args body =
     (if length args > n then cfatal (''accepts at most '' @ nat_str n @ '' arg(s), received '' @
        nat_str (length args)) else body)"

definition ExactArgs :: "nat \<Rightarrow> string list \<Rightarrow> ('w, unit) cmd \<Rightarrow> ('w, unit) cmd" where
  "ExactArgs n args body =
     (if length args \<noteq> n then cfatal (''accepts '' @ nat_str n @ '' arg(s), received '' @
        nat_str (length args)) else body)"

section \<open>The surroundings\<close>

record ('w, 'j, 'g) space_env =
  se_kube :: "'w kube_files"
  se_nns :: nn_string
  se_json :: "'j sjson"
  se_api :: "('w, 'j, 'g) api"
  se_api_err :: "err option"
    \<comment> \<open>the error of creating the API client\<close>
  se_sync :: "'w sync_api"
  se_sync_err :: "err option"
  se_client_err :: "err option"
    \<comment> \<open>the error of \<open>k8s.NewClientSet\<close>\<close>
  se_get_proxy :: "'w \<Rightarrow> err + obj"
  se_update_proxy :: "obj \<Rightarrow> 'w \<Rightarrow> 'w \<times> err option"
  se_set_nested :: "obj \<Rightarrow> string \<Rightarrow> string list \<Rightarrow> obj"
    \<comment> \<open>\<open>SetNestedField\<close>, which leaves the object as it is when it fails\<close>
  se_url :: "string \<Rightarrow> string \<Rightarrow> string option"
    \<comment> \<open>\<open>url.ParseRequestURI\<close> of a base, with a query set, printed; \<open>None\<close> when it does not parse\<close>
  se_http :: "string \<Rightarrow> 'w \<Rightarrow> 'w \<times> (err + int \<times> string \<times> bool)"
    \<comment> \<open>\<open>http.Get\<close>: the status code, the body as far as it was read, and whether all of it was\<close>

definition coutcome :: "('w \<Rightarrow> ('w \<times> 'a) outcome) \<Rightarrow> ('w, 'a) cmd" where
  "coutcome f w =
     (case f w of
        Val (w', x) \<Rightarrow> (w', [], Val x)
      | Panic s \<Rightarrow> (w, [], Panic s)
      | Exit s \<Rightarrow> (w, [], Exit s)
      | Diverge \<Rightarrow> (w, [], Diverge))"

definition fatal_on :: "string \<Rightarrow> err option \<Rightarrow> ('w, unit) cmd" where
  "fatal_on msg e = (case e of None \<Rightarrow> creturn () | Some x \<Rightarrow> cfatal (msg @ err_text x))"

section \<open>Mount and pipe\<close>

definition resolve_in :: "'w cli \<Rightarrow> 'w \<Rightarrow> string \<Rightarrow> err + auri option" where
  "resolve_in cl w = Resolve (c_viper cl) w"

definition mount_op :: "flags \<Rightarrow> int" where
  "mount_op fs =
     (if GetBool fs ''delete'' then UNMOUNT
      else if GetBool fs ''activate'' then ACTIVATE
      else if GetBool fs ''yield'' then YIELD
      else MOUNT)"

definition MountCmd ::
  "'w cli \<Rightarrow> ('w, 'j, 'g) space_env \<Rightarrow> flags \<Rightarrow> string list \<Rightarrow> ('w, unit) cmd" where
  "MountCmd cl se fs args = MinimumNArgs 2 args (
     let mode = GetString fs ''mode''; sources = butlast args; target = last args in
     cbind (cread (resolve_in cl)) (\<lambda>resolve.
     cbind (clift (NewMounter resolve sources target (mount_op fs) mode (GetInt fs ''num-retry''))) (\<lambda>r.
       case r of
         Inl err \<Rightarrow> cfatal (err_text err)
       | Inr mt \<Rightarrow>
           cbind (coutcome (Mounter_Do (c_plural cl) (se_nns se) (se_json se) (se_api se) (se_api_err se) mt))
             (fatal_on ''failed: ''))))"

definition pipeCmd ::
  "'w cli \<Rightarrow> ('w, 'j, 'g) space_env \<Rightarrow> flags \<Rightarrow> string list \<Rightarrow> ('w, unit) cmd" where
  "pipeCmd cl se fs args = MinimumNArgs 1 args (
     cbind (cread (resolve_in cl)) (\<lambda>resolve.
     cbind (case args of
              [s] \<Rightarrow> creturn (NewChainPiperFromStr s)
            | _ \<Rightarrow> clift (NewPiper resolve (args ! 0) (args ! 1))) (\<lambda>r.
       case r of
         Inl err \<Rightarrow> cfatal (err_text err)
       | Inr pp \<Rightarrow>
           (let f = (if GetBool fs ''delete'' then Piper_Unpipe else Piper_Pipe) in
            cbind (cstep (f (se_nns se) (se_sync se) (se_sync_err se) pp)) (fatal_on ''pipe failed: '')))))"

section \<open>Controllers\<close>

definition controllers :: "string list" where
  "controllers = [''lake'', ''syncer'', ''mounter'', ''emqx'', ''net'', ''sourcer'', ''pipelet'']"

definition StartController :: "'w cli \<Rightarrow> string \<Rightarrow> ('w, err option) cmd" where
  "StartController cl name = RunMake cl [] (''start-'' @ name) True False"

definition StartControllerWithParams ::
  "'w cli \<Rightarrow> (string, string) gomap \<Rightarrow> string \<Rightarrow> ('w, err option) cmd" where
  "StartControllerWithParams cl params name = RunMake cl params (''start-'' @ name) True False"

definition StopController :: "'w cli \<Rightarrow> string \<Rightarrow> ('w, err option) cmd" where
  "StopController cl name = RunMake cl [] (''stop-'' @ name) True False"

text \<open>\<open>_ = f(...)\<close>\<close>

definition cignore :: "('w, 'a) cmd \<Rightarrow> ('w, unit) cmd" where
  "cignore m = cbind m (\<lambda>x. creturn ())"

definition space_startCmd :: "'w cli \<Rightarrow> flags \<Rightarrow> string list \<Rightarrow> ('w, unit) cmd" where
  "space_startCmd cl fs args =
     (let params = [(''CR'', GetString fs ''registry-file''), (''SECRETS'', GetString fs ''secrets-file'')] in
      if args = [] then run_make cl params ''start-space'' True False
      else cforeach args (\<lambda>name.
        if name \<notin> set controllers then cfatal (''unknown controller: '' @ name)
        else cignore (StartControllerWithParams cl params name)))"

definition space_stopCmd :: "'w cli \<Rightarrow> string list \<Rightarrow> ('w, unit) cmd" where
  "space_stopCmd cl args =
     (if args = [] then run_make cl [] ''stop-space'' True False
      else cforeach args (\<lambda>name.
        if name \<notin> set controllers then cfatal (''unknown controller: '' @ name)
        else cignore (StopController cl name)))"

section \<open>The registry and the sourcer\<close>

definition config_or ::
  "'w cli \<Rightarrow> string list \<Rightarrow> nat \<Rightarrow> string \<Rightarrow> string \<Rightarrow> ('w, string) cmd" where
  "config_or cl args n key msg =
     (if length args > n then creturn (args ! n)
      else cbind (cread (\<lambda>w. Config_Get (c_viper cl) w key)) (\<lambda>r.
        case r of Inl err \<Rightarrow> cfatal msg | Inr x \<Rightarrow> creturn x))"

definition opt_arg :: "string list \<Rightarrow> nat \<Rightarrow> string" where
  "opt_arg args n = (if length args > n then args ! n else [])"

definition registerCmd ::
  "'w cli \<Rightarrow> ('w, 'j, 'g) space_env \<Rightarrow> string list \<Rightarrow> ('w, unit) cmd" where
  "registerCmd cl se args = MinimumNArgs 1 args (
     let user = args ! 0 in
     cbind (config_or cl args 1 ''ANYSOURCE_ADDRESS''
       ''Provide a registry address or set an anysource address in the digi config'') (\<lambda>anysource.
     cbind (config_or cl args 2 ''PROXY_ADDRESS''
       ''Provide a proxy address or set a proxy address in the digi config'') (\<lambda>proxy.
     cthen (run_make cl [] ''register-space'' True False) (
     cbind (cread (LoadKubeConfig (se_kube se) [])) (\<lambda>r.
     case r of Inl err \<Rightarrow> cfatal ''Failed to load config from Kube Config file.'' | Inr kc \<Rightarrow>
     let dspace = CurrentContext kc in
     cbind (cread (ClusterExistsLocal (se_kube se) dspace)) (\<lambda>ex.
     cbind (clift ex) (\<lambda>(exists, err).
     if \<not> exists \<or> err \<noteq> None
     then cfatal (''Cluster for current context '' @ dspace @ '' not found.'')
     else (case se_client_err se of
       Some err \<Rightarrow> cfatal (''Error creating Kubernetes clientset: %s'' @ [CHR 0x0A] @ err_text err)
     | None \<Rightarrow>
     cbind (cread (se_get_proxy se)) (\<lambda>g.
     case g of
       Inl err \<Rightarrow> cfatal (''Proxy digi is not currently running'' @ [CHR 0x0A] @ err_text err)
     | Inr cr0 \<Rightarrow>
     let registryURL = ''http://'' @ anysource @ '':30201/registry/registerDspace'';
         proxyURL = ''http://'' @ proxy @ '':30005/proxy'';
         cr1 = se_set_nested se cr0 dspace [''spec'', ''meta'', ''dspace_name''];
         cr2 = se_set_nested se cr1 proxyURL [''spec'', ''meta'', ''proxy_endpoint''];
         cr3 = se_set_nested se cr2 registryURL [''spec'', ''meta'', ''registry_endpoint''];
         cr = se_set_nested se cr3 user [''spec'', ''meta'', ''user_name'']
     in cbind (cstep (se_update_proxy se cr))
          (fatal_on (''Failed to update proxy digi'' @ [CHR 0x0A])))))))))))"

text \<open>\<open>url.QueryEscape\<close> and \<open>Values.Encode\<close> of single values: sorted by key.\<close>

definition hex_digit :: "nat \<Rightarrow> char" where
  "hex_digit d = (if d < 10 then char_of (48 + d) else char_of (55 + d))"

definition query_escape :: "string \<Rightarrow> string" where
  "query_escape s = concat (map (\<lambda>c.
     if is_letter c \<or> is_digit c \<or> c \<in> {CHR ''-'', CHR ''_'', CHR ''.'', CHR ''~''} then [c]
     else if c = CHR '' '' then ''+''
     else (let n = (of_char c :: nat) in [CHR ''%'', hex_digit (n div 16), hex_digit (n mod 16)])) s)"

definition encode_query :: "(string \<times> string) list \<Rightarrow> string" where
  "encode_query kvs = join_with ''&'' (map (\<lambda>(k, v). query_escape k @ ''='' @ query_escape v) kvs)"

text \<open>What \<open>log.Fatal\<close> writes for a \<open>[]byte\<close>.\<close>

definition show_bytes :: "string \<Rightarrow> string" where
  "show_bytes s = ''['' @ join_with '' '' (map (\<lambda>c. nat_str (of_char c)) s) @ '']''"

text \<open>The request and its answer, the same in the three query commands.\<close>

definition sourcer_get ::
  "('w, 'j, 'g) space_env \<Rightarrow> string \<Rightarrow> (string \<times> string) list \<Rightarrow> ('w, unit) cmd" where
  "sourcer_get se baseURL kvs =
     (case se_url se baseURL (encode_query (filter (\<lambda>(k, v). v \<noteq> []) kvs)) of
        None \<Rightarrow> clift (Panic nil_deref)
      | Some uStr \<Rightarrow>
          cbind (cstep (se_http se uStr)) (\<lambda>r.
            case r of
              Inl err \<Rightarrow> cfatal (''Failed to access sourcer at address: '' @ [CHR 0x0A] @ uStr @
                [CHR 0x0A] @ err_text err)
            | Inr (code, body, complete) \<Rightarrow>
                if \<not> complete then
                  cfatal (''Failed to read response from sourcer: '' @ [CHR 0x0A] @ show_bytes body)
                else if code \<noteq> 200 then
                  cfatal (''Request to sourcer failed with code'' @ itoa code @ [CHR 0x0A] @ body)
                else cprintln body))"

definition anysource_msg :: string where
  "anysource_msg = ''Provide a sourcer address or set an anysource address in the digi config''"

definition queryCmd ::
  "'w cli \<Rightarrow> ('w, 'j, 'g) space_env \<Rightarrow> string list \<Rightarrow> ('w, unit) cmd" where
  "queryCmd cl se args = MinimumNArgs 1 args (
     let digi_path = args ! 0; egress = opt_arg args 1; query = opt_arg args 2 in
     cbind (config_or cl args 3 ''ANYSOURCE_ADDRESS'' anysource_msg) (\<lambda>anysource.
       sourcer_get se (''http://'' @ anysource @ '':30202/sourcer/'' @ digi_path @ ''/query'')
         [(''egress'', egress), (''query'', query)]))"

definition searchCmd ::
  "'w cli \<Rightarrow> ('w, 'j, 'g) space_env \<Rightarrow> string list \<Rightarrow> ('w, unit) cmd" where
  "searchCmd cl se args =
     (let query = opt_arg args 0 in
     cbind (config_or cl args 1 ''ANYSOURCE_ADDRESS'' anysource_msg) (\<lambda>anysource.
       sourcer_get se (''http://'' @ anysource @ '':30202/sourcer/queryDigi'') [(''query'', query)]))"

section \<open>Managing spaces\<close>

definition space_listCmd :: "'w cli \<Rightarrow> flags \<Rightarrow> string list \<Rightarrow> ('w, unit) cmd" where
  "space_listCmd cl fs args = ExactArgs 0 args (
     let flags = (if GetBool fs ''current'' then '' -c'' else []) in
     cthen (cwhen (\<not> GetBool fs ''quiet'') (cprintln ''NAME''))
       (run_make cl [(''FLAG'', flags)] ''list-space'' True False))"

definition space_checkCmd :: "'w cli \<Rightarrow> string list \<Rightarrow> ('w, unit) cmd" where
  "space_checkCmd cl args = MaximumNArgs 1 args (
     run_make cl (case args of [a] \<Rightarrow> [(''SPACE'', a)] | _ \<Rightarrow> []) ''show-space'' True False)"

definition switchCmd :: "'w cli \<Rightarrow> string list \<Rightarrow> ('w, unit) cmd" where
  "switchCmd cl args = ExactArgs 1 args (
     run_make cl [(''NAME'', args ! 0)] ''switch-space'' True False)"

fun contains :: "string list \<Rightarrow> string \<Rightarrow> bool" where
  "contains [] str = False"
| "contains (s # strs) str = (if s = str then True else contains strs str)"

text \<open>
  One of the three checks of \<open>add\<close>: both lists of names are made, and the first name of the given
  configuration that the root has ends the command.
\<close>

definition check_names ::
  "string \<Rightarrow> string list outcome \<Rightarrow> string list outcome \<Rightarrow> ('w, unit) cmd" where
  "check_names what root given =
     cbind (clift root) (\<lambda>rootNames.
     cbind (clift given) (\<lambda>names.
       cforeach names (\<lambda>n.
         if contains rootNames n
         then cfatal (what @ '' '' @ n @ '' already exists in the root; rename or use -f.'')
         else creturn ())))"

text \<open>The end of \<open>add\<close>: merge, where the root takes precedence, and write.\<close>

definition write_merged :: "'w kube_files \<Rightarrow> kube_config \<Rightarrow> kube_config \<Rightarrow> ('w, unit) cmd" where
  "write_merged kf root given =
     cbind (coutcome (MergeKubeConfigs kf [root, given])) (\<lambda>m.
       case m of
         Inl err \<Rightarrow> cfatal ''Failed to merge Kube Config files.''
       | Inr merged \<Rightarrow>
           cbind (cstep (WriteKubeConfig kf merged [])) (\<lambda>e.
             if e \<noteq> None then cfatal ''Failed to write merged Kube Config file.''
             else creturn ()))"

definition addCmd ::
  "'w cli \<Rightarrow> ('w, 'j, 'g) space_env \<Rightarrow> flags \<Rightarrow> string list \<Rightarrow> ('w, unit) cmd" where
  "addCmd cl se fs args = ExactArgs 1 args (
     let ord = c_order cl; kf = se_kube se in
     cbind (cread (LoadKubeConfig kf [])) (\<lambda>r1.
     case r1 of Inl err \<Rightarrow> cfatal ''Failed to load config from root Kube Config file.'' | Inr root \<Rightarrow>
     cbind (cread (LoadKubeConfig kf [args ! 0])) (\<lambda>r2.
     case r2 of Inl err \<Rightarrow> cfatal ''Failed to load config from the given Kube Config file.''
     | Inr given \<Rightarrow>
     cthen (cwhen (\<not> GetBool fs ''force'')
       (cthen (check_names ''Cluster'' (Clusters ord root) (Clusters ord given))
       (cthen (check_names ''Context'' (Contexts ord root) (Contexts ord given))
              (check_names ''User'' (Users ord root) (Users ord given)))))
     (write_merged kf root given))))"

definition deleteCmd ::
  "'w cli \<Rightarrow> ('w, 'j, 'g) space_env \<Rightarrow> string list \<Rightarrow> ('w, unit) cmd" where
  "deleteCmd cl se args = ExactArgs 1 args (
     let kf = se_kube se in
     cbind (cread (LoadKubeConfig kf [])) (\<lambda>r.
     case r of Inl err \<Rightarrow> cfatal ''Failed to load config from root Kube Config file.'' | Inr root \<Rightarrow>
     cbind (clift (Contexts (c_order cl) root)) (\<lambda>names.
     if \<not> contains names (args ! 0)
     then cfatal (''Space '' @ args ! 0 @ '' does not exist in the root.'')
     else (case DeleteKubeConfig root (args ! 0) of
       (root', Some err) \<Rightarrow> cfatal (''Failed to delete space '' @ args ! 0 @ '' from the root.'')
     | (root', None) \<Rightarrow>
         cbind (cstep (WriteKubeConfig kf root' [])) (\<lambda>e.
           if e \<noteq> None then cfatal ''Failed to write merged Kube Config file.''
           else creturn ())))))"

definition space_aliasCmd :: "'w cli \<Rightarrow> string list \<Rightarrow> ('w, unit) cmd" where
  "space_aliasCmd cl args = ExactArgs 2 args (
     run_make cl [(''OLD_NAME'', args ! 0), (''NAME'', args ! 1)] ''rename-space'' True False)"

definition gcCmd :: "'w cli \<Rightarrow> string list \<Rightarrow> ('w, unit) cmd" where
  "gcCmd cl args = ExactArgs 0 args (run_make cl [] ''gc'' True False)"

text \<open>The flags registered in \<open>init\<close>, with their defaults; \<open>quiet\<close> comes from the root command.\<close>

definition space_start_flags :: flags where
  "space_start_flags = [(''registry-file'', FStr ''cr.yaml''), (''secrets-file'', FStr []), (''quiet'', FBool False)]"

definition mount_flags :: flags where
  "mount_flags = [(''delete'', FBool False), (''yield'', FBool False), (''activate'', FBool False),
     (''mode'', FStr DefaultMountMode), (''num-retry'', FInt 3), (''quiet'', FBool False)]"

definition pipe_flags :: flags where
  "pipe_flags = [(''delete'', FBool False), (''quiet'', FBool False)]"

definition add_flags :: flags where
  "add_flags = [(''force'', FBool False), (''quiet'', FBool False)]"

definition space_list_flags :: flags where
  "space_list_flags = [(''current'', FBool False), (''quiet'', FBool False)]"

section \<open>The lake\<close>

definition lake_startCmd :: "'w cli \<Rightarrow> string list \<Rightarrow> ('w, unit) cmd" where
  "lake_startCmd cl args = ExactArgs 0 args (cbind (StartController cl ''lake'') (fatal_on []))"

definition lake_stopCmd :: "'w cli \<Rightarrow> string list \<Rightarrow> ('w, unit) cmd" where
  "lake_stopCmd cl args = ExactArgs 0 args (cbind (StopController cl ''lake'') (fatal_on []))"

definition lake_connectCmd :: "'w cli \<Rightarrow> string list \<Rightarrow> ('w, unit) cmd" where
  "lake_connectCmd cl args = run_make cl [] ''conn-lake'' True False"

definition loadCmd :: "'w cli \<Rightarrow> string list \<Rightarrow> ('w, unit) cmd" where
  "loadCmd cl args = ExactArgs 2 args (
     run_make cl [(''NAME'', args ! 0), (''FILE'', args ! 1)] ''load'' True False)"

definition isQuery :: "string \<Rightarrow> bool" where
  "isQuery s \<longleftrightarrow> length (split_on (CHR '' '') s) > 1"

text \<open>The text of a query on the lake; \<open>None\<close> is the error "missing query".\<close>

definition lake_query :: "string \<Rightarrow> string \<Rightarrow> string option" where
  "lake_query name query0 =
     (let inFlow = ''not __meta'';
          query = replace_all [CHR 0x22] [CHR 0x5C, CHR 0x22] query0
      in if name \<noteq> [] then
           Some (if query \<noteq> [] then ''from '' @ name @ '' | '' @ inFlow @ '' | '' @ query
                 else ''from '' @ name @ '' | '' @ inFlow)
         else if query \<noteq> [] then Some (query @ '' | '' @ inFlow)
         else None)"

definition zed_flags :: "flags \<Rightarrow> string" where
  "zed_flags fs =
     (if GetString fs ''format'' \<noteq> [] then ''-f '' @ GetString fs ''format'' @ '' '' else []) @
     (if GetBool fs ''Z'' then ''-Z  '' else [])"

definition Query :: "'w cli \<Rightarrow> string \<Rightarrow> string \<Rightarrow> flags \<Rightarrow> ('w, err option) cmd" where
  "Query cl name query fs =
     (case lake_query name query of
        None \<Rightarrow> creturn (Some (Err ''missing query''))
      | Some q \<Rightarrow>
          RunMake cl [(''QUERY'', q), (''ZEDFLAG'', zed_flags fs),
            (''FLAG'', if GetBool fs ''timed'' then ''TIMEFORMAT='' @ [CHR 0x27] @ ''%R s'' @ [CHR 0x27] @ ''; time'' else [])]
            ''query'' True False)"

definition lake_queryCmd ::
  "'w cli \<Rightarrow> ('w, 'j, 'g) space_env \<Rightarrow> flags \<Rightarrow> string list \<Rightarrow> ('w, unit) cmd" where
  "lake_queryCmd cl se fs args = MinimumNArgs 1 args (
     if GetBool fs ''remote'' then
       (let digi_path = args ! 0; query = opt_arg args 1; egress = opt_arg args 2 in
        cbind (config_or cl args 3 ''ANYSOURCE_ADDRESS'' anysource_msg) (\<lambda>anysource.
          sourcer_get se (''http://'' @ anysource @ '':30202/sourcer/'' @ digi_path @ ''/query'')
            [(''egress'', egress), (''query'', query)]))
     else
       (let (name, query) =
          (if length args > 1 then (args ! 0, args ! 1)
           else if isQuery (args ! 0) then ([], args ! 0)
           else (args ! 0, []))
        in cignore (Query cl name query fs)))"

definition lake_query_flags :: flags where
  "lake_query_flags = [(''format'', FStr []), (''Z'', FBool False), (''timed'', FBool False),
     (''remote'', FBool False), (''quiet'', FBool False)]"

section \<open>Adding a space\<close>

text \<open>What the lists of names hold: with two entries or more, the empty string too.\<close>

definition names_of :: "(string, 'v) gomap \<Rightarrow> string set" where
  "names_of m = (if length m \<ge> 2 then {[]} else {}) \<union> set (keys_of m)"

lemma contains_iff: "contains strs s \<longleftrightarrow> s \<in> set strs"
  by (induction strs) auto

lemma set_map_ids:
  assumes "range_order ord" and "m \<noteq> []"
  obtains names where "map_ids ord m = Val names" and "set names = names_of m"
proof -
  have "length m - 1 > 0 \<longleftrightarrow> length m \<ge> 2" by arith
  then have "set (replicate (length m - 1) [] @ ord (keys_of m)) = names_of m"
    unfolding names_of_def set_append range_order_set [OF assms(1)] by (auto simp del: set_map)
  with assms(2) that show thesis by (simp add: map_ids_def del: set_map)
qed

lemma cforeach_fatal:
  "cforeach xs (\<lambda>n. if P n then cfatal (msg n) else creturn ()) w =
     (w, [], case find P xs of None \<Rightarrow> Val () | Some n \<Rightarrow> Exit (msg n))"
  by (induction xs) (auto simp: cthen_def cbind_def creturn_def cfatal_def clift_def)

lemma check_names_verdict:
  assumes "range_order ord" and "m \<noteq> []" and "g \<noteq> []"
  shows "\<exists>msg. check_names what (map_ids ord m) (map_ids ord g) w =
    (w, [], if names_of m \<inter> names_of g = {} then Val () else Exit msg)"
proof -
  obtain ms gs where n: "map_ids ord m = Val ms" "set ms = names_of m"
      "map_ids ord g = Val gs" "set gs = names_of g"
    using set_map_ids [OF assms(1,2)] set_map_ids [OF assms(1,3)] by metis
  have "find (contains ms) gs = None \<longleftrightarrow> names_of m \<inter> names_of g = {}"
    unfolding find_None_iff contains_iff n(2) [symmetric] n(4) [symmetric] by auto
  with n show ?thesis
    by (cases "find (contains ms) gs") (auto simp: check_names_def cforeach_fatal)
qed

text \<open>A file system on which nothing fails.\<close>

definition kube_files_writable :: "'w kube_files \<Rightarrow> bool" where
  "kube_files_writable kf \<longleftrightarrow>
     (\<forall>w. \<exists>w' f. kf_temp kf w = (w', Some f)) \<and> (\<forall>c f w. \<exists>w'. kf_write kf c f w = (w', None))"

lemma write_one_temp:
  assumes "kube_files_ok kf" and "kube_files_writable kf"
  obtains w2 f where "write_temps kf (k # ks) files w = write_temps kf ks (files @ [f]) w2"
    and "f \<noteq> []" and "kf_load kf w f = Inl NotExist"
    and "\<And>g. kf_load kf w2 g = (if g = f then Inr k else kf_load kf w g)"
proof -
  obtain w1 f where t: "kf_temp kf w = (w1, Some f)"
    using assms(2) unfolding kube_files_writable_def by blast
  obtain w2 where wr: "kf_write kf k f w1 = (w2, None)"
    using assms(2) unfolding kube_files_writable_def by blast
  note fresh = kube_temp_fresh [OF assms(1) t]
  have "kf_load kf w2 g = (if g = f then Inr k else kf_load kf w g)" for g
    using kube_write_load [OF assms(1) wr, of g] fresh(3) [of g] by simp
  with that [of f w2] t wr fresh(1,2) show thesis by simp
qed

lemma merge_two_configs:
  assumes "kube_files_ok kf" and "kube_files_writable kf"
  obtains w' m f1 f2 where "MergeKubeConfigs kf [a, b] w = Val (w', Inr m)" and "merged_of kf [(f1, a), (f2, b)] m"
    and "kf_load kf w f1 = Inl NotExist" and "kf_load kf w f2 = Inl NotExist"
    and "\<And>g. kf_load kf w g \<noteq> Inl NotExist \<Longrightarrow> kf_load kf w' g = kf_load kf w g"
proof -
  obtain w1 f1 where 1: "write_temps kf [a, b] [[], []] w = write_temps kf [b] [[], [], f1] w1"
      "f1 \<noteq> []" "kf_load kf w f1 = Inl NotExist" "\<And>g. kf_load kf w1 g = (if g = f1 then Inr a else kf_load kf w g)"
    using write_one_temp [OF assms, of a "[b]" "[[], []]" w, unfolded append.simps] by blast
  obtain w2 f2 where 2: "write_temps kf [b] [[], [], f1] w1 = write_temps kf [] [[], [], f1, f2] w2"
      "f2 \<noteq> []" "kf_load kf w1 f2 = Inl NotExist" "\<And>g. kf_load kf w2 g = (if g = f2 then Inr b else kf_load kf w1 g)"
    using write_one_temp [OF assms, of b "[]" "[[], [], f1]" w1, unfolded append.simps] by blast
  have "f2 \<noteq> f1" using 1(4) 2(3) by force
  then have "map (kf_load kf w2) (filter (\<lambda>f. f \<noteq> []) [[], [], f1, f2]) = map Inr [a, b]"
    using 1 2 by simp
  then obtain m where "kf_merge kf w2 [[], [], f1, f2] = Inr m"
    "merged_of kf (zip (filter (\<lambda>f. f \<noteq> []) [[], [], f1, f2]) [a, b]) m"
    by (rule kube_merge [OF assms(1)])
  then have m: "kf_merge kf w2 [[], [], f1, f2] = Inr m" "merged_of kf [(f1, a), (f2, b)] m" using 1(2) 2(2) by simp_all
  then have "MergeKubeConfigs kf [a, b] w = Val (w2, Inr m)"
    using 1(1) 2(1) by (simp add: MergeKubeConfigs_def del: write_temps.simps(2))
  moreover have "kf_load kf w g \<noteq> Inl NotExist \<Longrightarrow> kf_load kf w2 g = kf_load kf w g" for g
    using 1(3,4) 2(3,4) by (metis)
  moreover have "kf_load kf w f2 = Inl NotExist" using 1(4) 2(3) \<open>f2 \<noteq> f1\<close> by simp
  ultimately show thesis using that m(2) 1(3) by blast
qed

definition no_clash :: "kube_config \<Rightarrow> kube_config \<Rightarrow> bool" where
  "no_clash root given \<longleftrightarrow>
     names_of (kc_Clusters root) \<inter> names_of (kc_Clusters given) = {} \<and>
     names_of (kc_Contexts root) \<inter> names_of (kc_Contexts given) = {} \<and>
     names_of (kc_AuthInfos root) \<inter> names_of (kc_AuthInfos given) = {}"

definition filled :: "kube_config \<Rightarrow> bool" where
  "filled c \<longleftrightarrow> kc_Clusters c \<noteq> [] \<and> kc_Contexts c \<noteq> [] \<and> kc_AuthInfos c \<noteq> []"

lemma three_checks:
  assumes "range_order ord" and "filled root" and "filled given"
  shows "\<exists>msg. cthen (check_names a (Clusters ord root) (Clusters ord given))
      (cthen (check_names b (Contexts ord root) (Contexts ord given))
             (check_names c (Users ord root) (Users ord given))) w =
    (w, [], if no_clash root given then Val () else Exit msg)"
proof -
  note f = assms(2,3) [unfolded filled_def]
  have "\<exists>msg. check_names a (Clusters ord root) (Clusters ord given) w =
      (w, [], if names_of (kc_Clusters root) \<inter> names_of (kc_Clusters given) = {} then Val () else Exit msg)"
    unfolding Clusters_def by (rule check_names_verdict) (use assms(1) f in simp_all)
  then obtain m1 where 1: "check_names a (Clusters ord root) (Clusters ord given) w =
      (w, [], if names_of (kc_Clusters root) \<inter> names_of (kc_Clusters given) = {} then Val () else Exit m1)" ..
  have "\<exists>msg. check_names b (Contexts ord root) (Contexts ord given) w =
      (w, [], if names_of (kc_Contexts root) \<inter> names_of (kc_Contexts given) = {} then Val () else Exit msg)"
    unfolding Contexts_def by (rule check_names_verdict) (use assms(1) f in simp_all)
  then obtain m2 where 2: "check_names b (Contexts ord root) (Contexts ord given) w =
      (w, [], if names_of (kc_Contexts root) \<inter> names_of (kc_Contexts given) = {} then Val () else Exit m2)" ..
  have "\<exists>msg. check_names c (Users ord root) (Users ord given) w =
      (w, [], if names_of (kc_AuthInfos root) \<inter> names_of (kc_AuthInfos given) = {} then Val () else Exit msg)"
    unfolding Users_def by (rule check_names_verdict) (use assms(1) f in simp_all)
  then obtain m3 where 3: "check_names c (Users ord root) (Users ord given) w =
      (w, [], if names_of (kc_AuthInfos root) \<inter> names_of (kc_AuthInfos given) = {} then Val () else Exit m3)" ..
  have seq: "\<exists>msg. cthen y1 (cthen y2 y3) w = (w, [], if p1 \<and> p2 \<and> p3 then Val () else Exit msg)"
    if "y1 w = (w, [], if p1 then Val () else Exit m1)" "y2 w = (w, [], if p2 then Val () else Exit m2)"
      "y3 w = (w, [], if p3 then Val () else Exit m3)" for y1 y2 y3 :: "('a, unit) cmd" and p1 p2 p3
    using that by (cases p1; cases p2; cases p3) (auto simp: cthen_def cbind_def)
  show ?thesis
    unfolding no_clash_def by (rule seq) (fact 1 2 3)+
qed

section \<open>Properties\<close>

text \<open>
  C30. Adding a space, on a machine where no file operation fails, from one configuration with clusters,
  contexts and users to another. It merges the given configuration into that of the user, whose entries
  win, and leaves every other file as it was. Relative paths in the merged clusters and users are resolved
  against the folder of two new temporary files, those of the user's own entries too. Without
  \<open>--force\<close> the merge happens exactly when no cluster,
  context or user has the same name on both sides, and when no two of these maps have two entries
  or more: the lists that are compared start with empty strings, so two configurations of several
  clusters always seem to clash. In that case nothing is changed.
\<close>

theorem space_add_verdict:
  assumes "kube_files_ok (se_kube se)" and "kube_files_writable (se_kube se)"
    and "range_order (c_order cl)"
    and "LoadKubeConfig (se_kube se) [] w = Inr root" and "filled root"
    and "LoadKubeConfig (se_kube se) [f] w = Inr given" and "filled given"
    and "addCmd cl se fs [f] w = (w', es, r)"
  shows "es = [] \<and>
    (if GetBool fs ''force'' \<or> no_clash root given then
       r = Val () \<and>
       (\<exists>m f1 f2. kf_load (se_kube se) w' (kf_home (se_kube se)) = Inr m \<and>
          merged_of (se_kube se) [(f1, root), (f2, given)] m \<and>
          kf_load (se_kube se) w f1 = Inl NotExist \<and> kf_load (se_kube se) w f2 = Inl NotExist) \<and>
       (\<forall>g. g \<noteq> kf_home (se_kube se) \<longrightarrow> kf_load (se_kube se) w g \<noteq> Inl NotExist \<longrightarrow>
          kf_load (se_kube se) w' g = kf_load (se_kube se) w g)
     else w' = w \<and> (\<exists>msg. r = Exit msg))"
proof -
  let ?kf = "se_kube se" and ?ord = "c_order cl"
  obtain w1 m f1 f2 where mg: "MergeKubeConfigs ?kf [root, given] w = Val (w1, Inr m)" "merged_of ?kf [(f1, root), (f2, given)] m"
      and temps: "kf_load ?kf w f1 = Inl NotExist" "kf_load ?kf w f2 = Inl NotExist"
      and keep: "\<And>g. kf_load ?kf w g \<noteq> Inl NotExist \<Longrightarrow> kf_load ?kf w1 g = kf_load ?kf w g"
    using merge_two_configs [OF assms(1,2), of root given w] by blast
  obtain w2 where wr: "kf_write ?kf m (kf_home ?kf) w1 = (w2, None)"
    using assms(2) unfolding kube_files_writable_def by blast
  have rest: "write_merged ?kf root given w = (w2, [], Val ())"
    using mg wr by (simp add: write_merged_def cbind_def coutcome_def cstep_def creturn_def WriteKubeConfig_def KubeConfigFile_def)
  obtain msg where chk: "cthen (check_names ''Cluster'' (Clusters ?ord root) (Clusters ?ord given))
      (cthen (check_names ''Context'' (Contexts ?ord root) (Contexts ?ord given))
             (check_names ''User'' (Users ?ord root) (Users ?ord given))) w =
    (w, [], if no_clash root given then Val () else Exit msg)"
    by (rule exE [OF three_checks [OF assms(3,5,7)]])
  have run: "(w', es, r) = (if GetBool fs ''force'' \<or> no_clash root given
      then (w2, [], Val ()) else (w, [], Exit msg))"
  proof (cases "GetBool fs ''force''")
    case True
    with assms(8) rest show ?thesis
      by (simp add: addCmd_def ExactArgs_def Let_def assms(4,6))
  next
    case False
    then have "addCmd cl se fs [f] w =
      cthen (cthen (check_names ''Cluster'' (Clusters ?ord root) (Clusters ?ord given))
        (cthen (check_names ''Context'' (Contexts ?ord root) (Contexts ?ord given))
               (check_names ''User'' (Users ?ord root) (Users ?ord given))))
        (write_merged ?kf root given) w"
      by (simp add: addCmd_def ExactArgs_def Let_def assms(4,6))
    with assms(8) have "(w', es, r) = (case (if no_clash root given then Val () else Exit msg) of
        Val u \<Rightarrow> write_merged ?kf root given w | Exit s \<Rightarrow> (w, [], Exit s) | _ \<Rightarrow> (w, [], Diverge))"
      unfolding cthen_def [of _ "write_merged _ _ _"] cbind_def chk by (auto split: if_splits)
    with rest False show ?thesis by auto
  qed
  note w2 = kube_write_load [OF assms(1) wr]
  then have others: "g \<noteq> kf_home ?kf \<Longrightarrow> kf_load ?kf w g \<noteq> Inl NotExist \<Longrightarrow> kf_load ?kf w2 g = kf_load ?kf w g" for g
    using keep by simp
  have merged: "\<exists>m f1 f2. kf_load ?kf w2 (kf_home ?kf) = Inr m \<and> merged_of ?kf [(f1, root), (f2, given)] m \<and>
      kf_load ?kf w f1 = Inl NotExist \<and> kf_load ?kf w f2 = Inl NotExist"
    using mg(2) temps w2 by (intro exI [of _ m] exI [of _ f1] exI [of _ f2]) simp
  show ?thesis
  proof (cases "GetBool fs ''force'' \<or> no_clash root given")
    case True
    with run have "w' = w2" "es = []" "r = Val ()" by simp_all
    with True merged others show ?thesis by simp
  next
    case False
    with run show ?thesis by simp
  qed
qed

text \<open>Files and nothing else: a world for the witnesses.\<close>

definition no_viper :: "'w viper" where
  "no_viper = \<lparr>v_aliases = (\<lambda>w. Inl (Err ''no store'')), v_configs = (\<lambda>w. Inl (Err ''no store'')),
     v_set_aliases = (\<lambda>m w. w), v_set_configs = (\<lambda>m w. w), v_write = (\<lambda>w. (w, None))\<rparr>"

definition file_env :: "((string, kube_config) gomap, unit, unit) space_env" where
  "file_env = \<lparr>se_kube = mem_files ''home'', se_nns = nns_plain,
     se_json = \<lparr>sj_SetRaw = (\<lambda>j p s. Inr j), sj_Delete = (\<lambda>j p. Inr j),
       sj_decode = (\<lambda>j. Inr []), sj_nested_map = (\<lambda>ob p. Inr None)\<rparr>,
     se_api = \<lparr>api_groups = (\<lambda>w. Inr ()), api_mapping = (\<lambda>g gk v. Inr (fst gk, v, snd gk)),
       api_list = (\<lambda>w r ns. Inr []), api_get = (\<lambda>w r ns n. Inr []), api_update = (\<lambda>w r ns ob. (w, None)),
       api_marshal = (\<lambda>ob. Inr ()), api_unmarshal = (\<lambda>j. Inr []), api_gvk = (\<lambda>ob. ([], [], [])),
       api_namespace = (\<lambda>ob. [])\<rparr>,
     se_api_err = None,
     se_sync = \<lparr>sa_create = (\<lambda>s w. (w, None)), sa_delete = (\<lambda>s w. (w, None)), sa_find = (\<lambda>w n. None)\<rparr>,
     se_sync_err = None, se_client_err = None, se_get_proxy = (\<lambda>w. Inr []),
     se_update_proxy = (\<lambda>ob w. (w, None)), se_set_nested = (\<lambda>ob v p. ob),
     se_url = (\<lambda>b q. Some (b @ ''?'' @ q)), se_http = (\<lambda>u w. (w, Inr (200, [], True)))\<rparr>"

definition config_named :: "string list \<Rightarrow> kube_config" where
  "config_named ns =
     \<lparr>kc_Clusters = map (\<lambda>n. (n, \<lparr>cl_Server = n, cl_rest = []\<rparr>)) ns, kc_AuthInfos = map (\<lambda>n. (n, [])) ns,
      kc_Contexts = map (\<lambda>n. (n, \<lparr>cx_Cluster = n, cx_rest = []\<rparr>)) ns, kc_CurrentContext = hd ns\<rparr>"

lemma mem_files_writable [simp]: "kube_files_writable (mem_files home)"
  by (simp add: kube_files_writable_def mem_files_def Let_def)

lemma space_add_verdict_witness:
  "let w = [(''home'', config_named [''a'', ''b'']), (''new'', config_named [''c'', ''d''])];
       (w', es, r) = addCmd (sample_cli no_viper) file_env add_flags [''new''] w
   in w' = w \<and> es = [] \<and> (\<exists>msg. r = Exit msg)"
proof -
  let ?w = "[(''home'', config_named [''a'', ''b'']), (''new'', config_named [''c'', ''d''])]"
  obtain w' es r where run: "addCmd (sample_cli no_viper) file_env add_flags [''new''] ?w = (w', es, r)"
    by (metis prod_cases3)
  have env: "se_kube file_env = mem_files ''home''" "c_order (sample_cli no_viper) = rev"
    by (simp_all add: file_env_def sample_cli_def)
  have clash: "\<not> no_clash (config_named [''a'', ''b'']) (config_named [''c'', ''d''])"
    by (simp add: no_clash_def names_of_def config_named_def)
  have filled: "filled (config_named [''a'', ''b''])" "filled (config_named [''c'', ''d''])"
    by (simp_all add: filled_def config_named_def)
  have load: "LoadKubeConfig (se_kube file_env) [] ?w = Inr (config_named [''a'', ''b''])"
    "LoadKubeConfig (se_kube file_env) [''new''] ?w = Inr (config_named [''c'', ''d''])"
    by (simp_all add: LoadKubeConfig_def KubeConfigFile_def mem_files_def env)
  have "w' = ?w \<and> es = [] \<and> (\<exists>msg. r = Exit msg)"
    using space_add_verdict [OF _ _ _ load(1) filled(1) load(2) filled(2) run] clash
    by (simp add: env add_flags_def GetBool_def)
  with run show ?thesis by simp
qed

text \<open>
  A certificate that the user's configuration names by a relative path is looked for in the folder of
  temporary files afterwards, also when the added configuration has nothing to do with it.
\<close>

definition certificate_in :: "string \<Rightarrow> kube_config" where
  "certificate_in p = (config_named [''a''])\<lparr>kc_Clusters := [(''a'', \<lparr>cl_Server = ''a'', cl_rest = p\<rparr>)]\<rparr>"

theorem space_add_moves_relative_paths:
  "case addCmd (sample_cli no_viper) file_env add_flags [''new'']
      [(''home'', certificate_in ''ca.crt''), (''new'', config_named [''c''])] of
     (w, es, r) \<Rightarrow> r = Val () \<and>
       map_option (\<lambda>c. map_option cl_rest (map_of (kc_Clusters c) ''a'')) (map_of w ''home'') = Some (Some ''/tmp/ca.crt'')"
  by code_simp

text \<open>On a machine without a configuration the command panics on the list of no clusters.\<close>

lemma space_add_empty_root_panics:
  assumes "LoadKubeConfig (se_kube se) [] w = Inr NewConfig"
    and "LoadKubeConfig (se_kube se) [f] w = Inr given" and "\<not> GetBool fs ''force''"
  shows "addCmd cl se fs [f] w = (w, [], Panic ''makeslice: len out of range'')"
proof -
  have "check_names ''Cluster'' (Clusters ord NewConfig) g w = (w, [], Panic ''makeslice: len out of range'')" for ord g
    by (simp add: check_names_def Clusters_def map_ids_def NewConfig_def)
  with assms show ?thesis
    by (simp add: addCmd_def ExactArgs_def Let_def) (simp add: cthen_def cbind_def)
qed

end
