(* ===== verification/Cli_Net.thy ===== *)
theory Cli_Net
  imports Cli_Space
begin

text \<open>
  The small commands of the command line: \<open>net ping\<close> (\<open>cmd/digi/net/command.go\<close>), \<open>sidecar view\<close>
  (\<open>cmd/digi/sidecar/command.go\<close>), \<open>box attach\<close> and \<open>box replay\<close> (\<open>cmd/digi/box/command.go\<close>). The
  program \<open>hping3\<close> and the calls of client-go are parameters.
\<close>

section \<open>Ping\<close>

record 'w net_env =
  nt_run :: "string list \<Rightarrow> 'w \<Rightarrow> 'w \<times> err option"
    \<comment> \<open>a local run of a command on the terminal\<close>
  nt_print :: "err \<Rightarrow> string"
    \<comment> \<open>the predeclared \<open>print\<close> of an interface value\<close>
  nt_build_config :: "string \<Rightarrow> err option"
    \<comment> \<open>\<open>clientcmd.BuildConfigFromFlags\<close>\<close>
  nt_clientset :: "err option"
  nt_pods :: "string \<Rightarrow> string \<Rightarrow> string \<Rightarrow> 'w \<Rightarrow> err + string list"
    \<comment> \<open>the names of the pods of a namespace with a label and a field selector\<close>
  nt_executor :: "err option"
    \<comment> \<open>\<open>remotecommand.NewSPDYExecutor\<close>\<close>
  nt_stream :: "string \<Rightarrow> string \<Rightarrow> string \<Rightarrow> string list \<Rightarrow> 'w \<Rightarrow> 'w \<times> err option"
    \<comment> \<open>the command in a container of a pod of a namespace\<close>

definition ping_flags :: flags where
  "ping_flags = [(''duration'', FInt 10)]"

definition ping_command :: "string \<Rightarrow> int \<Rightarrow> string list" where
  "ping_command host duration = [''hping3'', ''-S'', host, ''-p'', ''8534'', ''-c'', itoa duration]"

definition panic_on :: "err option \<Rightarrow> ('w, unit) cmd" where
  "panic_on e = (case e of None \<Rightarrow> creturn () | Some x \<Rightarrow> clift (Panic (err_text x)))"

definition PingCmd :: "'w kube_files \<Rightarrow> 'w net_env \<Rightarrow> flags \<Rightarrow> string list \<Rightarrow> ('w, unit) cmd" where
  "PingCmd kf nt fs args = MinimumNArgs 1 args (
     let target = args ! 0; duration = GetInt fs ''duration'' in
     if length args = 1 then
       cbind (cstep (nt_run nt (ping_command ''localhost'' duration))) (\<lambda>e.
         case e of None \<Rightarrow> creturn () | Some x \<Rightarrow> cemit (EvLog (nt_print nt x)))
     else
       let source = args ! 1 in
       cthen (panic_on (nt_build_config nt (KubeConfigFile kf)))
       (cthen (panic_on (nt_clientset nt))
       (cbind (cread (nt_pods nt ''default'' (''name='' @ source) ''status.phase=Running'')) (\<lambda>r.
          case r of
            Inl e \<Rightarrow> clift (Panic (err_text e))
          | Inr [] \<Rightarrow> clift (Panic (''source pod not found: '' @ source))
          | Inr (pod # _) \<Rightarrow>
              cthen (panic_on (nt_executor nt))
              (cbind (cstep (nt_stream nt ''default'' pod ''probe'' (ping_command target duration))) panic_on)))))"

text \<open>With one argument the local machine is pinged, whatever the target is.\<close>

lemma ping_ignores_target:
  "PingCmd kf nt fs [t1] = PingCmd kf nt fs [t2]"
  by (simp add: PingCmd_def MinimumNArgs_def Let_def)

section \<open>Sidecars and scenes\<close>

definition viewCmd :: "'w cli \<Rightarrow> string list \<Rightarrow> ('w, unit) cmd" where
  "viewCmd cl args = ExactArgs 1 args (run_make cl [(''NAME'', args ! 0)] ''view'' True False)"

definition sidecar_RootCmd :: "string list \<Rightarrow> ('w, unit) cmd" where
  "sidecar_RootCmd args = MinimumNArgs 1 args (creturn ())"

text \<open>\<open>box attach\<close> hands its own flags to the body of \<open>space mount\<close>, and it has registered none.\<close>

definition box_flags :: flags where
  "box_flags = []"

definition box_AttachCmd ::
  "'w cli \<Rightarrow> ('w, 'j, 'g) space_env \<Rightarrow> flags \<Rightarrow> string list \<Rightarrow> ('w, unit) cmd" where
  "box_AttachCmd cl se fs args = MinimumNArgs 2 args (MountCmd cl se fs args)"

definition box_ReplayCmd :: "string list \<Rightarrow> ('w, unit) cmd" where
  "box_ReplayCmd args = ExactArgs 1 args (creturn ())"

text \<open>So a scene is attached with the empty mode and without a retry.\<close>

lemma attach_has_no_mode:
  "GetString box_flags ''mode'' = []" "GetInt box_flags ''num-retry'' = 0" "mount_op box_flags = MOUNT"
  by (simp_all add: box_flags_def GetString_def GetInt_def mount_op_def GetBool_def)

end
