(* ===== verification/Cli_Digi.thy ===== *)
theory Cli_Digi
  imports Cli_Space
begin

text \<open>
  The commands on digis, \<open>cmd/digi/digi/digi.go\<close>, with the flags \<open>command.go\<close> registers for them and
  \<open>api/repo/remote.go\<close>. The commands \<open>run\<close> and \<open>stop\<close>, whose goroutines share state, are in the
  theory \<open>Cli_Run\<close>. What the commands call beside \<open>make\<close> and the local store is a field of
  \<open>digi_env\<close>.
\<close>

section \<open>Flags\<close>

definition quiet_flag :: "string \<times> flag_value" where
  "quiet_flag = (''quiet'', FBool False)"

definition config_flags :: flags where
  "config_flags = [quiet_flag, (''repo'', FStr []), (''driver-repo'', FStr []),
     (''anysource-address'', FStr []), (''proxy-address'', FStr []), (''clear'', FBool False)]"

definition init_flags :: flags where
  "init_flags = [quiet_flag, (''group'', FStr []), (''version'', FStr []), (''directory'', FStr [])]"

definition build_flags :: flags where
  "build_flags = [quiet_flag, (''no-cache'', FBool False), (''image'', FStr []), (''digilite'', FStr []),
     (''all-platforms'', FBool False), (''platform'', FStr []), (''tag'', FStr ''latest'')]"

definition gen_flags :: flags where
  "gen_flags = [quiet_flag, (''tag'', FStr ''latest''), (''visual'', FBool False)]"

definition run_flags :: flags where
  "run_flags = [quiet_flag, (''childSuffix'', FStr []), (''no-alias'', FBool False), (''no-pool'', FBool False),
     (''show-kopf-log'', FBool False), (''enable-visual'', FBool False), (''log-level'', FInt (-1)),
     (''deploy-file'', FStr ''cr.yaml''), (''persistent-volume'', FBool False), (''pv-size'', FStr ''10Mi''),
     (''pv-path'', FStr ''/mnt''), (''sidecar'', FStrs []), (''secrets-file'', FStr [])]"

definition stop_flags :: flags where
  "stop_flags = [quiet_flag, (''kind'', FStr [])]"

definition test_flags :: flags where
  "test_flags = [quiet_flag, (''clean'', FBool False), (''mounter'', FBool False),
     (''strict-mounter'', FBool False), (''no-alias'', FBool False)]"

definition check_flags :: flags where
  "check_flags = [quiet_flag, (''verbosity'', FInt8 0)]"

definition watch_flags :: flags where
  "watch_flags = [quiet_flag, (''interval'', FFloat64 ''1.000000''), (''verbosity'', FInt8 0)]"

section \<open>The surroundings\<close>

datatype intstr = IntPort "32 word" | StrPort string

record nodeport_service =
  np_Name :: string
  np_Selector :: "(string \<times> string) list"
  np_PortName :: string
  np_Port :: "32 word"
  np_TargetPort :: intstr
  np_NodePort :: "32 word"

record ('w, 'j, 'g) digi_env =
  de_api :: "('w, 'j, 'g) api"
  de_api_err :: "err option"
  de_text_len :: "'j \<Rightarrow> nat"
    \<comment> \<open>the length of a JSON text\<close>
  de_client_err :: "err option"
    \<comment> \<open>the error of \<open>k8s.NewClientSet\<close>\<close>
  de_ticks :: nat
    \<comment> \<open>how often \<open>wait.Poll\<close> asks within its 15 seconds\<close>
  de_pods :: "string \<Rightarrow> 'w \<Rightarrow> 'w \<times> (err + string list)"
    \<comment> \<open>the phases of the pods with a label, at the next tick\<close>
  de_service :: "string \<Rightarrow> 'w \<Rightarrow> err + (int \<times> intstr) list"
    \<comment> \<open>the ports and target ports of a service\<close>
  de_create_service :: "nodeport_service \<Rightarrow> 'w \<Rightarrow> 'w \<times> err option"
  de_temp :: "string \<Rightarrow> 'w \<Rightarrow> 'w \<times> (err + string)"
    \<comment> \<open>\<open>os.CreateTemp\<close>\<close>
  de_close :: "string \<Rightarrow> 'w \<Rightarrow> 'w \<times> err option"
  de_remove :: "string \<Rightarrow> 'w \<Rightarrow> 'w \<times> err option"
  de_port :: "'w \<Rightarrow> err + int"
    \<comment> \<open>a free port, as the system gives it\<close>
  de_fetch :: "string \<Rightarrow> string \<Rightarrow> 'w \<Rightarrow> 'w \<times> err option"
    \<comment> \<open>\<open>getter.GetAny\<close>\<close>
  de_plural :: "string \<Rightarrow> string"
    \<comment> \<open>\<open>inflection.Plural\<close>\<close>
  de_version :: string

section \<open>Configuration and profiles\<close>

definition set_config :: "'w cli \<Rightarrow> flags \<Rightarrow> string \<Rightarrow> string \<Rightarrow> string \<Rightarrow> ('w, unit) cmd" where
  "set_config cl fs flag key what =
     (let x = GetString fs flag in
      cwhen (x \<noteq> [])
        (cbind (cstep (Config_Set (c_viper cl) key x)) (\<lambda>e.
           case e of None \<Rightarrow> creturn () | Some err \<Rightarrow> cprint (''unable to set '' @ what @ '': '' @ err_text err))))"

text \<open>
  The variables \<open>repo\<close> and \<open>driverRepo\<close> of the last condition are not those of the \<open>if\<close> statements
  above it, which declare their own: they are always empty.
\<close>

definition configCmd :: "'w cli \<Rightarrow> flags \<Rightarrow> string list \<Rightarrow> ('w, unit) cmd" where
  "configCmd cl fs args = ExactArgs 0 args (
     let repo = []; driverRepo = [] in
     cthen (cwhen (GetBool fs ''clear'') (cignore (cstep (ClearConfig (c_viper cl)))))
    (cthen (set_config cl fs ''repo'' ''REPO'' ''digi repo'')
    (cthen (set_config cl fs ''driver-repo'' ''DRIVER_REPO'' ''driver repo'')
    (cthen (set_config cl fs ''anysource-address'' ''ANYSOURCE_ADDRESS'' ''anysource address'')
    (cthen (set_config cl fs ''proxy-address'' ''PROXY_ADDRESS'' ''proxy address'')
    (cwhen (repo = [] \<and> driverRepo = ([] :: string))
       (cbind (cread (ShowAll (c_order cl) (c_viper cl))) (\<lambda>(lines, e). cforeach lines cprintln))))))))"

definition initCmd :: "'w cli \<Rightarrow> flags \<Rightarrow> string list \<Rightarrow> ('w, unit) cmd" where
  "initCmd cl fs args = ExactArgs 1 args (
     let q = GetBool fs ''quiet''; kind = args ! 0;
         g = GetString fs ''group''; v = GetString fs ''version''; d = GetString fs ''directory'';
         params = [(''KIND'', title kind),
           (''GROUP'', if g \<noteq> [] then g else ''digi.dev''),
           (''VERSION'', if v \<noteq> [] then v else ''v1''),
           (''PROFILE'', if d \<noteq> [] then d else kind)]
     in cthen (run_make cl params ''init'' True q) (cwhen (\<not> q) (cprintln kind)))"

definition get_config :: "'w cli \<Rightarrow> string \<Rightarrow> 'w \<Rightarrow> string" where
  "get_config cl key w = (case Config_Get (c_viper cl) w key of Inl e \<Rightarrow> [] | Inr x \<Rightarrow> x)"

text \<open>
  The map with the visual flag is shadowed by the map made in the loop, which is the one that is
  passed on.
\<close>

definition genCmd :: "'w cli \<Rightarrow> flags \<Rightarrow> string list \<Rightarrow> ('w, unit) cmd" where
  "genCmd cl fs args = MinimumNArgs 1 args (
     let q = GetBool fs ''quiet''; tag = GetString fs ''tag'';
         params = (if GetBool fs ''visual'' then [(''GENFLAG'', ''VISUAL=true'')] else [])
     in cbind (cread (get_config cl ''DRIVER_REPO'')) (\<lambda>driverRepo.
       cforeach args (\<lambda>profile0.
         let profile = trim_space profile0;
             params = [(''PROFILE'', profile), (''DRIVER_TAG'', tag)] @
               (if driverRepo \<noteq> [] then [(''DRIVER_REPO'', driverRepo)] else [])
         in cthen (run_make cl params ''gen'' True q) (cwhen (\<not> q) (cprintln profile)))))"

section \<open>Building kinds\<close>

definition Platforms :: "string list" where
  "Platforms = [''linux/amd64'', ''linux/arm64'', ''linux/x86_64'']"

text \<open>The dockerfile of a build: the value of \<open>DOCKERFILE\<close>, after the checks on the files.\<close>

fun first_file :: "(string \<Rightarrow> stat) \<Rightarrow> string list \<Rightarrow> string option" where
  "first_file st [] = None"
| "first_file st (p # ps) = (if st p = StatFile then Some p else first_file st ps)"

definition dockerfile ::
  "'w cli \<Rightarrow> string \<Rightarrow> string \<Rightarrow> string \<Rightarrow> ('w, string) cmd" where
  "dockerfile cl kindName imageFile digiliteFile =
     (if digiliteFile \<noteq> [] then
        (let digilitePath = path_join [Getenv cl ''GOPATH'', ''src/digi.dev/digilite'', digiliteFile, ''Dockerfile''];
             missing = cfatal (''error building '' @ kindName @ '': Digilite path of '' @ [CHR 0x22] @
               digilitePath @ [CHR 0x22] @ '' does not exist'')
         in cthen (cwhen (imageFile \<noteq> [])
              (cemit (EvLog (''WARNING: Digilite file is declared, '' @ [CHR 0x22] @ imageFile @ [CHR 0x22] @
                 '' will be overwritten with '' @ [CHR 0x22] @ digiliteFile @ [CHR 0x22]))))
            (cbind (cread (\<lambda>w. c_stat cl w digilitePath)) (\<lambda>st.
              case st of
                StatMissing \<Rightarrow> missing
              | StatError e \<Rightarrow> clift (Panic nil_deref)
              | StatDir \<Rightarrow> missing
              | StatFile \<Rightarrow> creturn digilitePath)))
      else if imageFile \<noteq> [] then
        (case c_getwd cl of
           Inl err \<Rightarrow> cfatal (''error building '' @ kindName @ '': '' @ err_text err)
         | Inr workDir \<Rightarrow>
             cbind (cread (\<lambda>w. first_file (c_stat cl w)
               [path_join [workDir, imageFile, ''Dockerfile''], path_join [workDir, imageFile], imageFile])) (\<lambda>found.
               case found of
                 None \<Rightarrow> cfatal (''error building '' @ kindName @ '': Image path does not exist'')
               | Some p \<Rightarrow> creturn p))
      else creturn imageFile)"

text \<open>\<open>linux/amd64\<close> gives \<open>amd64\<close>, and \<open>linux/arm/v7\<close> gives \<open>arm-v7\<close>.\<close>

definition arch_of :: "string \<Rightarrow> string" where
  "arch_of platform =
     replace_all ''/'' ''-'' (drop (nat (index_byte platform (CHR ''/'') + 1)) platform)"

text \<open>The loop over the platforms; the map \<open>params\<close> is the same in all its rounds.\<close>

fun build_platforms ::
  "'w cli \<Rightarrow> bool \<Rightarrow> bool \<Rightarrow> string \<Rightarrow> string list \<Rightarrow> (string, string) gomap \<Rightarrow> ('w, unit) cmd" where
  "build_platforms cl q noCache kindName [] params = creturn ()"
| "build_platforms cl q noCache kindName (platform # ps) params =
     (let buildFlag = (if q then '' -q'' else []) @ (if noCache then '' --no-cache'' else []) @
            (if platform \<noteq> [] then '' --platform '' @ platform else []);
          arch = (if platform \<noteq> [] then arch_of platform else []);
          params1 = AList.update ''PUSHFLAG'' (if q then '' -q'' else [])
            (AList.update ''BUILDFLAG'' buildFlag params);
          params2 = (if arch \<noteq> [] then AList.update ''ARCH'' arch params1 else params1)
      in cbind (RunMake cl params2 ''build'' True q) (\<lambda>e.
           case e of
             None \<Rightarrow> cthen (cprintln kindName) (build_platforms cl q noCache kindName ps params2)
           | Some err \<Rightarrow> cfatal (''error building '' @ kindName @ '': '' @ err_text err)))"

definition buildCmd :: "'w cli \<Rightarrow> flags \<Rightarrow> string list \<Rightarrow> ('w, unit) cmd" where
  "buildCmd cl fs args = MinimumNArgs 1 args (
     let q = GetBool fs ''quiet''; noCache = GetBool fs ''no-cache''; tag = GetString fs ''tag'';
         imageFile = GetString fs ''image''; digiliteFile = GetString fs ''digilite'';
         platforms = (if GetBool fs ''all-platforms'' then Platforms else [GetString fs ''platform''])
     in cbind (cread (get_config cl ''DRIVER_REPO'')) (\<lambda>driverRepo.
       cforeach args (\<lambda>profile0.
         let profile = trim_space profile0 in
         cbind (cread (GetKindFromProfile cl profile)) (\<lambda>r.
         case r of
           Inl err \<Rightarrow> cfatal (''unable to find kind '' @ profile)
         | Inr kind \<Rightarrow>
             cbind (dockerfile cl (k_Name kind) imageFile digiliteFile) (\<lambda>df.
             let params = [(''GROUP'', k_Group kind), (''VERSION'', k_Version kind), (''KIND'', k_Name kind),
                   (''PROFILE'', profile), (''DRIVER_TAG'', tag), (''DOCKERFILE'', df)] @
                   (if driverRepo \<noteq> [] then [(''DRIVER_REPO'', driverRepo)] else [])
             in cthen (run_make cl params ''clear-manifest'' True q)
                  (build_platforms cl q noCache (k_Name kind) (c_order cl platforms) params))))))"

definition kindCmd :: "'w cli \<Rightarrow> flags \<Rightarrow> string list \<Rightarrow> ('w, unit) cmd" where
  "kindCmd cl fs args = ExactArgs 0 args (
     cthen (cwhen (\<not> GetBool fs ''quiet'') (cprintln ''KIND''))
       (run_make cl [] (if GetBool fs ''local'' then ''profile-local'' else ''profile'') True False))"

section \<open>Pulling and pushing kinds\<close>

text \<open>\<open>repo.Pull\<close>: where a kind is fetched from, and the panics.\<close>

definition pull_url :: "(string \<Rightarrow> string) \<Rightarrow> kind \<Rightarrow> string option" where
  "pull_url plural kind =
     (case split_on (CHR ''.'') (k_Group kind) of
        [_, _] \<Rightarrow> Some (''git::https://'' @ k_Group kind @ ''/'' @ k_Name kind)
      | [a, b, c] \<Rightarrow> Some (''git::https://'' @ b @ ''.'' @ c @ ''/'' @ plural a @ ''//'' @ k_Name kind)
      | _ \<Rightarrow> None)"

definition Pull :: "('w, 'j, 'g) digi_env \<Rightarrow> kind \<Rightarrow> ('w, err option) cmd" where
  "Pull de kind =
     (case pull_url (de_plural de) kind of
        None \<Rightarrow> clift (Panic ''unimplemented'')
      | Some urlStr \<Rightarrow>
          cbind (cstep (de_fetch de (k_Name kind) urlStr)) (\<lambda>e.
            case e of Some err \<Rightarrow> clift (Panic (err_text err)) | None \<Rightarrow> creturn None))"

text \<open>One goroutine of \<open>pull\<close>; a kind that does not parse is nil, and setting its group a panic.\<close>

definition pull_one ::
  "'w cli \<Rightarrow> ('w, 'j, 'g) digi_env \<Rightarrow> flags \<Rightarrow> string \<Rightarrow> ('w, unit) cmd" where
  "pull_one cl de fs name =
     (let q = GetBool fs ''quiet''; grp = GetString fs ''group'' in
      if GetBool fs ''local'' then
        cbind (RunMake cl [(''PROFILE_NAME'', name)] ''pull'' False q) (\<lambda>e.
          case e of
            Some err \<Rightarrow> cfatal (''unable to pull '' @ name @ '': '' @ err_text err)
          | None \<Rightarrow> cwhen (\<not> q) (cemit (EvLog name)))
      else
        (case KindFromString name of
           Inl err \<Rightarrow> if grp \<noteq> [] then clift (Panic nil_deref)
                       else cfatal (''unable to parse '' @ name @ '' to kind'')
         | Inr kind0 \<Rightarrow>
             (let kind = (if grp \<noteq> [] then kind0\<lparr>k_Group := grp\<rparr> else kind0) in
              cbind (Pull de kind) (\<lambda>e.
                case e of
                  Some err \<Rightarrow> cfatal (''unable to pull '' @ name @ '': '' @ err_text err)
                | None \<Rightarrow> cprintln name))))"

text \<open>
  The goroutines of \<open>pull\<close> and \<open>rmk\<close> share no variable; \<open>sched\<close> is the order in which they run.
\<close>

definition pullCmd ::
  "order \<Rightarrow> 'w cli \<Rightarrow> ('w, 'j, 'g) digi_env \<Rightarrow> flags \<Rightarrow> string list \<Rightarrow> ('w, unit) cmd" where
  "pullCmd sched cl de fs args = MinimumNArgs 1 args (cforeach (sched args) (pull_one cl de fs))"

definition pushCmd :: "'w cli \<Rightarrow> flags \<Rightarrow> string list \<Rightarrow> ('w, unit) cmd" where
  "pushCmd cl fs args = ExactArgs 1 args (
     let q = GetBool fs ''quiet''; profile = args ! 0 in
     cbind (cread (GetKindFromProfile cl profile)) (\<lambda>r.
     case r of
       Inl err \<Rightarrow> cfatal (''unable to find kind '' @ profile)
     | Inr kind \<Rightarrow>
         cthen (run_make cl [(''GROUP'', k_Group kind), (''VERSION'', k_Version kind), (''KIND'', k_Name kind),
             (''PROFILE'', profile)] ''push'' True q)
           (cwhen (\<not> q) (cprintln (Kind_String kind)))))"

definition rmkCmd :: "order \<Rightarrow> 'w cli \<Rightarrow> flags \<Rightarrow> string list \<Rightarrow> ('w, unit) cmd" where
  "rmkCmd sched cl fs args = MinimumNArgs 1 args (
     let cmdStr = (if GetBool fs ''all'' then ''delete-all'' else ''delete'') in
     cforeach (sched args) (\<lambda>name.
       run_make cl [(''PROFILE'', name)] cmdStr False (GetBool fs ''quiet'')))"

section \<open>Snapshots\<close>

text \<open>The printed lines of a program, taken from it through a pipe.\<close>

definition capture :: "('w, unit) cmd \<Rightarrow> ('w, string) cmd" where
  "capture m w =
     (case m w of (w', es, r) \<Rightarrow>
        (w', filter (\<lambda>e. case e of EvPrint s \<Rightarrow> False | _ \<Rightarrow> True) es,
         (case r of
            Val u \<Rightarrow> Val (concat (map (\<lambda>e. case e of EvPrint s \<Rightarrow> s | _ \<Rightarrow> []) es))
          | Panic s \<Rightarrow> Panic s | Exit s \<Rightarrow> Exit s | Diverge \<Rightarrow> Diverge)))"

text \<open>The digi of a name: the error of the alias store, or a panic where the alias is nil.\<close>

definition kind_params :: "'w cli \<Rightarrow> kind \<Rightarrow> (string, string) gomap" where
  "kind_params cl kind =
     [(''GROUP'', k_Group kind), (''VERSION'', k_Version kind), (''KIND'', k_Name kind),
      (''PLURAL'', Kind_Plural (c_plural cl) kind)]"

definition commitCmd :: "'w cli \<Rightarrow> flags \<Rightarrow> string list \<Rightarrow> ('w, unit) cmd" where
  "commitCmd cl fs args = MinimumNArgs 1 args (
     let targetDir = (if GetString fs ''targetDir'' = [] then work_dir cl else GetString fs ''targetDir'');
         pathlist = ''['' @ join_with '','' (GetStringSlice fs ''paths'') @ '']''
     in cthen (cforeach args (\<lambda>name.
          cbind (cread (\<lambda>w. Resolve (c_viper cl) w name)) (\<lambda>r.
            case r of
              Inl err \<Rightarrow> cfatal (''unknown digi kind from alias given name '' @ name @ '': '' @ err_text err)
            | Inr d \<Rightarrow> creturn ())))
        (cforeach args (\<lambda>name.
          cbind (cread (\<lambda>w. Resolve (c_viper cl) w name)) (\<lambda>r.
            case r of
              Inr (Some duri) \<Rightarrow>
                (let params = kind_params cl (a_Kind duri) @ [(''NAME'', name), (''TARGETDIR'', targetDir),
                       (''NEATLEVEL'', ''-l 4''), (''NAMESPACE'', ''default''), (''ADDPATHS'', pathlist)]
                 in cthen (cwhen (length args > 1) (cprintln (name @ '':'')))
                   (cbind (capture (run_make cl params ''generation'' True False)) (\<lambda>captured.
                     let gen = trim_space captured in
                     cthen (cprintln (name @ ''_snapshot_gen'' @ gen))
                       (run_make cl (params @ [(''GEN'', gen)]) ''commit'' True False))))
            | _ \<Rightarrow> clift (Panic nil_deref)))))"

text \<open>The error of the lookup is only looked at after the field of the nil digi was read.\<close>

definition digestCmd :: "'w cli \<Rightarrow> string list \<Rightarrow> ('w, unit) cmd" where
  "digestCmd cl args = ExactArgs 1 args (
     let specPath = work_dir cl @ ''/'' @ args ! 0 @ ''/spec.yaml'' in
     cbind (cread (\<lambda>w. c_stat cl w specPath)) (\<lambda>st.
       if st = StatDir \<or> st = StatFile then run_make cl [(''DIRNAME'', args ! 0)] ''checksum-snapshot'' True False
       else cforeach args (\<lambda>name.
         cbind (cread (\<lambda>w. Resolve (c_viper cl) w name)) (\<lambda>r.
           case r of
             Inr (Some duri) \<Rightarrow>
               cthen (cwhen (length args > 1) (cprintln (name @ '':'')))
                 (run_make cl (kind_params cl (a_Kind duri) @ [(''NAME'', name), (''NEATLEVEL'', ''-l 4''),
                    (''NAMESPACE'', ''default'')]) ''checksum-digi'' True False)
           | _ \<Rightarrow> clift (Panic nil_deref)))))"

section \<open>Testing, logs and editing\<close>

definition bool_text :: "bool \<Rightarrow> string" where
  "bool_text b = (if b then ''true'' else ''false'')"

definition testCmd :: "'w cli \<Rightarrow> flags \<Rightarrow> string list \<Rightarrow> ('w, unit) cmd" where
  "testCmd cl fs args = ExactArgs 1 args (
     let profile = args ! 0 in
     cbind (cread (GetKindFromProfile cl profile)) (\<lambda>r.
     case r of
       Inl err \<Rightarrow> cfatal (''unable to find kind '' @ profile)
     | Inr kind \<Rightarrow>
         (let name = k_Name kind;
              params = [(''PROFILE'', profile)] @ kind_params cl kind @ [(''NAME'', name),
                (''NAMESPACE'', ''default''), (''MOUNTER'', bool_text (GetBool fs ''mounter'')),
                (''STRICT_MOUNT'', bool_text (GetBool fs ''strict-mounter''))]
          in cthen (cwhen (\<not> GetBool fs ''no-alias'')
               (cbind (cstep (CreateAlias cl kind name ''default'')) (fatal_on ''unable to create alias: '')))
             (run_make cl params (if GetBool fs ''clean'' then ''clean-test'' else ''test'') True False))))"

definition logCmd :: "'w cli \<Rightarrow> flags \<Rightarrow> string list \<Rightarrow> ('w, unit) cmd" where
  "logCmd cl fs args = ExactArgs 1 args (
     run_make cl [(''NAME'', args ! 0)] ''log'' True (GetBool fs ''quiet''))"

definition editCmd ::
  "'w cli \<Rightarrow> ('w, 'j, 'g) digi_env \<Rightarrow> flags \<Rightarrow> string list \<Rightarrow> ('w, unit) cmd" where
  "editCmd cl de fs args = ExactArgs 1 args (
     let name = args ! 0; cmdStr = (if GetBool fs ''all'' then ''edit-all'' else ''edit'') in
     cbind (cread (\<lambda>w. Resolve (c_viper cl) w name)) (\<lambda>r.
     case r of
       Inl err \<Rightarrow> cfatal (''unable to resolve digi name '' @ name @ '': '' @ err_text err)
     | Inr duri \<Rightarrow>
         cbind (cstep (de_temp de (''digi-edit-'' @ name))) (\<lambda>t.
         case t of
           Inl err \<Rightarrow> cfatal (err_text err)
         | Inr path \<Rightarrow>
             cthen (cbind (cstep (de_close de path)) (fatal_on []))
             (case duri of
                None \<Rightarrow> clift (Panic nil_deref)
              | Some d \<Rightarrow>
                  cthen (run_make cl [(''GROUP'', k_Group (a_Kind d)), (''KIND'', k_Name (a_Kind d)),
                      (''PLURAL'', Kind_Plural (c_plural cl) (a_Kind d)), (''NAME'', name), (''FILE'', path)]
                      cmdStr True False)
                    (cignore (cstep (de_remove de path)))))))"

section \<open>Exposing a digi\<close>

text \<open>\<open>wait.Poll\<close>: asks until a pod runs or the time is over, and its result is not looked at.\<close>

fun poll_pods :: "('w, 'j, 'g) digi_env \<Rightarrow> string \<Rightarrow> nat \<Rightarrow> ('w, unit) cmd" where
  "poll_pods de name 0 = creturn ()"
| "poll_pods de name (Suc n) =
     cbind (cstep (de_pods de (''name='' @ name))) (\<lambda>r.
       case r of
         Inl err \<Rightarrow> cfatal (err_text err)
       | Inr phases \<Rightarrow> if ''Running'' \<in> set phases then creturn () else poll_pods de name n)"

definition service_ports ::
  "('w, 'j, 'g) digi_env \<Rightarrow> string \<Rightarrow> int \<Rightarrow> int \<Rightarrow> ('w, int \<times> intstr) cmd" where
  "service_ports de name portFlag targetPortFlag =
     (let targetPort = IntPort (word_of_int targetPortFlag) in
      if portFlag \<le> 0 \<or> targetPortFlag \<le> 0 then
        cbind (cread (de_service de name)) (\<lambda>r.
          case r of
            Inl err \<Rightarrow> cfatal (err_text err)
          | Inr ports \<Rightarrow>
              (case ports of
                 [] \<Rightarrow> clift (Panic ''index out of range'')
               | (p, t) # _ \<Rightarrow>
                   creturn (if portFlag \<le> 0 then p else portFlag, if targetPortFlag \<le> 0 then t else targetPort)))
      else creturn (portFlag, targetPort))"

definition nodeport_of :: "string \<Rightarrow> int \<Rightarrow> intstr \<Rightarrow> int \<Rightarrow> nodeport_service" where
  "nodeport_of name port targetPort nodePort =
     \<lparr>np_Name = name @ ''-nodeport'', np_Selector = [(''app'', name)], np_PortName = name @ ''-nodeport-ports'',
      np_Port = word_of_int port, np_TargetPort = targetPort, np_NodePort = word_of_int nodePort\<rparr>"

text \<open>The text of a model is empty when it cannot be read.\<close>

definition model_exists ::
  "'w cli \<Rightarrow> ('w, 'j, 'g) digi_env \<Rightarrow> auri \<Rightarrow> 'w \<Rightarrow> bool" where
  "model_exists cl de ar w =
     (case GetModelJson (c_plural cl) (de_api de) w ar of Inl e \<Rightarrow> False | Inr j \<Rightarrow> de_text_len de j > 0)"

definition exposeCmd ::
  "'w cli \<Rightarrow> ('w, 'j, 'g) digi_env \<Rightarrow> flags \<Rightarrow> string list \<Rightarrow> ('w, unit) cmd" where
  "exposeCmd cl de fs args = ExactArgs 1 args (
     let name = args ! 0 in
     if de_api_err de \<noteq> None then cfatal ''Error creating API Client''
     else
       cthen (cbind (cread (\<lambda>w. (Resolve (c_viper cl) w name, w))) (\<lambda>(r, w).
         case r of
           Inr (Some ar) \<Rightarrow>
             if model_exists cl de ar w then creturn ()
             else cfatal (''Digi '' @ name @ '' does not exist'')
         | _ \<Rightarrow> creturn ()))
      (cthen (fatal_on [] (de_client_err de))
      (cthen (poll_pods de name (de_ticks de))
      (cbind (service_ports de name (GetInt fs ''port'') (GetInt fs ''targetPort'')) (\<lambda>(port, targetPort).
         cbind (cstep (de_create_service de (nodeport_of name port targetPort (GetInt fs ''nodePort''))))
           (fatal_on []))))))"

section \<open>Aliases\<close>

definition aliasCmd ::
  "nn_string \<Rightarrow> 'w cli \<Rightarrow> string list \<Rightarrow> ('w, unit) cmd" where
  "aliasCmd nns cl args = MaximumNArgs 2 args (
     case args of
       [] \<Rightarrow> cbind (cread (LocalAlias (c_order cl) (c_viper cl))) (\<lambda>r.
               case r of
                 Inl err \<Rightarrow> cfatal (err_text err)
               | Inr aliases \<Rightarrow> cforeach (PrintAlias nns aliases) cprintln)
     | [a] \<Rightarrow> cfatal ''args should be either none or 2''
     | a # n # _ \<Rightarrow>
         cbind (cread (resolve_in cl)) (\<lambda>resolve.
         cbind (clift (ParseAuri resolve a)) (\<lambda>p.
           case p of
             Inl err \<Rightarrow> cfatal (''unable to parse duri '' @ a @ '': '' @ err_text err)
           | Inr duri \<Rightarrow>
               cbind (cstep (Alias_Set (c_viper cl) \<lparr>al_Name = n, al_Duri = Some duri\<rparr>))
                 (fatal_on ''unable to set alias: ''))))"

definition aliasDiscoverCmd ::
  "nn_string \<Rightarrow> 'w cli \<Rightarrow> ('w, 'j, 'g) api \<Rightarrow> flags \<Rightarrow> ('w, unit) cmd" where
  "aliasDiscoverCmd nns cl a fs =
     (if GetBool fs ''set'' then
        cbind (coutcome (\<lambda>w. DiscoverAliasAndSet (c_plural cl) a w (c_viper cl) w))
          (fatal_on ''unable to discover and set alias: '')
      else
        cbind (cread (\<lambda>w. DiscoverAlias (c_plural cl) a w)) (\<lambda>o1.
        cbind (clift o1) (\<lambda>r.
          case r of
            Inl err \<Rightarrow> cfatal (''unable to discover aliases: '' @ err_text err)
          | Inr aliases \<Rightarrow> cforeach (PrintAlias nns aliases) cprintln)))"

definition aliasClearCmd :: "'w cli \<Rightarrow> string list \<Rightarrow> ('w, unit) cmd" where
  "aliasClearCmd cl args = ExactArgs 0 args (
     cbind (cstep (ClearAlias (c_viper cl))) (fatal_on ''unable to clear alias: ''))"

definition aliasResolveCmd :: "nn_string \<Rightarrow> 'w cli \<Rightarrow> string list \<Rightarrow> ('w, unit) cmd" where
  "aliasResolveCmd nns cl args = ExactArgs 1 args (
     cbind (cread (\<lambda>w. ResolveFromLocal nns (c_viper cl) w (args ! 0))) (\<lambda>(lines, e).
       cthen (cforeach lines cprintln)
         (fatal_on (''unable to resolve alias '' @ args ! 0 @ '': '') e)))"

section \<open>Looking at digis\<close>

definition listCmd :: "'w cli \<Rightarrow> flags \<Rightarrow> string list \<Rightarrow> ('w, unit) cmd" where
  "listCmd cl fs args = MaximumNArgs 1 args (
     let flags = (if \<not> GetBool fs ''all'' then '' -l digi.dev/type=app'' else '' -l digi.dev/type'') in
     cthen (cwhen (\<not> GetBool fs ''quiet'') (cprintln ''NAME''))
       (if args = [] then run_make cl [(''FLAG'', flags)] ''list'' True False else creturn ()))"

text \<open>The level is an \<open>int8\<close>: the difference wraps around.\<close>

definition check_level :: "8 word \<Rightarrow> string" where
  "check_level v = ''-l '' @ itoa (sint (4 - v))"

definition checkCmd :: "'w cli \<Rightarrow> flags \<Rightarrow> string list \<Rightarrow> ('w, unit) cmd" where
  "checkCmd cl fs args = MinimumNArgs 1 args (
     let v = GetInt8 fs ''verbosity'' in
     cforeach args (\<lambda>name.
       cbind (cread (\<lambda>w. Resolve (c_viper cl) w name)) (\<lambda>r.
         case r of
           Inl err \<Rightarrow> cfatal (''unknown digi kind from alias given name '' @ name @ '': '' @ err_text err)
         | Inr None \<Rightarrow> clift (Panic nil_deref)
         | Inr (Some duri) \<Rightarrow>
             cthen (cwhen (length args > 1) (cprintln (name @ '':'')))
               (run_make cl (kind_params cl (a_Kind duri) @ [(''NAME'', name), (''NEATLEVEL'', check_level v)])
                 ''check'' True False))))"

definition watchCmd :: "'w cli \<Rightarrow> flags \<Rightarrow> string list \<Rightarrow> ('w, unit) cmd" where
  "watchCmd cl fs args = MinimumNArgs 1 args (
     run_make cl [(''NAME'', join_with '' '' args), (''INTERVAL'', GetFloat32 fs ''interval''),
       (''NEATLEVEL'', itoa (sint (GetInt8 fs ''verbosity'')))] ''watch'' True False)"

definition attachCmd :: "'w cli \<Rightarrow> flags \<Rightarrow> string list \<Rightarrow> ('w, unit) cmd" where
  "attachCmd cl fs args = ExactArgs 1 args (
     run_make cl ([(''NAME'', args ! 0)] @ (if GetBool fs ''bash'' then [(''SHELL_BIN'', ''bash'')] else []))
       ''attach'' True False)"

text \<open>The variable of the remote port is only set when the argument is missing.\<close>

definition connectCmd :: "'w cli \<Rightarrow> string list \<Rightarrow> ('w, unit) cmd" where
  "connectCmd cl args = MinimumNArgs 2 args (
     let local = args ! 1; remote = (if length args < 3 then local else []) in
     run_make cl [(''NAME'', args ! 0), (''LOCAL'', local), (''REMOTE'', remote)] ''connect'' True False)"

definition GetPort :: "('w, 'j, 'g) digi_env \<Rightarrow> ('w, int) cmd" where
  "GetPort de = cbind (cread (de_port de)) (\<lambda>r.
     case r of Inl err \<Rightarrow> cfatal (''unable to get port: '' @ err_text err) | Inr p \<Rightarrow> creturn p)"

definition vizCmd :: "'w cli \<Rightarrow> ('w, 'j, 'g) digi_env \<Rightarrow> string list \<Rightarrow> ('w, unit) cmd" where
  "vizCmd cl de args =
     (if args \<noteq> [] then
        cbind (GetPort de) (\<lambda>port.
          run_make cl [(''NAME'', args ! 0), (''LOCALPORT'', itoa port)] ''viz'' True False)
      else run_make cl [] ''viz-space'' True False)"

definition Version :: "('w, 'j, 'g) digi_env \<Rightarrow> string" where
  "Version de = (if de_version de \<noteq> [] then de_version de else ''undefined'')"

definition versionCmd :: "('w, 'j, 'g) digi_env \<Rightarrow> ('w, unit) cmd" where
  "versionCmd de = cprintln (Version de)"

definition ChatCmd :: "('w, unit) cmd" where
  "ChatCmd = cprintln ''Not implemented''"

definition pull_flags :: flags where
  "pull_flags = [quiet_flag, (''local'', FBool False), (''group'', FStr [])]"

definition push_flags :: flags where
  "push_flags = [quiet_flag, (''local'', FBool False)]"

definition kind_flags :: flags where
  "kind_flags = [quiet_flag, (''local'', FBool False)]"

definition commit_flags :: flags where
  "commit_flags = [quiet_flag, (''targetDir'', FStr []), (''paths'', FStrs [])]"

definition rmk_flags :: flags where
  "rmk_flags = [quiet_flag, (''all'', FBool False)]"

definition expose_flags :: flags where
  "expose_flags = [quiet_flag, (''port'', FInt 0), (''targetPort'', FInt 0), (''nodePort'', FInt 0)]"

definition list_flags :: flags where
  "list_flags = [quiet_flag, (''all'', FBool False)]"

definition edit_flags :: flags where
  "edit_flags = [quiet_flag, (''all'', FBool False)]"

definition alias_discover_flags :: flags where
  "alias_discover_flags = [quiet_flag, (''set'', FBool False)]"

definition attach_flags :: flags where
  "attach_flags = [quiet_flag, (''bash'', FBool False)]"

section \<open>Properties\<close>

text \<open>
  C34. The level of \<open>check\<close> is the documented \<open>4 - v\<close> only down to a verbosity of -123; below that the
  subtraction of the 8-bit integers wraps around.
\<close>

theorem check_level_value:
  "check_level v = ''-l '' @ itoa (if sint v < -123 then -252 - sint v else 4 - sint v)"
proof -
  have b: "- 128 \<le> sint v" "sint v < 128"
    using sint_ge [of v] sint_less [of v] by simp_all
  have "sint (4 - v) = signed_take_bit 7 (4 - sint v)"
    by (simp add: sint_word_ariths)
  also have "\<dots> = (if sint v < -123 then -252 - sint v else 4 - sint v)"
    using b mod_pos_pos_trivial [of "- 124 - sint v" 256] mod_add_self2 [of "- 124 - sint v" 256] by (auto simp: signed_take_bit_eq_take_bit_shift take_bit_eq_mod)
  finally show ?thesis by (simp add: check_level_def)
qed

text \<open>The digest of a name without alias panics, where the other commands report the name.\<close>

lemma digest_unknown_panics:
  assumes "c_stat cl w (work_dir cl @ ''/'' @ name @ ''/spec.yaml'') = StatMissing"
    and "Resolve (c_viper cl) w name = Inl err"
  shows "digestCmd cl [name] w = (w, [], Panic nil_deref)"
  using assms by (simp add: digestCmd_def ExactArgs_def)
    (simp add: cthen_def cbind_def cread_def clift_def)

text \<open>
  Three options do nothing. The interval of \<open>watch\<close> is registered as a 64-bit and read as a
  32-bit number, so every run of \<open>make watch\<close> gets the interval zero, whatever was given; \<open>gen\<close>
  puts the visual flag into a map it does not pass on; and \<open>connect\<close> with a remote port passes an
  empty one.
\<close>

theorem options_without_effect:
  assumes "range_order (c_order cl)" and "accepts watch_flags given"
    and "watchCmd cl (set_flags watch_flags given) args w = (w', es, r)" and "EvMake m \<in> set es"
    and "connectCmd cl (name # local # remote # others) w = (w2, es2, r2)" and "EvMake m2 \<in> set es2"
  shows "env_of m ''INTERVAL'' = Some ''0.000000'' \<and> env_of m2 ''REMOTE'' = Some [] \<and>
    genCmd cl (AList.update ''visual'' (FBool b) fs) args = genCmd cl fs args"
proof (intro conjI)
  have "GetFloat32 (set_flags watch_flags given) ''interval'' = ''0.000000''"
    by (rule float64_read_as_float32 [OF assms(2)]) (simp add: watch_flags_def quiet_flag_def)
  with assms(3) have "run_make cl [(''NAME'', join_with '' '' args), (''INTERVAL'', ''0.000000''),
      (''NEATLEVEL'', itoa (sint (GetInt8 (set_flags watch_flags given) ''verbosity'')))] ''watch'' True False w =
        (w', es, r)"
    using assms(4) by (auto simp: watchCmd_def MinimumNArgs_def split: if_splits)
  then obtain r' where "RunMake cl [(''NAME'', join_with '' '' args), (''INTERVAL'', ''0.000000''),
      (''NEATLEVEL'', itoa (sint (GetInt8 (set_flags watch_flags given) ''verbosity'')))] ''watch'' True False w =
        (w', es, r')" by (rule run_make_events)
  from RunMake_env(1) [OF assms(1) _ this assms(4)]
  show "env_of m ''INTERVAL'' = Some ''0.000000''" by (simp add: gomap_ok_def)
next
  from assms(5) have "run_make cl [(''NAME'', name), (''LOCAL'', local), (''REMOTE'', [])] ''connect'' True False w =
      (w2, es2, r2)"
    by (simp add: connectCmd_def MinimumNArgs_def)
  then obtain r' where "RunMake cl [(''NAME'', name), (''LOCAL'', local), (''REMOTE'', [])] ''connect'' True False w =
      (w2, es2, r')" by (rule run_make_events)
  from RunMake_env(1) [OF assms(1) _ this assms(6)]
  show "env_of m2 ''REMOTE'' = Some []" by (simp add: gomap_ok_def)
qed (simp add: genCmd_def GetBool_def GetString_def go_map_simps)

lemma sample_range_order [simp]: "range_order (c_order (sample_cli v))"
  by (simp add: sample_cli_def)

text \<open>On the sample command line a command runs \<open>make\<close> and prints what it writes.\<close>

lemma sample_run_make:
  "\<exists>m. run_make (sample_cli v) args target True False w = (w, [EvMake m, EvPrint ''error''], Val ())"
  by (simp add: run_make_def RunMake_def make_command_def make_go_def sample_cli_def Getenv_def
      cbind_def clift_def cthen_def creturn_def cprint_def cemit_def)

lemma options_without_effect_witness:
  "\<exists>m m2 w' es r w2 es2 r2. watchCmd (sample_cli no_viper) (set_flags watch_flags [(''interval'', FFloat64 ''5.000000'')])
      [''l1''] () = (w', es, r) \<and> EvMake m \<in> set es \<and> env_of m ''INTERVAL'' = Some ''0.000000'' \<and>
    connectCmd (sample_cli no_viper) [''l1'', ''8080'', ''80''] () = (w2, es2, r2) \<and> EvMake m2 \<in> set es2 \<and>
    env_of m2 ''REMOTE'' = Some []"
proof -
  let ?given = "[(''interval'', FFloat64 ''5.000000'')]"
  have acc: "accepts watch_flags ?given"
    by (simp add: accepts_def watch_flags_def quiet_flag_def)
  obtain m where 1: "watchCmd (sample_cli no_viper) (set_flags watch_flags ?given) [''l1''] () =
      ((), [EvMake m, EvPrint ''error''], Val ())"
    unfolding watchCmd_def MinimumNArgs_def using sample_run_make by fastforce
  obtain m2 where 2: "connectCmd (sample_cli no_viper) [''l1'', ''8080'', ''80''] () =
      ((), [EvMake m2, EvPrint ''error''], Val ())"
    unfolding connectCmd_def MinimumNArgs_def Let_def using sample_run_make by fastforce
  have "EvMake m \<in> set [EvMake m, EvPrint ''error'']" "EvMake m2 \<in> set [EvMake m2, EvPrint ''error'']"
    by simp_all
  with options_without_effect [OF sample_range_order acc 1 _ 2] 1 2 show ?thesis by blast
qed

end
