(* ===== verification/Cli_Run.thy ===== *)
theory Cli_Run
  imports Cli_Digi
begin

text \<open>
  The commands \<open>run\<close> and \<open>stop\<close> of \<open>cmd/digi/digi/digi.go\<close>, which start a goroutine for each name. The
  goroutines of \<open>stop\<close> read a variable the main loop writes, those of \<open>run\<close> read and write the alias
  store, so both are step relations: a state holds the goroutines with what each has done so far,
  and a step lets the main loop or one of the goroutines go on. A goroutine that is done is taken
  out of the state.
\<close>

section \<open>Runs of make\<close>

text \<open>The runs of \<open>make\<close> among the events.\<close>

fun makes :: "event list \<Rightarrow> make_run list" where
  "makes [] = []"
| "makes (EvMake m # es) = m # makes es"
| "makes (EvPrint s # es) = makes es"
| "makes (EvLog s # es) = makes es"

lemma makes_append [simp]: "makes (es @ fs) = makes es @ makes fs"
  by (induction es rule: makes.induct) simp_all

lemma set_makes: "m \<in> set (makes es) \<longleftrightarrow> EvMake m \<in> set es"
  by (induction es rule: makes.induct) auto

lemma run_make_makes:
  assumes "run_make cl args target tty quiet w = (w', es, Val ())"
  obtains m where "makes es = [m]" and "EvMake m \<in> set es"
  using assms
proof (rule run_make_events)
  fix r' assume r': "RunMake cl args target tty quiet w = (w', es, r')" "Val () = Val () \<longleftrightarrow> (\<exists>e. r' = Val e)"
  from r'(1) show thesis
    by (cases rule: RunMake_cases) (use r'(2) that in auto)
qed

definition made_for :: "make_run \<Rightarrow> string" where
  "made_for m = (case env_of m ''NAME'' of None \<Rightarrow> [] | Some n \<Rightarrow> n)"

section \<open>Stopping digis\<close>

record 'w stop_state =
  st_todo :: "string list"
    \<comment> \<open>the names the main loop has still to visit\<close>
  st_kind :: "kind option"
    \<comment> \<open>the variable \<open>kind\<close>, one for the main loop and all goroutines\<close>
  st_go :: "(string \<times> string list) list"
    \<comment> \<open>the goroutines: the name, and the fields of the kind read so far\<close>
  st_world :: 'w
  st_events :: "event list"
  st_end :: "unit outcome option"
    \<comment> \<open>set when the process has ended early\<close>

definition kind_fields :: "'w cli \<Rightarrow> kind \<Rightarrow> string list" where
  "kind_fields cl k = [k_Group k, k_Version k, k_Name k, Kind_Plural (c_plural cl) k]"

lemma length_kind_fields [simp]: "length (kind_fields cl k) = 4"
  by (simp add: kind_fields_def)

definition stop_params :: "string \<Rightarrow> string list \<Rightarrow> (string, string) gomap" where
  "stop_params name fs =
     [(''GROUP'', fs ! 0), (''VERSION'', fs ! 1), (''KIND'', fs ! 2), (''PLURAL'', fs ! 3), (''NAME'', name)]"

definition ends :: "unit outcome \<Rightarrow> unit outcome option" where
  "ends r = (if r = Val () then None else Some r)"

text \<open>\<open>kindStr\<close> is the flag \<open>--kind\<close>. Reading the kind through a nil pointer is not possible: the
  goroutines are started after it was set.\<close>

inductive stop_step :: "'w cli \<Rightarrow> string \<Rightarrow> bool \<Rightarrow> 'w stop_state \<Rightarrow> 'w stop_state \<Rightarrow> bool"
  for cl kindStr quiet where
  spawn: "st_end s = None \<Longrightarrow> st_todo s = n # ns \<Longrightarrow> kindStr \<noteq> [] \<Longrightarrow>
    stop_step cl kindStr quiet s (s\<lparr>st_todo := ns, st_go := st_go s @ [(trim_space n, [])]\<rparr>)"
| resolve: "st_end s = None \<Longrightarrow> st_todo s = n # ns \<Longrightarrow> kindStr = [] \<Longrightarrow>
    Resolve (c_viper cl) (st_world s) (trim_space n) = Inr (Some d) \<Longrightarrow>
    stop_step cl kindStr quiet s
      (s\<lparr>st_todo := ns, st_kind := Some (a_Kind d), st_go := st_go s @ [(trim_space n, [])]\<rparr>)"
| unknown: "st_end s = None \<Longrightarrow> st_todo s = n # ns \<Longrightarrow> kindStr = [] \<Longrightarrow>
    Resolve (c_viper cl) (st_world s) (trim_space n) = Inl e \<Longrightarrow>
    stop_step cl kindStr quiet s (s\<lparr>st_end := Some (Exit (''unknown digi kind from alias given name '' @
      trim_space n @ '': '' @ err_text e))\<rparr>)"
| nil_alias: "st_end s = None \<Longrightarrow> st_todo s = n # ns \<Longrightarrow> kindStr = [] \<Longrightarrow>
    Resolve (c_viper cl) (st_world s) (trim_space n) = Inr None \<Longrightarrow>
    stop_step cl kindStr quiet s (s\<lparr>st_end := Some (Panic nil_deref)\<rparr>)"
| read_field: "st_end s = None \<Longrightarrow> st_go s = xs @ (n, fs) # ys \<Longrightarrow> length fs < 4 \<Longrightarrow> st_kind s = Some k \<Longrightarrow>
    stop_step cl kindStr quiet s (s\<lparr>st_go := xs @ (n, fs @ [kind_fields cl k ! length fs]) # ys\<rparr>)"
| make: "st_end s = None \<Longrightarrow> st_go s = xs @ (n, fs) # ys \<Longrightarrow> length fs = 4 \<Longrightarrow>
    run_make cl (stop_params n fs) ''stop'' False quiet (st_world s) = (w', es, r) \<Longrightarrow>
    stop_step cl kindStr quiet s
      (s\<lparr>st_go := xs @ ys, st_world := w', st_events := st_events s @ es, st_end := ends r\<rparr>)"

definition stop_start :: "string list \<Rightarrow> kind option \<Rightarrow> 'w \<Rightarrow> 'w stop_state" where
  "stop_start args k w =
     \<lparr>st_todo = args, st_kind = k, st_go = [], st_world = w, st_events = [], st_end = None\<rparr>"

definition stop_done :: "'w stop_state \<Rightarrow> bool" where
  "stop_done s \<longleftrightarrow> st_todo s = [] \<and> st_go s = [] \<and> st_end s = None"

text \<open>The command: from a world to a world, what was observed, and the end.\<close>

inductive stopCmd :: "'w cli \<Rightarrow> flags \<Rightarrow> string list \<Rightarrow> 'w \<Rightarrow> 'w \<Rightarrow> event list \<Rightarrow> unit outcome \<Rightarrow> bool"
  for cl fs args w where
  bad_kind: "args \<noteq> [] \<Longrightarrow> kindStr = GetString fs ''kind'' \<Longrightarrow> kindStr \<noteq> [] \<Longrightarrow> KindFromString kindStr = Inl e \<Longrightarrow>
    stopCmd cl fs args w w [] (Exit (''unable to parse kind '' @ kindStr))"
| stopped: "args \<noteq> [] \<Longrightarrow> kindStr = GetString fs ''kind'' \<Longrightarrow>
    kindStr = [] \<and> k = None \<or> kindStr \<noteq> [] \<and> map_sum id Some (KindFromString kindStr) = Inr k \<Longrightarrow>
    rtranclp (stop_step cl kindStr (GetBool fs ''quiet'')) (stop_start args k w) s \<Longrightarrow>
    stop_done s \<and> r = Val () \<or> st_end s = Some r \<Longrightarrow>
    stopCmd cl fs args w (st_world s) (st_events s) r"

text \<open>The kind was read as \<open>k\<close> alone, and no name is lost.\<close>

definition stop_inv :: "'w cli \<Rightarrow> kind \<Rightarrow> string list \<Rightarrow> 'w stop_state \<Rightarrow> bool" where
  "stop_inv cl k args s \<longleftrightarrow>
     st_kind s = Some k \<and> st_end s \<noteq> Some (Val ()) \<and>
     (\<forall>(n, fs) \<in> set (st_go s). length fs \<le> 4 \<and> fs = take (length fs) (kind_fields cl k)) \<and>
     (\<forall>m \<in> set (makes (st_events s)). mk_target m = ''stop'' \<and>
        (\<forall>x \<in> {''GROUP'', ''VERSION'', ''KIND'', ''PLURAL''}. env_of m x = map_of (kind_params cl k) x)) \<and>
     (st_end s = None \<longrightarrow>
        mset (map made_for (makes (st_events s))) + mset (map fst (st_go s)) + mset (map trim_space (st_todo s)) =
        mset (map trim_space args))"

lemma stop_params_gomap: "gomap_ok (stop_params n fs)"
  by (simp add: stop_params_def gomap_ok_def)

lemma stop_make_env:
  assumes "range_order (c_order cl)"
    and "run_make cl (stop_params n (kind_fields cl k)) ''stop'' False quiet w = (w', es, r)" and "EvMake m \<in> set es"
  shows "mk_target m = ''stop''" and "made_for m = n"
    and "x \<in> {''GROUP'', ''VERSION'', ''KIND'', ''PLURAL''} \<Longrightarrow> env_of m x = map_of (kind_params cl k) x"
proof -
  obtain r' where r: "RunMake cl (stop_params n (kind_fields cl k)) ''stop'' False quiet w = (w', es, r')"
    using assms(2) by (rule run_make_events)
  note env = RunMake_env [OF assms(1) stop_params_gomap r assms(3)]
  show "mk_target m = ''stop''" by (rule env(2))
  show "made_for m = n" by (simp add: made_for_def env(1) stop_params_def)
  show "env_of m x = map_of (kind_params cl k) x" if "x \<in> {''GROUP'', ''VERSION'', ''KIND'', ''PLURAL''}"
    using that by (auto simp: env(1) stop_params_def kind_params_def kind_fields_def)
qed

lemma stop_step_inv:
  assumes "stop_step cl kindStr quiet s t" and "range_order (c_order cl)" and "kindStr \<noteq> []"
    and "stop_inv cl k args s"
  shows "stop_inv cl k args t"
  using assms
proof (induction rule: stop_step.induct)
  case (spawn s n ns)
  then show ?case by (auto simp: stop_inv_def)
next
  case (read_field s xs n fs ys k')
  then have k: "k' = k" and fs: "fs = take (length fs) (kind_fields cl k)"
    by (auto simp: stop_inv_def)
  have "length fs < length (kind_fields cl k)" using read_field by simp
  then have "fs @ [kind_fields cl k ! length fs] = take (Suc (length fs)) (kind_fields cl k)"
    using fs by (metis take_Suc_conv_app_nth)
  moreover have "min 4 (Suc (length fs)) = Suc (length fs)" using read_field by simp
  ultimately show ?case using read_field k by (auto simp: stop_inv_def)
next
  case (make s xs n fs ys w' es r)
  then have "fs = take 4 (kind_fields cl k)" by (auto simp: stop_inv_def)
  then have fs: "fs = kind_fields cl k" by (simp add: kind_fields_def)
  note env = stop_make_env [OF make.prems(1) make.hyps(4) [unfolded fs]]
  show ?case
  proof (cases "r = Val ()")
    case True
    then obtain m where m: "makes es = [m]" "EvMake m \<in> set es"
      using make.hyps(4) run_make_makes by metis
    with make.prems(3) make.hyps env [OF m(2)] True show ?thesis
      by (auto simp: stop_inv_def ends_def)
  next
    case False
    with make.prems(3) make.hyps env show ?thesis
      by (auto simp: stop_inv_def ends_def set_makes)
  qed
qed (auto simp: stop_inv_def)

interpretation given_kind: step_invariant "stop_step cl kindStr quiet"
    "\<lambda>s. range_order (c_order cl) \<longrightarrow> kindStr \<noteq> [] \<longrightarrow> stop_inv cl k args s"
  for cl :: "'w cli" and kindStr quiet k args
  by unfold_locales (blast intro: stop_step_inv)

section \<open>Running digis\<close>

text \<open>What the goroutines of \<open>run\<close> share: the settings of the command.\<close>

record run_job =
  jb_names :: "string list"
  jb_profile :: string
  jb_kind :: kind
  jb_kopf :: string
  jb_flag :: string
  jb_deploy :: string
  jb_secrets :: string
  jb_target :: string
  jb_quiet :: bool
  jb_alias :: bool
  jb_snapshot :: bool
  jb_suffix :: string

text \<open>
  The flag \<open>kopf-log\<close> is registered as \<open>show-kopf-log\<close>; the log level falls through from the case of
  the debug levels to that of all others.
\<close>

definition run_flag :: "flags \<Rightarrow> string" where
  "run_flag fs =
     (let logLevel = GetInt fs ''log-level'' in
      (if logLevel < 0 then []
       else (if logLevel < 20 then '' --set trim_mount_on_load=false'' else []) @
         '' --set log_level='' @ itoa logLevel) @
      (if GetBool fs ''enable-visual'' then '' --set visual=true'' else []) @
      (if GetBool fs ''persistent-volume'' then
         '' --set persistent_volume.path='' @ GetString fs ''pv-path'' @
         '',persistent_volume.size='' @ GetString fs ''pv-size'' else []) @
      concat (map (\<lambda>sc. '' --set sidecar.'' @ sc @ ''=1'') (GetStringSlice fs ''sidecar'')))"

definition run_setup ::
  "'w cli \<Rightarrow> ('w, 'j, 'g) digi_env \<Rightarrow> flags \<Rightarrow> string list \<Rightarrow> ('w, run_job) cmd" where
  "run_setup cl de fs args =
     (let profile = args ! 0; names = tl args in
      cbind (cread (GetKindFromProfile cl profile)) (\<lambda>r.
      case r of
        Inl err \<Rightarrow> cfatal (''unable to find kind '' @ profile @ '': '' @ err_text err)
      | Inr kind \<Rightarrow>
          cbind (cread (\<lambda>w. c_stat cl w (work_dir cl @ ''/'' @ profile @ ''/spec.yaml''))) (\<lambda>st.
          let isSnapshotDir = (st = StatDir \<or> st = StatFile) in
          cthen (cwhen isSnapshotDir
            (if de_api_err de \<noteq> None then cfatal ''Error creating API Client''
             else cforeach names (\<lambda>name0.
               let name = trim_space name0 in
               cbind (cread (\<lambda>w. (Resolve (c_viper cl) w name, w))) (\<lambda>(r, w).
                 case r of
                   Inr (Some ar) \<Rightarrow>
                     if model_exists cl de ar w
                     then cfatal (''Digi name conflict: '' @ name @ '' already exists'') else creturn ()
                 | _ \<Rightarrow> creturn ()))))
          (creturn \<lparr>jb_names = map trim_space names, jb_profile = profile, jb_kind = kind,
             jb_kopf = bool_text (GetBool fs ''kopf-log''), jb_flag = run_flag fs,
             jb_deploy = GetString fs ''deploy-file'', jb_secrets = GetString fs ''secrets-file'',
             jb_target = (if GetBool fs ''no-pool'' then ''run-no-pool'' else ''run''),
             jb_quiet = GetBool fs ''quiet'', jb_alias = (\<not> GetBool fs ''no-alias''),
             jb_snapshot = isSnapshotDir, jb_suffix = GetString fs ''childSuffix''\<rparr>))))"

definition run_params :: "'w cli \<Rightarrow> run_job \<Rightarrow> string \<Rightarrow> (string, string) gomap" where
  "run_params cl jb name =
     [(''PROFILE'', jb_profile jb)] @ kind_params cl (jb_kind jb) @
     [(''NAME'', name), (''KOPFLOG'', jb_kopf jb), (''RUNFLAG'', jb_flag jb), (''CR'', jb_deploy jb),
      (''SECRETS'', jb_secrets jb)]"

text \<open>
  Where a goroutine is: before \<open>make\<close>, or in one of the three steps of \<open>Set\<close> on the alias store,
  which reads all aliases, sets all of them, and writes the file.
\<close>

datatype run_pc = RMake | RRead | RSet alias_map | RWrite

record 'w run_state =
  rs_go :: "(string \<times> run_pc) list"
  rs_world :: 'w
  rs_events :: "event list"
  rs_end :: "unit outcome option"

definition alias_failed :: event where
  "alias_failed = EvPrint (''unable to create alias'' @ [CHR 0x0A])"

inductive run_step :: "'w cli \<Rightarrow> run_job \<Rightarrow> 'w run_state \<Rightarrow> 'w run_state \<Rightarrow> bool" for cl jb where
  make: "rs_end s = None \<Longrightarrow> rs_go s = xs @ (n, RMake) # ys \<Longrightarrow>
    run_make cl (run_params cl jb n) (jb_target jb) False (jb_quiet jb) (rs_world s) = (w', es, r) \<Longrightarrow>
    run_step cl jb s (s\<lparr>rs_go := xs @ (if jb_alias jb then [(n, RRead)] else []) @ ys,
      rs_world := w', rs_events := rs_events s @ es, rs_end := ends r\<rparr>)"
| read_ok: "rs_end s = None \<Longrightarrow> rs_go s = xs @ (n, RRead) # ys \<Longrightarrow> v_aliases (c_viper cl) (rs_world s) = Inr m \<Longrightarrow>
    run_step cl jb s (s\<lparr>rs_go := xs @
      (n, RSet (AList.update n (al_Duri (alias_of (jb_kind jb) n ''default'')) m)) # ys\<rparr>)"
| read_err: "rs_end s = None \<Longrightarrow> rs_go s = xs @ (n, RRead) # ys \<Longrightarrow> v_aliases (c_viper cl) (rs_world s) = Inl e \<Longrightarrow>
    run_step cl jb s (s\<lparr>rs_go := xs @ ys, rs_events := rs_events s @ [alias_failed]\<rparr>)"
| set_aliases: "rs_end s = None \<Longrightarrow> rs_go s = xs @ (n, RSet m) # ys \<Longrightarrow>
    run_step cl jb s (s\<lparr>rs_go := xs @ (n, RWrite) # ys,
      rs_world := v_set_aliases (c_viper cl) m (rs_world s)\<rparr>)"
| write_file: "rs_end s = None \<Longrightarrow> rs_go s = xs @ (n, RWrite) # ys \<Longrightarrow> v_write (c_viper cl) (rs_world s) = (w', e) \<Longrightarrow>
    run_step cl jb s (s\<lparr>rs_go := xs @ ys, rs_world := w',
      rs_events := rs_events s @ (if e = None then [] else [alias_failed])\<rparr>)"

definition run_start :: "run_job \<Rightarrow> 'w \<Rightarrow> 'w run_state" where
  "run_start jb w =
     \<lparr>rs_go = map (\<lambda>n. (n, RMake)) (jb_names jb), rs_world = w, rs_events = [], rs_end = None\<rparr>"

definition run_done :: "'w run_state \<Rightarrow> bool" where
  "run_done s \<longleftrightarrow> rs_go s = [] \<and> rs_end s = None"

text \<open>What follows when all goroutines are done: the digis of a snapshot are recreated.\<close>

definition run_finish :: "'w cli \<Rightarrow> run_job \<Rightarrow> ('w, unit) cmd" where
  "run_finish cl jb =
     cwhen (jb_snapshot jb) (cforeach (jb_names jb) (\<lambda>name.
       let suffix = (if jb_suffix jb = [] then ''[]'' else jb_suffix jb) in
       cthen (cwhen (length (jb_names jb) > 1) (cprintln (name @ '':'')))
         (run_make cl (kind_params cl (jb_kind jb) @ [(''DIRNAME'', jb_profile jb), (''NAME'', name),
            (''SUFFIX'', suffix), (''NEATLEVEL'', ''-l 4''), (''NAMESPACE'', ''default'')])
            ''recreate'' True False)))"

inductive runCmd ::
  "'w cli \<Rightarrow> ('w, 'j, 'g) digi_env \<Rightarrow> flags \<Rightarrow> string list \<Rightarrow> 'w \<Rightarrow> 'w \<Rightarrow> event list \<Rightarrow> unit outcome \<Rightarrow> bool"
  for cl de fs args w where
  refused: "length args \<ge> 2 \<Longrightarrow> run_setup cl de fs args w = (w1, es, r0) \<Longrightarrow>
    r0 = Exit x \<and> r = Exit x \<or> r0 = Panic x \<and> r = Panic x \<Longrightarrow> runCmd cl de fs args w w1 es r"
| ended: "length args \<ge> 2 \<Longrightarrow> run_setup cl de fs args w = (w1, es, Val jb) \<Longrightarrow>
    rtranclp (run_step cl jb) (run_start jb w1) s \<Longrightarrow> rs_end s = Some r \<Longrightarrow>
    runCmd cl de fs args w (rs_world s) (es @ rs_events s) r"
| finished: "length args \<ge> 2 \<Longrightarrow> run_setup cl de fs args w = (w1, es, Val jb) \<Longrightarrow>
    rtranclp (run_step cl jb) (run_start jb w1) s \<Longrightarrow> run_done s \<Longrightarrow>
    run_finish cl jb (rs_world s) = (w2, es2, r) \<Longrightarrow>
    runCmd cl de fs args w w2 (es @ rs_events s @ es2) r"

inductive_cases run_make_step: "run_step cl jb s t"

text \<open>Every name is made once, and its parameters are those of the job.\<close>

definition run_inv :: "'w cli \<Rightarrow> run_job \<Rightarrow> 'w run_state \<Rightarrow> bool" where
  "run_inv cl jb s \<longleftrightarrow> rs_end s \<noteq> Some (Val ()) \<and>
     (\<forall>m \<in> set (makes (rs_events s)). mk_target m = jb_target jb \<and>
        (\<forall>x v. map_of (run_params cl jb (made_for m)) x = Some v \<longrightarrow> env_of m x = Some v)) \<and>
     (rs_end s = None \<longrightarrow>
        mset (map made_for (makes (rs_events s))) + mset (map fst (filter (\<lambda>g. snd g = RMake) (rs_go s))) =
        mset (jb_names jb))"

lemma run_params_gomap: "gomap_ok (run_params cl jb n)"
  by (simp add: run_params_def kind_params_def gomap_ok_def)

lemma run_params_workdir: "map_of (run_params cl jb n) ''WORKDIR'' = None"
  by (simp add: run_params_def kind_params_def)

lemma run_make_step_env:
  assumes "range_order (c_order cl)"
    and "run_make cl (run_params cl jb n) target tty quiet w = (w', es, r)" and "EvMake m \<in> set es"
  shows "mk_target m = target" and "made_for m = n"
    and "map_of (run_params cl jb n) x = Some v \<Longrightarrow> env_of m x = Some v"
proof -
  obtain r' where r: "RunMake cl (run_params cl jb n) target tty quiet w = (w', es, r')"
    using assms(2) by (rule run_make_events)
  note env = RunMake_env [OF assms(1) run_params_gomap r assms(3)]
  show "mk_target m = target" by (rule env(2))
  show "made_for m = n" by (simp add: made_for_def env(1)) (simp add: run_params_def kind_params_def)
  show "env_of m x = Some v" if "map_of (run_params cl jb n) x = Some v"
    using that run_params_workdir [of cl jb n] by (auto simp: env(1))
qed

lemma makes_alias_failed [simp]: "makes [alias_failed] = []"
  by (simp add: alias_failed_def)

lemma run_step_inv:
  assumes "run_step cl jb s t" and "range_order (c_order cl)" and "run_inv cl jb s"
  shows "run_inv cl jb t"
  using assms
proof (induction rule: run_step.induct)
  case (make s xs n ys w' es r)
  note env = run_make_step_env [OF make.prems(1) make.hyps(3)]
  show ?case
  proof (cases "r = Val ()")
    case True
    then obtain m where m: "makes es = [m]" "EvMake m \<in> set es"
      using make.hyps(3) run_make_makes by metis
    with make.prems(2) make.hyps env [OF m(2)] True show ?thesis
      by (auto simp: run_inv_def ends_def)
  next
    case False
    with make.prems(2) make.hyps env show ?thesis
      by (auto simp: run_inv_def ends_def set_makes)
  qed
qed (auto simp: run_inv_def)

interpretation job: step_invariant "run_step cl jb" "\<lambda>s. range_order (c_order cl) \<longrightarrow> run_inv cl jb s"
  for cl :: "'w cli" and jb
  by unfold_locales (blast intro: run_step_inv)

section \<open>Properties\<close>

text \<open>
  C28. With \<open>--kind\<close>, however the goroutines are scheduled: every run of \<open>make stop\<close> gets that
  kind, and when the command returns, every name was stopped exactly once.
\<close>

theorem stop_given_kind:
  assumes "range_order (c_order cl)" and "GetString fs ''kind'' \<noteq> []"
    and "KindFromString (GetString fs ''kind'') = Inr k" and "stopCmd cl fs args w w' es r"
  shows "(\<forall>m \<in> set (makes es). mk_target m = ''stop'' \<and>
      (\<forall>x \<in> {''GROUP'', ''VERSION'', ''KIND'', ''PLURAL''}. env_of m x = map_of (kind_params cl k) x)) \<and>
    (r = Val () \<longrightarrow> mset (map made_for (makes es)) = mset (map trim_space args))"
  using assms(4)
proof (cases rule: stopCmd.cases)
  case (bad_kind kindStr e)
  with assms(3) show ?thesis by simp
next
  case (stopped kindStr k' s)
  then have k: "k' = Some k" and kindStr: "kindStr \<noteq> []" using assms(2,3) by auto
  have "stop_inv cl k args (stop_start args (Some k) w)"
    by (simp add: stop_inv_def stop_start_def)
  with given_kind.reached [OF stopped(6) [unfolded k]] assms(1) kindStr
  have "stop_inv cl k args s" by blast
  with stopped(1-3,7) show ?thesis by (auto simp: stop_inv_def stop_done_def)
qed

text \<open>A command line that never asks for a terminal: the runs of \<open>make\<close> in the goroutines.\<close>

lemma sample_run_quiet:
  "\<exists>es. run_make (sample_cli v) args target False q w = (w, es, Val ())"
  by (cases q) (simp_all add: run_make_def RunMake_def make_command_def make_go_def sample_cli_def Getenv_def
      cbind_def clift_def cthen_def creturn_def cprint_def cemit_def)

text \<open>A goroutine that is not interrupted reads all fields of one kind.\<close>

lemma read_all_fields:
  assumes "st_end s = None" and "st_go s = xs @ (n, []) # ys" and "st_kind s = Some k"
  shows "rtranclp (stop_step cl kindStr quiet) s (s\<lparr>st_go := xs @ (n, kind_fields cl k) # ys\<rparr>)"
proof -
  have "rtranclp (stop_step cl kindStr quiet) s (s\<lparr>st_go := xs @ (n, take i (kind_fields cl k)) # ys\<rparr>)"
    if "i \<le> 4" for i
    using that
  proof (induction i)
    case 0
    have "s\<lparr>st_go := xs @ (n, []) # ys\<rparr> = s" using assms(2) by (metis stop_state.unfold_congs(3) stop_state.surjective stop_state.update_convs(3))
    then show ?case by simp
  next
    case (Suc i)
    let ?s = "s\<lparr>st_go := xs @ (n, take i (kind_fields cl k)) # ys\<rparr>"
    have len: "length (take i (kind_fields cl k)) = i" using Suc.prems by simp
    have "stop_step cl kindStr quiet ?s
        (?s\<lparr>st_go := xs @ (n, take i (kind_fields cl k) @ [kind_fields cl k ! length (take i (kind_fields cl k))]) # ys\<rparr>)"
      using assms Suc.prems by (intro stop_step.read_field) auto
    moreover have "take i (kind_fields cl k) @ [kind_fields cl k ! length (take i (kind_fields cl k))] =
        take (Suc i) (kind_fields cl k)"
      using Suc.prems unfolding len by (simp add: take_Suc_conv_app_nth)
    ultimately show ?case
      using Suc.IH Suc.prems by (simp add: rtranclp.rtrancl_into_rtrancl)
  qed
  from this [of 4] show ?thesis by simp
qed

text \<open>
  Without \<open>--kind\<close> the goroutines read the kind of their digi from a variable the loop has
  moved on: there is a schedule in which stopping two digis runs \<open>make stop\<close> for the first name
  with the kind of the second.
\<close>

theorem stop_may_use_wrong_kind:
  assumes "range_order (c_order cl)" and "GetString fs ''kind'' = []"
    and "Resolve (c_viper cl) w (trim_space a) = Inr (Some da)"
    and "Resolve (c_viper cl) w (trim_space b) = Inr (Some db)"
    and "\<And>args w. \<exists>w' es. run_make cl args ''stop'' False (GetBool fs ''quiet'') w = (w', es, Val ())"
  shows "\<exists>w' es m. stopCmd cl fs [a, b] w w' es (Val ()) \<and> m \<in> set (makes es) \<and>
    mk_target m = ''stop'' \<and> made_for m = trim_space a \<and>
    (\<forall>x \<in> {''GROUP'', ''VERSION'', ''KIND'', ''PLURAL''}. env_of m x = map_of (kind_params cl (a_Kind db)) x)"
proof -
  let ?q = "GetBool fs ''quiet''" and ?a = "trim_space a" and ?b = "trim_space b" and ?k = "a_Kind db"
  let ?step = "stop_step cl [] ?q" and ?f = "kind_fields cl (a_Kind db)"
  obtain w1 es1 where 1: "run_make cl (stop_params ?a ?f) ''stop'' False ?q w = (w1, es1, Val ())"
    using assms(5) by blast
  obtain w2 es2 where 2: "run_make cl (stop_params ?b ?f) ''stop'' False ?q w1 = (w2, es2, Val ())"
    using assms(5) by blast
  let ?s0 = "stop_start [a, b] None w"
  let ?s1 = "\<lparr>st_todo = [b], st_kind = Some (a_Kind da), st_go = [(?a, [])], st_world = w, st_events = [], st_end = None\<rparr>"
  let ?s2 = "\<lparr>st_todo = [], st_kind = Some ?k, st_go = [(?a, []), (?b, [])], st_world = w, st_events = [], st_end = None\<rparr>"
  let ?s3 = "\<lparr>st_todo = [], st_kind = Some ?k, st_go = [(?a, ?f), (?b, [])], st_world = w, st_events = [], st_end = None\<rparr>"
  let ?s4 = "\<lparr>st_todo = [], st_kind = Some ?k, st_go = [(?b, [])], st_world = w1, st_events = es1, st_end = None\<rparr>"
  let ?s5 = "\<lparr>st_todo = [], st_kind = Some ?k, st_go = [(?b, ?f)], st_world = w1, st_events = es1, st_end = None\<rparr>"
  let ?s6 = "\<lparr>st_todo = [], st_kind = Some ?k, st_go = [], st_world = w2, st_events = es1 @ es2, st_end = None\<rparr>"
  have s1: "?step ?s0 ?s1"
    using stop_step.resolve [of ?s0 a "[b]" "[]" cl da ?q] assms(3) by (simp add: stop_start_def)
  have s2: "?step ?s1 ?s2"
    using stop_step.resolve [of ?s1 b "[]" "[]" cl db ?q] assms(4) by simp
  have s3: "rtranclp ?step ?s2 ?s3"
    using read_all_fields [of ?s2 "[]" ?a "[(?b, [])]" ?k cl "[]" ?q] by simp
  have s4: "?step ?s3 ?s4"
    using stop_step.make [of ?s3 "[]" ?a ?f "[(?b, [])]" cl ?q w1 es1 "Val ()" "[]"] 1 by (simp add: ends_def)
  have s5: "rtranclp ?step ?s4 ?s5"
    using read_all_fields [of ?s4 "[]" ?b "[]" ?k cl "[]" ?q] by simp
  have s6: "?step ?s5 ?s6"
    using stop_step.make [of ?s5 "[]" ?b ?f "[]" cl ?q w2 es2 "Val ()" "[]"] 2 by (simp add: ends_def)
  have "rtranclp ?step ?s0 ?s6"
    using s1 s2 s3 s4 s5 s6 by (meson converse_rtranclp_into_rtranclp rtranclp.rtrancl_into_rtrancl rtranclp_trans)
  then have run: "stopCmd cl fs [a, b] w w2 (es1 @ es2) (Val ())"
    using stopCmd.stopped [of "[a, b]" "[]" fs None cl w ?s6 "Val ()"] assms(2) by (simp add: stop_done_def)
  obtain m where m: "makes es1 = [m]" "EvMake m \<in> set es1"
    using 1 by (rule run_make_makes)
  from run stop_make_env [OF assms(1) 1 m(2)] m(1) show ?thesis
    by (intro exI [of _ w2] exI [of _ "es1 @ es2"] exI [of _ m]) simp
qed

text \<open>
  C29. However the goroutines of \<open>run\<close> are scheduled, every name is handed to \<open>make\<close> exactly once
  when all are done, with the kind and the settings of the command.
\<close>

theorem run_makes_each_once:
  assumes "range_order (c_order cl)" and "rtranclp (run_step cl jb) (run_start jb w) s"
  shows "(\<forall>m \<in> set (makes (rs_events s)). mk_target m = jb_target jb \<and>
      (\<forall>x v. map_of (run_params cl jb (made_for m)) x = Some v \<longrightarrow> env_of m x = Some v)) \<and>
    (run_done s \<longrightarrow> mset (map made_for (makes (rs_events s))) = mset (jb_names jb))"
proof -
  have "run_inv cl jb (run_start jb w)"
    by (simp add: run_inv_def run_start_def comp_def)
  with job.reached [OF assms(2)] assms(1) have "run_inv cl jb s" by blast
  then show ?thesis by (auto simp: run_inv_def run_done_def)
qed

abbreviation job_at :: "(string \<times> run_pc) list \<Rightarrow> 'w \<Rightarrow> event list \<Rightarrow> 'w run_state" where
  "job_at go w es \<equiv> \<lparr>rs_go = go, rs_world = w, rs_events = es, rs_end = None\<rparr>"

lemmas then_step = converse_rtranclp_into_rtranclp

text \<open>Both digis are made before the alias of either is set.\<close>

lemma both_made:
  assumes "jb_names jb = [a, b]" and "jb_alias jb"
    and "\<And>args w. \<exists>w' es. run_make cl args (jb_target jb) False (jb_quiet jb) w = (w', es, Val ()) \<and>
      v_aliases v w' = v_aliases v w"
  shows "\<exists>w' es. rtranclp (run_step cl jb) (run_start jb w) (job_at [(a, RRead), (b, RRead)] w' es) \<and>
    v_aliases v w' = v_aliases v w"
proof -
  obtain w1 es1 where 1: "run_make cl (run_params cl jb a) (jb_target jb) False (jb_quiet jb) w = (w1, es1, Val ())"
      "v_aliases v w1 = v_aliases v w" using assms(3) by metis
  obtain w2 es2 where 2: "run_make cl (run_params cl jb b) (jb_target jb) False (jb_quiet jb) w1 = (w2, es2, Val ())"
      "v_aliases v w2 = v_aliases v w" using 1(2) assms(3) by metis
  have start: "run_start jb w = job_at [(a, RMake), (b, RMake)] w []"
    using assms(1) by (simp add: run_start_def)
  have s1: "run_step cl jb (job_at [(a, RMake), (b, RMake)] w []) (job_at [(a, RRead), (b, RMake)] w1 es1)"
    using run_step.make [of "job_at [(a, RMake), (b, RMake)] w []" "[]" a "[(b, RMake)]" cl jb w1 es1 "Val ()"] 1 assms(2)
    by (simp add: ends_def)
  have s2: "run_step cl jb (job_at [(a, RRead), (b, RMake)] w1 es1) (job_at [(a, RRead), (b, RRead)] w2 (es1 @ es2))"
    using run_step.make [of "job_at [(a, RRead), (b, RMake)] w1 es1" "[(a, RRead)]" b "[]" cl jb w2 es2 "Val ()"] 2 assms(2)
    by (simp add: ends_def)
  have "rtranclp (run_step cl jb) (run_start jb w) (job_at [(a, RRead), (b, RRead)] w2 (es1 @ es2))"
    unfolding start by (rule then_step, rule s1, rule then_step, rule s2, rule rtranclp.rtrancl_refl)
  with 2(2) show ?thesis by blast
qed

text \<open>Both read the aliases before either sets them.\<close>

lemma both_set:
  assumes "viper_ok (c_viper cl)" and "v_aliases (c_viper cl) w = Inr m0"
  shows "\<exists>s. rtranclp (run_step cl jb) (job_at [(a, RRead), (b, RRead)] w es) s \<and> run_done s \<and>
    v_aliases (c_viper cl) (rs_world s) = Inr (AList.update b (al_Duri (alias_of (jb_kind jb) b ''default'')) m0)"
proof -
  let ?v = "c_viper cl" and ?step = "run_step cl jb"
  let ?m = "\<lambda>n. AList.update n (al_Duri (alias_of (jb_kind jb) n ''default'')) m0"
  let ?w3 = "v_set_aliases ?v (?m a) w"
  let ?w4 = "v_set_aliases ?v (?m b) ?w3"
  obtain w5 e5 where 5: "v_write ?v ?w4 = (w5, e5)" by fastforce
  obtain w6 e6 where 6: "v_write ?v w5 = (w6, e6)" by fastforce
  let ?es5 = "es @ (if e5 = None then [] else [alias_failed])"
  let ?es6 = "?es5 @ (if e6 = None then [] else [alias_failed])"
  have s3: "?step (job_at [(a, RRead), (b, RRead)] w es) (job_at [(a, RSet (?m a)), (b, RRead)] w es)"
    using run_step.read_ok [of "job_at [(a, RRead), (b, RRead)] w es" "[]" a "[(b, RRead)]" cl m0 jb] assms(2) by simp
  have s4: "?step (job_at [(a, RSet (?m a)), (b, RRead)] w es) (job_at [(a, RSet (?m a)), (b, RSet (?m b))] w es)"
    using run_step.read_ok [of "job_at [(a, RSet (?m a)), (b, RRead)] w es" "[(a, RSet (?m a))]" b "[]" cl m0 jb] assms(2)
    by simp
  have s5: "?step (job_at [(a, RSet (?m a)), (b, RSet (?m b))] w es) (job_at [(a, RWrite), (b, RSet (?m b))] ?w3 es)"
    using run_step.set_aliases [of "job_at [(a, RSet (?m a)), (b, RSet (?m b))] w es" "[]" a "?m a" "[(b, RSet (?m b))]" cl jb]
    by simp
  have s6: "?step (job_at [(a, RWrite), (b, RSet (?m b))] ?w3 es) (job_at [(a, RWrite), (b, RWrite)] ?w4 es)"
    using run_step.set_aliases [of "job_at [(a, RWrite), (b, RSet (?m b))] ?w3 es" "[(a, RWrite)]" b "?m b" "[]" cl jb]
    by simp
  have s7: "?step (job_at [(a, RWrite), (b, RWrite)] ?w4 es) (job_at [(b, RWrite)] w5 ?es5)"
    using run_step.write_file [of "job_at [(a, RWrite), (b, RWrite)] ?w4 es" "[]" a "[(b, RWrite)]" cl w5 e5 jb] 5 by simp
  have s8: "?step (job_at [(b, RWrite)] w5 ?es5) (job_at [] w6 ?es6)"
    using run_step.write_file [of "job_at [(b, RWrite)] w5 ?es5" "[]" b "[]" cl w6 e6 jb] 6 by simp
  have "rtranclp ?step (job_at [(a, RRead), (b, RRead)] w es) (job_at [] w6 ?es6)"
    by (rule then_step, rule s3, rule then_step, rule s4, rule then_step, rule s5, rule then_step, rule s6,
        rule then_step, rule s7, rule then_step, rule s8, rule rtranclp.rtrancl_refl)
  moreover have "v_aliases ?v w6 = Inr (?m b)"
    using viper_ok_simps(1,5) [OF assms(1)] 5 6 by (metis fst_conv)
  ultimately show ?thesis by (intro exI [of _ "job_at [] w6 ?es6"]) (simp add: run_done_def)
qed

text \<open>
  The aliases \<open>run\<close> creates can be lost: there is a schedule in which two digis are started,
  and of their aliases only the second is in the store when the command is done.
\<close>

theorem run_may_lose_alias:
  assumes "viper_ok (c_viper cl)" and "jb_names jb = [a, b]" and "jb_alias jb"
    and "v_aliases (c_viper cl) w = Inr store"
    and "\<And>args w. \<exists>w' es. run_make cl args (jb_target jb) False (jb_quiet jb) w = (w', es, Val ()) \<and>
      v_aliases (c_viper cl) w' = v_aliases (c_viper cl) w"
  shows "\<exists>s. rtranclp (run_step cl jb) (run_start jb w) s \<and> run_done s \<and>
    v_aliases (c_viper cl) (rs_world s) = Inr (AList.update b (al_Duri (alias_of (jb_kind jb) b ''default'')) store)"
proof -
  obtain w' es where 1: "rtranclp (run_step cl jb) (run_start jb w) (job_at [(a, RRead), (b, RRead)] w' es)"
      and 2: "v_aliases (c_viper cl) w' = Inr store"
    using both_made [OF assms(2,3,5), of w] assms(4) by auto
  from both_set [OF assms(1) 2, of jb a b es] 1 show ?thesis by (meson rtranclp_trans)
qed

section \<open>Witnesses\<close>

definition sample_job :: run_job where
  "sample_job = \<lparr>jb_names = [''l1'', ''l2''], jb_profile = ''lamp'',
     jb_kind = \<lparr>k_Group = ''digi.dev'', k_Version = ''v1'', k_Name = ''lamp''\<rparr>, jb_kopf = ''false'', jb_flag = [],
     jb_deploy = ''cr.yaml'', jb_secrets = [], jb_target = ''run'', jb_quiet = True, jb_alias = True,
     jb_snapshot = False, jb_suffix = []\<rparr>"

lemma sample_makes:
  "\<exists>w' es. run_make (sample_cli mem_viper) args (jb_target sample_job) False (jb_quiet sample_job) w = (w', es, Val ()) \<and>
    v_aliases mem_viper w' = v_aliases mem_viper w"
proof -
  obtain es where "run_make (sample_cli mem_viper) args (jb_target sample_job) False (jb_quiet sample_job) w = (w, es, Val ())"
    by (rule exE [OF sample_run_quiet])
  then show ?thesis by blast
qed

lemma sample_cli_viper [simp]: "c_viper (sample_cli v) = v"
  by (simp add: sample_cli_def)

lemma sample_job_fields [simp]: "jb_names sample_job = [''l1'', ''l2'']" "jb_alias sample_job"
  by (simp_all add: sample_job_def)

lemma no_aliases: "v_aliases mem_viper ([], []) = Inr []"
  by (simp add: mem_viper_def)

lemma run_may_lose_alias_witness:
  "\<exists>s. rtranclp (run_step (sample_cli mem_viper) sample_job) (run_start sample_job ([], [])) s \<and> run_done s \<and>
    Resolve mem_viper (rs_world s) ''l1'' = Inl (Err ''alias l1 not found'')"
proof -
  have ok: "viper_ok (c_viper (sample_cli mem_viper))" and al: "v_aliases (c_viper (sample_cli mem_viper)) ([], []) = Inr []"
    using no_aliases by simp_all
  obtain s where s: "rtranclp (run_step (sample_cli mem_viper) sample_job) (run_start sample_job ([], [])) s" "run_done s"
      "v_aliases (c_viper (sample_cli mem_viper)) (rs_world s) =
        Inr (AList.update ''l2'' (al_Duri (alias_of (jb_kind sample_job) ''l2'' ''default'')) [])"
    using run_may_lose_alias [OF ok sample_job_fields al] sample_makes by auto
  from s(3) have "Resolve mem_viper (rs_world s) ''l1'' = Inl (Err ''alias l1 not found'')"
    by (simp add: Resolve_def)
  with s show ?thesis by blast
qed

lemma run_makes_each_once_witness:
  "\<exists>s. rtranclp (run_step (sample_cli mem_viper) sample_job) (run_start sample_job ([], [])) s \<and> run_done s \<and>
    mset (map made_for (makes (rs_events s))) = {#''l1'', ''l2''#}"
proof -
  let ?cl = "sample_cli mem_viper"
  obtain w' es where 1: "rtranclp (run_step ?cl sample_job) (run_start sample_job ([], [])) (job_at [(''l1'', RRead), (''l2'', RRead)] w' es)"
      "v_aliases mem_viper w' = v_aliases mem_viper ([], [])"
    using both_made [OF sample_job_fields sample_makes, of "([], [])"] by auto
  have ok: "viper_ok (c_viper ?cl)" and al: "v_aliases (c_viper ?cl) w' = Inr []"
    using 1(2) no_aliases by simp_all
  obtain s where s: "rtranclp (run_step ?cl sample_job) (job_at [(''l1'', RRead), (''l2'', RRead)] w' es) s" "run_done s"
    using both_set [OF ok al, of sample_job "''l1''" "''l2''" es] by auto
  have reach: "rtranclp (run_step ?cl sample_job) (run_start sample_job ([], [])) s"
    using 1(1) s(1) by (rule rtranclp_trans)
  have "mset (map made_for (makes (rs_events s))) = mset (jb_names sample_job)"
    using run_makes_each_once [OF sample_range_order reach] s(2) by blast
  with reach s(2) show ?thesis by auto
qed

definition sample_alias_store :: "alias_map \<times> config_map" where
  "sample_alias_store = ([(''l1'', Some (sample_auri ''lamp'' ''l1'')), (''r1'', Some (sample_auri ''room'' ''r1''))], [])"

lemma sample_stop_runs:
  "\<exists>w' es. run_make (sample_cli v) args ''stop'' False q w = (w', es, Val ())"
  using sample_run_quiet by fast

lemma stop_may_use_wrong_kind_witness:
  "\<exists>w' es m. stopCmd (sample_cli mem_viper) stop_flags [''l1'', ''r1''] sample_alias_store w' es (Val ()) \<and>
    m \<in> set (makes es) \<and> made_for m = ''l1'' \<and> env_of m ''KIND'' = Some ''room''"
proof -
  have t: "trim_space ''l1'' = ''l1''" "trim_space ''r1'' = ''r1''" by code_simp+
  have "Resolve mem_viper sample_alias_store ''l1'' = Inr (Some (sample_auri ''lamp'' ''l1''))"
    "Resolve mem_viper sample_alias_store ''r1'' = Inr (Some (sample_auri ''room'' ''r1''))"
    by (simp_all add: Resolve_def mem_viper_def sample_alias_store_def)
  then have res: "Resolve (c_viper (sample_cli mem_viper)) sample_alias_store (trim_space ''l1'') = Inr (Some (sample_auri ''lamp'' ''l1''))"
    "Resolve (c_viper (sample_cli mem_viper)) sample_alias_store (trim_space ''r1'') = Inr (Some (sample_auri ''room'' ''r1''))"
    unfolding t by simp_all
  have fl: "GetString stop_flags ''kind'' = []" by (simp add: stop_flags_def quiet_flag_def GetString_def)
  obtain w' es m where r: "stopCmd (sample_cli mem_viper) stop_flags [''l1'', ''r1''] sample_alias_store w' es (Val ())"
      "m \<in> set (makes es)" "made_for m = ''l1''"
      "env_of m ''KIND'' = map_of (kind_params (sample_cli mem_viper) (a_Kind (sample_auri ''room'' ''r1''))) ''KIND''"
    using stop_may_use_wrong_kind [OF sample_range_order fl res sample_stop_runs] t(1) by auto
  from r(4) have "env_of m ''KIND'' = Some ''room''" by (simp add: kind_params_def sample_auri_def)
  with r show ?thesis by blast
qed

lemma stop_given_kind_witness:
  "\<exists>w' es. stopCmd (sample_cli no_viper) [(''kind'', FStr ''digi.dev/v1/lamp'')] [''l1''] () w' es (Val ()) \<and>
    (\<forall>m \<in> set (makes es). env_of m ''KIND'' = Some ''lamp'') \<and> mset (map made_for (makes es)) = {#''l1''#}"
proof -
  let ?cl = "sample_cli no_viper :: unit cli" and ?fs = "[(''kind'', FStr ''digi.dev/v1/lamp'')]"
  let ?k = "\<lparr>k_Group = ''digi.dev'', k_Version = ''v1'', k_Name = ''lamp''\<rparr>"
  have t: "trim_space ''l1'' = ''l1''" by code_simp
  have k: "KindFromString ''digi.dev/v1/lamp'' = Inr ?k" by code_simp
  have fl: "GetString ?fs ''kind'' = ''digi.dev/v1/lamp''" by (simp add: GetString_def)
  have q: "GetBool ?fs ''quiet'' = False" by (simp add: GetBool_def)
  let ?s1 = "\<lparr>st_todo = [], st_kind = Some ?k, st_go = [(''l1'', [])], st_world = (), st_events = [], st_end = None\<rparr>"
  let ?s2 = "?s1\<lparr>st_go := [(''l1'', kind_fields ?cl ?k)]\<rparr>"
  obtain es where es: "run_make ?cl (stop_params ''l1'' (kind_fields ?cl ?k)) ''stop'' False False () = ((), es, Val ())"
    by (rule exE [OF sample_run_quiet])
  let ?s3 = "?s2\<lparr>st_go := [], st_events := es\<rparr>"
  have "stop_step ?cl ''digi.dev/v1/lamp'' False (stop_start [''l1''] (Some ?k) ()) ?s1"
    using stop_step.spawn [of "stop_start [''l1''] (Some ?k) ()" "''l1''" "[]" "''digi.dev/v1/lamp''" ?cl False] t
    by (simp add: stop_start_def)
  moreover have "rtranclp (stop_step ?cl ''digi.dev/v1/lamp'' False) ?s1 ?s2"
    using read_all_fields [of ?s1 "[]" "''l1''" "[]" ?k ?cl "''digi.dev/v1/lamp''" False] by simp
  moreover have "stop_step ?cl ''digi.dev/v1/lamp'' False ?s2 ?s3"
    using stop_step.make [of ?s2 "[]" "''l1''" "kind_fields ?cl ?k" "[]" ?cl False "()" es "Val ()" "''digi.dev/v1/lamp''"] es
    by (simp add: ends_def)
  ultimately have "rtranclp (stop_step ?cl ''digi.dev/v1/lamp'' False) (stop_start [''l1''] (Some ?k) ()) ?s3"
    by (meson converse_rtranclp_into_rtranclp rtranclp.rtrancl_into_rtrancl)
  then have run: "stopCmd ?cl ?fs [''l1''] () () es (Val ())"
    using stopCmd.stopped [of "[''l1'']" "''digi.dev/v1/lamp''" ?fs "Some ?k" ?cl "()" ?s3 "Val ()"] k fl q
    by (simp add: stop_done_def)
  have "GetString ?fs ''kind'' \<noteq> []" "KindFromString (GetString ?fs ''kind'') = Inr ?k"
    using k fl by simp_all
  from stop_given_kind [OF sample_range_order this run] t have
    "(\<forall>m \<in> set (makes es). env_of m ''KIND'' = map_of (kind_params ?cl ?k) ''KIND'') \<and>
     mset (map made_for (makes es)) = {#''l1''#}" by simp
  with run show ?thesis by (auto simp: kind_params_def)
qed

end
