(* ===== verification/Cli_Init.thy ===== *)
theory Cli_Init
  imports Cli_Net Cli_Run
begin

text \<open>
  How the command line starts: the \<open>init\<close> functions of its packages (\<open>api/config\<close>, \<open>api/k8s\<close>,
  \<open>api/alias\<close>, \<open>cmd/digi/helper\<close>), which find the home directory and read the configuration file or
  create it; the clients of the API server (\<open>api/k8s/k8s.go\<close>, \<open>api/client\<close>, \<open>api/pipe\<close>); the entry
  points of the programs; and the tables of commands. The files, \<open>viper\<close> and the parser of the command
  line are parameters.
\<close>

section \<open>Files\<close>

datatype config_read = ConfigRead | ConfigNotFound | ConfigBad err

record 'w home_env =
  he_user :: "err + string"
    \<comment> \<open>the home directory of \<open>user.Current\<close>\<close>
  he_home :: "err + string"
    \<comment> \<open>\<open>os.UserHomeDir\<close>\<close>
  he_missing :: "string \<Rightarrow> 'w \<Rightarrow> bool"
    \<comment> \<open>whether \<open>os.Stat\<close> says that the file does not exist\<close>
  he_mkdir :: "string \<Rightarrow> 'w \<Rightarrow> 'w \<times> (bool \<times> err) option"
    \<comment> \<open>\<open>os.MkdirAll\<close>: an error, and whether it is one of \<open>os.IsNotExist\<close>\<close>
  he_create :: "string \<Rightarrow> 'w \<Rightarrow> 'w \<times> err option"
    \<comment> \<open>\<open>os.OpenFile\<close> with \<open>O_RDONLY|O_CREATE\<close>\<close>
  he_read_config :: "string \<Rightarrow> 'w \<Rightarrow> 'w \<times> config_read"
    \<comment> \<open>\<open>viper.ReadInConfig\<close> of \<open>config\<close> in a directory\<close>

definition Touch :: "'w home_env \<Rightarrow> string \<Rightarrow> ('w, unit) cmd" where
  "Touch he name = cbind (cstep (he_create he name)) (\<lambda>e.
     case e of Some x \<Rightarrow> clift (Panic (err_text x)) | None \<Rightarrow> creturn ())"

definition EnsureDir :: "'w home_env \<Rightarrow> string \<Rightarrow> ('w, (bool \<times> err) option) cmd" where
  "EnsureDir he name = cbind (cread (he_missing he name)) (\<lambda>missing.
     if missing then cstep (he_mkdir he name) else creturn None)"

section \<open>Initialization of the packages\<close>

definition new_config_notice :: "string \<Rightarrow> string" where
  "new_config_notice fileName = ''digi: new config file at: '' @ fileName @ ''; try again'' @ [CHR 0x0A]"

definition config_Load :: "'w home_env \<Rightarrow> string \<Rightarrow> ('w, unit) cmd" where
  "config_Load he configDir = cbind (cstep (he_read_config he configDir)) (\<lambda>r.
     case r of
       ConfigRead \<Rightarrow> creturn ()
     | ConfigNotFound \<Rightarrow>
         (let fileName = path_join [configDir, ''config''] in
          cthen (Touch he fileName) (cprint (new_config_notice fileName)))
     | ConfigBad err \<Rightarrow> clift (Panic (''Fatal error config file: '' @ err_text err @ '' '' @ [CHR 0x0A])))"

definition config_init :: "'w home_env \<Rightarrow> ('w, string) cmd" where
  "config_init he = (case he_user he of
     Inl err \<Rightarrow> clift (Panic (err_text err))
   | Inr home \<Rightarrow>
       (let configDir = path_join [home, ''.digi''] in
        cbind (EnsureDir he configDir) (\<lambda>e.
          case e of
            Some (True, err) \<Rightarrow> clift (Panic (err_text err))
          | _ \<Rightarrow> cthen (config_Load he configDir) (creturn configDir))))"

definition k8s_init :: "'w home_env \<Rightarrow> ('w, string) cmd" where
  "k8s_init he = (case he_user he of
     Inl err \<Rightarrow> cfatal (err_text err)
   | Inr home \<Rightarrow> creturn (path_join [home, ''.kube'', ''config'']))"

definition alias_init :: "'w home_env \<Rightarrow> string \<Rightarrow> ('w, unit) cmd" where
  "alias_init he configDir = config_Load he configDir"

definition helper_init :: "'w home_env \<Rightarrow> ('w, string) cmd" where
  "helper_init he = (case he_home he of
     Inl err \<Rightarrow> cfatal (''unable to find home dir: '' @ err_text err)
   | Inr home \<Rightarrow> creturn (path_join [home, ''.digi'']))"

text \<open>The packages in the order of their imports: the directories they set up.\<close>

definition init_packages :: "'w home_env \<Rightarrow> ('w, string \<times> string \<times> string) cmd" where
  "init_packages he =
     cbind (config_init he) (\<lambda>configDir.
     cbind (k8s_init he) (\<lambda>kubeConfigFile.
     cthen (alias_init he configDir)
    (cbind (helper_init he) (\<lambda>homeDir. creturn (configDir, kubeConfigFile, homeDir)))))"

section \<open>Clients\<close>

record 'c client_env =
  ce_config :: "err + 'c"
    \<comment> \<open>\<open>GetConfig\<close>; \<open>GetConfigOrDie\<close> ends the process on its error\<close>
  ce_dynamic :: "'c \<Rightarrow> err option"
  ce_clientset :: "'c \<Rightarrow> err option"
  ce_scheme :: "err option"
    \<comment> \<open>\<open>AddToScheme\<close> of the Sync type\<close>
  ce_runtime :: "'c \<Rightarrow> err option"
    \<comment> \<open>\<open>client.New\<close> of controller-runtime\<close>

definition GetConfigOrDie :: "'c client_env \<Rightarrow> 'c outcome" where
  "GetConfigOrDie ce = (case ce_config ce of Inl err \<Rightarrow> Exit (err_text err) | Inr c \<Rightarrow> Val c)"

definition NewClientSet :: "'c client_env \<Rightarrow> (err + 'c) outcome" where
  "NewClientSet ce = obind (GetConfigOrDie ce) (\<lambda>config.
     case ce_dynamic ce config of
       Some err \<Rightarrow> Val (Inl err)
     | None \<Rightarrow> (case ce_clientset ce config of Some err \<Rightarrow> Val (Inl err) | None \<Rightarrow> Val (Inr config)))"

definition NewClient :: "'c client_env \<Rightarrow> (err + 'c) outcome" where
  "NewClient ce = obind (NewClientSet ce) (\<lambda>r. case r of Inl err \<Rightarrow> Val (Inl err) | Inr kc \<Rightarrow> Val (Inr kc))"

definition newClientForSyncBinding :: "'c client_env \<Rightarrow> (err + 'c) outcome" where
  "newClientForSyncBinding ce =
     (case ce_scheme ce of
        Some err \<Rightarrow> Val (Inl err)
      | None \<Rightarrow> obind (GetConfigOrDie ce) (\<lambda>config.
          case ce_runtime ce config of Some err \<Rightarrow> Val (Inl err) | None \<Rightarrow> Val (Inr config)))"

section \<open>Entry points\<close>

text \<open>\<open>Execute\<close> of the root command, with the commands behind it, is an argument.\<close>

definition digi_main :: "('w, err option) cmd \<Rightarrow> ('w, unit) cmd" where
  "digi_main execute = cbind execute (fatal_on [])"

definition print_main :: "('w, err option) cmd \<Rightarrow> ('w, unit) cmd" where
  "print_main execute = cbind execute (\<lambda>e.
     case e of None \<Rightarrow> creturn () | Some err \<Rightarrow> cthen (cprintln (err_text err)) (cfatal ''exit status 1''))"

definition program :: "'w home_env \<Rightarrow> (('w, err option) cmd \<Rightarrow> ('w, unit) cmd) \<Rightarrow>
    (string \<times> string \<times> string \<Rightarrow> ('w, err option) cmd) \<Rightarrow> ('w, unit) cmd" where
  "program he main execute = cbind (init_packages he) (\<lambda>dirs. main (execute dirs))"

section \<open>Tables of commands\<close>

text \<open>A command: its name, its aliases and its subcommands in the order they are added.\<close>

datatype command = Command string "string list" "command list"

abbreviation leaf :: "string \<Rightarrow> string list \<Rightarrow> command" where
  "leaf n as \<equiv> Command n as []"

definition lake_commands :: "command list" where
  "lake_commands = [leaf ''connect'' [], leaf ''start'' [''start''], leaf ''stop'' [''stop''], leaf ''load'' []]"

definition space_commands :: "command list" where
  "space_commands = [leaf ''start'' [''init''], leaf ''stop'' [], leaf ''mount'' [''m''], leaf ''pipe'' [''p''],
     leaf ''register'' [''register''], leaf ''query'' [''q''], leaf ''search'' [''search''], leaf ''list'' [''ls'', ''l''],
     leaf ''check'' [''show'', ''ch''], leaf ''use'' [''checkout'', ''u'', ''switch''], leaf ''add'' [],
     leaf ''delete'' [''del'', ''remove''], leaf ''alias'' [''rename''], leaf ''gc'' [''clean'']]"

definition box_commands :: "command list" where
  "box_commands = [leaf ''attach'' [], leaf ''replay'' []]"

definition net_commands :: "command list" where
  "net_commands = [leaf ''ping'' [''p'']]"

definition sidecar_commands :: "command list" where
  "sidecar_commands = [leaf ''view'' []]"

definition digi_commands :: "command list" where
  "digi_commands =
     [leaf ''version'' [], leaf ''config'' [''configure''], leaf ''init'' [''i''], leaf ''gen'' [''g''],
      leaf ''build'' [''b''], leaf ''pull'' [], leaf ''push'' [], leaf ''commit'' [], leaf ''digest'' [],
      leaf ''kind'' [''kinds'', ''profile'', ''profiles'', ''k'', ''p''], leaf ''rmk'' [''rmi''], leaf ''expose'' [''e''],
      leaf ''run'' [''r''], leaf ''stop'' [''s''], leaf ''test'' [''t''], leaf ''list'' [''ls''],
      leaf ''check'' [''c'', ''show''], leaf ''watch'' [''w''], leaf ''edit'' [''e''], leaf ''log'' [''logs'', ''l''],
      Command ''alias'' [] [leaf ''discover'' [], leaf ''clear'' [], leaf ''resolve'' []],
      leaf ''attach'' [''at''], leaf ''connect'' [''conn''], Command ''space'' [] space_commands,
      Command ''lake'' [] lake_commands, leaf ''query'' [''q''], Command ''box'' [] box_commands,
      Command ''net'' [] net_commands, Command ''sidecar'' [''sc''] sidecar_commands, leaf ''visualize'' [''viz'', ''vis'', ''vz'', ''v''], leaf ''chat'' []]"

text \<open>The program \<open>dbox\<close> adds two commands to the root of \<open>digi\<close>.\<close>

definition dbox_commands :: "command list" where
  "dbox_commands = digi_commands @ box_commands"

fun called :: "command \<Rightarrow> string list" where
  "called (Command n as subs) = n # as"

definition subcommands :: "command \<Rightarrow> command list" where
  "subcommands c = (case c of Command n as subs \<Rightarrow> subs)"

text \<open>The names that stand for more than one command of a list.\<close>

fun ambiguous :: "command list \<Rightarrow> string list" where
  "ambiguous [] = []"
| "ambiguous (c # cs) = filter (\<lambda>n. n \<in> set (concat (map called cs))) (remdups (called c)) @ ambiguous cs"

text \<open>
  Of all the names of \<open>digi\<close> only \<open>e\<close> is ambiguous: \<open>expose\<close> and \<open>edit\<close> both claim it, so one of them
  cannot be called by its alias. In \<open>dbox\<close> there are two commands \<open>attach\<close>, so that of the box, which
  is added for it, and that of \<open>digi\<close> cannot both be called.
\<close>

lemma ambiguous_names:
  "ambiguous digi_commands = [''e''] \<and> ambiguous dbox_commands = [''e'', ''attach''] \<and>
    list_all (\<lambda>c. ambiguous (subcommands c) = []) digi_commands"
  by code_simp

section \<open>The first start and the ones after it\<close>

text \<open>
  What is documented of the files and of \<open>viper\<close>: a file that was created is found, what was read is
  read again, and a directory that was made is there.
\<close>

definition home_laws :: "'w home_env \<Rightarrow> string \<Rightarrow> bool" where
  "home_laws he dir \<longleftrightarrow>
     (\<forall>w w'. he_create he (path_join [dir, ''config'']) w = (w', None) \<longrightarrow> snd (he_read_config he dir w') \<noteq> ConfigNotFound) \<and>
     (\<forall>w w' r. he_read_config he dir w = (w', r) \<longrightarrow> he_read_config he dir w' = (w', r)) \<and>
     (\<forall>w w' r. he_read_config he dir w = (w', r) \<longrightarrow> he_missing he dir w' = he_missing he dir w) \<and>
     (\<forall>w w' e f. he_create he f w = (w', e) \<longrightarrow> he_missing he dir w' = he_missing he dir w) \<and>
     (\<forall>w w'. he_mkdir he dir w = (w', None) \<longrightarrow> \<not> he_missing he dir w')"

lemma home_lawsD:
  assumes "home_laws he dir"
  shows "he_create he (path_join [dir, ''config'']) w = (w', None) \<Longrightarrow> snd (he_read_config he dir w') \<noteq> ConfigNotFound"
    and "he_read_config he dir w = (w', r) \<Longrightarrow> he_read_config he dir w' = (w', r)"
    and "he_read_config he dir w = (w', r) \<Longrightarrow> he_missing he dir w' = he_missing he dir w"
    and "he_create he f w = (w', e) \<Longrightarrow> he_missing he dir w' = he_missing he dir w"
    and "he_mkdir he dir w = (w', None) \<Longrightarrow> \<not> he_missing he dir w'"
  using assms unfolding home_laws_def by blast+

text \<open>A load that returns has found the file, or created it and said so.\<close>

lemma config_Load_Val:
  assumes "config_Load he dir w = (w', es, Val ())"
  obtains (found) "he_read_config he dir w = (w', ConfigRead)" "es = []"
    | (created) w1 where "he_read_config he dir w = (w1, ConfigNotFound)"
        "he_create he (path_join [dir, ''config'']) w1 = (w', None)"
        "es = [EvPrint (new_config_notice (path_join [dir, ''config'']))]"
proof -
  obtain w1 r where r: "he_read_config he dir w = (w1, r)" by fastforce
  show thesis
  proof (cases r)
    case ConfigRead
    with assms r show thesis by (intro found) (simp_all add: config_Load_def creturn_def)
  next
    case ConfigNotFound
    obtain w2 e where e: "he_create he (path_join [dir, ''config'']) w1 = (w2, e)" by fastforce
    with assms r ConfigNotFound show thesis
      by (intro created) (cases e; simp add: config_Load_def Touch_def cthen_def cbind_def cstep_def clift_def
          creturn_def cprint_def cemit_def Let_def)+
  next
    case (ConfigBad x)
    with assms r show thesis by (simp add: config_Load_def clift_def)
  qed
qed

text \<open>What a start that returns has done.\<close>

lemma EnsureDir_Val: "EnsureDir he d w = (w', es, Val e) \<Longrightarrow> es = []"
  by (auto simp: EnsureDir_def cbind_Val_iff cread_def cstep_def creturn_def split: if_splits prod.splits)

lemma config_init_Val:
  assumes "config_init he w = (w', es, Val d)" and "he_user he = Inr home"
  shows "d = path_join [home, ''.digi''] \<and> (\<exists>w1. config_Load he d w1 = (w', es, Val ()))"
proof -
  let ?dir = "path_join [home, ''.digi'']"
  from assms obtain w1 es1 e es2 where e: "EnsureDir he ?dir w = (w1, es1, Val e)" "es = es1 @ es2"
    "(case e of Some (True, err) \<Rightarrow> clift (Panic (err_text err))
      | _ \<Rightarrow> cthen (config_Load he ?dir) (creturn ?dir)) w1 = (w', es2, Val d)"
    by (auto simp: config_init_def Let_def cbind_Val_iff)
  then have "cthen (config_Load he ?dir) (creturn ?dir) w1 = (w', es2, Val d)"
    by (auto simp: clift_def split: option.splits bool.splits)
  with e EnsureDir_Val [OF e(1)] show ?thesis by (auto simp: cthen_def cbind_Val_iff creturn_def)
qed

lemma init_packages_Val:
  assumes "init_packages he w = (w', es, Val dirs)" and "he_user he = Inr home"
  obtains w1 w2 es1 es2 home2 where
    "config_Load he (path_join [home, ''.digi'']) w1 = (w2, es1, Val ())"
    "config_Load he (path_join [home, ''.digi'']) w2 = (w', es2, Val ())" "es = es1 @ es2"
    "he_home he = Inr home2"
    "dirs = (path_join [home, ''.digi''], path_join [home, ''.kube'', ''config''], path_join [home2, ''.digi''])"
proof -
  from assms obtain w2 es1 d es2 home2 where c: "config_init he w = (w2, es1, Val d)"
    "config_Load he d w2 = (w', es2, Val ())" "es = es1 @ es2" "he_home he = Inr home2"
    "dirs = (d, path_join [home, ''.kube'', ''config''], path_join [home2, ''.digi''])"
    by (auto simp: init_packages_def k8s_init_def alias_init_def helper_init_def cbind_Val_iff cthen_def
        creturn_def cfatal_def clift_def split: sum.splits)
  with config_init_Val [OF c(1) assms(2)] that show thesis by blast
qed

lemma init_packages_quiet:
  assumes "he_user he = Inr home" "he_home he = Inr home2" "\<not> he_missing he (path_join [home, ''.digi'']) w"
    and "config_Load he (path_join [home, ''.digi'']) w = (w, [], Val ())"
  shows "init_packages he w = (w, [], Val (path_join [home, ''.digi''], path_join [home, ''.kube'', ''config''],
    path_join [home2, ''.digi'']))"
  using assms
  by (simp add: init_packages_def config_init_def k8s_init_def alias_init_def helper_init_def EnsureDir_def
      cthen_def cbind_def creturn_def cread_def Let_def)

text \<open>
  The first start prints at most one notice, the one of a new configuration file, although it loads
  the configuration twice and goes on after it; and every later start finds everything in place.
\<close>

theorem second_start_quiet:
  assumes "he_user he = Inr home" and "home_laws he (path_join [home, ''.digi''])"
    and "init_packages he w = (w1, es, Val dirs)" and "\<not> he_missing he (path_join [home, ''.digi'']) w1"
  shows "(es = [] \<or> es = [EvPrint (new_config_notice (path_join [path_join [home, ''.digi''], ''config'']))]) \<and>
    init_packages he w1 = (w1, [], Val dirs)"
proof -
  let ?dir = "path_join [home, ''.digi'']"
  note L = home_lawsD [OF assms(2)]
  obtain wa wb es1 es2 home2 where run: "config_Load he ?dir wa = (wb, es1, Val ())"
    "config_Load he ?dir wb = (w1, es2, Val ())" "es = es1 @ es2"
    and home2: "he_home he = Inr home2" "dirs = (?dir, path_join [home, ''.kube'', ''config''], path_join [home2, ''.digi''])"
    by (rule init_packages_Val [OF assms(3,1)])
  have first: "snd (he_read_config he ?dir wb) \<noteq> ConfigNotFound"
  proof (rule config_Load_Val [OF run(1)])
    show ?thesis if "he_read_config he ?dir wa = (wb, ConfigRead)" using L(2) [OF that] by simp
    show ?thesis if "he_create he (path_join [?dir, ''config'']) w1 = (wb, None)" for w1 by (rule L(1) [OF that])
  qed
  have second: "he_read_config he ?dir wb = (w1, ConfigRead) \<and> es2 = []"
  proof (rule config_Load_Val [OF run(2)])
    show ?thesis if "he_read_config he ?dir wb = (v, ConfigNotFound)" for v using that first by simp
  qed simp
  then have "he_read_config he ?dir w1 = (w1, ConfigRead)" using L(2) by blast
  then have "config_Load he ?dir w1 = (w1, [], Val ())"
    by (simp add: config_Load_def cbind_def cstep_def creturn_def)
  from init_packages_quiet [OF assms(1) home2(1) assms(4) this]
  have again: "init_packages he w1 = (w1, [], Val dirs)" by (simp only: home2(2))
  have "es1 = [] \<or> es1 = [EvPrint (new_config_notice (path_join [?dir, ''config'']))]"
    by (rule config_Load_Val [OF run(1)]) simp_all
  with second run(3) again show ?thesis by simp
qed

text \<open>A home directory: whether \<open>.digi\<close> and the file in it are there.\<close>

definition fresh_home :: "(bool \<times> bool) home_env" where
  "fresh_home = \<lparr>he_user = Inr ''/home/u'', he_home = Inr ''/home/u'', he_missing = (\<lambda>f w. \<not> fst w),
     he_mkdir = (\<lambda>d w. ((True, snd w), None)),
     he_create = (\<lambda>f w. if fst w then ((True, True), None) else (w, Some (Err ''no such file or directory''))),
     he_read_config = (\<lambda>d w. (w, if snd w then ConfigRead else ConfigNotFound))\<rparr>"

lemma fresh_home_laws: "home_laws fresh_home d"
  by (auto simp: home_laws_def fresh_home_def split: if_splits)

lemma second_start_quiet_witness:
  "init_packages fresh_home (False, False) = ((True, True),
     [EvPrint (''digi: new config file at: /home/u/.digi/config; try again'' @ [CHR 0x0A])],
     Val (''/home/u/.digi'', ''/home/u/.kube/config'', ''/home/u/.digi'')) \<and>
   init_packages fresh_home (True, True) =
     ((True, True), [], Val (''/home/u/.digi'', ''/home/u/.kube/config'', ''/home/u/.digi''))"
proof -
  have first: "init_packages fresh_home (False, False) = ((True, True),
     [EvPrint (''digi: new config file at: /home/u/.digi/config; try again'' @ [CHR 0x0A])],
     Val (''/home/u/.digi'', ''/home/u/.kube/config'', ''/home/u/.digi''))" by code_simp
  have "he_user fresh_home = Inr ''/home/u''" "\<not> he_missing fresh_home d (True, True)" for d
    by (simp_all add: fresh_home_def)
  from second_start_quiet [OF this(1) fresh_home_laws first this(2)] first show ?thesis by blast
qed

text \<open>Without the right to make the directory, the error is dropped and the start ends in a panic later.\<close>

lemma mkdir_error_dropped:
  assumes "he_user he = Inr home" "he_missing he (path_join [home, ''.digi'']) w"
    and "he_mkdir he (path_join [home, ''.digi'']) w = (w1, Some (False, e))"
    and "he_read_config he (path_join [home, ''.digi'']) w1 = (w2, ConfigNotFound)"
    and "he_create he (path_join [path_join [home, ''.digi''], ''config'']) w2 = (w3, Some e')"
  shows "init_packages he w = (w3, [], Panic (err_text e'))"
  using assms
  by (simp add: init_packages_def config_init_def EnsureDir_def config_Load_def Touch_def cbind_def cthen_def
      cread_def cstep_def clift_def Let_def)

end
