(* ===== verification/Ctx_Config.thy ===== *)
theory Ctx_Config
  imports Prelude
begin

text \<open>
  The kube config file of the context sidecar, \<open>sidecar/ctx/internal/kubeconfig\<close>: a tree of YAML
  nodes that the operations read and change in place. A pointer into the tree is the index of the
  child in the \<open>Content\<close> of its parent, and a write through it replaces that child. The abstract
  configuration is the list of contexts, each a name and a namespace, with the current context;
  the operations refine the obvious functions on it.
\<close>

section \<open>YAML nodes\<close>

text \<open>
  The fields of \<open>yaml.Node\<close> the code reads or writes. The \<open>Content\<close> of a mapping holds its keys and
  values in turn.
\<close>

datatype ykind = DocumentNode | SequenceNode | MappingNode | ScalarNode | AliasNode

datatype ynode = YNode (nd_Kind: ykind) (nd_Tag: string) (nd_Value: string) (nd_Content: "ynode list")

definition set_Value :: "string \<Rightarrow> ynode \<Rightarrow> ynode" where
  "set_Value v n = YNode (nd_Kind n) (nd_Tag n) v (nd_Content n)"

definition set_Content :: "ynode list \<Rightarrow> ynode \<Rightarrow> ynode" where
  "set_Content cs n = YNode (nd_Kind n) (nd_Tag n) (nd_Value n) cs"

definition child_at :: "ynode \<Rightarrow> nat \<Rightarrow> ynode" where
  "child_at n i = nd_Content n ! i"

definition set_child :: "nat \<Rightarrow> ynode \<Rightarrow> ynode \<Rightarrow> ynode" where
  "set_child i c n = set_Content ((nd_Content n)[i := c]) n"

definition append_children :: "ynode list \<Rightarrow> ynode \<Rightarrow> ynode" where
  "append_children cs n = set_Content (nd_Content n @ cs) n"

definition str_node :: "string \<Rightarrow> ynode" where
  "str_node s = YNode ScalarNode ''!!str'' s []"

definition scalar_is :: "string \<Rightarrow> ynode \<Rightarrow> bool" where
  "scalar_is s n \<longleftrightarrow> nd_Kind n = ScalarNode \<and> nd_Value n = s"

text \<open>The index of the value of a key; a key without a value would be read out of range.\<close>

fun value_from :: "string \<Rightarrow> ynode list \<Rightarrow> nat \<Rightarrow> nat option outcome" where
  "value_from key [] i = Val None"
| "value_from key [ch] i =
     (if scalar_is key ch then Panic ''index out of range'' else Val None)"
| "value_from key (ch # v # cs) i =
     (if scalar_is key ch then Val (Some (Suc i)) else value_from key cs (i + 2))"

definition valueOf :: "ynode \<Rightarrow> string \<Rightarrow> nat option outcome" where
  "valueOf mapNode key =
     (if nd_Kind mapNode \<noteq> MappingNode then Val None else value_from key (nd_Content mapNode) 0)"

section \<open>Contexts\<close>

definition nil_node :: string where
  "nil_node = ''invalid memory address or nil pointer dereference''"

definition contextsNode :: "ynode \<Rightarrow> (err + nat) outcome" where
  "contextsNode root = obind (valueOf root ''contexts'') (\<lambda>r.
     case r of
       None \<Rightarrow> Val (Inl (Err ''\"contexts\" entry is nil''))
     | Some i \<Rightarrow>
         (if nd_Kind (child_at root i) \<noteq> SequenceNode
          then Val (Inl (Err ''\"contexts\" is not a sequence node''))
          else Val (Inr i)))"

text \<open>The loops of \<open>contextNode\<close> and \<open>ModifyContextName\<close> read the kind of a name that may be nil.\<close>

fun context_index :: "string \<Rightarrow> ynode list \<Rightarrow> nat \<Rightarrow> nat option outcome" where
  "context_index nm [] j = Val None"
| "context_index nm (c # cs) j = obind (valueOf c ''name'') (\<lambda>r.
     case r of
       None \<Rightarrow> Panic nil_node
     | Some i \<Rightarrow> if scalar_is nm (child_at c i) then Val (Some j) else context_index nm cs (Suc j))"

definition contextNode :: "ynode \<Rightarrow> string \<Rightarrow> (err + nat \<times> nat) outcome" where
  "contextNode root nm = obind (contextsNode root) (\<lambda>r.
     case r of
       Inl e \<Rightarrow> Val (Inl e)
     | Inr i \<Rightarrow> obind (context_index nm (nd_Content (child_at root i)) 0) (\<lambda>q.
         case q of
           None \<Rightarrow> Val (Inl (Err (''context with name \"'' @ nm @ ''\" not found'')))
         | Some j \<Rightarrow> Val (Inr (i, j))))"

fun entry_names :: "ynode list \<Rightarrow> string list outcome" where
  "entry_names [] = Val []"
| "entry_names (c # cs) = obind (valueOf c ''name'') (\<lambda>r. obind (entry_names cs) (\<lambda>ns.
     Val (case r of None \<Rightarrow> ns | Some i \<Rightarrow> nd_Value (child_at c i) # ns)))"

definition ContextNames :: "ynode \<Rightarrow> string list outcome" where
  "ContextNames root = obind (valueOf root ''contexts'') (\<lambda>r.
     case r of
       None \<Rightarrow> Val []
     | Some i \<Rightarrow>
         (if nd_Kind (child_at root i) \<noteq> SequenceNode then Val []
          else entry_names (nd_Content (child_at root i))))"

definition ContextExists :: "ynode \<Rightarrow> string \<Rightarrow> bool outcome" where
  "ContextExists root nm = obind (ContextNames root) (\<lambda>ns. Val (nm \<in> set ns))"

section \<open>Changing contexts\<close>

text \<open>The loop of \<open>DeleteContextEntry\<close> passes over entries without a name.\<close>

fun entry_index :: "string \<Rightarrow> ynode list \<Rightarrow> nat \<Rightarrow> nat option outcome" where
  "entry_index nm [] j = Val None"
| "entry_index nm (c # cs) j = obind (valueOf c ''name'') (\<lambda>r.
     case r of
       None \<Rightarrow> entry_index nm cs (Suc j)
     | Some i \<Rightarrow> if scalar_is nm (child_at c i) then Val (Some j) else entry_index nm cs (Suc j))"

definition remove_at :: "nat \<Rightarrow> 'a list \<Rightarrow> 'a list" where
  "remove_at i xs = take i xs @ drop (Suc i) xs"

definition DeleteContextEntry :: "ynode \<Rightarrow> string \<Rightarrow> (err + ynode) outcome" where
  "DeleteContextEntry root deleteName = obind (contextsNode root) (\<lambda>r.
     case r of
       Inl e \<Rightarrow> Val (Inl e)
     | Inr i \<Rightarrow>
         (let contexts = child_at root i in
          obind (entry_index deleteName (nd_Content contexts) 0) (\<lambda>q.
            Val (Inr (case q of
              None \<Rightarrow> root
            | Some j \<Rightarrow> set_child i (set_Content (remove_at j (nd_Content contexts)) contexts) root)))))"

definition ModifyContextName :: "ynode \<Rightarrow> string \<Rightarrow> string \<Rightarrow> (err + ynode) outcome" where
  "ModifyContextName root old new = obind (contextsNode root) (\<lambda>r.
     case r of
       Inl e \<Rightarrow> Val (Inl e)
     | Inr i \<Rightarrow>
         (let contexts = child_at root i in
          obind (context_index old (nd_Content contexts) 0) (\<lambda>q.
            case q of
              None \<Rightarrow> Val (Inl (Err ''no changes were made''))
            | Some j \<Rightarrow>
                (let ctx = child_at contexts j in
                 obind (valueOf ctx ''name'') (\<lambda>k.
                   case k of
                     None \<Rightarrow> Panic nil_node
                   | Some k' \<Rightarrow> Val (Inr (set_child i (set_child j
                       (set_child k' (set_Value new (child_at ctx k')) ctx) contexts) root)))))))"

section \<open>The current context\<close>

definition GetCurrentContext :: "ynode \<Rightarrow> string outcome" where
  "GetCurrentContext root = obind (valueOf root ''current-context'') (\<lambda>v.
     Val (case v of None \<Rightarrow> [] | Some i \<Rightarrow> nd_Value (child_at root i)))"

definition UnsetCurrentContext :: "ynode \<Rightarrow> ynode outcome" where
  "UnsetCurrentContext root = obind (valueOf root ''current-context'') (\<lambda>v.
     case v of
       None \<Rightarrow> Panic nil_node
     | Some i \<Rightarrow> Val (set_child i (set_Value [] (child_at root i)) root))"

definition ModifyCurrentContext :: "ynode \<Rightarrow> string \<Rightarrow> ynode outcome" where
  "ModifyCurrentContext root nm = obind (valueOf root ''current-context'') (\<lambda>v.
     Val (case v of
       Some i \<Rightarrow> set_child i (set_Value nm (child_at root i)) root
     | None \<Rightarrow> append_children [str_node ''current-context'', str_node nm] root))"

section \<open>Namespaces\<close>

definition defaultNamespace :: string where
  "defaultNamespace = ''default''"

definition NamespaceOfContext :: "ynode \<Rightarrow> string \<Rightarrow> (err + string) outcome" where
  "NamespaceOfContext root contextName = obind (contextNode root contextName) (\<lambda>r.
     case r of
       Inl e \<Rightarrow> Val (Inl e)
     | Inr (i, j) \<Rightarrow>
         (let ctx = child_at (child_at root i) j in
          obind (valueOf ctx ''context'') (\<lambda>b.
            case b of
              None \<Rightarrow> Val (Inr defaultNamespace)
            | Some k \<Rightarrow> obind (valueOf (child_at ctx k) ''namespace'') (\<lambda>n.
                case n of
                  None \<Rightarrow> Val (Inr defaultNamespace)
                | Some m \<Rightarrow>
                    (let ns = nd_Value (child_at (child_at ctx k) m) in
                     Val (Inr (if ns = [] then defaultNamespace else ns)))))))"

definition put_namespace :: "string \<Rightarrow> ynode \<Rightarrow> ynode outcome" where
  "put_namespace ns ctxBody = obind (valueOf ctxBody ''namespace'') (\<lambda>n.
     Val (case n of
       Some m \<Rightarrow> set_child m (set_Value ns (child_at ctxBody m)) ctxBody
     | None \<Rightarrow> append_children [str_node ''namespace'', str_node ns] ctxBody))"

definition put_context_namespace :: "string \<Rightarrow> ynode \<Rightarrow> ynode outcome" where
  "put_context_namespace ns ctx = obind (valueOf ctx ''context'') (\<lambda>b.
     case b of
       None \<Rightarrow> obind (put_namespace ns (YNode MappingNode [] [] [])) (\<lambda>body.
         Val (append_children [str_node ''context'', body] ctx))
     | Some k \<Rightarrow> obind (put_namespace ns (child_at ctx k)) (\<lambda>body. Val (set_child k body ctx)))"

definition SetNamespace :: "ynode \<Rightarrow> string \<Rightarrow> string \<Rightarrow> (err + ynode) outcome" where
  "SetNamespace root ctxName ns = obind (contextNode root ctxName) (\<lambda>r.
     case r of
       Inl e \<Rightarrow> Val (Inl e)
     | Inr (i, j) \<Rightarrow> obind (put_context_namespace ns (child_at (child_at root i) j)) (\<lambda>ctx.
         Val (Inr (set_child i (set_child j ctx (child_at root i)) root))))"

section \<open>Fields of a mapping\<close>

text \<open>
  What the encoder reads of a node: a tree without aliases whose mappings have a value for every
  key and whose scalars have a tag.
\<close>

fun yaml_plain :: "ynode \<Rightarrow> bool" where
  "yaml_plain (YNode k t v cs) \<longleftrightarrow>
     (k = ScalarNode \<and> t \<noteq> [] \<or> k = SequenceNode \<or> k = MappingNode \<and> even (length cs)) \<and>
     (\<forall>c \<in> set cs. yaml_plain c)"

text \<open>The value of a key, with an odd end of the content ignored.\<close>

definition field :: "ynode \<Rightarrow> string \<Rightarrow> ynode option" where
  "field n key = (case valueOf n key of Val (Some i) \<Rightarrow> Some (child_at n i) | _ \<Rightarrow> None)"

lemma node_sel [simp]:
  "nd_Kind (set_Value v n) = nd_Kind n" "nd_Value (set_Value v n) = v"
  "nd_Content (set_Value v n) = nd_Content n" "nd_Tag (set_Value v n) = nd_Tag n"
  "nd_Kind (set_Content cs n) = nd_Kind n" "nd_Value (set_Content cs n) = nd_Value n"
  "nd_Content (set_Content cs n) = cs" "nd_Tag (set_Content cs n) = nd_Tag n"
  "nd_Kind (set_child i c n) = nd_Kind n" "nd_Value (set_child i c n) = nd_Value n"
  "nd_Content (set_child i c n) = (nd_Content n)[i := c]" "nd_Tag (set_child i c n) = nd_Tag n"
  "nd_Kind (append_children cs n) = nd_Kind n" "nd_Value (append_children cs n) = nd_Value n"
  "nd_Content (append_children cs n) = nd_Content n @ cs" "nd_Tag (append_children cs n) = nd_Tag n"
  "nd_Kind (str_node s) = ScalarNode" "nd_Value (str_node s) = s" "nd_Content (str_node s) = []"
  "nd_Tag (str_node s) = ''!!str''"
  by (simp_all add: set_Value_def set_Content_def set_child_def append_children_def str_node_def)

lemma node_eqI:
  "nd_Kind m = nd_Kind n \<Longrightarrow> nd_Tag m = nd_Tag n \<Longrightarrow> nd_Value m = nd_Value n \<Longrightarrow>
   nd_Content m = nd_Content n \<Longrightarrow> m = n"
  by (cases m; cases n) simp

lemma yaml_plain_iff:
  "yaml_plain n \<longleftrightarrow>
     (nd_Kind n = ScalarNode \<and> nd_Tag n \<noteq> [] \<or> nd_Kind n = SequenceNode \<or>
      nd_Kind n = MappingNode \<and> even (length (nd_Content n))) \<and>
     (\<forall>c \<in> set (nd_Content n). yaml_plain c)"
  by (cases n) simp

lemma yaml_plain_str [simp]: "yaml_plain (str_node s)"
  by (simp add: yaml_plain_iff [of "str_node s"])

lemma yaml_plain_Value [simp]: "yaml_plain (set_Value v n) = yaml_plain n"
  by (simp add: yaml_plain_iff [of "set_Value v n"] yaml_plain_iff [of n])

lemma yaml_plain_set_child [intro]: "yaml_plain n \<Longrightarrow> yaml_plain c \<Longrightarrow> yaml_plain (set_child i c n)"
  by (auto simp: yaml_plain_iff [of n] yaml_plain_iff [of "set_child i c n"] dest: set_update_subset_insert [THEN subsetD])

lemma yaml_plain_append [intro]:
  "yaml_plain n \<Longrightarrow> yaml_plain k \<Longrightarrow> yaml_plain v \<Longrightarrow> yaml_plain (append_children [k, v] n)"
  by (auto simp: yaml_plain_iff [of n] yaml_plain_iff [of "append_children [k, v] n"])

lemma yaml_plain_child: "yaml_plain n \<Longrightarrow> i < length (nd_Content n) \<Longrightarrow> yaml_plain (child_at n i)"
  by (simp add: yaml_plain_iff [of n] child_at_def)

lemma value_from_total: "even (length cs) \<Longrightarrow> \<exists>r. value_from key cs i = Val r"
  by (induction key cs i rule: value_from.induct) auto

lemma value_from_Some:
  "value_from key cs i = Val (Some j) \<Longrightarrow>
     i < j \<and> j < i + length cs \<and> odd (j - i) \<and> scalar_is key (cs ! (j - Suc i))"
proof (induction key cs i rule: value_from.induct)
  case (3 key ch v cs i)
  show ?case
  proof (cases "scalar_is key ch")
    case False
    with 3 have IH: "i + 2 < j" "j < i + 2 + length cs" "odd (j - (i + 2))"
        "scalar_is key (cs ! (j - Suc (i + 2)))" by auto
    from IH(1) have "j - Suc i = Suc (Suc (j - Suc (i + 2)))" "j - i = Suc (Suc (j - (i + 2)))"
      by linarith+
    with IH show ?thesis by simp
  qed (use 3 in auto)
qed (auto split: if_splits)

lemma value_from_update:
  "odd p \<Longrightarrow> value_from key (cs[p := c]) i = value_from key cs i"
proof (induction key cs i arbitrary: p rule: value_from.induct)
  case (3 key ch v cs i)
  then obtain q where q: "p = Suc q" by (cases p) auto
  show ?case
  proof (cases q)
    case (Suc r)
    with 3 q have "value_from key (cs[r := c]) (i + 2) = value_from key cs (i + 2)" if "\<not> scalar_is key ch"
      using that by simp
    with q Suc show ?thesis by simp
  qed (simp add: q)
qed (auto elim: oddE)

lemma value_from_append:
  "even (length cs) \<Longrightarrow> value_from key (cs @ ds) i =
     (case value_from key cs i of Val None \<Rightarrow> value_from key ds (i + length cs) | r \<Rightarrow> r)"
  by (induction key cs i rule: value_from.induct) (auto split: outcome.split option.split)

lemma valueOf_Some:
  assumes "valueOf n key = Val (Some i)"
  shows "nd_Kind n = MappingNode" "i < length (nd_Content n)" "odd i"
    "scalar_is key (child_at n (i - 1))" "field n key = Some (child_at n i)"
  using assms value_from_Some [of key "nd_Content n" 0 i]
  by (auto simp: valueOf_def field_def child_at_def split: if_splits)

lemma valueOf_plain_cases:
  assumes "yaml_plain n"
  obtains (None) "valueOf n key = Val None" "field n key = None"
    | (Some) i where "valueOf n key = Val (Some i)" "field n key = Some (child_at n i)"
proof -
  obtain r where "valueOf n key = Val r"
    using assms value_from_total [of "nd_Content n" key 0]
    by (auto simp: valueOf_def yaml_plain_iff [of n])
  then show thesis by (cases r) (auto simp: field_def intro: that)
qed

lemma field_plain: "yaml_plain n \<Longrightarrow> field n key = Some c \<Longrightarrow> yaml_plain c"
  by (cases rule: valueOf_plain_cases [of n key]) (auto intro: yaml_plain_child dest: valueOf_Some(2))

lemma valueOf_set_child [simp]: "odd i \<Longrightarrow> valueOf (set_child i c n) key = valueOf n key"
  by (simp add: valueOf_def value_from_update)

lemma field_set_child:
  assumes "valueOf n k = Val (Some i)"
  shows "field (set_child i c n) key = (if key = k then Some c else field n key)"
proof (cases "key = k")
  case False
  have "j \<noteq> i" if "valueOf n key = Val (Some j)" for j
    using valueOf_Some(4) [OF that] valueOf_Some(4) [OF assms] False by (auto simp: scalar_is_def)
  with False show ?thesis
    by (auto simp: field_def valueOf_Some(3) [OF assms] child_at_def split: outcome.split option.split)
qed (use valueOf_Some [OF assms] assms in \<open>simp add: field_def child_at_def\<close>)

lemma field_append:
  assumes "yaml_plain n" "nd_Kind n = MappingNode" "field n k = None"
  shows "field (append_children [str_node k, c] n) key = (if key = k then Some c else field n key)"
proof -
  have even: "even (length (nd_Content n))" using assms by (auto simp: yaml_plain_iff [of n])
  have none: "value_from k (nd_Content n) 0 = Val None"
    using assms(2) by (cases rule: valueOf_plain_cases [OF assms(1), of k]) (auto simp: assms(3) valueOf_def)
  from assms(1) show ?thesis
  proof (cases rule: valueOf_plain_cases [of n key])
    case None
    with assms(2) have "value_from key (nd_Content n) 0 = Val None" by (simp add: valueOf_def)
    with None even assms(2) show ?thesis
      by (auto simp: field_def valueOf_def value_from_append scalar_is_def child_at_def nth_append)
  next
    case (Some i)
    with none assms(2) have "value_from key (nd_Content n) 0 = Val (Some i)" "key \<noteq> k"
      by (auto simp: valueOf_def)
    with Some even assms(2) valueOf_Some(2) [OF Some(1)] show ?thesis
      by (simp add: field_def valueOf_def value_from_append child_at_def nth_append)
  qed
qed


section \<open>The abstract configuration\<close>

text \<open>
  A configuration file in the usual form: every context has a scalar name, and a mapping for a body
  if it has one. A missing or empty namespace is the default one.
\<close>

record context_config =
  cc_contexts :: "(string \<times> string) list"
  cc_current :: string

definition scalar_or :: "string \<Rightarrow> ynode option \<Rightarrow> string option" where
  "scalar_or d v = (case v of
     None \<Rightarrow> Some d
   | Some n \<Rightarrow> if nd_Kind n \<noteq> ScalarNode then None else Some (if nd_Value n = [] then d else nd_Value n))"

definition namespace_view :: "ynode \<Rightarrow> string option" where
  "namespace_view c = (case field c ''context'' of
     None \<Rightarrow> Some defaultNamespace
   | Some b \<Rightarrow> if nd_Kind b \<noteq> MappingNode then None else scalar_or defaultNamespace (field b ''namespace''))"

definition entry_view :: "ynode \<Rightarrow> (string \<times> string) option" where
  "entry_view c = (case field c ''name'' of
     None \<Rightarrow> None
   | Some x \<Rightarrow>
       (if nd_Kind x \<noteq> ScalarNode then None else map_option (Pair (nd_Value x)) (namespace_view c)))"

definition entries_of :: "ynode \<Rightarrow> (string \<times> string) list option" where
  "entries_of s = (if nd_Kind s \<noteq> SequenceNode then None else those (map entry_view (nd_Content s)))"

definition config_of :: "ynode \<Rightarrow> context_config option" where
  "config_of root =
     (if \<not> yaml_plain root \<or> nd_Kind root \<noteq> MappingNode then None
      else case (Option.bind (field root ''contexts'') entries_of, scalar_or [] (field root ''current-context'')) of
        (Some cs, Some cur) \<Rightarrow> Some \<lparr>cc_contexts = cs, cc_current = cur\<rparr>
      | _ \<Rightarrow> None)"

text \<open>What the operations do to the list of contexts: each changes the first of the name.\<close>

fun first_at :: "string \<Rightarrow> (string \<times> 'v) list \<Rightarrow> nat option" where
  "first_at x [] = None"
| "first_at x ((n, v) # cs) = (if n = x then Some 0 else map_option Suc (first_at x cs))"

fun delete_first :: "string \<Rightarrow> (string \<times> 'v) list \<Rightarrow> (string \<times> 'v) list" where
  "delete_first x [] = []"
| "delete_first x ((n, v) # cs) = (if n = x then cs else (n, v) # delete_first x cs)"

fun change_first :: "string \<Rightarrow> (string \<times> 'v \<Rightarrow> string \<times> 'v) \<Rightarrow> (string \<times> 'v) list \<Rightarrow> (string \<times> 'v) list" where
  "change_first x f [] = []"
| "change_first x f ((n, v) # cs) = (if n = x then f (n, v) # cs else (n, v) # change_first x f cs)"

lemma first_at_None: "first_at x cs = None \<longleftrightarrow> x \<notin> fst ` set cs"
  by (induction x cs rule: first_at.induct) auto

lemma first_at_Some:
  "first_at x cs = Some j \<Longrightarrow>
     j < length cs \<and> fst (cs ! j) = x \<and> map_of cs x = Some (snd (cs ! j)) \<and>
     remove_at j cs = delete_first x cs \<and> cs[j := f (cs ! j)] = change_first x f cs"
  by (induction x cs arbitrary: j rule: first_at.induct)
    (auto simp: remove_at_def split: if_splits)

lemma in_set_delete_first: "p \<in> set (delete_first x cs) \<Longrightarrow> p \<in> set cs"
  by (induction cs) (auto split: if_splits)

lemma delete_first_distinct: "distinct (map fst cs) \<Longrightarrow> x \<notin> fst ` set (delete_first x cs)"
  by (induction x cs rule: delete_first.induct) auto

lemma map_remove_at: "map f (remove_at i xs) = remove_at i (map f xs)"
  by (simp add: remove_at_def take_map drop_map)

lemma delete_first_None: "first_at x cs = None \<Longrightarrow> delete_first x cs = cs"
  by (induction x cs rule: first_at.induct) (auto split: if_splits)

lemma those_Some_iff: "those xs = Some ys \<longleftrightarrow> xs = map Some ys"
  by (induction xs arbitrary: ys) (auto split: option.splits simp: Cons_eq_map_conv)

text \<open>The abstract configuration of a tree, by its fields.\<close>

lemma config_ofD:
  assumes "config_of root = Some cfg"
  obtains s where "yaml_plain root" "nd_Kind root = MappingNode" "field root ''contexts'' = Some s"
    "nd_Kind s = SequenceNode" "map entry_view (nd_Content s) = map Some (cc_contexts cfg)"
    "scalar_or [] (field root ''current-context'') = Some (cc_current cfg)"
  using assms
  by (auto simp: config_of_def entries_of_def those_Some_iff bind_eq_Some_conv split: if_splits option.splits)

lemma config_ofI:
  assumes "yaml_plain root" "nd_Kind root = MappingNode" "field root ''contexts'' = Some s"
    "nd_Kind s = SequenceNode" "map entry_view (nd_Content s) = map Some (cc_contexts cfg)"
    "scalar_or [] (field root ''current-context'') = Some (cc_current cfg)"
  shows "config_of root = Some cfg"
proof -
  have "those (map entry_view (nd_Content s)) = Some (cc_contexts cfg)"
    by (simp add: those_Some_iff assms(5))
  with assms show ?thesis by (simp add: config_of_def entries_of_def)
qed

lemma entry_viewD:
  assumes "entry_view c = Some (n, ns)" "yaml_plain c"
  obtains i where "valueOf c ''name'' = Val (Some i)" "scalar_is n (child_at c i)" "namespace_view c = Some ns"
    "nd_Kind c = MappingNode"
proof (cases rule: valueOf_plain_cases [OF assms(2), of "''name''"])
qed (use assms in \<open>auto simp: entry_view_def scalar_is_def split: if_splits dest: valueOf_Some intro: that\<close>)

text \<open>The two loops find the first context of a name.\<close>

lemma index_of_entry:
  assumes "map entry_view cs = map Some acs" "\<forall>c \<in> set cs. yaml_plain c"
  shows "context_index x cs j = Val (map_option (\<lambda>i. i + j) (first_at x acs))"
    and "entry_index x cs j = Val (map_option (\<lambda>i. i + j) (first_at x acs))"
    and "entry_names cs = Val (map fst acs)"
  using assms
proof (induction cs arbitrary: acs j)
  case (Cons c cs)
  case 1 with Cons.IH show ?case
    by (auto simp: Cons_eq_map_conv scalar_is_def option.map_comp o_def elim!: entry_viewD split: option.split)
next
  case (Cons c cs)
  case 2 with Cons.IH show ?case
    by (auto simp: Cons_eq_map_conv scalar_is_def option.map_comp o_def elim!: entry_viewD)
next
  case (Cons c cs)
  case 3 with Cons.IH show ?case
    by (auto simp: Cons_eq_map_conv scalar_is_def elim!: entry_viewD)
qed auto


lemma config_contexts:
  assumes "config_of root = Some cfg"
  obtains i where "valueOf root ''contexts'' = Val (Some i)" "yaml_plain root" "nd_Kind root = MappingNode"
    "nd_Kind (child_at root i) = SequenceNode" "yaml_plain (child_at root i)"
    "map entry_view (nd_Content (child_at root i)) = map Some (cc_contexts cfg)"
    "\<forall>c \<in> set (nd_Content (child_at root i)). yaml_plain c"
    "scalar_or [] (field root ''current-context'') = Some (cc_current cfg)"
proof -
  obtain s where s: "yaml_plain root" "nd_Kind root = MappingNode" "field root ''contexts'' = Some s"
    "nd_Kind s = SequenceNode" "map entry_view (nd_Content s) = map Some (cc_contexts cfg)"
    "scalar_or [] (field root ''current-context'') = Some (cc_current cfg)"
    by (rule config_ofD [OF assms])
  then obtain i where "valueOf root ''contexts'' = Val (Some i)" "s = child_at root i"
    by (cases rule: valueOf_plain_cases [OF s(1), of "''contexts''"]) auto
  with s show thesis
    using field_plain [OF s(1,3)] by (auto intro!: that simp: yaml_plain_iff [of "child_at root i"])
qed

lemma config_set_contexts:
  assumes "config_of root = Some cfg" "valueOf root ''contexts'' = Val (Some i)"
    and "yaml_plain s" "nd_Kind s = SequenceNode" "map entry_view (nd_Content s) = map Some acs"
  shows "config_of (set_child i s root) = Some (cfg\<lparr>cc_contexts := acs\<rparr>)"
proof (rule config_ofI)
  obtain i' where r: "yaml_plain root" "nd_Kind root = MappingNode"
    "scalar_or [] (field root ''current-context'') = Some (cc_current cfg)"
    by (rule config_contexts [OF assms(1)])
  show "yaml_plain (set_child i s root)" using r(1) assms(3) by (rule yaml_plain_set_child)
  show "field (set_child i s root) ''contexts'' = Some s" by (simp add: field_set_child [OF assms(2)])
  show "scalar_or [] (field (set_child i s root) ''current-context'')
      = Some (cc_current (cfg\<lparr>cc_contexts := acs\<rparr>))"
    using r(3) by (simp add: field_set_child [OF assms(2)])
qed (use assms config_ofD [OF assms(1)] in auto)

lemma contextNode_config:
  assumes "config_of root = Some cfg" "valueOf root ''contexts'' = Val (Some i)"
  shows "contextNode root x = Val (case first_at x (cc_contexts cfg) of
      None \<Rightarrow> Inl (Err (''context with name \"'' @ x @ ''\" not found''))
    | Some j \<Rightarrow> Inr (i, j))"
  using assms(2)
  by (rule_tac config_contexts [OF assms(1)])
    (auto simp: contextNode_def contextsNode_def index_of_entry split: option.split)

text \<open>Changing one entry of the list.\<close>

lemma config_set_entry:
  assumes "config_of root = Some cfg" "valueOf root ''contexts'' = Val (Some i)"
    and "first_at x (cc_contexts cfg) = Some j" "yaml_plain c"
    and "entry_view c = Some (f (cc_contexts cfg ! j))"
  shows "config_of (set_child i (set_child j c (child_at root i)) root)
    = Some (cfg\<lparr>cc_contexts := change_first x f (cc_contexts cfg)\<rparr>)"
proof -
  obtain i' where r: "valueOf root ''contexts'' = Val (Some i')" "nd_Kind (child_at root i') = SequenceNode"
    "yaml_plain (child_at root i')"
    "map entry_view (nd_Content (child_at root i')) = map Some (cc_contexts cfg)"
    by (rule config_contexts [OF assms(1)])
  with assms(2) have i: "i' = i" by simp
  have "map entry_view ((nd_Content (child_at root i))[j := c]) = map Some (change_first x f (cc_contexts cfg))"
    using first_at_Some [OF assms(3), of f] r(4) assms(5)
    by (simp add: map_update i flip: first_at_Some [OF assms(3), THEN conjunct2, THEN conjunct2,
          THEN conjunct2, THEN conjunct2])
  then show ?thesis
    using r assms(4) by (intro config_set_contexts assms(1,2)) (auto simp: i)
qed

text \<open>The entry an index points to.\<close>

lemma config_entry:
  assumes "config_of root = Some cfg" "valueOf root ''contexts'' = Val (Some i)"
    and "first_at x (cc_contexts cfg) = Some j"
  shows "yaml_plain (child_at (child_at root i) j)"
    "entry_view (child_at (child_at root i) j) = Some (cc_contexts cfg ! j)"
proof -
  obtain i' where r: "valueOf root ''contexts'' = Val (Some i')"
    "map entry_view (nd_Content (child_at root i')) = map Some (cc_contexts cfg)"
    "\<forall>c \<in> set (nd_Content (child_at root i')). yaml_plain c"
    by (rule config_contexts [OF assms(1)])
  with assms(2) have i: "i' = i" by simp
  have len: "length (nd_Content (child_at root i)) = length (cc_contexts cfg)"
    using arg_cong [OF r(2), of length] i by simp
  with first_at_Some [OF assms(3)] have j: "j < length (nd_Content (child_at root i))" by simp
  with r(3) show "yaml_plain (child_at (child_at root i) j)" by (simp add: child_at_def [of "child_at root i"] i)
  from arg_cong [OF r(2), of "\<lambda>xs. xs ! j"] j len
  show "entry_view (child_at (child_at root i) j) = Some (cc_contexts cfg ! j)"
    by (simp add: child_at_def [of "child_at root i"] i)
qed


section \<open>The operations refine their abstract functions\<close>

lemma ContextNames_config:
  assumes "config_of root = Some cfg"
  shows "ContextNames root = Val (map fst (cc_contexts cfg))"
  by (rule config_contexts [OF assms]) (simp add: ContextNames_def index_of_entry)

lemma ContextExists_config:
  assumes "config_of root = Some cfg"
  shows "ContextExists root x = Val (x \<in> fst ` set (cc_contexts cfg))"
  by (simp add: ContextExists_def ContextNames_config [OF assms])

lemma GetCurrentContext_config:
  assumes "config_of root = Some cfg"
  shows "GetCurrentContext root = Val (cc_current cfg)"
proof (rule config_ofD [OF assms])
  assume root: "yaml_plain root" "scalar_or [] (field root ''current-context'') = Some (cc_current cfg)"
  from root(1) show ?thesis
    by (cases rule: valueOf_plain_cases [of root "''current-context''"])
      (use root(2) in \<open>auto simp: GetCurrentContext_def scalar_or_def split: if_splits\<close>)
qed

lemma ModifyCurrentContext_config:
  assumes "config_of root = Some cfg"
  shows "\<exists>r. ModifyCurrentContext root x = Val r \<and> config_of r = Some (cfg\<lparr>cc_current := x\<rparr>)"
proof (rule config_ofD [OF assms])
  fix s
  assume r: "yaml_plain root" "nd_Kind root = MappingNode" "field root ''contexts'' = Some s"
    "nd_Kind s = SequenceNode" "map entry_view (nd_Content s) = map Some (cc_contexts cfg)"
    "scalar_or [] (field root ''current-context'') = Some (cc_current cfg)"
  from r(1) show ?thesis
  proof (cases rule: valueOf_plain_cases [of root "''current-context''"])
    case None
    have "config_of (append_children [str_node ''current-context'', str_node x] root)
        = Some (cfg\<lparr>cc_current := x\<rparr>)"
      using r None by (intro config_ofI [where s = s]) (auto simp: field_append scalar_or_def)
    with None show ?thesis by (simp add: ModifyCurrentContext_def)
  next
    case (Some i)
    have "config_of (set_child i (set_Value x (child_at root i)) root) = Some (cfg\<lparr>cc_current := x\<rparr>)"
      using r Some field_plain [OF r(1) Some(2)]
      by (intro config_ofI [where s = s])
        (auto simp: field_set_child [OF Some(1)] scalar_or_def split: if_splits)
    with Some show ?thesis by (simp add: ModifyCurrentContext_def)
  qed
qed

lemma DeleteContextEntry_config:
  assumes "config_of root = Some cfg"
  shows "\<exists>r. DeleteContextEntry root x = Val (Inr r) \<and>
    config_of r = Some (cfg\<lparr>cc_contexts := delete_first x (cc_contexts cfg)\<rparr>)"
proof (rule config_contexts [OF assms])
  fix i
  assume r: "valueOf root ''contexts'' = Val (Some i)" "nd_Kind (child_at root i) = SequenceNode"
    "yaml_plain (child_at root i)"
    "map entry_view (nd_Content (child_at root i)) = map Some (cc_contexts cfg)"
    "\<forall>c \<in> set (nd_Content (child_at root i)). yaml_plain c"
  show ?thesis
  proof (cases "first_at x (cc_contexts cfg)")
    case None
    with r assms show ?thesis
      by (simp add: DeleteContextEntry_def contextsNode_def index_of_entry delete_first_None)
  next
    case (Some j)
    let ?s = "set_Content (remove_at j (nd_Content (child_at root i))) (child_at root i)"
    have "map entry_view (nd_Content ?s) = map Some (delete_first x (cc_contexts cfg))"
      using first_at_Some [OF Some] r(4) by (simp add: map_remove_at flip: map_remove_at [of Some])
    moreover have "yaml_plain ?s"
      using r(2,5)
      by (subst yaml_plain_iff) (auto simp: remove_at_def dest: in_set_takeD in_set_dropD)
    ultimately have "config_of (set_child i ?s root)
        = Some (cfg\<lparr>cc_contexts := delete_first x (cc_contexts cfg)\<rparr>)"
      using r(2) by (intro config_set_contexts assms r(1)) auto
    with Some r show ?thesis
      by (simp add: DeleteContextEntry_def contextsNode_def index_of_entry Let_def)
  qed
qed

lemma ModifyContextName_config:
  assumes "config_of root = Some cfg"
  shows "if old \<in> fst ` set (cc_contexts cfg)
    then \<exists>r. ModifyContextName root old new = Val (Inr r) \<and>
      config_of r = Some (cfg\<lparr>cc_contexts := change_first old (\<lambda>(n, ns). (new, ns)) (cc_contexts cfg)\<rparr>)
    else ModifyContextName root old new = Val (Inl (Err ''no changes were made''))"
proof (rule config_contexts [OF assms])
  fix i
  assume r: "valueOf root ''contexts'' = Val (Some i)" "nd_Kind (child_at root i) = SequenceNode"
    "map entry_view (nd_Content (child_at root i)) = map Some (cc_contexts cfg)"
    "\<forall>c \<in> set (nd_Content (child_at root i)). yaml_plain c"
  show ?thesis
  proof (cases "first_at old (cc_contexts cfg)")
    case None
    with r show ?thesis
      using first_at_None [of old "cc_contexts cfg"]
      by (simp add: ModifyContextName_def contextsNode_def index_of_entry Let_def)
  next
    case (Some j)
    let ?c = "child_at (child_at root i) j"
    note c = config_entry [OF assms r(1) Some]
    obtain n ns where e: "cc_contexts cfg ! j = (n, ns)" by fastforce
    obtain k where k: "valueOf ?c ''name'' = Val (Some k)" "scalar_is n (child_at ?c k)"
      "namespace_view ?c = Some ns"
      using entry_viewD [OF c(2) [unfolded e] c(1)] by metis
    let ?c' = "set_child k (set_Value new (child_at ?c k)) ?c"
    have "yaml_plain ?c'"
      using c(1) yaml_plain_child [OF c(1) valueOf_Some(2) [OF k(1)]] by (auto intro: yaml_plain_set_child)
    moreover have "entry_view ?c' = Some (case cc_contexts cfg ! j of (n, ns) \<Rightarrow> (new, ns))"
      using k by (simp add: e entry_view_def namespace_view_def field_set_child [OF k(1)] scalar_is_def)
    ultimately have "config_of (set_child i (set_child j ?c' (child_at root i)) root)
        = Some (cfg\<lparr>cc_contexts := change_first old (\<lambda>(n, ns). (new, ns)) (cc_contexts cfg)\<rparr>)"
      by (rule config_set_entry [OF assms r(1) Some])
    with Some r k(1) show ?thesis
      using first_at_None [of old "cc_contexts cfg"]
      by (simp add: ModifyContextName_def contextsNode_def index_of_entry Let_def)
  qed
qed


lemma NamespaceOfContext_config:
  assumes "config_of root = Some cfg"
  shows "NamespaceOfContext root x = Val (case map_of (cc_contexts cfg) x of
      None \<Rightarrow> Inl (Err (''context with name \"'' @ x @ ''\" not found''))
    | Some ns \<Rightarrow> Inr ns)"
proof (rule config_contexts [OF assms])
  fix i
  assume i: "valueOf root ''contexts'' = Val (Some i)"
  show ?thesis
  proof (cases "first_at x (cc_contexts cfg)")
    case None
    with first_at_None [of x "cc_contexts cfg"] have "map_of (cc_contexts cfg) x = None"
      by (simp add: map_of_eq_None_iff)
    with None show ?thesis by (simp add: NamespaceOfContext_def contextNode_config [OF assms i])
  next
    case (Some j)
    let ?c = "child_at (child_at root i) j"
    note c = config_entry [OF assms i Some]
    obtain n ns where e: "cc_contexts cfg ! j = (n, ns)" by fastforce
    have ns: "namespace_view ?c = Some ns" using entry_viewD [OF c(2) [unfolded e] c(1)] by metis
    have m: "map_of (cc_contexts cfg) x = Some ns" using first_at_Some [OF Some] e by simp
    from c(1) show ?thesis
    proof (cases rule: valueOf_plain_cases [of ?c "''context''"])
      case None
      with ns m Some show ?thesis
        by (simp add: NamespaceOfContext_def contextNode_config [OF assms i] namespace_view_def)
    next
      case (Some k)
      then have "yaml_plain (child_at ?c k)" using field_plain c(1) by blast
      then show ?thesis
        by (cases rule: valueOf_plain_cases [of "child_at ?c k" "''namespace''"])
          (use Some ns m \<open>first_at x (cc_contexts cfg) = Some j\<close> in
            \<open>auto simp: NamespaceOfContext_def contextNode_config [OF assms i] namespace_view_def
              scalar_or_def Let_def split: if_splits\<close>)
    qed
  qed
qed

text \<open>Storing a namespace in the body of one context.\<close>

lemma put_namespace_view:
  assumes "yaml_plain b" "nd_Kind b = MappingNode" "scalar_or defaultNamespace (field b ''namespace'') \<noteq> None"
  obtains b' where "put_namespace ns b = Val b'" "yaml_plain b'" "nd_Kind b' = MappingNode"
    "scalar_or defaultNamespace (field b' ''namespace'') = Some (if ns = [] then defaultNamespace else ns)"
  using assms(1)
proof (cases rule: valueOf_plain_cases [of b "''namespace''"])
  case None
  with assms show thesis
    by (intro that [of "append_children [str_node ''namespace'', str_node ns] b"])
      (auto simp: put_namespace_def field_append scalar_or_def)
next
  case (Some m)
  with assms field_plain [OF assms(1) Some(2)] show thesis
    by (intro that [of "set_child m (set_Value ns (child_at b m)) b"])
      (auto simp: put_namespace_def field_set_child [OF Some(1)] scalar_or_def split: if_splits)
qed

lemma put_context_namespace_view:
  assumes c: "yaml_plain c" and e: "entry_view c = Some (n, ns0)"
  obtains c' where "put_context_namespace ns c = Val c'" "yaml_plain c'"
    "entry_view c' = Some (n, if ns = [] then defaultNamespace else ns)"
proof -
  obtain k where k: "valueOf c ''name'' = Val (Some k)" "scalar_is n (child_at c k)"
    "namespace_view c = Some ns0" "nd_Kind c = MappingNode"
    by (rule entry_viewD [OF e c])
  have entry: "entry_view c' = Some (n, ns')"
    if "field c' ''name'' = field c ''name''" "namespace_view c' = Some ns'" for c' ns'
    using that k(2) valueOf_Some(5) [OF k(1)] by (simp add: entry_view_def scalar_is_def)
  from c show thesis
  proof (cases rule: valueOf_plain_cases [of c "''context''"])
    case None
    have b: "yaml_plain (YNode MappingNode [] [] [])" "nd_Kind (YNode MappingNode [] [] []) = MappingNode"
      "scalar_or defaultNamespace (field (YNode MappingNode [] [] []) ''namespace'') \<noteq> None"
      by (simp_all add: field_def valueOf_def scalar_or_def)
    show thesis
      by (rule put_namespace_view [OF b, of ns],
          rule that [of "append_children [str_node ''context'', b'] c" for b'])
        (use c None k(4) in \<open>auto intro!: yaml_plain_append entry
          simp: put_context_namespace_def namespace_view_def field_append\<close>)
  next
    case (Some m)
    have b: "yaml_plain (child_at c m)" "nd_Kind (child_at c m) = MappingNode"
      "scalar_or defaultNamespace (field (child_at c m) ''namespace'') \<noteq> None"
      using k(3) Some(2) field_plain [OF c Some(2)] by (auto simp: namespace_view_def split: if_splits)
    show thesis
      by (rule put_namespace_view [OF b, of ns], rule that [of "set_child m b' c" for b'])
        (use c Some in \<open>auto intro!: yaml_plain_set_child entry
          simp: put_context_namespace_def namespace_view_def field_set_child [OF Some(1)]\<close>)
  qed
qed

lemma SetNamespace_config:
  assumes "config_of root = Some cfg"
  shows "if x \<in> fst ` set (cc_contexts cfg)
    then \<exists>r. SetNamespace root x ns = Val (Inr r) \<and>
      config_of r = Some (cfg\<lparr>cc_contexts := change_first x
        (\<lambda>(n, _). (n, if ns = [] then defaultNamespace else ns)) (cc_contexts cfg)\<rparr>)
    else SetNamespace root x ns = Val (Inl (Err (''context with name \"'' @ x @ ''\" not found'')))"
proof (rule config_contexts [OF assms])
  fix i
  assume i: "valueOf root ''contexts'' = Val (Some i)"
  show ?thesis
  proof (cases "first_at x (cc_contexts cfg)")
    case None
    with first_at_None [of x "cc_contexts cfg"] show ?thesis
      by (simp add: SetNamespace_def contextNode_config [OF assms i])
  next
    case (Some j)
    let ?f = "\<lambda>(n, _ :: string). (n, if ns = [] then defaultNamespace else ns)"
    note c = config_entry [OF assms i Some]
    obtain n ns0 where e: "cc_contexts cfg ! j = (n, ns0)" by fastforce
    obtain c' where c': "put_context_namespace ns (child_at (child_at root i) j) = Val c'" "yaml_plain c'"
      "entry_view c' = Some (?f (cc_contexts cfg ! j))"
      using put_context_namespace_view [OF c(1) c(2) [unfolded e], of ns] by (auto simp: e)
    with config_set_entry [where f = ?f, OF assms i Some c'(2,3)] Some first_at_None [of x "cc_contexts cfg"]
    show ?thesis by (simp add: SetNamespace_def contextNode_config [OF assms i])
  qed
qed


section \<open>What is written to the file\<close>

text \<open>
  The encoder writes the value of a scalar and the children of a mapping or a sequence, and nothing
  else of them; a mapping or sequence without a tag is read back with the usual one.
\<close>

fun yaml_norm :: "ynode \<Rightarrow> ynode" where
  "yaml_norm (YNode k t v cs) =
     (case k of
        ScalarNode \<Rightarrow> YNode k t v []
      | MappingNode \<Rightarrow> YNode k (if t = [] then ''!!map'' else t) [] (map yaml_norm cs)
      | SequenceNode \<Rightarrow> YNode k (if t = [] then ''!!seq'' else t) [] (map yaml_norm cs)
      | _ \<Rightarrow> YNode k t v cs)"

lemma yaml_norm_iff:
  "yaml_norm n =
     (case nd_Kind n of
        ScalarNode \<Rightarrow> YNode ScalarNode (nd_Tag n) (nd_Value n) []
      | MappingNode \<Rightarrow> YNode MappingNode (if nd_Tag n = [] then ''!!map'' else nd_Tag n) [] (map yaml_norm (nd_Content n))
      | SequenceNode \<Rightarrow> YNode SequenceNode (if nd_Tag n = [] then ''!!seq'' else nd_Tag n) [] (map yaml_norm (nd_Content n))
      | _ \<Rightarrow> n)"
  by (cases n) (simp split: ykind.split)

lemma yaml_norm_sel [simp]:
  "nd_Kind (yaml_norm n) = nd_Kind n"
  "nd_Kind n = ScalarNode \<Longrightarrow> nd_Value (yaml_norm n) = nd_Value n"
  "nd_Kind n = MappingNode \<or> nd_Kind n = SequenceNode \<Longrightarrow> nd_Content (yaml_norm n) = map yaml_norm (nd_Content n)"
  by (auto simp: yaml_norm_iff [of n] split: ykind.split)

lemma yaml_norm_idem [simp]: "yaml_norm (yaml_norm n) = yaml_norm n"
  by (induction n) (auto split: ykind.split)

lemma yaml_plain_norm: "yaml_plain n \<Longrightarrow> yaml_plain (yaml_norm n)"
  by (induction n) (auto split: ykind.split)

lemma scalar_is_norm [simp]: "scalar_is s (yaml_norm n) = scalar_is s n"
  by (auto simp: scalar_is_def)

lemma value_from_norm: "value_from key (map yaml_norm cs) i = value_from key cs i"
  by (induction key cs i rule: value_from.induct) auto

lemma valueOf_norm [simp]: "valueOf (yaml_norm n) key = valueOf n key"
  by (simp add: valueOf_def value_from_norm)

lemma field_norm [simp]: "field (yaml_norm n) key = map_option yaml_norm (field n key)"
  using valueOf_Some(1,2) [of n key]
  by (auto simp: field_def child_at_def split: outcome.split option.split)

lemma scalar_or_norm [simp]: "scalar_or d (map_option yaml_norm v) = scalar_or d v"
  by (auto simp: scalar_or_def split: option.split)

lemma entry_view_norm [simp]: "entry_view (yaml_norm c) = entry_view c"
  by (auto simp: entry_view_def namespace_view_def option.case_eq_if option.map_sel)

lemma config_of_norm:
  assumes "config_of root = Some cfg"
  shows "config_of (yaml_norm root) = Some cfg"
  by (rule config_ofD [OF assms], rule config_ofI [where s = "yaml_norm s" for s])
    (auto intro: yaml_plain_norm simp: o_def)

text \<open>A child that is written the same leaves the whole the same.\<close>

lemma yaml_norm_set_child:
  assumes "nd_Kind n = MappingNode \<or> nd_Kind n = SequenceNode" "yaml_norm c = yaml_norm (child_at n i)"
  shows "yaml_norm (set_child i c n) = yaml_norm n"
proof -
  have "map yaml_norm ((nd_Content n)[i := c]) = map yaml_norm (nd_Content n)"
    by (simp add: map_update assms child_at_def)
      (metis list_update_beyond list_update_id map_update not_le)
  with assms(1) show ?thesis by (auto simp: yaml_norm_iff [of "set_child i c n"] yaml_norm_iff [of n])
qed

lemma contextNode_Some:
  assumes "contextNode root x = Val (Inr (i, j))"
  shows "nd_Kind root = MappingNode" "nd_Kind (child_at root i) = SequenceNode"
  using assms
  by (auto simp: contextNode_def contextsNode_def obind_Val_iff dest: valueOf_Some(1)
      split: option.splits if_splits sum.splits)

section \<open>The text of a tree\<close>

text \<open>
  The encoder refuses text it cannot write (bytes that are not UTF-8, say). Whatever the text is it
  takes, the operations put no other text into a tree than the words of the code and their arguments.
\<close>

fun yaml_text :: "(string \<Rightarrow> bool) \<Rightarrow> ynode \<Rightarrow> bool" where
  "yaml_text good (YNode k t v cs) \<longleftrightarrow> good v \<and> (\<forall>c \<in> set cs. yaml_text good c)"

definition own_words :: "(string \<Rightarrow> bool) \<Rightarrow> bool" where
  "own_words good \<longleftrightarrow> (\<forall>s \<in> set [[], ''current-context'', ''context'', ''namespace'', defaultNamespace]. good s)"

text \<open>How a computation returned that goes on by the cases of a result.\<close>

lemma obind_cases:
  "obind m (case_sum f g) = Val y \<longleftrightarrow> (\<exists>e. m = Val (Inl e) \<and> f e = Val y) \<or> (\<exists>x. m = Val (Inr x) \<and> g x = Val y)"
  "obind l (case_option u h) = Val y \<longleftrightarrow> l = Val None \<and> u = Val y \<or> (\<exists>x. l = Val (Some x) \<and> h x = Val y)"
  by (cases m; auto split: sum.split_asm option.split_asm sum.split option.split)
    (cases l; auto split: sum.split_asm option.split_asm sum.split option.split)

lemma yaml_text_iff: "yaml_text good n \<longleftrightarrow> good (nd_Value n) \<and> (\<forall>c \<in> set (nd_Content n). yaml_text good c)"
  by (cases n) simp

lemma yaml_text_norm: "yaml_text good n \<Longrightarrow> good [] \<Longrightarrow> yaml_text good (yaml_norm n)"
  by (induction n) (auto split: ykind.split)

lemma yaml_text_any [simp]: "yaml_text (\<lambda>_. True) n"
  by (induction n) auto

lemma yaml_text_child: "yaml_text good n \<Longrightarrow> i < length (nd_Content n) \<Longrightarrow> yaml_text good (child_at n i)"
  by (simp add: yaml_text_iff [of _ n] child_at_def)

lemma yaml_text_field: "yaml_text good n \<Longrightarrow> valueOf n key = Val (Some i) \<Longrightarrow> yaml_text good (child_at n i)"
  by (rule yaml_text_child) (auto dest: valueOf_Some(2))

lemma set_remove_at: "x \<in> set (remove_at j xs) \<Longrightarrow> x \<in> set xs"
  by (auto simp: remove_at_def dest: in_set_takeD in_set_dropD)

lemma yaml_text_new [intro]:
  "good s \<Longrightarrow> yaml_text good (str_node s)"
  "yaml_text good n \<Longrightarrow> good s \<Longrightarrow> yaml_text good (set_Value s n)"
  "yaml_text good n \<Longrightarrow> yaml_text good c \<Longrightarrow> yaml_text good (set_child i c n)"
  "yaml_text good n \<Longrightarrow> yaml_text good k \<Longrightarrow> yaml_text good v \<Longrightarrow> yaml_text good (append_children [k, v] n)"
  "yaml_text good n \<Longrightarrow> yaml_text good (set_Content (remove_at j (nd_Content n)) n)"
  by (auto simp: yaml_text_iff [of _ "str_node s"] yaml_text_iff [of _ "set_Value s n"] yaml_text_iff [of _ n]
      yaml_text_iff [of _ "set_child i c n"] yaml_text_iff [of _ "append_children [k, v] n"]
      yaml_text_iff [of _ "set_Content (remove_at j (nd_Content n)) n"] 
      dest: set_update_subset_insert [THEN subsetD] set_remove_at)

lemma index_bound:
  "context_index x cs j = Val (Some k) \<Longrightarrow> k < j + length cs"
  by (induction x cs j rule: context_index.induct) (auto simp: obind_Val_iff split: option.split_asm if_split_asm)

lemma contextsNode_text:
  "contextsNode root = Val (Inr i) \<Longrightarrow> yaml_text good root \<Longrightarrow> yaml_text good (child_at root i)"
  by (auto simp: contextsNode_def obind_cases split: option.split_asm if_split_asm intro: yaml_text_field)

lemma contextNode_text:
  assumes "contextNode root x = Val (Inr (i, j))" "yaml_text good root"
  shows "yaml_text good (child_at root i)" "yaml_text good (child_at (child_at root i) j)"
proof -
  have *: "contextsNode root = Val (Inr i)" "context_index x (nd_Content (child_at root i)) 0 = Val (Some j)"
    using assms(1) by (auto simp: contextNode_def obind_cases split: sum.split_asm option.split_asm)
  show i: "yaml_text good (child_at root i)" by (rule contextsNode_text [OF *(1) assms(2)])
  show "yaml_text good (child_at (child_at root i) j)"
    using index_bound [OF *(2)] by (intro yaml_text_child [OF i]) simp
qed

lemma ModifyCurrentContext_text:
  "ModifyCurrentContext root x = Val r \<Longrightarrow> yaml_text good root \<Longrightarrow> own_words good \<Longrightarrow> good x \<Longrightarrow> yaml_text good r"
  by (auto simp: ModifyCurrentContext_def obind_Val_iff own_words_def yaml_text_field split: option.split_asm
      intro!: yaml_text_new)

lemma DeleteContextEntry_text:
  assumes "DeleteContextEntry root x = Val (Inr r)" "yaml_text good root"
  shows "yaml_text good r"
proof -
  have "\<exists>i. contextsNode root = Val (Inr i) \<and> (r = root \<or> (\<exists>j. r = set_child i
      (set_Content (remove_at j (nd_Content (child_at root i))) (child_at root i)) root))"
    using assms(1) by (auto simp: DeleteContextEntry_def obind_cases(1) Let_def dest!: iffD1 [OF obind_Val_iff]
        split: option.split_asm)
  with assms(2) contextsNode_text show ?thesis by blast
qed

lemma put_namespace_text:
  "put_namespace x b = Val r \<Longrightarrow> yaml_text good b \<Longrightarrow> own_words good \<Longrightarrow> good x \<Longrightarrow> yaml_text good r"
  by (auto simp: put_namespace_def obind_Val_iff own_words_def yaml_text_field split: option.split_asm
      intro!: yaml_text_new)

lemma put_context_namespace_text:
  assumes "put_context_namespace x c = Val r" "yaml_text good c" "own_words good" "good x"
  shows "yaml_text good r"
proof -
  have words: "yaml_text good (YNode MappingNode [] [] [])" "good ''context''"
    using assms(3) by (simp_all add: own_words_def)
  consider (None) b where "put_namespace x (YNode MappingNode [] [] []) = Val b"
      "r = append_children [str_node ''context'', b] c"
    | (Some) k b where "valueOf c ''context'' = Val (Some k)" "put_namespace x (child_at c k) = Val b"
      "r = set_child k b c"
    using assms(1) by (auto simp: put_context_namespace_def obind_cases dest!: iffD1 [OF obind_Val_iff])
  then show ?thesis
  proof cases
    case None
    with words assms(2) put_namespace_text [OF None(1) words(1) assms(3,4)] show ?thesis by auto
  next
    case Some
    with assms(2) put_namespace_text [OF Some(2) yaml_text_field [OF assms(2) Some(1)] assms(3,4)]
    show ?thesis by auto
  qed
qed

lemma SetNamespace_text:
  assumes "SetNamespace root c x = Val (Inr r)" "yaml_text good root" "own_words good" "good x"
  shows "yaml_text good r"
proof -
  obtain i j b where r: "contextNode root c = Val (Inr (i, j))"
    "put_context_namespace x (child_at (child_at root i) j) = Val b"
    "r = set_child i (set_child j b (child_at root i)) root"
    using assms(1) by (auto simp: SetNamespace_def obind_cases dest!: iffD1 [OF obind_Val_iff])
  with contextNode_text [OF r(1) assms(2)] assms put_context_namespace_text show ?thesis by blast
qed

lemma entry_names_text:
  "entry_names cs = Val ns \<Longrightarrow> \<forall>c \<in> set cs. yaml_text good c \<Longrightarrow> n \<in> set ns \<Longrightarrow> good n"
proof (induction cs arbitrary: ns)
  case (Cons c cs)
  obtain v ns' where v: "valueOf c ''name'' = Val v" "entry_names cs = Val ns'"
    "ns = (case v of None \<Rightarrow> ns' | Some i \<Rightarrow> nd_Value (child_at c i) # ns')"
    using Cons.prems(1) by (auto dest!: iffD1 [OF obind_Val_iff])
  have "good (nd_Value (child_at c i))" if "v = Some i" for i
    using yaml_text_field [of good c "''name''" i] v(1) that Cons.prems(2)
    by (simp add: yaml_text_iff [of good "child_at c i"])
  with v Cons.IH [OF v(2)] Cons.prems show ?case by (cases v) auto
qed simp

text \<open>The names and the namespaces of a configuration come from the file or from the code.\<close>

lemma config_names_text:
  assumes "config_of root = Some cfg" "yaml_text good root" "n \<in> fst ` set (cc_contexts cfg)"
  shows "good n"
proof (rule config_contexts [OF assms(1)])
  fix i
  assume i: "valueOf root ''contexts'' = Val (Some i)" "nd_Kind (child_at root i) = SequenceNode"
  have "\<forall>c \<in> set (nd_Content (child_at root i)). yaml_text good c"
    using yaml_text_field [OF assms(2) i(1)] by (simp add: yaml_text_iff [of good "child_at root i"])
  moreover have "entry_names (nd_Content (child_at root i)) = Val (map fst (cc_contexts cfg))"
    using ContextNames_config [OF assms(1)] i by (simp add: ContextNames_def)
  ultimately show ?thesis using entry_names_text assms(3) by fastforce
qed

lemma NamespaceOfContext_text:
  assumes "NamespaceOfContext root x = Val (Inr ns)" "yaml_text good root" "good defaultNamespace"
  shows "good ns"
proof -
  consider "ns = defaultNamespace"
    | i j k m where "contextNode root x = Val (Inr (i, j))"
      "valueOf (child_at (child_at root i) j) ''context'' = Val (Some k)"
      "valueOf (child_at (child_at (child_at root i) j) k) ''namespace'' = Val (Some m)"
      "ns = nd_Value (child_at (child_at (child_at (child_at root i) j) k) m)"
    using assms(1)
    by (auto simp: NamespaceOfContext_def obind_cases Let_def split: if_split_asm)
  then show ?thesis
  proof cases
    case 2
    have "yaml_text good (child_at (child_at (child_at (child_at root i) j) k) m)"
      by (rule yaml_text_field [OF yaml_text_field [OF contextNode_text(2) [OF 2(1) assms(2)] 2(2)] 2(3)])
    then show ?thesis unfolding 2(4) using yaml_text_iff by blast
  qed (simp add: assms(3))
qed

lemma config_namespace_text:
  assumes "config_of root = Some cfg" "yaml_text good root" "own_words good" "map_of (cc_contexts cfg) x = Some ns"
  shows "good ns"
  using NamespaceOfContext_text [of root x ns good] NamespaceOfContext_config [OF assms(1), of x] assms(2-4)
  by (simp add: own_words_def)

section \<open>Properties\<close>

definition sample_context :: "string \<Rightarrow> ynode list \<Rightarrow> ynode" where
  "sample_context n body = YNode MappingNode ''!!map'' [] ([str_node ''name'', str_node n] @ body)"

definition sample_config :: "ynode list \<Rightarrow> ynode" where
  "sample_config cs = YNode MappingNode ''!!map'' []
     [str_node ''contexts'', YNode SequenceNode ''!!seq'' [] cs,
      str_node ''current-context'', str_node ''a'']"


lemma sample_config_of:
  "config_of (sample_config [sample_context ''a'' [], sample_context ''b'' []]) =
     Some \<lparr>cc_contexts = [(''a'', ''default''), (''b'', ''default'')], cc_current = ''a''\<rparr>"
  by (simp add: config_of_def sample_config_def sample_context_def str_node_def field_def valueOf_def
      scalar_is_def child_at_def entries_of_def entry_view_def namespace_view_def scalar_or_def
      defaultNamespace_def)


text \<open>
  The namespace of a context whose body is a scalar (an empty \<open>context:\<close> is the null scalar) is
  appended to that scalar, and the encoder writes no children of scalars: \<open>SetNamespace\<close> returns
  no error and the file is written as it was.
\<close>

theorem namespace_of_empty_body_lost:
  assumes "contextNode root x = Val (Inr (i, j))"
    and "field (child_at (child_at root i) j) ''context'' = Some b" "nd_Kind b = ScalarNode"
  shows "\<exists>r. SetNamespace root x ns = Val (Inr r) \<and> yaml_norm r = yaml_norm root"
proof -
  let ?c = "child_at (child_at root i) j"
  obtain k where k: "valueOf ?c ''context'' = Val (Some k)" "child_at ?c k = b"
    using assms(2) by (auto simp: field_def split: outcome.splits option.splits)
  let ?b = "append_children [str_node ''namespace'', str_node ns] b"
  let ?c' = "set_child k ?b ?c"
  have "SetNamespace root x ns = Val (Inr (set_child i (set_child j ?c' (child_at root i)) root))"
    using k assms(3)
    by (simp add: SetNamespace_def assms(1) put_context_namespace_def put_namespace_def valueOf_def)
  moreover have "yaml_norm ?c' = yaml_norm ?c"
    using k(2) valueOf_Some(1) [OF k(1)] assms(3)
    by (intro yaml_norm_set_child) (simp_all add: yaml_norm_iff [of ?b] yaml_norm_iff [of b])
  with contextNode_Some(2) [OF assms(1)]
  have "yaml_norm (set_child j ?c' (child_at root i)) = yaml_norm (child_at root i)"
    by (subst yaml_norm_set_child) simp_all
  with contextNode_Some(1) [OF assms(1)]
  have "yaml_norm (set_child i (set_child j ?c' (child_at root i)) root) = yaml_norm root"
    by (subst yaml_norm_set_child) simp_all
  ultimately show ?thesis by blast
qed

lemma namespace_of_empty_body_lost_witness:
  "\<exists>r. SetNamespace (sample_config [sample_context ''a'' [str_node ''context'', YNode ScalarNode ''!!null'' [] []]])
      ''a'' ''sys'' = Val (Inr r) \<and>
     yaml_norm r = yaml_norm (sample_config [sample_context ''a'' [str_node ''context'', YNode ScalarNode ''!!null'' [] []]])"
  by (rule namespace_of_empty_body_lost [where i = 1 and j = 0 and b = "YNode ScalarNode ''!!null'' [] []"])
    (simp_all add: sample_config_def sample_context_def str_node_def field_def valueOf_def
      scalar_is_def child_at_def contextNode_def contextsNode_def)

end
