(* ===== verification/Ctx_Base.thy ===== *)
theory Ctx_Base
  imports Ctx_Config Cli_Base
begin

text \<open>
  What the two commands of the context sidecar share: loading, parsing and saving the kube config
  file (\<open>internal/kubeconfig/kubeconfig.go\<close> and \<open>kubeconfigloader.go\<close>), the helpers of
  \<open>internal/cmdutil\<close> and the lines of \<open>internal/printer\<close>. The operating system, the YAML library,
  the API server and \<open>fzf\<close> are the fields of a parameter \<open>ctx_os\<close> on a world \<open>'w\<close>. A path stands for
  its file, and writes to the terminal succeed.
\<close>

section \<open>The surroundings\<close>

text \<open>An error of the operating system, with what \<open>os.IsNotExist\<close> says of it.\<close>

type_synonym os_err = "bool \<times> err"

record 'w ctx_os =
  co_environ :: "string list"
    \<comment> \<open>\<open>os.Environ()\<close>\<close>
  co_arg0 :: string
  co_goos :: string
  co_tty :: bool
    \<comment> \<open>\<open>isatty.IsTerminal\<close> of the standard output\<close>
  co_fzf_path :: string
    \<comment> \<open>\<open>exec.LookPath("fzf")\<close>, empty if there is none\<close>
  co_fzf :: "string \<Rightarrow> 'w \<Rightarrow> err + string"
    \<comment> \<open>a run of \<open>fzf\<close> over the lines of a command: its output, or an error that is no exit status\<close>
  co_paint :: "string \<Rightarrow> string \<Rightarrow> string"
    \<comment> \<open>\<open>color.Sprint\<close> of one of the printer's colours\<close>
  co_natsort :: "string list \<Rightarrow> string list"
  co_stack :: "err \<Rightarrow> string"
    \<comment> \<open>the format \<open>%+v\<close> of an error of \<open>pkg/errors\<close>\<close>
  co_open :: "string \<Rightarrow> 'w \<Rightarrow> os_err + unit"
    \<comment> \<open>\<open>os.OpenFile(path, os.O_RDWR, 0)\<close>\<close>
  co_decode :: "string \<Rightarrow> 'w \<Rightarrow> err + ynode"
    \<comment> \<open>\<open>yaml.NewDecoder(f).Decode\<close> of the open file\<close>
  co_truncate :: "string \<Rightarrow> 'w \<Rightarrow> 'w \<times> err option"
  co_seek :: "string \<Rightarrow> 'w \<Rightarrow> 'w \<times> err option"
  co_encode :: "ynode \<Rightarrow> string \<Rightarrow> 'w \<Rightarrow> 'w \<times> err option"
    \<comment> \<open>\<open>Encode\<close> into the open file\<close>
  co_marshal :: "ynode \<Rightarrow> err + string"
  co_read_file :: "string \<Rightarrow> 'w \<Rightarrow> os_err + string"
  co_mkdir_all :: "string \<Rightarrow> 'w \<Rightarrow> 'w \<times> err option"
  co_write_file :: "string \<Rightarrow> string \<Rightarrow> 'w \<Rightarrow> 'w \<times> err option"
  co_rest_config :: "string \<Rightarrow> err option"
    \<comment> \<open>\<open>clientcmd.RESTConfigFromKubeConfig\<close>\<close>
  co_clientset :: "string \<Rightarrow> err option"
    \<comment> \<open>\<open>kubernetes.NewForConfig\<close>\<close>
  co_list_namespaces :: "string \<Rightarrow> string \<Rightarrow> 'w \<Rightarrow> err + (string list \<times> string)"
    \<comment> \<open>a page of the namespaces of a server from a continue token, with the next token\<close>
  co_get_namespace :: "string \<Rightarrow> string \<Rightarrow> 'w \<Rightarrow> bool \<times> (bool \<times> err) option"
    \<comment> \<open>whether the object returned is not nil, and the error with \<open>errors.IsNotFound\<close>\<close>

fun lookup_env :: "string \<Rightarrow> string list \<Rightarrow> string option" where
  "lookup_env k [] = None"
| "lookup_env k (e # es) =
     (if CHR ''='' \<in> set e \<and> takeWhile (\<lambda>c. c \<noteq> CHR ''='') e = k
      then Some (tl (dropWhile (\<lambda>c. c \<noteq> CHR ''='') e)) else lookup_env k es)"

definition getenv :: "'w ctx_os \<Rightarrow> string \<Rightarrow> string" where
  "getenv os k = (case lookup_env k (co_environ os) of None \<Rightarrow> [] | Some v \<Rightarrow> v)"

section \<open>Helpers\<close>

definition HomeDir :: "'w ctx_os \<Rightarrow> string" where
  "HomeDir os =
     (let home = getenv os ''HOME'' in if home = [] then getenv os ''USERPROFILE'' else home)"

definition IsNotFoundErr :: "os_err \<Rightarrow> bool" where
  "IsNotFoundErr e = fst e"

definition fzfInstalled :: "'w ctx_os \<Rightarrow> bool" where
  "fzfInstalled os \<longleftrightarrow> co_fzf_path os \<noteq> []"

definition IsInteractiveMode :: "'w ctx_os \<Rightarrow> bool" where
  "IsInteractiveMode os \<longleftrightarrow> getenv os ''KUBECTX_IGNORE_FZF'' = [] \<and> co_tty os \<and> fzfInstalled os"

text \<open>
  The printer writes to the standard error, here the log. \<open>Error\<close> and \<open>Success\<close> hand the finished
  message to \<open>Fprintf\<close> as its format: the event holds that format.
\<close>

definition newline :: string where
  "newline = [CHR 0x0A]"

definition check_mark :: string where
  "check_mark = [CHR 0xE2, CHR 0x9C, CHR 0x94, CHR '' '']"

text \<open>
  Whether the environment forces colours on or off, and the colours of the printer after its start: a
  colour is on, off, or left to the library.
\<close>

definition useColors :: "'w ctx_os \<Rightarrow> bool option" where
  "useColors os =
     (if getenv os ''_KUBECTX_FORCE_COLOR'' \<noteq> [] then Some True
      else if getenv os ''NO_COLOR'' \<noteq> [] then Some False
      else None)"

definition EnableOrDisableColor :: "'w ctx_os \<Rightarrow> bool option \<Rightarrow> bool option" where
  "EnableOrDisableColor os c =
     (if useColors os = Some True then Some True
      else if useColors os = Some False then Some False
      else c)"

definition printer_init :: "'w ctx_os \<Rightarrow> (string, bool option) gomap \<Rightarrow> (string, bool option) gomap" where
  "printer_init os colors =
     (case useColors os of
        None \<Rightarrow> colors
      | Some True \<Rightarrow> fold (\<lambda>c. AList.update c (Some True)) [''error'', ''warning'', ''success''] colors
      | Some False \<Rightarrow> fold (\<lambda>c. AList.update c (Some False)) [''error'', ''warning'', ''success''] colors)"

text \<open>\<open>fzf\<close> is started with the forcing variable, so its list has colours whatever the user says.\<close>

lemma forced_colors:
  "getenv os ''_KUBECTX_FORCE_COLOR'' \<noteq> [] \<Longrightarrow> EnableOrDisableColor os c = Some True"
  by (simp add: EnableOrDisableColor_def useColors_def)

definition clog :: "string \<Rightarrow> ('w, unit) cmd" where
  "clog s = cemit (EvLog s)"

definition printer_Error :: "'w ctx_os \<Rightarrow> string \<Rightarrow> ('w, unit) cmd" where
  "printer_Error os s = clog (co_paint os ''error'' ''error: '' @ s @ newline)"

definition printer_Warning :: "'w ctx_os \<Rightarrow> string \<Rightarrow> ('w, unit) cmd" where
  "printer_Warning os s = clog (co_paint os ''warning'' ''warning: '' @ s @ newline)"

definition printer_Success :: "'w ctx_os \<Rightarrow> string \<Rightarrow> ('w, unit) cmd" where
  "printer_Success os s = clog (co_paint os ''success'' check_mark @ s @ newline)"

definition PrintDeprecatedEnvWarnings :: "'w ctx_os \<Rightarrow> string list \<Rightarrow> ('w, unit) cmd" where
  "PrintDeprecatedEnvWarnings os vars = cforeach vars (\<lambda>vv.
     let key = takeWhile (\<lambda>c. c \<noteq> CHR ''='') vv in
     cwhen (CHR ''='' \<in> set vv \<and> (key = ''KUBECTX_CURRENT_FGCOLOR'' \<or> key = ''KUBECTX_CURRENT_BGCOLOR''))
       (printer_Warning os (key @ '' environment variable is now deprecated'')))"

text \<open>\<open>filepath.Dir\<close> and \<open>filepath.Base\<close>.\<close>

definition path_dir :: "string \<Rightarrow> string" where
  "path_dir p = path_clean (rev (dropWhile (\<lambda>c. c \<noteq> CHR ''/'') (rev p)))"

definition path_base :: "string \<Rightarrow> string" where
  "path_base p =
     (if p = [] then ''.''
      else let q = rev (dropWhile (\<lambda>c. c = CHR ''/'') (rev p)) in
        if q = [] then ''/'' else rev (takeWhile (\<lambda>c. c \<noteq> CHR ''/'') (rev q)))"

section \<open>Computations with errors\<close>

text \<open>A call whose error is returned, perhaps wrapped.\<close>

type_synonym ('w, 'a) act = "('w, err + 'a) cmd"

definition aok :: "'a \<Rightarrow> ('w, 'a) act" where
  "aok x = creturn (Inr x)"

definition afail :: "err \<Rightarrow> ('w, 'a) act" where
  "afail e = creturn (Inl e)"

definition abind :: "('w, 'a) act \<Rightarrow> (err \<Rightarrow> err) \<Rightarrow> ('a \<Rightarrow> ('w, 'b) act) \<Rightarrow> ('w, 'b) act" where
  "abind m wrap f = cbind m (\<lambda>r. case r of Inl e \<Rightarrow> afail (wrap e) | Inr x \<Rightarrow> f x)"

definition acheck :: "('w \<Rightarrow> 'w \<times> err option) \<Rightarrow> ('w, unit) act" where
  "acheck f = cbind (cstep f) (\<lambda>e. case e of Some e' \<Rightarrow> afail e' | None \<Rightarrow> aok ())"

section \<open>The kube config file\<close>

definition kubeconfigPath :: "'w ctx_os \<Rightarrow> err + string" where
  "kubeconfigPath os =
     (let v = getenv os ''KUBECONFIG'' in
      if v \<noteq> [] then
        (if 1 < length (split_on (CHR '':'') v)
         then Inl (Err ''multiple files in KUBECONFIG are currently not supported'') else Inr v)
      else let home = HomeDir os in
        if home = [] then Inl (Err ''HOME or USERPROFILE environment variable not set'')
        else Inr (path_join [home, ''.kube'', ''config'']))"

definition Load :: "'w ctx_os \<Rightarrow> 'w \<Rightarrow> os_err + string list" where
  "Load os w = (case kubeconfigPath os of
     Inl e \<Rightarrow> Inl (False, Wrap ''cannot determine kubeconfig path'' e)
   | Inr cfgPath \<Rightarrow> (case co_open os cfgPath w of
       Inl (True, e) \<Rightarrow> Inl (True, Wrap ''kubeconfig file not found'' e)
     | Inl (False, e) \<Rightarrow> Inl (False, Wrap ''failed to open file'' e)
     | Inr _ \<Rightarrow> Inr [cfgPath]))"

text \<open>A parsed kube config is its file and the root node.\<close>

type_synonym kubeconfig = "string \<times> ynode"

definition Parse :: "'w ctx_os \<Rightarrow> 'w \<Rightarrow> (os_err + kubeconfig) outcome" where
  "Parse os w = (case Load os w of
     Inl (b, e) \<Rightarrow> Val (Inl (b, Wrap ''failed to load'' e))
   | Inr [] \<Rightarrow> Panic ''index out of range [0] with length 0''
   | Inr (f # _) \<Rightarrow> (case co_decode os f w of
       Inl e \<Rightarrow> Val (Inl (False, Wrap ''failed to decode'' e))
     | Inr v \<Rightarrow> (case nd_Content v of
         [] \<Rightarrow> Panic ''index out of range [0] with length 0''
       | root # _ \<Rightarrow>
           (if nd_Kind root \<noteq> MappingNode
            then Val (Inl (False, Err ''kubeconfig file is not a map document''))
            else Val (Inr (f, root))))))"

definition Reset :: "'w ctx_os \<Rightarrow> string \<Rightarrow> ('w, unit) act" where
  "Reset os f = abind (acheck (co_truncate os f)) (Wrap ''failed to truncate file'') (\<lambda>_.
     abind (acheck (co_seek os f)) (Wrap ''failed to seek in file'') aok)"

definition Save :: "'w ctx_os \<Rightarrow> kubeconfig \<Rightarrow> ('w, unit) act" where
  "Save os kc = abind (Reset os (fst kc)) (Wrap ''failed to reset file'') (\<lambda>_.
     acheck (co_encode os (snd kc) (fst kc)))"

definition Bytes :: "'w ctx_os \<Rightarrow> kubeconfig \<Rightarrow> err + string" where
  "Bytes os kc = co_marshal os (snd kc)"

text \<open>The beginning of every command; the file is closed at its end.\<close>

definition cparse :: "'w ctx_os \<Rightarrow> ('w, os_err + kubeconfig) cmd" where
  "cparse os w = (w, [], Parse os w)"

definition with_kubeconfig :: "'w ctx_os \<Rightarrow> (kubeconfig \<Rightarrow> ('w, 'a) act) \<Rightarrow> ('w, 'a) act" where
  "with_kubeconfig os f = cbind (cparse os) (\<lambda>r.
     case r of Inl e \<Rightarrow> afail (Wrap ''kubeconfig error'' (snd e)) | Inr kc \<Rightarrow> f kc)"

section \<open>What the surroundings promise\<close>

text \<open>
  The kube config file reads back what was encoded into it, if it was truncated and written without
  an error. Nothing is said of what a failed call leaves behind.
\<close>

definition kube_file_ok :: "'w ctx_os \<Rightarrow> string \<Rightarrow> bool" where
  "kube_file_ok os cfg \<longleftrightarrow> (\<forall>w n w1 w2 w3. yaml_plain n \<longrightarrow>
     co_truncate os cfg w = (w1, None) \<longrightarrow> co_seek os cfg w1 = (w2, None) \<longrightarrow>
     co_encode os n cfg w2 = (w3, None) \<longrightarrow>
     co_decode os cfg w3 = Inr (YNode DocumentNode [] [] [yaml_norm n]) \<and>
     co_open os cfg w3 = co_open os cfg w)"

text \<open>
  Surroundings in which the calls on the two files of a command succeed. The encoder takes the trees
  of \<open>good\<close> text, a text the words of the code are and everything decoded is (text in UTF-8, say).
  The file of the previous name reads back what was written, and neither file changes the other.
\<close>

definition ctx_os_works :: "'w ctx_os \<Rightarrow> (string \<Rightarrow> bool) \<Rightarrow> string \<Rightarrow> string \<Rightarrow> bool" where
  "ctx_os_works os good cfg prev \<longleftrightarrow> kube_file_ok os cfg \<and> own_words good \<and>
     (\<forall>w v. co_decode os cfg w = Inr v \<longrightarrow> yaml_text good v) \<and>
     (\<forall>w n. yaml_plain n \<and> yaml_text good n \<longrightarrow> (\<exists>w1 w2 w3.
        co_truncate os cfg w = (w1, None) \<and> co_seek os cfg w1 = (w2, None) \<and>
        co_encode os n cfg w2 = (w3, None) \<and> co_read_file os prev w3 = co_read_file os prev w)) \<and>
     (\<forall>w s. \<exists>w1 w2.
        co_mkdir_all os (path_dir prev) w = (w1, None) \<and> co_write_file os prev s w1 = (w2, None) \<and>
        co_read_file os prev w2 = Inr s \<and>
        co_open os cfg w2 = co_open os cfg w \<and> co_decode os cfg w2 = co_decode os cfg w)"

lemma ctx_os_worksD:
  assumes "ctx_os_works os good cfg prev"
  shows "kube_file_ok os cfg" "own_words good" "co_decode os cfg w = Inr v \<Longrightarrow> yaml_text good v"
    and "yaml_plain n \<Longrightarrow> yaml_text good n \<Longrightarrow> \<exists>w1 w2 w3.
        co_truncate os cfg w = (w1, None) \<and> co_seek os cfg w1 = (w2, None) \<and>
        co_encode os n cfg w2 = (w3, None) \<and> co_read_file os prev w3 = co_read_file os prev w"
    and "\<exists>w1 w2. co_mkdir_all os (path_dir prev) w = (w1, None) \<and> co_write_file os prev s w1 = (w2, None) \<and>
        co_read_file os prev w2 = Inr s \<and>
        co_open os cfg w2 = co_open os cfg w \<and> co_decode os cfg w2 = co_decode os cfg w"
  using assms unfolding ctx_os_works_def by simp_all

text \<open>The configuration a command finds in the file.\<close>

definition kube_state :: "'w ctx_os \<Rightarrow> 'w \<Rightarrow> context_config \<Rightarrow> bool" where
  "kube_state os w c \<longleftrightarrow> (\<exists>f root. Parse os w = Val (Inr (f, root)) \<and> config_of root = Some c)"

section \<open>Running\<close>

named_theorems act_simps \<open>running calls with errors\<close>

lemma aok_run [act_simps]: "aok x w = (w, [], Val (Inr x))"
  by (simp add: aok_def creturn_def)

lemma afail_run [act_simps]: "afail e w = (w, [], Val (Inl e))"
  by (simp add: afail_def creturn_def)

lemma creturn_run [act_simps]: "creturn x w = (w, [], Val x)"
  by (simp add: creturn_def)

lemma cbind_Val [act_simps]:
  "m w = (w1, es1, Val x) \<Longrightarrow> cbind m f w = (case f x w1 of (w2, es2, r) \<Rightarrow> (w2, es1 @ es2, r))"
  by (simp add: cbind_def)

lemma abind_run [act_simps]:
  "m w = (w1, es1, Val (Inr x)) \<Longrightarrow> abind m g f w = (case f x w1 of (w2, es2, r) \<Rightarrow> (w2, es1 @ es2, r))"
  "m w = (w1, es1, Val (Inl e)) \<Longrightarrow> abind m g f w = (w1, es1, Val (Inl (g e)))"
  by (simp_all add: abind_def act_simps)

lemma clog_run [act_simps]: "clog s w = (w, [EvLog s], Val ())"
  by (simp add: clog_def cemit_def)

lemma cthen_run [act_simps]:
  "m w = (w1, es1, Val ()) \<Longrightarrow> cthen m k w = (case k w1 of (w2, es2, r) \<Rightarrow> (w2, es1 @ es2, r))"
  by (simp add: cthen_def act_simps)

lemma clift_run [act_simps]: "clift (Val x) w = (w, [], Val x)"
  by (simp add: clift_def)

lemma cread_run [act_simps]: "cread g w = (w, [], Val (g w))"
  by (simp add: cread_def)

lemma acheck_run [act_simps]: "f w = (w', None) \<Longrightarrow> acheck f w = (w', [], Val (Inr ()))"
  by (simp add: acheck_def act_simps cstep_def)

lemma printer_run [act_simps]:
  "printer_Success os s w = (w, [EvLog (co_paint os ''success'' check_mark @ s @ newline)], Val ())"
  "printer_Warning os s w = (w, [EvLog (co_paint os ''warning'' ''warning: '' @ s @ newline)], Val ())"
  by (simp_all add: printer_Success_def printer_Warning_def act_simps)

text \<open>Reading and writing the two files.\<close>

lemma Parse_path:
  assumes "Parse os w = Val (Inr (f, root))"
  shows "kubeconfigPath os = Inr f" "co_open os f w = Inr ()"
proof -
  have *: "kubeconfigPath os = Inr f \<and> co_open os f w = Inr ()"
    using assms
    by (auto simp: Parse_def Load_def split: sum.splits list.splits bool.splits if_splits)
  then show "kubeconfigPath os = Inr f" "co_open os f w = Inr ()" by simp_all
qed

lemma Parse_text:
  assumes "ctx_os_works os good cfg prev" "Parse os w = Val (Inr (cfg, root))"
  shows "yaml_text good root"
proof -
  obtain v where "co_decode os cfg w = Inr v" "root \<in> set (nd_Content v)"
    using assms(2) by (auto simp: Parse_def split: sum.splits list.splits if_splits)
  with ctx_os_worksD(3) [OF assms(1)] yaml_text_iff show ?thesis by blast
qed

text \<open>
  The three calls of a save and what it returns. The file is truncated before the tree is encoded, so
  the world after an encoding that failed is one in which the old contents are gone.
\<close>

lemma Save_run:
  "Save os (cfg, root) w = (case co_truncate os cfg w of
     (w1, Some e) \<Rightarrow> (w1, [], Val (Inl (Wrap ''failed to reset file'' (Wrap ''failed to truncate file'' e))))
   | (w1, None) \<Rightarrow> (case co_seek os cfg w1 of
       (w2, Some e) \<Rightarrow> (w2, [], Val (Inl (Wrap ''failed to reset file'' (Wrap ''failed to seek in file'' e))))
     | (w2, None) \<Rightarrow> (case co_encode os root cfg w2 of
         (w3, Some e) \<Rightarrow> (w3, [], Val (Inl e))
       | (w3, None) \<Rightarrow> (w3, [], Val (Inr ())))))"
proof -
  obtain w1 e1 where 1: "co_truncate os cfg w = (w1, e1)" by fastforce
  obtain w2 e2 where 2: "co_seek os cfg w1 = (w2, e2)" by fastforce
  obtain w3 e3 where 3: "co_encode os root cfg w2 = (w3, e3)" by fastforce
  show ?thesis
    by (cases e1; cases e2; cases e3)
      (simp_all add: 1 2 3 Save_def Reset_def abind_def cbind_def acheck_def cstep_def aok_def afail_def creturn_def)
qed

text \<open>A configuration that was saved without an error is found again.\<close>

lemma Save_Inr:
  assumes "kube_file_ok os cfg" "kubeconfigPath os = Inr cfg" "co_open os cfg w = Inr ()"
    and "config_of root = Some c" "Save os (cfg, root) w = (w', es, Val (Inr ()))"
  shows "kube_state os w' c"
proof -
  have r: "yaml_plain root" "nd_Kind root = MappingNode"
    using config_ofD [OF assms(4)] by auto
  obtain w1 w2 where s: "co_truncate os cfg w = (w1, None)" "co_seek os cfg w1 = (w2, None)"
    "co_encode os root cfg w2 = (w', None)"
    using assms(5) by (auto simp: Save_run split: prod.splits option.splits)
  with assms(1,3) r(1) have "co_decode os cfg w' = Inr (YNode DocumentNode [] [] [yaml_norm root])"
    "co_open os cfg w' = Inr ()"
    unfolding kube_file_ok_def by metis+
  then have "Parse os w' = Val (Inr (cfg, yaml_norm root))"
    using r(2) by (simp add: Parse_def Load_def assms(2))
  then show ?thesis using config_of_norm [OF assms(4)] by (auto simp: kube_state_def)
qed

lemma Save_returns: "\<exists>w' r. Save os (cfg, root) w = (w', [], Val r)"
  by (simp add: Save_run split: prod.split option.split)

lemma Save_state:
  assumes "ctx_os_works os good cfg prev" "kubeconfigPath os = Inr cfg" "co_open os cfg w = Inr ()"
    and "config_of root = Some c" "yaml_text good root"
  obtains w' where "Save os (cfg, root) w = (w', [], Val (Inr ()))" "kube_state os w' c"
    "co_read_file os prev w' = co_read_file os prev w"
proof -
  have "yaml_plain root" using config_ofD [OF assms(4)] by auto
  then obtain w1 w2 w3 where s: "co_truncate os cfg w = (w1, None)" "co_seek os cfg w1 = (w2, None)"
    "co_encode os root cfg w2 = (w3, None)" "co_read_file os prev w3 = co_read_file os prev w"
    using ctx_os_worksD(4) [OF assms(1) _ assms(5), of w] by auto
  then have "Save os (cfg, root) w = (w3, [], Val (Inr ()))"
    by (simp add: Save_run)
  with s(4) that Save_Inr [OF ctx_os_worksD(1) [OF assms(1)] assms(2-4)] show thesis by blast
qed

lemma with_kubeconfig_run [act_simps]:
  "Parse os w = Val (Inr kc) \<Longrightarrow> with_kubeconfig os f w = f kc w"
  by (simp add: with_kubeconfig_def cparse_def cbind_def split: prod.split)

lemma kube_stateE:
  assumes "kube_state os w c"
  obtains f root where "Parse os w = Val (Inr (f, root))" "config_of root = Some c"
    "kubeconfigPath os = Inr f" "co_open os f w = Inr ()"
  using assms unfolding kube_state_def by (blast intro: that Parse_path)

text \<open>
  The reads of a configuration in the usual form.
\<close>

lemmas config_reads =
  ContextNames_config ContextExists_config GetCurrentContext_config NamespaceOfContext_config

section \<open>There and back\<close>

text \<open>
  The interface both commands offer: switching to a known name stores the one left as the previous
  name, and switching back goes to the previous name. Then back undoes a switch.
\<close>

locale there_and_back =
  fixes state :: "'w \<Rightarrow> 'c \<Rightarrow> bool" and current :: "'c \<Rightarrow> string" and change :: "'c \<Rightarrow> string \<Rightarrow> 'c"
    and known :: "'c \<Rightarrow> string \<Rightarrow> bool" and previous :: "'c \<Rightarrow> 'w \<Rightarrow> string \<Rightarrow> bool"
    and switch :: "string \<Rightarrow> ('w, unit) act" and return :: "('w, unit) act"
  assumes switch_to: "state w c \<Longrightarrow> known c x \<Longrightarrow> x \<noteq> current c \<Longrightarrow> x \<noteq> ''-'' \<Longrightarrow>
      \<exists>w' es. switch x w = (w', es, Val (Inr ())) \<and> state w' (change c x) \<and> previous (change c x) w' (current c)"
    and return_to: "state w c \<Longrightarrow> known c x \<Longrightarrow> x \<noteq> current c \<Longrightarrow> x \<noteq> [] \<Longrightarrow> previous c w x \<Longrightarrow>
      \<exists>w' es. return w = (w', es, Val (Inr ())) \<and> state w' (change c x) \<and> previous (change c x) w' (current c)"
    and current_change: "state w c \<Longrightarrow> current (change c x) = x"
    and known_change: "known (change c x) y = known c y"
    and change_back: "state w c \<Longrightarrow> change (change c x) (current c) = c"
begin

lemma back_undoes_switch:
  assumes w: "state w c" and known: "known c (current c)" "known c x" and current: "current c \<noteq> []"
    and x: "x \<noteq> current c" "x \<noteq> ''-''"
  shows "\<exists>w1 w2 es1 es2. switch x w = (w1, es1, Val (Inr ())) \<and> state w1 (change c x) \<and>
    return w1 = (w2, es2, Val (Inr ())) \<and> state w2 c \<and> previous c w2 x"
proof -
  obtain w1 es1 where w1: "switch x w = (w1, es1, Val (Inr ()))" "state w1 (change c x)"
    "previous (change c x) w1 (current c)"
    using switch_to [OF w known(2) x] by blast
  have "known (change c x) (current c)" "current c \<noteq> current (change c x)"
    using known(1) x(1) by (simp_all add: known_change current_change [OF w])
  from return_to [OF w1(2) this current w1(3)] w1(1,2) show ?thesis
    by (auto simp: change_back [OF w] current_change [OF w])
qed

end

section \<open>A concrete machine\<close>

text \<open>
  A machine with the one kube config file and the one file of the previous name, used to show that
  the promises can be kept.
\<close>

definition sample_os :: "(ynode \<times> string option) ctx_os" where
  "sample_os = \<lparr>co_environ = [''HOME=/h''], co_arg0 = ''kubectx'', co_goos = ''linux'', co_tty = False,
     co_fzf_path = [], co_fzf = (\<lambda>c w. Inr []), co_paint = (\<lambda>c s. s), co_natsort = (\<lambda>xs. xs),
     co_stack = err_text, co_open = (\<lambda>p w. Inr ()),
     co_decode = (\<lambda>p w. Inr (YNode DocumentNode [] [] [fst w])),
     co_truncate = (\<lambda>p w. (w, None)), co_seek = (\<lambda>p w. (w, None)),
     co_encode = (\<lambda>n p w. ((yaml_norm n, snd w), None)), co_marshal = (\<lambda>n. Inr []),
     co_read_file = (\<lambda>p w. case snd w of None \<Rightarrow> Inl (True, Err ''no such file'') | Some s \<Rightarrow> Inr s),
     co_mkdir_all = (\<lambda>p w. (w, None)), co_write_file = (\<lambda>p s w. ((fst w, Some s), None)),
     co_rest_config = (\<lambda>b. None), co_clientset = (\<lambda>b. None),
     co_list_namespaces = (\<lambda>b t w. Inr ([''default'', ''sys''], [])),
     co_get_namespace = (\<lambda>b n w. (True, None))\<rparr>"

lemma sample_os_ok: "ctx_os_works sample_os (\<lambda>_. True) cfg prev"
  by (simp add: ctx_os_works_def kube_file_ok_def own_words_def sample_os_def)

lemma sample_home: "getenv sample_os ''HOME'' = ''/h''" "getenv sample_os ''KUBECONFIG'' = []"
  by (simp_all add: getenv_def sample_os_def)

lemma sample_paths:
  "kubeconfigPath sample_os = Inr ''/h/.kube/config''"
  by (simp add: kubeconfigPath_def HomeDir_def sample_home path_join_def path_clean_def)

lemma sample_Parse:
  "nd_Kind root = MappingNode \<Longrightarrow> Parse sample_os (root, prev) = Val (Inr (''/h/.kube/config'', root))"
  by (simp add: Parse_def Load_def sample_paths) (simp add: sample_os_def)

definition sample_contexts :: ynode where
  "sample_contexts = sample_config [sample_context ''a'' [], sample_context ''b'' []]"

lemma sample_state:
  "kube_state sample_os (sample_contexts, prev)
     \<lparr>cc_contexts = [(''a'', ''default''), (''b'', ''default'')], cc_current = ''a''\<rparr>"
  unfolding kube_state_def sample_contexts_def
  by (intro exI conjI, rule sample_Parse, simp add: sample_config_def, rule sample_config_of)

end
