(* ===== verification/File_Util.thy ===== *)
theory File_Util
  imports Kube_Config Cli_Init Ctx_Base
begin

text \<open>
  The rest of \<open>api/k8s/util.go\<close>: the checks of an address that the repair of a kube config file uses,
  and file helpers nothing calls; and the two entry points that run a single command, \<open>cmd/dq\<close> and
  \<open>cmd/di\<close>. The parsers, the file system and the command are arguments.
\<close>

section \<open>Addresses\<close>

definition ValidURL :: "(string \<Rightarrow> err + 'u) \<Rightarrow> string \<Rightarrow> bool" where
  "ValidURL parse_uri s = (case parse_uri s of Inl err \<Rightarrow> False | Inr u \<Rightarrow> True)"

definition ValidIP :: "(string \<Rightarrow> 'i option) \<Rightarrow> string \<Rightarrow> bool" where
  "ValidIP parse_ip s = (case parse_ip s of None \<Rightarrow> False | Some ip \<Rightarrow> True)"

text \<open>The address of a cluster as \<open>FixKubeConfig\<close> accepts it.\<close>

definition valid_address :: "(string \<Rightarrow> err + 'u) \<Rightarrow> (string \<Rightarrow> 'i option) \<Rightarrow> string \<Rightarrow> bool" where
  "valid_address parse_uri parse_ip s \<longleftrightarrow> ValidURL parse_uri s \<or> ValidIP parse_ip s"

section \<open>Files\<close>

datatype stat_result = StatOk | StatNotExist | StatErr err

definition PathExists :: "(string \<Rightarrow> 'w \<Rightarrow> stat_result) \<Rightarrow> string \<Rightarrow> 'w \<Rightarrow> bool \<times> err option" where
  "PathExists stat path w =
     (case stat path w of
        StatOk \<Rightarrow> (True, None)
      | StatNotExist \<Rightarrow> (False, None)
      | StatErr err \<Rightarrow> (False, Some (Wrap ''unknown file status'' err)))"

definition PrintFile :: "(string \<Rightarrow> 'w \<Rightarrow> err + string) \<Rightarrow> string \<Rightarrow> ('w, unit) cmd" where
  "PrintFile read file = cbind (cread (read file)) (\<lambda>r.
     case r of Inl err \<Rightarrow> cfatal (err_text err) | Inr content \<Rightarrow> cprintln content)"

definition createFileIfNotExist ::
  "(string \<Rightarrow> 'w \<Rightarrow> 'w \<times> err option) \<Rightarrow> (string \<Rightarrow> 'w \<Rightarrow> 'w \<times> (err + 'f)) \<Rightarrow> ('f \<Rightarrow> 'w \<Rightarrow> 'w \<times> err option) \<Rightarrow>
   string \<Rightarrow> 'w \<Rightarrow> 'w \<times> err option" where
  "createFileIfNotExist mkdir_all open_file close_file file w =
     (case mkdir_all (path_dir file) w of
        (w', Some err) \<Rightarrow> (w', Some (Wrap (''unable to create directory for file '' @ file) err))
      | (w', None) \<Rightarrow>
     (case open_file file w' of
        (w'', Inl err) \<Rightarrow> (w'', Some (Wrap (''unable to create file '' @ file) err))
      | (w'', Inr f) \<Rightarrow> close_file f w''))"

text \<open>
  A file whose creation was reported as done is there afterwards, where making directories and closing
  keep files and opening creates the file.
\<close>

lemma created_file_exists:
  assumes "createFileIfNotExist mk op cl file w = (w', None)"
    and "\<And>v v' f. op file v = (v', Inr f) \<Longrightarrow> stat file v' = StatOk"
    and "\<And>v v' f e. cl f v = (v', e) \<Longrightarrow> stat file v = StatOk \<Longrightarrow> stat file v' = StatOk"
  shows "PathExists stat file w' = (True, None)"
  using assms
  by (auto simp: createFileIfNotExist_def PathExists_def split: prod.splits option.splits sum.splits)

section \<open>Entry points of single commands\<close>

text \<open>The query command under the name \<open>dq\<close>, and the chat command under \<open>di\<close>.\<close>

definition dq_usage :: string where "dq_usage = ''dq [OPTIONS] [NAME] QUERY''"

definition dq_main :: "(string \<Rightarrow> bool \<Rightarrow> ('w, err option) cmd) \<Rightarrow> ('w, unit) cmd" where
  "dq_main execute = print_main (execute dq_usage True)"

definition di_main :: "('w, err option) cmd \<Rightarrow> ('w, unit) cmd" where
  "di_main execute = print_main execute"

end
