(* ===== verification/Multi_Tree_Fuel.thy ===== *)
theory Multi_Tree_Fuel
  imports Multi_Tree_Correct
begin

text \<open>
  The recursions of the digi-graph end: the fuel of the model only bounds the depth, a result does
  not change with more of it, and one more than the number of addresses in use is enough.
\<close>

lemma deepCompareChildren_mono:
  assumes "\<And>c. deepCompareRoots ord h roots k c \<le> deepCompareRoots ord h roots l c"
  shows "deepCompareChildren ord h roots k cs \<le> deepCompareChildren ord h roots l cs"
proof (induction cs)
  case (Cons c cs)
  have "deepCompareRoots ord h roots k c = Diverge \<or>
      deepCompareRoots ord h roots k c = deepCompareRoots ord h roots l c"
    using assms by (simp add: outcome_le_iff)
  with Cons show ?case
    by (auto simp: deepCompareChildren.simps split: outcome.split option.split)
qed (simp add: deepCompareChildren.simps)

lemma deepCompareRoots_mono_Suc:
  "deepCompareRoots ord h roots k a \<le> deepCompareRoots ord h roots (Suc k) a"
proof (induction k arbitrary: a)
  case (Suc k)
  from deepCompareChildren_mono [OF Suc.IH] show ?case
    by (simp add: deepCompareRoots.simps Let_def outcome_le_iff split: option.split)
qed (simp add: deepCompareRoots.simps)

lemma deepUpdateChildren_mono:
  assumes "\<And>c h. deepUpdateRoots ord ds as k c h \<le> deepUpdateRoots ord ds as l c h"
  shows "deepUpdateChildren ord ds as k cs h \<le> deepUpdateChildren ord ds as l cs h"
proof (induction cs arbitrary: h)
  case (Cons c cs)
  then show ?case
    by (simp add: deepUpdateChildren.simps obind_mono assms)
qed (simp add: deepUpdateChildren.simps)

lemma deepUpdateRoots_mono_Suc:
  "deepUpdateRoots ord ds as k a h \<le> deepUpdateRoots ord ds as (Suc k) a h"
proof (induction k arbitrary: a h)
  case (Suc k)
  from deepUpdateChildren_mono [OF Suc.IH] show ?case
    by (simp add: deepUpdateRoots.simps Let_def split: option.split)
qed (simp add: deepUpdateRoots.simps)

lemma deepCompareRoots_fuel:
  "k \<le> l \<Longrightarrow> deepCompareRoots ord h roots k a = Val r \<Longrightarrow> deepCompareRoots ord h roots l a = Val r"
  using lift_Suc_mono_le [of "\<lambda>k. deepCompareRoots ord h roots k a", OF deepCompareRoots_mono_Suc, of k l]
  by simp

lemma deepUpdateRoots_fuel:
  "k \<le> l \<Longrightarrow> deepUpdateRoots ord ds as k a h = Val r \<Longrightarrow> deepUpdateRoots ord ds as l a h = Val r"
  using lift_Suc_mono_le [of "\<lambda>k. deepUpdateRoots ord ds as k a h", OF deepUpdateRoots_mono_Suc, of k l]
  by simp

section \<open>Properties\<close>

text \<open>
  C3. Termination: in every graph the operations can build, both recursions over the descendants
  of a node return, and with all fuel of more than the number of addresses in use they return
  the same, so the fuel of the model cuts nothing off.
\<close>

theorem recursions_return:
  assumes "range_order ord" and "\<forall>op \<in> set ops. op_named op" and "mt_run ord ops NewMultiTree = Val mt"
    and "map_of (mt_nodes mt) v = Some a" and "[] \<notin> set roots"
  shows "\<exists>res h. \<forall>fuel > mt_next mt.
    deepCompareRoots ord (mt_heap mt) roots fuel a = Val res \<and>
    deepUpdateRoots ord ds as fuel a (mt_heap mt) = Val h"
proof -
  have inv: "mt_inv mt" using run_inv [OF assms(1) mt_inv_new assms(2)] assms(3) by auto
  note ok = mt_invD(1) [OF inv] and ac = mt_invD(9) [OF inv, unfolded mt_edges_def]
  have fuel: "card ((edges_of (mt_nodes mt) (mt_heap mt))\<^sup>+ `` {v}) < Suc (mt_next mt)"
    by (rule enough_fuel [OF ok mt_invD(2) [OF inv]])
  obtain res where res: "deepCompareRoots ord (mt_heap mt) roots (Suc (mt_next mt)) a = Val res"
    using deepCompareRoots_spec [OF assms(1) ok ac assms(5,4) fuel] by blast
  obtain h where h: "deepUpdateRoots ord ds as (Suc (mt_next mt)) a (mt_heap mt) = Val h"
    using deepUpdateRoots_spec [OF assms(1) ac assms(4) fuel ok refl] by blast
  from res h show ?thesis
    by (meson Suc_leI deepCompareRoots_fuel deepUpdateRoots_fuel)
qed

lemma recursions_return_witness:
  "\<exists>res. deepCompareRoots rev (mt_heap (AddNode NewMultiTree ''a'')) [''x''] 99 (mt_next NewMultiTree) = Val res"
proof -
  have run: "mt_run rev [OpAddNode ''a''] NewMultiTree = Val (AddNode NewMultiTree ''a'')" by simp
  have a: "map_of (mt_nodes (AddNode NewMultiTree ''a'')) ''a'' = Some (mt_next NewMultiTree)"
    and lt: "mt_next (AddNode NewMultiTree ''a'') < 99"
    by (simp_all add: AddNode_def NewMultiTree_def)
  have named: "\<forall>op \<in> set [OpAddNode ''a'']. op_named op" and x: "[] \<notin> set [''x'']" by simp_all
  from recursions_return [OF range_order_rev named run a x] lt show ?thesis by blast
qed

end
