(* ===== verification/Multi_Tree_Print.thy ===== *)
theory Multi_Tree_Print
  imports Multi_Tree_Correct
begin

text \<open>
  The printed form of the digi-graph for the log, \<open>String\<close> and \<open>buildPrintTree\<close> of
  \<open>space/mount/webhook/graph/multitree.go\<close>. The tree printer is an argument: the text of a tree with
  the given branches. Since the graph is a multi-tree, a printed tree names every descendant of its
  root once.
\<close>

section \<open>Printing\<close>

datatype print_tree = Branch (pt_name: string) (pt_kids: "print_tree list")

fun buildPrintTree :: "order \<Rightarrow> heap \<Rightarrow> nat \<Rightarrow> addr \<Rightarrow> print_tree outcome"
and buildPrintTrees :: "order \<Rightarrow> heap \<Rightarrow> nat \<Rightarrow> addr list \<Rightarrow> print_tree list outcome" where
  "buildPrintTree ord h 0 a = Diverge"
| "buildPrintTree ord h (Suc fuel) a =
     (case h a of
        None \<Rightarrow> nil_deref
      | Some n \<Rightarrow> obind (buildPrintTrees ord h fuel (range_children ord n)) (\<lambda>ts. Val (Branch (nd_value n) ts)))"
| "buildPrintTrees ord h fuel [] = Val []"
| "buildPrintTrees ord h fuel (c # cs) =
     obind (buildPrintTree ord h fuel c) (\<lambda>t.
     obind (buildPrintTrees ord h fuel cs) (\<lambda>ts. Val (t # ts)))"

definition tree_String :: "(print_tree list \<Rightarrow> string) \<Rightarrow> order \<Rightarrow> multi_tree \<Rightarrow> addr \<Rightarrow> string outcome" where
  "tree_String treeprint ord mt root =
     obind (buildPrintTree ord (mt_heap mt) (Suc (mt_next mt)) root) (\<lambda>t. Val (treeprint [t]))"

fun trees_String :: "(print_tree list \<Rightarrow> string) \<Rightarrow> order \<Rightarrow> multi_tree \<Rightarrow> addr list \<Rightarrow> string \<Rightarrow> string outcome" where
  "trees_String treeprint ord mt [] s = Val s"
| "trees_String treeprint ord mt (a # as) s =
     obind (tree_String treeprint ord mt a) (\<lambda>txt. trees_String treeprint ord mt as (s @ txt @ [CHR 0x0A]))"

definition MultiTree_String :: "(print_tree list \<Rightarrow> string) \<Rightarrow> order \<Rightarrow> multi_tree \<Rightarrow> string outcome" where
  "MultiTree_String treeprint ord mt = trees_String treeprint ord mt (map snd (range_map ord (mt_trees mt))) []"

fun names_in :: "print_tree \<Rightarrow> string list" where
  "names_in (Branch v ts) = v # concat (map names_in ts)"

section \<open>The maps of the graph are maps\<close>

definition heap_maps :: "heap \<Rightarrow> bool" where
  "heap_maps h \<longleftrightarrow> (\<forall>a n. h a = Some n \<longrightarrow> gomap_ok (nd_children n))"

definition maps_ok :: "multi_tree \<Rightarrow> bool" where
  "maps_ok mt \<longleftrightarrow> gomap_ok (mt_nodes mt) \<and> gomap_ok (mt_trees mt) \<and> heap_maps (mt_heap mt)"

lemma heap_maps_upd: "heap_maps h \<Longrightarrow> gomap_ok (nd_children n) \<Longrightarrow> heap_maps (h(a := Some n))"
  by (auto simp: heap_maps_def)

lemma heap_mapsD: "heap_maps h \<Longrightarrow> h a = Some n \<Longrightarrow> gomap_ok (nd_children n)"
  by (auto simp: heap_maps_def)

lemma deepUpdateRoots_maps:
  "deepUpdateRoots ord ds as fuel a h = Val h' \<Longrightarrow> heap_maps h \<Longrightarrow> heap_maps h'"
  "deepUpdateChildren ord ds as fuel cs h = Val h' \<Longrightarrow> heap_maps h \<Longrightarrow> heap_maps h'"
proof (induction ord ds as fuel a h and ord ds as fuel cs h arbitrary: h' and h' rule: deepUpdateRoots_deepUpdateChildren.induct)
  case (2 ord ds as fuel a h)
  from 2(2) obtain n where n: "h a = Some n" by (auto simp: deepUpdateRoots.simps split: option.splits)
  let ?n = "n\<lparr>nd_roots := roots_add as (roots_del ds (nd_roots n))\<rparr>"
  have "heap_maps (h(a := Some ?n))" using heap_mapsD [OF 2(3) n] 2(3) by (intro heap_maps_upd) simp_all
  moreover have "deepUpdateChildren ord ds as fuel (range_children ord ?n) (h(a := Some ?n)) = Val h'"
    using 2(2) n by (simp add: deepUpdateRoots.simps Let_def)
  ultimately show ?case using 2(1) [OF n refl] by blast
qed (auto simp: deepUpdateRoots.simps deepUpdateChildren.simps obind_Val_iff)

lemma AddNode_maps: "maps_ok mt \<Longrightarrow> maps_ok (AddNode mt n)"
  by (auto simp: AddNode_def Let_def maps_ok_def intro!: heap_maps_upd)

lemma AddEdge_maps:
  assumes "AddEdge ord mt s e = Val (mt', res)" and "maps_ok mt"
  shows "maps_ok mt'"
  using assms
  by (auto simp: AddEdge_def Let_def maps_ok_def obind_Val_iff split: option.splits if_splits
      intro!: heap_maps_upd elim!: deepUpdateRoots_maps(1))
    (blast intro: gomap_ok_update gomap_ok_delete heap_mapsD)+

lemma RemoveEdge_maps:
  assumes "RemoveEdge ord mt s e = Val (mt', res)" and "maps_ok mt"
  shows "maps_ok mt'"
  using assms
  by (auto simp: RemoveEdge_def Let_def maps_ok_def obind_Val_iff split: option.splits if_splits
      intro!: heap_maps_upd elim!: deepUpdateRoots_maps(1))
    (blast intro: gomap_ok_update gomap_ok_delete heap_mapsD)+

lemma removeOutEdges_maps:
  "removeOutEdges ord na ks mt = Val (mt', res) \<Longrightarrow> maps_ok mt \<Longrightarrow> maps_ok mt'"
proof (induction ks arbitrary: mt)
  case (Cons k ks)
  then show ?case
    by (auto simp: obind_Val_iff split: option.splits dest: RemoveEdge_maps)
qed simp

lemma removeInEdges_maps: "removeInEdges name as h = Val h' \<Longrightarrow> heap_maps h \<Longrightarrow> heap_maps h'"
proof (induction "as" arbitrary: h)
  case (Cons a as)
  then show ?case by (auto split: option.splits intro!: Cons.IH heap_maps_upd dest: heap_mapsD)
qed simp

lemma RemoveNode_maps:
  assumes "RemoveNode ord mt name = Val (mt', res)" and "maps_ok mt"
  shows "maps_ok mt'"
  using assms
  by (auto simp: RemoveNode_def obind_Val_iff split: option.splits dest!: removeOutEdges_maps)
    (auto simp: maps_ok_def dest: removeInEdges_maps)

lemma mt_run_maps: "mt_run ord ops mt = Val mt' \<Longrightarrow> maps_ok mt \<Longrightarrow> maps_ok mt'"
proof (induction ops arbitrary: mt)
  case (Cons op ops)
  then show ?case
    by (cases op) (auto simp: obind_Val_iff dest: AddNode_maps AddEdge_maps RemoveEdge_maps RemoveNode_maps)
qed simp

lemma maps_ok_new: "maps_ok NewMultiTree"
  by (simp add: maps_ok_def NewMultiTree_def heap_maps_def)

section \<open>What is printed\<close>

text \<open>A printed tree of a node: the descendants of the node, each once.\<close>

definition prints :: "(string \<times> string) set \<Rightarrow> string \<Rightarrow> print_tree \<Rightarrow> bool" where
  "prints E v t \<longleftrightarrow> pt_name t = v \<and> set (names_in t) = E\<^sup>* `` {v} \<and> distinct (names_in t)"

lemma buildPrintTrees_spec:
  assumes "list_all2 (\<lambda>c w. \<exists>t. buildPrintTree ord h fuel c = Val t \<and> prints E w t) cs ws"
  shows "\<exists>ts. buildPrintTrees ord h fuel cs = Val ts \<and> list_all2 (prints E) ws ts"
  using assms by (induction rule: list_all2_induct) auto

lemma prints_branch:
  assumes m: "multitree E" and kids: "set ws = E `` {v}" "distinct ws" and ts: "list_all2 (prints E) ws ts"
  shows "prints E v (Branch v ts)"
proof -
  have names: "set (concat (map names_in ts)) = E\<^sup>* `` set ws" if "list_all2 (prints E) ws ts" for ws ts
    using that by (induction rule: list_all2_induct) (auto simp: prints_def)
  have apart: "distinct (concat (map names_in ts))" if "list_all2 (prints E) ws ts" "set ws \<subseteq> E `` {v}" "distinct ws" for ws ts
    using that
  proof (induction rule: list_all2_induct)
    case (Cons w ws t ts)
    have "E\<^sup>* `` {w} \<inter> E\<^sup>* `` set ws = {}"
      using Cons.prems multitree_diamond [OF m, of v w] by fastforce
    with Cons names [OF Cons.hyps(2)] show ?case by (auto simp: prints_def)
  qed simp
  have "v \<notin> E\<^sup>* `` set ws" using acyclic_no_return [OF multitree_acyclic [OF m]] kids(1) by blast
  moreover have "E\<^sup>* `` {v} = insert v (E\<^sup>* `` set ws)" unfolding kids(1) using reach_cases [of v _ E] by blast
  ultimately show ?thesis using names [OF ts] apart [OF ts] kids by (simp add: prints_def)
qed

lemma buildPrintTree_spec:
  assumes ord: "range_order ord" and ok: "heap_ok nds h" and maps: "heap_maps h" and m: "multitree (edges_of nds h)"
  shows "map_of nds v = Some a \<Longrightarrow> card ((edges_of nds h)\<^sup>+ `` {v}) < fuel \<Longrightarrow>
    \<exists>t. buildPrintTree ord h fuel a = Val t \<and> prints (edges_of nds h) v t"
proof (induction fuel arbitrary: v a)
  case (Suc fuel)
  let ?E = "edges_of nds h"
  obtain n where n: "h a = Some n" "nd_value n = v"
    "\<And>w c. map_of (nd_children n) w = Some c \<Longrightarrow> map_of nds w = Some (c_node c)" using heap_okE [OF ok Suc.prems(1)] by metis
  let ?ks = "ord (keys_of (nd_children n))"
  have ks: "set ?ks = ?E `` {v}"
    using edges_of_iff [OF ok Suc.prems(1) n(1)] by (auto simp: range_order_set [OF ord] keys_of_dom simp del: set_map)
  have d: "distinct ?ks" using heap_mapsD [OF maps n(1)] by (simp add: range_order_distinct [OF ord] gomap_ok_def)
  have "\<exists>t. buildPrintTree ord h fuel (c_node (the (map_of (nd_children n) w))) = Val t \<and> prints ?E w t"
    if "w \<in> set ?ks" for w
  proof (rule Suc.IH)
    have e: "(v, w) \<in> ?E" using that ks by blast
    then show "map_of nds w = Some (c_node (the (map_of (nd_children n) w)))"
      using edges_of_iff [OF ok Suc.prems(1) n(1)] n(3) by auto
    show "card (?E\<^sup>+ `` {w}) < fuel"
      using card_descendants [OF finite_edges_of [OF ok] multitree_acyclic [OF m] e] Suc.prems(2) by simp
  qed
  then have "list_all2 (\<lambda>c w. \<exists>t. buildPrintTree ord h fuel c = Val t \<and> prints ?E w t) (range_children ord n) ?ks"
    by (simp add: range_children_def list_all2_map1 list.rel_refl_strong)
  from buildPrintTrees_spec [OF this] obtain ts where ts: "buildPrintTrees ord h fuel (range_children ord n) = Val ts"
    "list_all2 (prints ?E) ?ks ts" by blast
  from prints_branch [OF m ks d ts(2)] ts(1) n(1,2) show ?case by simp
qed simp

lemma trees_String_spec:
  assumes "\<And>r. r \<in> set rs \<Longrightarrow> buildPrintTree ord (mt_heap mt) (Suc (mt_next mt)) (addr_of r) = Val (f r)"
  shows "trees_String treeprint ord mt (map addr_of rs) s =
    Val (s @ concat (map (\<lambda>r. treeprint [f r] @ [CHR 0x0A]) rs))"
  using assms by (induction rs arbitrary: s) (simp_all add: tree_String_def)

text \<open>
  The log line of every graph the operations can build: printing returns, gives one tree for every
  source of the graph, and in it every model below the source exactly once.
\<close>

theorem graph_printed:
  assumes ord: "range_order ord" and "range_order ord'" and "\<forall>op \<in> set ops. op_named op"
    and run: "mt_run ord' ops NewMultiTree = Val mt"
  shows "\<exists>rs f. distinct rs \<and> set rs = sources (mt_names mt) (mt_edges mt) \<and>
    (\<forall>r \<in> set rs. prints (mt_edges mt) r (f r)) \<and>
    MultiTree_String treeprint ord mt = Val (concat (map (\<lambda>r. treeprint [f r] @ [CHR 0x0A]) rs))"
proof -
  have inv: "mt_inv mt" using run_inv [OF assms(2) mt_inv_new assms(3)] run by auto
  have maps: "maps_ok mt" by (rule mt_run_maps [OF run maps_ok_new])
  let ?rs = "ord (keys_of (mt_trees mt))" and ?addr = "\<lambda>r. the (map_of (mt_trees mt) r)"
  have d: "distinct ?rs" using maps by (simp add: range_order_distinct [OF ord] maps_ok_def gomap_ok_def)
  have trees: "map_of (mt_trees mt) r = (if r \<in> sources (mt_names mt) (mt_edges mt) then map_of (mt_nodes mt) r else None)" for r
    using mt_invD(6) [OF inv] by (simp add: trees_ok_def mt_names_def)
  have rs: "set ?rs = sources (mt_names mt) (mt_edges mt)"
  proof -
    have "sources (mt_names mt) (mt_edges mt) \<subseteq> dom (map_of (mt_nodes mt))" by (auto simp: sources_def mt_names_def)
    then show ?thesis
      unfolding range_order_set [OF ord] keys_of_dom by (auto simp: trees dom_def split: if_splits)
  qed
  have "\<exists>t. buildPrintTree ord (mt_heap mt) (Suc (mt_next mt)) (?addr r) = Val t \<and> prints (mt_edges mt) r t"
    if r: "r \<in> set ?rs" for r
  proof -
    from r rs trees [of r] have "map_of (mt_nodes mt) r = Some (?addr r)"
      by (auto simp: sources_def mt_names_def)
    from buildPrintTree_spec [OF ord mt_invD(1) [OF inv] _ mt_invD(4) [OF inv, unfolded mt_edges_def] this
        enough_fuel [OF mt_invD(1,2) [OF inv]]] maps
    show ?thesis by (simp add: maps_ok_def mt_edges_def)
  qed
  then obtain f where f: "\<And>r. r \<in> set ?rs \<Longrightarrow> buildPrintTree ord (mt_heap mt) (Suc (mt_next mt)) (?addr r) = Val (f r)"
    "\<And>r. r \<in> set ?rs \<Longrightarrow> prints (mt_edges mt) r (f r)" by metis
  have "MultiTree_String treeprint ord mt = Val (concat (map (\<lambda>r. treeprint [f r] @ [CHR 0x0A]) ?rs))"
    using trees_String_spec [of ?rs ord mt ?addr f treeprint "[]", OF f(1)]
    by (simp add: MultiTree_String_def range_map_def comp_def)
  with d rs f(2) show ?thesis by blast
qed

end
