(* ===== verification/Ctx_Cmd.thy ===== *)
theory Ctx_Cmd
  imports Ctx_Base
begin

text \<open>
  The command of the context sidecar that lists, switches, renames and deletes the contexts of the
  kube config file, \<open>sidecar/ctx/cmd/ctx\<close>: its arguments, the file with the previous context, and
  the body of every operation.
\<close>

section \<open>Operations and arguments\<close>

datatype ctx_op =
    InteractiveSwitchOp string
  | InteractiveDeleteOp string
  | ListOp
  | UnsupportedOp err
  | DeleteOp "string list"
  | HelpOp
  | VersionOp
  | CurrentOp
  | UnsetOp
  | RenameOp string string
  | SwitchOp string

definition parseRenameSyntax :: "string \<Rightarrow> (string \<times> string) option" where
  "parseRenameSyntax v = (case split_on (CHR ''='') v of
     [new, old] \<Rightarrow> if new = [] \<or> old = [] then None else Some (new, old)
   | _ \<Rightarrow> None)"

definition parseArgs :: "'w ctx_os \<Rightarrow> string list \<Rightarrow> ctx_op" where
  "parseArgs os argv = (case argv of
     [] \<Rightarrow> if IsInteractiveMode os then InteractiveSwitchOp (co_arg0 os) else ListOp
   | v # rest \<Rightarrow>
       (if v = ''-d'' then
          (if rest = [] then
             (if IsInteractiveMode os then InteractiveDeleteOp (co_arg0 os)
              else UnsupportedOp (Err (single_quoted ''-d'' @ '' needs arguments'')))
           else DeleteOp rest)
        else if rest = [] then
          (if v = ''--help'' \<or> v = ''-h'' then HelpOp
           else if v = ''--version'' \<or> v = ''-V'' then VersionOp
           else if v = ''--current'' \<or> v = ''-c'' then CurrentOp
           else if v = ''--unset'' \<or> v = ''-u'' then UnsetOp
           else case parseRenameSyntax v of
             Some (new, old) \<Rightarrow> RenameOp new old
           | None \<Rightarrow>
               (if has_prefix ''-'' v \<and> v \<noteq> ''-'' then UnsupportedOp (Err (''unsupported option '' @ single_quoted v))
                else SwitchOp v))
        else UnsupportedOp (Err ''too many arguments'')))"

section \<open>The previous context\<close>

definition kubectxPrevCtxFile :: "'w ctx_os \<Rightarrow> err + string" where
  "kubectxPrevCtxFile os =
     (let home = HomeDir os in
      if home = [] then Inl (Err ''HOME or USERPROFILE environment variable not set'')
      else Inr (path_join [home, ''.kube'', ''kubectx'']))"

definition readLastContext :: "'w ctx_os \<Rightarrow> string \<Rightarrow> 'w \<Rightarrow> err + string" where
  "readLastContext os path w = (case co_read_file os path w of
     Inl (True, e) \<Rightarrow> Inr []
   | Inl (False, e) \<Rightarrow> Inl e
   | Inr b \<Rightarrow> Inr b)"

definition writeLastContext :: "'w ctx_os \<Rightarrow> string \<Rightarrow> string \<Rightarrow> ('w, unit) act" where
  "writeLastContext os path v =
     abind (acheck (co_mkdir_all os (path_dir path))) (Wrap ''failed to create parent directories'')
       (\<lambda>_. acheck (co_write_file os path v))"

section \<open>Switching\<close>

definition in_quotes :: "string \<Rightarrow> string" where
  "in_quotes s = ''\"'' @ s @ ''\"''"

definition switchContext :: "'w ctx_os \<Rightarrow> string \<Rightarrow> ('w, string) act" where
  "switchContext os nm = (case kubectxPrevCtxFile os of
     Inl e \<Rightarrow> afail (Wrap ''failed to determine state file'' e)
   | Inr prevCtxFile \<Rightarrow> with_kubeconfig os (\<lambda>(f, root).
       cbind (clift (GetCurrentContext root)) (\<lambda>prev.
       cbind (clift (ContextExists root nm)) (\<lambda>exists.
         if \<not> exists then afail (Err (''no context exists with the name: '' @ in_quotes nm))
         else cbind (clift (ModifyCurrentContext root nm)) (\<lambda>root'.
           abind (Save os (f, root')) (Wrap ''failed to save kubeconfig'') (\<lambda>_.
             if prev \<noteq> nm then
               abind (writeLastContext os prevCtxFile prev) (Wrap ''failed to save previous context name'')
                 (\<lambda>_. aok nm)
             else aok nm))))))"

definition swapContext :: "'w ctx_os \<Rightarrow> ('w, string) act" where
  "swapContext os = (case kubectxPrevCtxFile os of
     Inl e \<Rightarrow> afail (Wrap ''failed to determine state file'' e)
   | Inr prevCtxFile \<Rightarrow>
       abind (cread (readLastContext os prevCtxFile)) (Wrap ''failed to read previous context file'') (\<lambda>prev.
         if prev = [] then afail (Err ''no previous context found'') else switchContext os prev))"

definition switched :: "'w ctx_os \<Rightarrow> string \<Rightarrow> ('w, unit) act" where
  "switched os nm = cthen
     (printer_Success os (''Switched to context '' @ in_quotes (co_paint os ''success'' nm) @ ''.'')) (aok ())"

definition run_SwitchOp :: "'w ctx_os \<Rightarrow> string \<Rightarrow> ('w, unit) act" where
  "run_SwitchOp os target =
     abind (if target = ''-'' then swapContext os else switchContext os target)
       (Wrap ''failed to switch context'') (switched os)"

section \<open>Deleting\<close>

definition selfName :: "'w ctx_os \<Rightarrow> string" where
  "selfName os =
     (let me = path_base (co_arg0 os) in
      if has_prefix ''kubectl-'' me then ''kubectl '' @ drop (length ''kubectl-'') me else ''kubectx'')"

definition deleteContext :: "'w ctx_os \<Rightarrow> string \<Rightarrow> ('w, string \<times> bool \<times> err option) cmd" where
  "deleteContext os nm0 = cbind (cparse os) (\<lambda>r.
     case r of
       Inl e \<Rightarrow> creturn ([], False, Some (Wrap ''kubeconfig error'' (snd e)))
     | Inr (f, root) \<Rightarrow> cbind (clift (GetCurrentContext root)) (\<lambda>cur.
         if nm0 = ''.'' \<and> cur = []
         then creturn ([], False, Some (Err (''can'' @ [CHR 0x27] @ ''t use '' @ single_quoted ''.'' @
                ''as the no active context is set'')))
         else
           let wasActiveContext = (nm0 = ''.'');
               nm = (if nm0 = ''.'' then cur else nm0) in
           cbind (clift (ContextExists root nm)) (\<lambda>exists.
             if \<not> exists then creturn (nm, False, Some (Err ''context does not exist''))
             else cbind (clift (DeleteContextEntry root nm)) (\<lambda>d.
               case d of
                 Inl e \<Rightarrow> creturn (nm, False, Some (Wrap ''failed to modify yaml doc'' e))
               | Inr root' \<Rightarrow> cbind (Save os (f, root')) (\<lambda>s.
                   creturn (nm, wasActiveContext, case s of
                     Inl e \<Rightarrow> Some (Wrap ''failed to save modified kubeconfig file'' e)
                   | Inr _ \<Rightarrow> None))))))"

definition deleted_lines :: "'w ctx_os \<Rightarrow> string \<Rightarrow> bool \<Rightarrow> ('w, unit) cmd" where
  "deleted_lines os nm wasActiveContext = cthen
     (cwhen wasActiveContext (printer_Warning os
       (''You deleted the current context. Use '' @ in_quotes (selfName os) @ '' to select a new context.'')))
     (printer_Success os (''Deleted context '' @ co_paint os ''success'' nm @ ''.''))"

fun run_DeleteOp :: "'w ctx_os \<Rightarrow> string list \<Rightarrow> ('w, unit) act" where
  "run_DeleteOp os [] = aok ()"
| "run_DeleteOp os (c # cs) = cbind (deleteContext os c) (\<lambda>(deletedName, wasActiveContext, err).
     case err of
       Some e \<Rightarrow> afail (Wrap (''error deleting context '' @ in_quotes deletedName) e)
     | None \<Rightarrow> cthen (deleted_lines os deletedName wasActiveContext) (run_DeleteOp os cs))"

section \<open>Renaming\<close>

definition overwrite_new :: "'w ctx_os \<Rightarrow> ynode \<Rightarrow> string \<Rightarrow> ('w, ynode) act" where
  "overwrite_new os root new = cbind (clift (ContextExists root new)) (\<lambda>exists.
     if exists then
       cthen (printer_Warning os (''context '' @ in_quotes new @ '' exists, overwriting it.''))
         (abind (clift (DeleteContextEntry root new)) (Wrap ''failed to delete new context to overwrite it'') aok)
     else aok root)"

definition run_RenameOp :: "'w ctx_os \<Rightarrow> string \<Rightarrow> string \<Rightarrow> ('w, unit) act" where
  "run_RenameOp os new old0 = with_kubeconfig os (\<lambda>(f, root).
     cbind (clift (GetCurrentContext root)) (\<lambda>cur.
     let old = (if old0 = ''.'' then cur else old0) in
     cbind (clift (ContextExists root old)) (\<lambda>exists.
       if \<not> exists then afail (Err (''context '' @ in_quotes old @ '' not found, can'' @ [CHR 0x27] @ ''t rename it''))
       else abind (overwrite_new os root new) id (\<lambda>root1.
         abind (clift (ModifyContextName root1 old new)) (Wrap ''failed to change context name'') (\<lambda>root2.
         cbind (clift (if old = cur then ModifyCurrentContext root2 new else Val root2)) (\<lambda>root3.
         abind (Save os (f, root3)) (Wrap ''failed to save modified kubeconfig'') (\<lambda>_.
           cthen (printer_Success os (''Context '' @ co_paint os ''success'' old @ '' renamed to '' @
                    co_paint os ''success'' new @ ''.''))
             (aok ()))))))))"

section \<open>The other operations\<close>

definition run_CurrentOp :: "'w ctx_os \<Rightarrow> ('w, unit) act" where
  "run_CurrentOp os = with_kubeconfig os (\<lambda>(f, root).
     cbind (clift (GetCurrentContext root)) (\<lambda>v.
       if v = [] then afail (Err ''current-context is not set'')
       else cthen (cprintln v) (aok ())))"

definition list_lines :: "'w ctx_os \<Rightarrow> string \<Rightarrow> string list \<Rightarrow> ('w, unit) cmd" where
  "list_lines os cur cs =
     cforeach cs (\<lambda>c. cprintln (if c = cur then co_paint os ''active'' c else c))"

definition or_not_found :: "'w ctx_os \<Rightarrow> (kubeconfig \<Rightarrow> ('w, unit) act) \<Rightarrow> ('w, unit) act" where
  "or_not_found os g = cbind (cparse os) (\<lambda>r.
     case r of
       Inl e \<Rightarrow>
         (if IsNotFoundErr e then cthen (printer_Warning os ''kubeconfig file not found'') (aok ())
          else afail (Wrap ''kubeconfig error'' (snd e)))
     | Inr kc \<Rightarrow> g kc)"

definition run_ListOp :: "'w ctx_os \<Rightarrow> ('w, unit) act" where
  "run_ListOp os = or_not_found os (\<lambda>(f, root).
     cbind (clift (ContextNames root)) (\<lambda>ctxs.
     cbind (clift (GetCurrentContext root)) (\<lambda>cur.
       cthen (list_lines os cur (co_natsort os ctxs)) (aok ()))))"

definition run_UnsetOp :: "'w ctx_os \<Rightarrow> ('w, unit) act" where
  "run_UnsetOp os = with_kubeconfig os (\<lambda>(f, root).
     cbind (clift (UnsetCurrentContext root)) (\<lambda>root'.
       abind (Save os (f, root')) (Wrap ''failed to save kubeconfig file after modification'') (\<lambda>_.
         cthen (printer_Success os ''Active context unset for kubectl.'') (aok ()))))"

text \<open>\<open>fzf\<close> runs this very program to get its lines; an exit status other than 0 is not looked at.\<close>

definition choose_line :: "'w ctx_os \<Rightarrow> string \<Rightarrow> ('w, string) act" where
  "choose_line os selfCmd = abind (cread (co_fzf os selfCmd)) id (\<lambda>lines.
     let choice = trim_space lines in
     if choice = [] then afail (Err ''you did not choose any of the options'') else aok choice)"

definition run_InteractiveSwitchOp :: "'w ctx_os \<Rightarrow> string \<Rightarrow> ('w, unit) act" where
  "run_InteractiveSwitchOp os selfCmd = or_not_found os (\<lambda>kc.
     abind (choose_line os selfCmd) id (\<lambda>choice.
       abind (switchContext os choice) (Wrap ''failed to switch context'') (switched os)))"

definition run_InteractiveDeleteOp :: "'w ctx_os \<Rightarrow> string \<Rightarrow> ('w, unit) act" where
  "run_InteractiveDeleteOp os selfCmd = or_not_found os (\<lambda>(f, root).
     cbind (clift (ContextNames root)) (\<lambda>ctxs.
       if ctxs = [] then afail (Err ''no contexts found in config'')
       else abind (choose_line os selfCmd) id (\<lambda>choice.
         cbind (deleteContext os choice) (\<lambda>(nm, wasActiveContext, err).
           case err of
             Some e \<Rightarrow> afail (Wrap ''failed to delete context'' e)
           | None \<Rightarrow> cthen (deleted_lines os nm wasActiveContext) (aok ())))))"

definition help_lines :: "string list" where
  "help_lines =
     [''USAGE:'',
      ''  %PROG%                       : list the contexts'',
      ''  %PROG% <NAME>                : switch to context <NAME>'',
      ''  %PROG% -                     : switch to the previous context'',
      ''  %PROG% -c, --current         : show the current context name'',
      ''  %PROG% <NEW_NAME>=<NAME>     : rename context <NAME> to <NEW_NAME>'',
      ''  %PROG% <NEW_NAME>=.          : rename current-context to <NEW_NAME>'',
      ''  %PROG% -u, --unset           : unset the current context'',
      ''  %PROG% -d <NAME> [<NAME...>] : delete context <NAME> ('' @ single_quoted ''.'' @ '' for current-context)'',
      ''  %SPAC%                         (this command won'' @ [CHR 0x27] @ ''t delete the user/cluster entry'',
      ''  %SPAC%                          referenced by the context entry)'',
      ''  %PROG% -h,--help             : show this message'',
      ''  %PROG% -V,--version          : show version'']"

definition printUsage :: "'w ctx_os \<Rightarrow> ('w, unit) act" where
  "printUsage os = cthen
     (cprintln (replace_all
       (replace_all (join_with newline help_lines) ''%PROG%'' (selfName os))
       ''%SPAC%'' (replicate (length (selfName os)) (CHR '' ''))))
     (aok ())"

definition version :: string where
  "version = ''v0.0.0+unknown''"

fun run_op :: "'w ctx_os \<Rightarrow> ctx_op \<Rightarrow> ('w, unit) act" where
  "run_op os (InteractiveSwitchOp self) = run_InteractiveSwitchOp os self"
| "run_op os (InteractiveDeleteOp self) = run_InteractiveDeleteOp os self"
| "run_op os ListOp = run_ListOp os"
| "run_op os (UnsupportedOp e) = afail e"
| "run_op os (DeleteOp cs) = run_DeleteOp os cs"
| "run_op os HelpOp = printUsage os"
| "run_op os VersionOp = cthen (cprintln version) (aok ())"
| "run_op os CurrentOp = run_CurrentOp os"
| "run_op os UnsetOp = run_UnsetOp os"
| "run_op os (RenameOp new old) = run_RenameOp os new old"
| "run_op os (SwitchOp target) = run_SwitchOp os target"

text \<open>The process exits with 1 after an error.\<close>

definition finish :: "'w ctx_os \<Rightarrow> ('w, unit) act \<Rightarrow> ('w, unit) cmd" where
  "finish os m = cthen (PrintDeprecatedEnvWarnings os (co_environ os)) (cbind m (\<lambda>r.
     case r of
       Inr _ \<Rightarrow> creturn ()
     | Inl e \<Rightarrow> cthen (printer_Error os (err_text e))
         (cthen (cwhen (lookup_env ''DEBUG'' (co_environ os) \<noteq> None)
             (clog (''[DEBUG] error: '' @ co_stack os e @ newline)))
           (cfatal []))))"

definition main :: "'w ctx_os \<Rightarrow> string list \<Rightarrow> ('w, unit) cmd" where
  "main os args = finish os (run_op os (parseArgs os args))"


section \<open>Switching there and back\<close>

lemma writeLastContext_run:
  assumes "ctx_os_works os good cfg prev"
  obtains w' where "writeLastContext os prev v w = (w', [], Val (Inr ()))"
    "co_read_file os prev w' = Inr v" "co_open os cfg w' = co_open os cfg w"
    "co_decode os cfg w' = co_decode os cfg w"
proof -
  obtain w1 w2 where s: "co_mkdir_all os (path_dir prev) w = (w1, None)"
    "co_write_file os prev v w1 = (w2, None)" "co_read_file os prev w2 = Inr v"
    "co_open os cfg w2 = co_open os cfg w" "co_decode os cfg w2 = co_decode os cfg w"
    using ctx_os_worksD(5) [OF assms, of w v] by auto
  then have "writeLastContext os prev v w = (w2, [], Val (Inr ()))"
    by (simp add: writeLastContext_def act_simps)
  with s that show thesis by blast
qed

lemma Parse_cong:
  "kubeconfigPath os = Inr cfg \<Longrightarrow> co_open os cfg w' = co_open os cfg w \<Longrightarrow>
   co_decode os cfg w' = co_decode os cfg w \<Longrightarrow> Parse os w' = Parse os w"
  by (simp add: Parse_def Load_def split: sum.split bool.split)

lemma kube_state_cong:
  "kubeconfigPath os = Inr cfg \<Longrightarrow> co_open os cfg w' = co_open os cfg w \<Longrightarrow>
   co_decode os cfg w' = co_decode os cfg w \<Longrightarrow> kube_state os w' c = kube_state os w c"
  using Parse_cong by (metis kube_state_def)

lemma switchContext_run:
  assumes os: "ctx_os_works os good cfg prev" "kubeconfigPath os = Inr cfg" "kubectxPrevCtxFile os = Inr prev"
    and w: "kube_state os w c" and nm: "nm \<in> fst ` set (cc_contexts c)" "nm \<noteq> cc_current c"
  obtains w' where "switchContext os nm w = (w', [], Val (Inr nm))"
    "kube_state os w' (c\<lparr>cc_current := nm\<rparr>)" "co_read_file os prev w' = Inr (cc_current c)"
proof -
  obtain f root where p: "Parse os w = Val (Inr (f, root))" "config_of root = Some c"
    "kubeconfigPath os = Inr f" "co_open os f w = Inr ()" by (rule kube_stateE [OF w])
  with os(2) have f: "f = cfg" by simp
  obtain root' where r: "ModifyCurrentContext root nm = Val root'" "config_of root' = Some (c\<lparr>cc_current := nm\<rparr>)"
    using ModifyCurrentContext_config [OF p(2)] by blast
  have tt: "yaml_text good root" by (rule Parse_text [OF os(1) p(1) [unfolded f]])
  have "yaml_text good root'"
    by (rule ModifyCurrentContext_text [OF r(1) tt ctx_os_worksD(2) [OF os(1)] config_names_text [OF p(2) tt nm(1)]])
  then obtain w1 where w1: "Save os (cfg, root') w = (w1, [], Val (Inr ()))"
    "kube_state os w1 (c\<lparr>cc_current := nm\<rparr>)"
    using Save_state [OF os(1,2) p(4) [unfolded f] r(2)] by blast
  obtain w2 where w2: "writeLastContext os prev (cc_current c) w1 = (w2, [], Val (Inr ()))"
    "co_read_file os prev w2 = Inr (cc_current c)" "co_open os cfg w2 = co_open os cfg w1"
    "co_decode os cfg w2 = co_decode os cfg w1"
    by (rule writeLastContext_run [OF os(1)])
  have "switchContext os nm w = (w2, [], Val (Inr nm))"
    using nm p(1,2) r(1) w1(1) w2(1)
    by (auto simp: switchContext_def os(3) f act_simps config_reads)
  with w1(2) w2 kube_state_cong [OF os(2) w2(3,4)] show thesis by (intro that) auto
qed


text \<open>Switching contexts offers the interface.\<close>

definition ctx_state :: "'w ctx_os \<Rightarrow> (string \<Rightarrow> bool) \<Rightarrow> string \<Rightarrow> string \<Rightarrow> 'w \<Rightarrow> context_config \<Rightarrow> bool" where
  "ctx_state os good cfg prev w c \<longleftrightarrow> ctx_os_works os good cfg prev \<and> kubeconfigPath os = Inr cfg \<and>
     kubectxPrevCtxFile os = Inr prev \<and> kube_state os w c"

definition ctx_known :: "context_config \<Rightarrow> string \<Rightarrow> bool" where
  "ctx_known c x \<longleftrightarrow> x \<in> fst ` set (cc_contexts c)"

interpretation contexts: there_and_back "ctx_state os good cfg prev" cc_current "\<lambda>c x. c\<lparr>cc_current := x\<rparr>"
  ctx_known "\<lambda>c w x. co_read_file os prev w = Inr x" "run_SwitchOp os" "run_SwitchOp os ''-''"
proof unfold_locales
  fix w c x
  assume w: "ctx_state os good cfg prev w c" and x: "ctx_known c x" "x \<noteq> cc_current c"
  then obtain w' where w': "switchContext os x w = (w', [], Val (Inr x))"
    "ctx_state os good cfg prev w' (c\<lparr>cc_current := x\<rparr>)" "co_read_file os prev w' = Inr (cc_current c)"
    using switchContext_run [of os good cfg prev w c x] unfolding ctx_state_def ctx_known_def by blast
  show "\<exists>w' es. run_SwitchOp os x w = (w', es, Val (Inr ())) \<and>
      ctx_state os good cfg prev w' (c\<lparr>cc_current := x\<rparr>) \<and> co_read_file os prev w' = Inr (cc_current c)"
    if "x \<noteq> ''-''"
    using that w' by (simp add: run_SwitchOp_def switched_def act_simps)
  show "\<exists>w' es. run_SwitchOp os ''-'' w = (w', es, Val (Inr ())) \<and>
      ctx_state os good cfg prev w' (c\<lparr>cc_current := x\<rparr>) \<and> co_read_file os prev w' = Inr (cc_current c)"
    if "x \<noteq> []" "co_read_file os prev w = Inr x"
  proof -
    have "swapContext os w = (w', [], Val (Inr x))"
      using w x that(2,1) w'(1) by (simp add: swapContext_def ctx_state_def ctx_known_def act_simps readLastContext_def)
    with w' show ?thesis by (simp add: run_SwitchOp_def switched_def act_simps)
  qed
qed (simp_all add: ctx_known_def)

section \<open>Properties\<close>

lemma sample_prev: "kubectxPrevCtxFile sample_os = Inr ''/h/.kube/kubectx''"
  by (simp add: kubectxPrevCtxFile_def HomeDir_def sample_home path_join_def path_clean_def)

text \<open>
  C36. Switching to a context of the file and then to \<open>-\<close> succeeds both times and leads back: after
  the first command the file has the same contexts with the new one current, after the second it is
  the configuration of the beginning, and the next \<open>-\<close> would lead to the new one again. The current
  context is set, is one of the file and is not the new one, and the calls on the files succeed.
\<close>

theorem switch_and_back:
  assumes "ctx_os_works os good cfg prev" "kubeconfigPath os = Inr cfg" "kubectxPrevCtxFile os = Inr prev"
    and "kube_state os w c" "cc_current c \<in> fst ` set (cc_contexts c)" "cc_current c \<noteq> []"
    and "nm \<in> fst ` set (cc_contexts c)" "nm \<noteq> cc_current c" "nm \<noteq> ''-''"
  shows "\<exists>w1 w2 es1 es2. run_op os (SwitchOp nm) w = (w1, es1, Val (Inr ())) \<and>
    kube_state os w1 (c\<lparr>cc_current := nm\<rparr>) \<and>
    run_op os (SwitchOp ''-'') w1 = (w2, es2, Val (Inr ())) \<and>
    kube_state os w2 c \<and> readLastContext os prev w2 = Inr nm"
  using contexts.back_undoes_switch [of os good cfg prev w c nm] assms
  by (auto simp: ctx_state_def ctx_known_def readLastContext_def)

lemma switch_and_back_witness:
  "\<exists>w1 w2 es1 es2. run_op sample_os (SwitchOp ''b'') (sample_contexts, None) = (w1, es1, Val (Inr ())) \<and>
    run_op sample_os (SwitchOp ''-'') w1 = (w2, es2, Val (Inr ())) \<and>
    kube_state sample_os w2 \<lparr>cc_contexts = [(''a'', ''default''), (''b'', ''default'')], cc_current = ''a''\<rparr>"
  using switch_and_back [OF sample_os_ok sample_paths sample_prev sample_state, of "''b''" None] by auto


section \<open>Renaming and saving\<close>

text \<open>The contexts left when the entry of the new name was deleted to be overwritten.\<close>

definition overwritten :: "string \<Rightarrow> (string \<times> 'v) list \<Rightarrow> (string \<times> 'v) list" where
  "overwritten new cs = (if new \<in> fst ` set cs then delete_first new cs else cs)"

definition renamed :: "context_config \<Rightarrow> string \<Rightarrow> string \<Rightarrow> context_config" where
  "renamed c old new =
     \<lparr>cc_contexts = change_first old (\<lambda>(n, ns). (new, ns)) (overwritten new (cc_contexts c)),
      cc_current = (if old = cc_current c then new else cc_current c)\<rparr>"

text \<open>The name an argument stands for.\<close>

definition meant :: "context_config \<Rightarrow> string \<Rightarrow> string" where
  "meant c x = (if x = ''.'' then cc_current c else x)"

lemma overwritten_names: "x \<in> fst ` set (overwritten new cs) \<Longrightarrow> x \<in> fst ` set cs"
  using in_set_delete_first [of _ new cs] by (auto simp: overwritten_def image_iff split: if_splits)

lemma overwrite_new_run:
  assumes "config_of root = Some c"
  obtains root1 es where "overwrite_new os root new w = (w, es, Val (Inr root1))"
    "config_of root1 = Some (c\<lparr>cc_contexts := overwritten new (cc_contexts c)\<rparr>)"
proof (cases "new \<in> fst ` set (cc_contexts c)")
  case True
  then show ?thesis
    using DeleteContextEntry_config [OF assms, of new] that
    by (auto simp: overwrite_new_def act_simps config_reads [OF assms] overwritten_def)
next
  case False
  then show ?thesis
    using assms that by (auto simp: overwrite_new_def act_simps config_reads [OF assms] overwritten_def)
qed

lemma rename_refused:
  assumes "kube_state os w c" and old: "meant c old0 \<notin> fst ` set (overwritten new (cc_contexts c))"
  shows "\<exists>es e. run_op os (RenameOp new old0) w = (w, es, Val (Inl e))"
proof -
  obtain f root where p: "Parse os w = Val (Inr (f, root))" "config_of root = Some c"
    by (rule kube_stateE [OF assms(1)])
  obtain root1 es where r1: "overwrite_new os root new w = (w, es, Val (Inr root1))"
    "config_of root1 = Some (c\<lparr>cc_contexts := overwritten new (cc_contexts c)\<rparr>)"
    by (rule overwrite_new_run [OF p(2)])
  show ?thesis
    using p(1) r1(1) ModifyContextName_config [OF r1(2), of "meant c old0" new] old
    by (cases "old0 = ''.''"; cases "meant c old0 \<in> fst ` set (cc_contexts c)")
      (simp_all add: run_RenameOp_def act_simps config_reads [OF p(2)] meant_def Let_def)
qed

lemma rename_saved:
  assumes os: "kubeconfigPath os = Inr cfg" and w: "kube_state os w c"
    and old: "meant c old0 \<in> fst ` set (overwritten new (cc_contexts c))"
  obtains root es es' where "config_of root = Some (renamed c (meant c old0) new)" "co_open os cfg w = Inr ()"
    "run_op os (RenameOp new old0) w = (case Save os (cfg, root) w of
       (w', _, Val (Inr _)) \<Rightarrow> (w', es, Val (Inr ()))
     | (w', _, Val (Inl e)) \<Rightarrow> (w', es', Val (Inl (Wrap ''failed to save modified kubeconfig'' e))))"
proof -
  obtain f root where p: "Parse os w = Val (Inr (f, root))" "config_of root = Some c"
    "kubeconfigPath os = Inr f" "co_open os f w = Inr ()" by (rule kube_stateE [OF w])
  with os have f: "f = cfg" by simp
  obtain root1 es where r1: "overwrite_new os root new w = (w, es, Val (Inr root1))"
    "config_of root1 = Some (c\<lparr>cc_contexts := overwritten new (cc_contexts c)\<rparr>)"
    by (rule overwrite_new_run [OF p(2)])
  let ?old = "meant c old0"
  obtain root2 where r2: "ModifyContextName root1 ?old new = Val (Inr root2)"
    "config_of root2 = Some (c\<lparr>cc_contexts := change_first ?old (\<lambda>(n, ns). (new, ns)) (overwritten new (cc_contexts c))\<rparr>)"
    using ModifyContextName_config [OF r1(2), of ?old new] old by auto
  obtain root3 where r3: "(if ?old = cc_current c then ModifyCurrentContext root2 new else Val root2) = Val root3"
    "config_of root3 = Some (renamed c ?old new)"
    using ModifyCurrentContext_config [OF r2(2), of new] r2(2)
    by (cases "?old = cc_current c") (auto simp: renamed_def)
  obtain w' s where s: "Save os (cfg, root3) w = (w', [], Val s)"
    using Save_returns [of os cfg root3 w] by auto
  have "\<exists>es es'. run_op os (RenameOp new old0) w = (case Save os (cfg, root3) w of
       (w', _, Val (Inr _)) \<Rightarrow> (w', es, Val (Inr ()))
     | (w', _, Val (Inl e)) \<Rightarrow> (w', es', Val (Inl (Wrap ''failed to save modified kubeconfig'' e))))"
    using old overwritten_names [OF old] p(1) r1(1) r2(1) r3(1) s
    by (cases s; cases "old0 = ''.''")
      (simp_all add: run_RenameOp_def f act_simps config_reads [OF p(2)] meant_def Let_def)
  with r3(2) p(4) f that show thesis by auto
qed

text \<open>
  C37. The verdict of a rename in a kube config of the usual form. Where the old name is a context of the file, also after the entry of
  the new name, if there is one, was deleted to be overwritten, the first context of it gets the new
  name, the current context follows it, and this configuration is saved: the command succeeds and the
  file holds it if \<open>Save\<close> returns no error; the error of a \<open>Save\<close> is the command's own, and the file is
  as \<open>Save\<close> left it. Otherwise (the old name is not there, or it was itself the entry that was
  overwritten) the command fails and nothing is written.
\<close>

theorem rename_verdict:
  assumes "kube_file_ok os cfg" "kubeconfigPath os = Inr cfg" "kube_state os w c"
  shows "\<exists>w' es r. run_op os (RenameOp new old0) w = (w', es, Val r) \<and>
    (if meant c old0 \<in> fst ` set (overwritten new (cc_contexts c))
     then \<exists>root s. config_of root = Some (renamed c (meant c old0) new) \<and>
       Save os (cfg, root) w = (w', [], Val s) \<and>
       (case s of Inr _ \<Rightarrow> r = Inr () \<and> kube_state os w' (renamed c (meant c old0) new)
                | Inl e \<Rightarrow> r = Inl (Wrap ''failed to save modified kubeconfig'' e))
     else (\<exists>e. r = Inl e) \<and> w' = w)"
proof (cases "meant c old0 \<in> fst ` set (overwritten new (cc_contexts c))")
  case True
  obtain root es es' where r: "config_of root = Some (renamed c (meant c old0) new)" "co_open os cfg w = Inr ()"
    "run_op os (RenameOp new old0) w = (case Save os (cfg, root) w of
       (w', _, Val (Inr _)) \<Rightarrow> (w', es, Val (Inr ()))
     | (w', _, Val (Inl e)) \<Rightarrow> (w', es', Val (Inl (Wrap ''failed to save modified kubeconfig'' e))))"
    by (rule rename_saved [OF assms(2,3) True])
  obtain w' s where s: "Save os (cfg, root) w = (w', [], Val s)"
    using Save_returns [of os cfg root w] by auto
  have "kube_state os w' (renamed c (meant c old0) new)" if "s = Inr u" for u
    by (rule Save_Inr [OF assms(1,2) r(2,1)]) (use s that in simp)
  with True r s show ?thesis by (cases s) auto
next
  case False
  from rename_refused [OF assms(3) False] False show ?thesis by auto
qed

lemma rename_verdict_witness:
  "\<exists>w' es. run_op sample_os (RenameOp ''c'' ''.'') (sample_contexts, None) = (w', es, Val (Inr ())) \<and>
     kube_state sample_os w' \<lparr>cc_contexts = [(''c'', ''default''), (''b'', ''default'')], cc_current = ''c''\<rparr>"
proof -
  let ?c = "\<lparr>cc_contexts = [(''a'', ''default''), (''b'', ''default'')], cc_current = ''a''\<rparr>"
  have c: "meant ?c ''.'' \<in> fst ` set (overwritten ''c'' (cc_contexts ?c))"
    by (simp add: meant_def overwritten_def)
  obtain w' es root r x where *: "run_op sample_os (RenameOp ''c'' ''.'') (sample_contexts, None) = (w', es, Val r)"
    "Save sample_os (''/h/.kube/config'', root) (sample_contexts, None) = (w', [], Val x)"
    "case x of Inr _ \<Rightarrow> r = Inr () \<and> kube_state sample_os w' (renamed ?c (meant ?c ''.'') ''c'')
      | Inl e \<Rightarrow> r = Inl (Wrap ''failed to save modified kubeconfig'' e)"
    using rename_verdict [OF ctx_os_worksD(1) [OF sample_os_ok] sample_paths sample_state,
      where new = "''c''" and ?old0.0 = "''.''", of None]
    unfolding if_P [OF c] by blast
  have "x = Inr ()"
    using *(2) by (simp add: Save_run) (simp add: sample_os_def)
  with * show ?thesis by (auto simp: renamed_def meant_def overwritten_def)
qed

text \<open>
  What a failed save costs. A machine as the sample, but whose truncation empties the file and whose
  encoder takes ASCII text only (the real one takes UTF-8; a name of the one byte 255 is neither):
  renaming a context to such a name reports an error, and the kube config file, sound before, is empty.
\<close>

definition ascii_text :: "string \<Rightarrow> bool" where
  "ascii_text s \<longleftrightarrow> (\<forall>c \<in> set s. (of_char c :: nat) < 128)"

definition strict_os :: "(ynode option \<times> string option) ctx_os" where
  "strict_os = \<lparr>co_environ = [''HOME=/h''], co_arg0 = ''kubectx'', co_goos = ''linux'', co_tty = False,
     co_fzf_path = [], co_fzf = (\<lambda>c w. Inr []), co_paint = (\<lambda>c s. s), co_natsort = (\<lambda>xs. xs),
     co_stack = err_text, co_open = (\<lambda>p w. Inr ()),
     co_decode = (\<lambda>p w. case fst w of None \<Rightarrow> Inl (Err ''EOF'')
       | Some n \<Rightarrow> if yaml_text ascii_text n then Inr (YNode DocumentNode [] [] [n])
           else Inl (Err ''yaml: invalid UTF-8'')),
     co_truncate = (\<lambda>p w. ((None, snd w), None)), co_seek = (\<lambda>p w. (w, None)),
     co_encode = (\<lambda>n p w. if yaml_text ascii_text n then ((Some (yaml_norm n), snd w), None)
       else (w, Some (Err ''yaml: cannot marshal invalid UTF-8 data as !!str''))),
     co_marshal = (\<lambda>n. Inr []),
     co_read_file = (\<lambda>p w. case snd w of None \<Rightarrow> Inl (True, Err ''no such file'') | Some s \<Rightarrow> Inr s),
     co_mkdir_all = (\<lambda>p w. (w, None)), co_write_file = (\<lambda>p s w. ((fst w, Some s), None)),
     co_rest_config = (\<lambda>b. None), co_clientset = (\<lambda>b. None),
     co_list_namespaces = (\<lambda>b t w. Inr ([''default'', ''sys''], [])),
     co_get_namespace = (\<lambda>b n w. (True, None))\<rparr>"

lemma strict_os_works: "ctx_os_works strict_os ascii_text cfg prev"
proof -
  have "ascii_text []" by (simp add: ascii_text_def)
  then show ?thesis
    by (simp add: ctx_os_works_def kube_file_ok_def strict_os_def yaml_text_norm)
      (simp add: own_words_def ascii_text_def defaultNamespace_def split: option.splits)
qed

lemma strict_paths: "kubeconfigPath strict_os = Inr ''/h/.kube/config''"
proof -
  have "getenv strict_os ''HOME'' = ''/h''" "getenv strict_os ''KUBECONFIG'' = []"
    by (simp_all add: getenv_def strict_os_def)
  then show ?thesis by (simp add: kubeconfigPath_def HomeDir_def path_join_def path_clean_def)
qed

lemma strict_Parse:
  "nd_Kind root = MappingNode \<Longrightarrow> yaml_text ascii_text root \<Longrightarrow> Parse strict_os (Some root, prev) = Val (Inr (''/h/.kube/config'', root))"
  "Parse strict_os (None, prev) = Val (Inl (False, Wrap ''failed to decode'' (Err ''EOF'')))"
  by (simp_all add: Parse_def Load_def strict_paths) (simp_all add: strict_os_def)

lemma strict_state:
  "kube_state strict_os (Some sample_contexts, prev)
     \<lparr>cc_contexts = [(''a'', ''default''), (''b'', ''default'')], cc_current = ''a''\<rparr>"
  unfolding kube_state_def sample_contexts_def
  by (intro exI conjI, rule strict_Parse(1), simp add: sample_config_def, code_simp, rule sample_config_of)

theorem failed_rename_empties_file:
  "\<exists>es e. run_op strict_os (RenameOp [CHR 0xFF] ''b'') (Some sample_contexts, None) =
      ((None, None), es, Val (Inl (Wrap ''failed to save modified kubeconfig'' e))) \<and>
    Parse strict_os (None, None) = Val (Inl (False, Wrap ''failed to decode'' (Err ''EOF'')))"
proof -
  let ?c = "\<lparr>cc_contexts = [(''a'', ''default''), (''b'', ''default'')], cc_current = ''a''\<rparr>"
  have m: "meant ?c ''b'' \<in> fst ` set (overwritten [CHR 0xFF] (cc_contexts ?c))"
    by (simp add: meant_def overwritten_def)
  obtain root es es' where r: "config_of root = Some (renamed ?c (meant ?c ''b'') [CHR 0xFF])"
    "run_op strict_os (RenameOp [CHR 0xFF] ''b'') (Some sample_contexts, None) =
      (case Save strict_os (''/h/.kube/config'', root) (Some sample_contexts, None) of
       (w', _, Val (Inr _)) \<Rightarrow> (w', es, Val (Inr ()))
     | (w', _, Val (Inl e)) \<Rightarrow> (w', es', Val (Inl (Wrap ''failed to save modified kubeconfig'' e))))"
    by (rule rename_saved [OF strict_paths strict_state m])
  have "\<not> yaml_text ascii_text root"
    using config_names_text [OF r(1), of ascii_text "[CHR 0xFF]"]
    by (auto simp: renamed_def meant_def overwritten_def ascii_text_def)
  then have "\<exists>e. Save strict_os (''/h/.kube/config'', root) (Some sample_contexts, None) = ((None, None), [], Val (Inl e))"
    by (simp add: Save_run) (simp add: strict_os_def)
  with r(2) show ?thesis by (auto simp: strict_Parse)
qed

text \<open>A context cannot be renamed to its own name: the entry is deleted before it is looked for.\<close>

lemma rename_to_itself_fails:
  assumes "kube_state os w c" and "distinct (map fst (cc_contexts c))" "x \<noteq> ''.''"
  shows "\<exists>es e. run_op os (RenameOp x x) w = (w, es, Val (Inl e))"
proof (rule rename_refused [OF assms(1)])
  show "meant c x \<notin> fst ` set (overwritten x (cc_contexts c))"
    using delete_first_distinct [OF assms(2)] assms(3) by (auto simp: meant_def overwritten_def)
qed

section \<open>Deleting\<close>

text \<open>
  A deletion removes the first context of the name and nothing else; the current context stays
  as it is, although it may be the deleted one. Only for the argument \<open>.\<close> is there a warning that
  the current context is gone, not when it is given by its name.
\<close>

theorem delete_keeps_current:
  assumes os: "ctx_os_works os good cfg prev" "kubeconfigPath os = Inr cfg" and w: "kube_state os w c"
    and arg: "nm \<in> fst ` set (cc_contexts c)" "arg \<noteq> ''.'' \<and> nm = arg \<or> arg = ''.'' \<and> nm = cc_current c \<and> nm \<noteq> []"
  shows "\<exists>w' es. run_op os (DeleteOp [arg]) w = (w', es, Val (Inr ())) \<and>
    kube_state os w' (c\<lparr>cc_contexts := delete_first nm (cc_contexts c)\<rparr>) \<and>
    length es = (if arg = ''.'' then 2 else 1)"
proof -
  obtain f root where p: "Parse os w = Val (Inr (f, root))" "config_of root = Some c"
    "kubeconfigPath os = Inr f" "co_open os f w = Inr ()" by (rule kube_stateE [OF w])
  with os(2) have f: "f = cfg" by simp
  obtain root' where r: "DeleteContextEntry root nm = Val (Inr root')"
    "config_of root' = Some (c\<lparr>cc_contexts := delete_first nm (cc_contexts c)\<rparr>)"
    using DeleteContextEntry_config [OF p(2)] by blast
  have "yaml_text good root'"
    by (rule DeleteContextEntry_text [OF r(1) Parse_text [OF os(1) p(1) [unfolded f]]])
  then obtain w' where w': "Save os (cfg, root') w = (w', [], Val (Inr ()))"
    "kube_state os w' (c\<lparr>cc_contexts := delete_first nm (cc_contexts c)\<rparr>)"
    using Save_state [OF os p(4) [unfolded f] r(2)] by blast
  have "deleteContext os arg w = (w', [], Val (nm, arg = ''.'', None))"
    using arg p(1) r(1) w'(1)
    by (elim conjE disjE)
      (simp_all add: deleteContext_def cparse_def f act_simps config_reads [OF p(2)] Let_def)
  with w'(2) show ?thesis
    by (auto simp: act_simps deleted_lines_def)
qed

lemma delete_keeps_current_witness:
  "\<exists>w' es. run_op sample_os (DeleteOp [''a'']) (sample_contexts, None) = (w', es, Val (Inr ())) \<and>
     kube_state sample_os w' \<lparr>cc_contexts = [(''b'', ''default'')], cc_current = ''a''\<rparr> \<and> length es = 1"
  using delete_keeps_current [OF sample_os_ok sample_paths sample_state, of "''a''" "''a''" None] by auto

text \<open>Without a \<open>current-context\<close> there is nothing to unset, and the command panics.\<close>

lemma unset_without_current_panics:
  assumes "Parse os w = Val (Inr (f, root))" "valueOf root ''current-context'' = Val None"
  shows "run_op os UnsetOp w = (w, [], Panic nil_node)"
  by (simp add: run_UnsetOp_def with_kubeconfig_run [OF assms(1)] UnsetCurrentContext_def assms(2)
      cbind_def clift_def)

end
