(* ===== verification/Ens_Cmd.thy ===== *)
theory Ens_Cmd
  imports Ctx_Cmd
begin

text \<open>
  The command of the context sidecar that lists and switches the namespace of the current context,
  \<open>sidecar/ctx/cmd/ens\<close>: its arguments, the file with the previous namespace of a context, the
  questions to the API server, and the body of every operation.
\<close>

section \<open>Operations and arguments\<close>

datatype ens_op =
    EnsInteractiveSwitchOp string
  | EnsListOp
  | EnsUnsupportedOp err
  | EnsHelpOp
  | EnsVersionOp
  | EnsCurrentOp
  | EnsSwitchOp string

definition ens_parseArgs :: "'w ctx_os \<Rightarrow> string list \<Rightarrow> ens_op" where
  "ens_parseArgs os argv = (case argv of
     [] \<Rightarrow> if IsInteractiveMode os then EnsInteractiveSwitchOp (co_arg0 os) else EnsListOp
   | [v] \<Rightarrow>
       (if v = ''--help'' \<or> v = ''-h'' then EnsHelpOp
        else if v = ''--version'' \<or> v = ''-V'' then EnsVersionOp
        else if v = ''--current'' \<or> v = ''-c'' then EnsCurrentOp
        else if has_prefix ''-'' v \<and> v \<noteq> ''-'' then EnsUnsupportedOp (Err (''unsupported option '' @ single_quoted v))
        else EnsSwitchOp v)
   | _ \<Rightarrow> EnsUnsupportedOp (Err ''too many arguments''))"

section \<open>The previous namespace\<close>

record NSFile =
  nf_dir :: string
  nf_ctx :: string

definition defaultDir :: "'w ctx_os \<Rightarrow> string" where
  "defaultDir os = path_join [HomeDir os, ''.kube'', ''kubens'']"

definition NewNSFile :: "'w ctx_os \<Rightarrow> string \<Rightarrow> NSFile" where
  "NewNSFile os ctx = \<lparr>nf_dir = defaultDir os, nf_ctx = ctx\<rparr>"

definition isWindows :: "'w ctx_os \<Rightarrow> bool" where
  "isWindows os \<longleftrightarrow> getenv os ''_FORCE_GOOS'' = ''windows'' \<or> co_goos os = ''windows''"

definition NSFile_path :: "'w ctx_os \<Rightarrow> NSFile \<Rightarrow> string" where
  "NSFile_path os f =
     path_join [nf_dir f, if isWindows os then replace_all (nf_ctx f) '':'' ''__'' else nf_ctx f]"

definition NSFile_Load :: "'w ctx_os \<Rightarrow> NSFile \<Rightarrow> 'w \<Rightarrow> err + string" where
  "NSFile_Load os f w = (case co_read_file os (NSFile_path os f) w of
     Inl (True, e) \<Rightarrow> Inr []
   | Inl (False, e) \<Rightarrow> Inl e
   | Inr b \<Rightarrow> Inr (trim_space b))"

definition NSFile_Save :: "'w ctx_os \<Rightarrow> NSFile \<Rightarrow> string \<Rightarrow> ('w, unit) act" where
  "NSFile_Save os f v =
     abind (acheck (co_mkdir_all os (path_dir (NSFile_path os f)))) id
       (\<lambda>_. acheck (co_write_file os (NSFile_path os f) v))"

section \<open>Questions to the API server\<close>

text \<open>A client is the configuration it was made from.\<close>

definition newKubernetesClientSet :: "'w ctx_os \<Rightarrow> kubeconfig \<Rightarrow> err + string" where
  "newKubernetesClientSet os kc = (case Bytes os kc of
     Inl e \<Rightarrow> Inl (Wrap ''failed to convert in-memory kubeconfig to yaml'' e)
   | Inr b \<Rightarrow> (case co_rest_config os b of
       Some e \<Rightarrow> Inl (Wrap ''failed to initialize config'' e)
     | None \<Rightarrow> (case co_clientset os b of Some e \<Rightarrow> Inl e | None \<Rightarrow> Inr b)))"

definition mock_namespaces :: "'w ctx_os \<Rightarrow> bool" where
  "mock_namespaces os \<longleftrightarrow> getenv os ''_MOCK_NAMESPACES'' \<noteq> []"

definition namespaceExists :: "'w ctx_os \<Rightarrow> kubeconfig \<Rightarrow> string \<Rightarrow> 'w \<Rightarrow> err + bool" where
  "namespaceExists os kc ns w =
     (if mock_namespaces os then Inr (ns = ''ns1'' \<or> ns = ''ns2'')
      else case newKubernetesClientSet os kc of
        Inl e \<Rightarrow> Inl (Wrap ''failed to initialize k8s REST client'' e)
      | Inr clientset \<Rightarrow> (case co_get_namespace os clientset ns w of
          (_, Some (True, e)) \<Rightarrow> Inr False
        | (notnil, Some (False, e)) \<Rightarrow>
            Inl (Wrap (''failed to query namespace '' @ in_quotes ns @ '' from k8s API'') e)
        | (notnil, None) \<Rightarrow> Inr notnil))"

text \<open>
  The loop asks for page after page until the server returns no further token; with a server that
  always does it never ends, which is \<open>None\<close>.
\<close>

partial_function (option) list_pages ::
  "(string \<Rightarrow> err + (string list \<times> string)) \<Rightarrow> string list \<Rightarrow> string \<Rightarrow> (err + string list) option" where
  "list_pages page out next_token = (case page next_token of
     Inl e \<Rightarrow> Some (Inl (Wrap ''failed to list namespaces from k8s API'' e))
   | Inr (names, continue) \<Rightarrow>
       (if continue = [] then Some (Inr (out @ names)) else list_pages page (out @ names) continue))"

definition queryNamespaces :: "'w ctx_os \<Rightarrow> kubeconfig \<Rightarrow> 'w \<Rightarrow> (err + string list) outcome" where
  "queryNamespaces os kc w =
     (if mock_namespaces os then Val (Inr [''ns1'', ''ns2''])
      else case newKubernetesClientSet os kc of
        Inl e \<Rightarrow> Val (Inl (Wrap ''failed to initialize k8s REST client'' e))
      | Inr clientset \<Rightarrow>
          (case list_pages (\<lambda>t. co_list_namespaces os clientset t w) [] [] of
             None \<Rightarrow> Diverge | Some r \<Rightarrow> Val r))"

section \<open>The operations\<close>

definition target_namespace :: "string \<Rightarrow> string \<Rightarrow> string \<Rightarrow> err + string" where
  "target_namespace ctx prev ns =
     (if ns = ''-'' then
        (if prev = [] then Inl (Err (''No previous namespace found for current context ('' @ ctx @ '')''))
         else Inr prev)
      else Inr ns)"

definition switchNamespace :: "'w ctx_os \<Rightarrow> kubeconfig \<Rightarrow> string \<Rightarrow> ('w, string) act" where
  "switchNamespace os kc ns0 =
     cbind (clift (GetCurrentContext (snd kc))) (\<lambda>ctx.
       if ctx = [] then afail (Err ''current-context is not set'')
       else abind (clift (NamespaceOfContext (snd kc) ctx)) (Wrap ''failed to get current namespace'') (\<lambda>curNS.
         let f = NewNSFile os ctx in
         abind (cread (NSFile_Load os f)) (Wrap ''failed to load previous namespace from file'') (\<lambda>prev.
         abind (creturn (target_namespace ctx prev ns0)) id (\<lambda>ns.
         abind (cread (namespaceExists os kc ns))
             (Wrap ''failed to query if namespace exists (is cluster accessible?)'') (\<lambda>found.
           if \<not> found then afail (Err (''no namespace exists with name '' @ in_quotes ns))
           else abind (clift (SetNamespace (snd kc) ctx ns))
               (Wrap (''failed to change to namespace '' @ in_quotes ns)) (\<lambda>root.
             abind (Save os (fst kc, root)) (Wrap ''failed to save kubeconfig file'') (\<lambda>_.
               if curNS \<noteq> ns then
                 abind (NSFile_Save os f curNS) (Wrap ''failed to save the previous namespace to file'')
                   (\<lambda>_. aok ns)
               else aok ns)))))))"

definition run_EnsSwitchOp :: "'w ctx_os \<Rightarrow> string \<Rightarrow> ('w, unit) act" where
  "run_EnsSwitchOp os target = with_kubeconfig os (\<lambda>kc.
     abind (switchNamespace os kc target) id (\<lambda>toNS.
       cthen (printer_Success os (''Active namespace is '' @ in_quotes (co_paint os ''success'' toNS))) (aok ())))"

definition run_EnsInteractiveSwitchOp :: "'w ctx_os \<Rightarrow> string \<Rightarrow> ('w, unit) act" where
  "run_EnsInteractiveSwitchOp os selfCmd = or_not_found os (\<lambda>kc.
     abind (choose_line os selfCmd) id (\<lambda>choice.
       abind (switchNamespace os kc choice) (Wrap ''failed to switch namespace'') (\<lambda>nm.
         cthen (printer_Success os (''Active namespace is '' @ in_quotes (co_paint os ''success'' nm) @ ''.''))
           (aok ()))))"

definition run_EnsCurrentOp :: "'w ctx_os \<Rightarrow> ('w, unit) act" where
  "run_EnsCurrentOp os = with_kubeconfig os (\<lambda>(f, root).
     cbind (clift (GetCurrentContext root)) (\<lambda>ctx.
       if ctx = [] then afail (Err ''current-context is not set'')
       else abind (clift (NamespaceOfContext root ctx)) (Wrap (''failed to read namespace of '' @ in_quotes ctx))
         (\<lambda>ns. cthen (cprintln ns) (aok ()))))"

definition run_EnsListOp :: "'w ctx_os \<Rightarrow> ('w, unit) act" where
  "run_EnsListOp os = with_kubeconfig os (\<lambda>(f, root).
     cbind (clift (GetCurrentContext root)) (\<lambda>ctx.
       if ctx = [] then afail (Err ''current-context is not set'')
       else abind (clift (NamespaceOfContext root ctx)) (Wrap ''cannot read current namespace'') (\<lambda>curNs.
         abind (cbind (cread (queryNamespaces os (f, root))) clift)
             (Wrap ''could not list namespaces (is the cluster accessible?)'') (\<lambda>ns.
           cthen (list_lines os curNs ns) (aok ())))))"

definition ens_help_lines :: "string list" where
  "ens_help_lines =
     [''USAGE:'',
      ''  %PROG%                    : list the namespaces in the current context'',
      ''  %PROG% <NAME>             : change the active namespace of current context'',
      ''  %PROG% -                  : switch to the previous namespace in this context'',
      ''  %PROG% -c, --current      : show the current namespace'',
      ''  %PROG% -h,--help          : show this message'',
      ''  %PROG% -V,--version       : show version'']"

definition ens_selfName :: "'w ctx_os \<Rightarrow> string" where
  "ens_selfName os =
     (let me = path_base (co_arg0 os) in
      if has_prefix ''kubectl-'' me then ''kubectl '' @ drop (length ''kubectl-'') me else ''kubens'')"

definition ens_printUsage :: "'w ctx_os \<Rightarrow> ('w, unit) act" where
  "ens_printUsage os = cthen
     (cprintln (replace_all (join_with newline ens_help_lines) ''%PROG%'' (ens_selfName os))) (aok ())"

definition ens_version :: string where
  "ens_version = ''v0.0.0+unknown''"

fun run_ens_op :: "'w ctx_os \<Rightarrow> ens_op \<Rightarrow> ('w, unit) act" where
  "run_ens_op os (EnsInteractiveSwitchOp self) = run_EnsInteractiveSwitchOp os self"
| "run_ens_op os EnsListOp = run_EnsListOp os"
| "run_ens_op os (EnsUnsupportedOp e) = afail e"
| "run_ens_op os EnsHelpOp = ens_printUsage os"
| "run_ens_op os EnsVersionOp = cthen (cprintln ens_version) (aok ())"
| "run_ens_op os EnsCurrentOp = run_EnsCurrentOp os"
| "run_ens_op os (EnsSwitchOp target) = run_EnsSwitchOp os target"

definition ens_main :: "'w ctx_os \<Rightarrow> string list \<Rightarrow> ('w, unit) cmd" where
  "ens_main os args = finish os (run_ens_op os (ens_parseArgs os args))"


section \<open>All pages\<close>

text \<open>The pages of the server from a token on, up to the one without a further token.\<close>

fun page_chain ::
  "(string \<Rightarrow> err + (string list \<times> string)) \<Rightarrow> string \<Rightarrow> string list list \<Rightarrow> bool" where
  "page_chain page t [] \<longleftrightarrow> False"
| "page_chain page t [names] \<longleftrightarrow> page t = Inr (names, [])"
| "page_chain page t (names # p # ps) \<longleftrightarrow>
     (case page t of
        Inr (ns, t') \<Rightarrow> ns = names \<and> t' \<noteq> [] \<and> page_chain page t' (p # ps)
      | Inl _ \<Rightarrow> False)"

lemma page_chain_Cons:
  "page_chain page t (names # ps) \<longleftrightarrow>
     (\<exists>t'. page t = Inr (names, t') \<and> (if ps = [] then t' = [] else t' \<noteq> [] \<and> page_chain page t' ps))"
  by (cases ps) (auto split: sum.split)

lemma list_pages_chain:
  "page_chain page t ps \<Longrightarrow> list_pages page out t = Some (Inr (out @ concat ps))"
proof (induction ps arbitrary: t out)
  case (Cons names ps)
  then show ?case
    by (subst list_pages.simps) (auto simp: page_chain_Cons split: if_splits)
qed simp

lemma list_pages_returns:
  assumes "list_pages page out t = Some r"
  shows "(\<exists>ps. page_chain page t ps) \<or> (\<exists>e. r = Inl e)"
proof (rule list_pages.raw_induct [where P = "\<lambda>page out t r. (\<exists>ps. page_chain page t ps) \<or> (\<exists>e. r = Inl e)", OF _ assms])
  fix lp page and out :: "string list" and t r
  assume IH: "\<And>page out t r. lp page out t = Some r \<Longrightarrow> (\<exists>ps. page_chain page t ps) \<or> (\<exists>e. r = Inl e)"
    and r: "(case page t of Inl e \<Rightarrow> Some (Inl (Wrap ''failed to list namespaces from k8s API'' e))
      | Inr (names, continue) \<Rightarrow> if continue = [] then Some (Inr (out @ names)) else lp page (out @ names) continue)
      = Some r"
  show "(\<exists>ps. page_chain page t ps) \<or> (\<exists>e. r = Inl e)"
  proof (cases "page t")
    case (Inr p)
    obtain names t' where p: "p = (names, t')" by fastforce
    show ?thesis
    proof (cases "t' = []")
      case True
      with Inr p have "page_chain page t [names]" by simp
      then show ?thesis by blast
    next
      case False
      with r Inr p IH [of page "out @ names" t' r] consider
        ps where "page_chain page t' ps" | e where "r = Inl e" by auto
      then show ?thesis
      proof cases
        case 1
        then have "ps \<noteq> []" by auto
        with 1 False Inr p have "page_chain page t (names # ps)" by (simp add: page_chain_Cons)
        then show ?thesis by blast
      qed blast
    qed
  qed (use r in auto)
qed

section \<open>Properties\<close>

text \<open>
  C38. The names of all namespaces are listed exactly if the server's pages come to an end: the
  result is then all of them, in the order of the pages. With a server that goes on handing out
  tokens the loop does not end.
\<close>

theorem query_returns_all_pages:
  "list_pages page [] t = Some (Inr names) \<longleftrightarrow> (\<exists>ps. page_chain page t ps \<and> names = concat ps)"
  using list_pages_chain [of page t _ "[]"] list_pages_returns [of page "[]" t "Inr names"] by fastforce

section \<open>There and back\<close>

lemma NSFile_Save_run:
  assumes "ctx_os_works os good cfg (NSFile_path os f)"
  obtains w' where "NSFile_Save os f v w = (w', [], Val (Inr ()))"
    "co_read_file os (NSFile_path os f) w' = Inr v" "co_open os cfg w' = co_open os cfg w"
    "co_decode os cfg w' = co_decode os cfg w"
proof -
  obtain w1 w2 where s: "co_mkdir_all os (path_dir (NSFile_path os f)) w = (w1, None)"
    "co_write_file os (NSFile_path os f) v w1 = (w2, None)" "co_read_file os (NSFile_path os f) w2 = Inr v"
    "co_open os cfg w2 = co_open os cfg w" "co_decode os cfg w2 = co_decode os cfg w"
    using ctx_os_worksD(5) [OF assms, of w v] by auto
  then have "NSFile_Save os f v w = (w2, [], Val (Inr ()))"
    by (simp add: NSFile_Save_def act_simps)
  with s that show thesis by blast
qed

text \<open>The configuration with another namespace for the current context.\<close>

definition with_namespace :: "context_config \<Rightarrow> string \<Rightarrow> context_config" where
  "with_namespace c ns = c\<lparr>cc_contexts := change_first (cc_current c) (\<lambda>(n, _). (n, ns)) (cc_contexts c)\<rparr>"

lemma map_of_change_first:
  "map_of cs x = Some u \<Longrightarrow> map_of (change_first x (\<lambda>(n, _). (n, v)) cs) x = Some v"
  by (induction cs) (auto split: if_splits)

lemma change_first_back:
  "map_of cs x = Some v \<Longrightarrow> change_first x (\<lambda>(n, _). (n, v)) (change_first x (\<lambda>(n, _). (n, u)) cs) = cs"
  by (induction cs) auto

lemma switchNamespace_run:
  assumes os: "ctx_os_works os good cfg (NSFile_path os (NewNSFile os (cc_current c)))" "kubeconfigPath os = Inr cfg"
    and w: "kube_state os w c" and cur: "cc_current c \<noteq> []" "map_of (cc_contexts c) (cc_current c) = Some ns0"
    and ex: "\<And>kc w. namespaceExists os kc ns w = Inr True" and ns: "ns \<noteq> []" "ns \<noteq> ns0" "good ns"
    and load: "NSFile_Load os (NewNSFile os (cc_current c)) w = Inr prev"
    and target: "target_namespace (cc_current c) prev arg = Inr ns"
  obtains w' es where "run_EnsSwitchOp os arg w = (w', es, Val (Inr ()))"
    "kube_state os w' (with_namespace c ns)"
    "NSFile_Load os (NewNSFile os (cc_current c)) w' = Inr (trim_space ns0)"
proof -
  let ?f = "NewNSFile os (cc_current c)"
  obtain f root where p: "Parse os w = Val (Inr (f, root))" "config_of root = Some c"
    "kubeconfigPath os = Inr f" "co_open os f w = Inr ()" by (rule kube_stateE [OF w])
  with os(2) have f: "f = cfg" by simp
  have "cc_current c \<in> fst ` set (cc_contexts c)" using map_of_SomeD [OF cur(2)] by force
  with SetNamespace_config [OF p(2), of "cc_current c" ns] ns(1)
  obtain root' where r: "SetNamespace root (cc_current c) ns = Val (Inr root')"
    "config_of root' = Some (with_namespace c ns)"
    by (auto simp: with_namespace_def)
  have "yaml_text good root'"
    by (rule SetNamespace_text [OF r(1) Parse_text [OF os(1) p(1) [unfolded f]] ctx_os_worksD(2) [OF os(1)] ns(3)])
  then obtain w1 where w1: "Save os (cfg, root') w = (w1, [], Val (Inr ()))"
    "kube_state os w1 (with_namespace c ns)"
    using Save_state [OF os p(4) [unfolded f] r(2)] by blast
  obtain w2 where w2: "NSFile_Save os ?f ns0 w1 = (w2, [], Val (Inr ()))"
    "co_read_file os (NSFile_path os ?f) w2 = Inr ns0" "co_open os cfg w2 = co_open os cfg w1"
    "co_decode os cfg w2 = co_decode os cfg w1"
    by (rule NSFile_Save_run [OF os(1)])
  have "switchNamespace os (cfg, root) arg w = (w2, [], Val (Inr ns))"
    using cur ns w1(1) w2(1) r(1)
    by (auto simp: switchNamespace_def act_simps config_reads [OF p(2)] load target ex Let_def)
  then have run: "run_EnsSwitchOp os arg w = (w2, [EvLog (co_paint os ''success'' check_mark @
      (''Active namespace is '' @ in_quotes (co_paint os ''success'' ns)) @ newline)], Val (Inr ()))"
    using p(1) by (simp add: run_EnsSwitchOp_def f act_simps)
  have "kube_state os w2 (with_namespace c ns)"
    using w1(2) kube_state_cong [OF os(2) w2(3,4)] by simp
  moreover have "NSFile_Load os ?f w2 = Inr (trim_space ns0)"
    by (simp add: NSFile_Load_def w2(2))
  ultimately show thesis by (rule that [OF run])
qed


text \<open>Switching namespaces offers the interface of switching there and back.\<close>

definition ens_namespace :: "context_config \<Rightarrow> string" where
  "ens_namespace c = the (map_of (cc_contexts c) (cc_current c))"

definition ens_load :: "'w ctx_os \<Rightarrow> context_config \<Rightarrow> 'w \<Rightarrow> err + string" where
  "ens_load os c = NSFile_Load os (NewNSFile os (cc_current c))"

definition ens_state :: "'w ctx_os \<Rightarrow> (string \<Rightarrow> bool) \<Rightarrow> string \<Rightarrow> 'w \<Rightarrow> context_config \<Rightarrow> bool" where
  "ens_state os good cfg w c \<longleftrightarrow> ctx_os_works os good cfg (NSFile_path os (NewNSFile os (cc_current c))) \<and>
     kubeconfigPath os = Inr cfg \<and> kube_state os w c \<and> cc_current c \<noteq> [] \<and>
     map_of (cc_contexts c) (cc_current c) \<noteq> None \<and>
     trim_space (ens_namespace c) = ens_namespace c \<and> (\<exists>prev. ens_load os c w = Inr prev)"

definition ens_known :: "'w ctx_os \<Rightarrow> (string \<Rightarrow> bool) \<Rightarrow> string \<Rightarrow> bool" where
  "ens_known os good x \<longleftrightarrow> good x \<and> x \<noteq> [] \<and> trim_space x = x \<and> (\<forall>kc w. namespaceExists os kc x w = Inr True)"

lemma with_namespace_sel [simp]: "cc_current (with_namespace c x) = cc_current c"
  by (simp add: with_namespace_def)

lemma ens_namespace_change:
  "map_of (cc_contexts c) (cc_current c) \<noteq> None \<Longrightarrow> ens_namespace (with_namespace c x) = x"
  by (auto simp: ens_namespace_def with_namespace_def map_of_change_first)

lemma ens_switch:
  assumes "ens_state os good cfg w c" "ens_known os good x" "x \<noteq> ens_namespace c"
    and target: "\<And>prev. ens_load os c w = Inr prev \<Longrightarrow> target_namespace (cc_current c) prev arg = Inr x"
  shows "\<exists>w' es. run_EnsSwitchOp os arg w = (w', es, Val (Inr ())) \<and>
    ens_state os good cfg w' (with_namespace c x) \<and> ens_load os (with_namespace c x) w' = Inr (ens_namespace c)"
proof -
  obtain ns0 prev where ns0: "map_of (cc_contexts c) (cc_current c) = Some ns0" "ens_load os c w = Inr prev"
    using assms(1) by (auto simp: ens_state_def)
  with assms(1) have ns: "ens_namespace c = ns0" "trim_space ns0 = ns0"
    by (simp_all add: ens_state_def ens_namespace_def)
  obtain w' es where w': "run_EnsSwitchOp os arg w = (w', es, Val (Inr ()))"
    "kube_state os w' (with_namespace c x)"
    "NSFile_Load os (NewNSFile os (cc_current c)) w' = Inr (trim_space ns0)"
    by (rule switchNamespace_run [of os good cfg c w ns0 x prev arg])
      (use assms ns0 ns target in \<open>auto simp: ens_state_def ens_known_def ens_load_def\<close>)
  moreover have "ens_load os (with_namespace c x) w' = Inr ns0"
    using w'(3) ns(2) by (simp add: ens_load_def)
  moreover have "map_of (cc_contexts (with_namespace c x)) (cc_current c) = Some x"
    using ns0(1) by (simp add: with_namespace_def map_of_change_first)
  moreover have "ens_namespace (with_namespace c x) = x"
    using ns0(1) by (simp add: ens_namespace_change)
  ultimately show ?thesis
    using assms(1,2) ns(1) by (auto simp: ens_state_def ens_known_def)
qed

interpretation namespaces: there_and_back "ens_state os good cfg" ens_namespace with_namespace
  "\<lambda>c. ens_known os good" "\<lambda>c w x. ens_load os c w = Inr x" "run_EnsSwitchOp os" "run_EnsSwitchOp os ''-''"
proof unfold_locales
  fix w c x
  assume w: "ens_state os good cfg w c"
  show "ens_namespace (with_namespace c x) = x" and "with_namespace (with_namespace c x) (ens_namespace c) = c"
    using w by (auto simp: ens_state_def ens_namespace_change)
      (auto simp: ens_namespace_def with_namespace_def change_first_back)
  assume x: "ens_known os good x" "x \<noteq> ens_namespace c"
  show "\<exists>w' es. run_EnsSwitchOp os x w = (w', es, Val (Inr ())) \<and> ens_state os good cfg w' (with_namespace c x) \<and>
      ens_load os (with_namespace c x) w' = Inr (ens_namespace c)" if "x \<noteq> ''-''"
    by (rule ens_switch [OF w x]) (use that in \<open>simp add: target_namespace_def\<close>)
  show "\<exists>w' es. run_EnsSwitchOp os ''-'' w = (w', es, Val (Inr ())) \<and> ens_state os good cfg w' (with_namespace c x) \<and>
      ens_load os (with_namespace c x) w' = Inr (ens_namespace c)" if "x \<noteq> []" "ens_load os c w = Inr x"
    by (rule ens_switch [OF w x]) (use that in \<open>simp add: target_namespace_def\<close>)
qed simp

text \<open>
  C39. Switching the namespace of the current context and then back with \<open>-\<close>: where the server knows
  both namespaces, both commands succeed, the first changes the namespace of the current context
  and nothing else, and the second restores the configuration of the beginning. The current context is
  set and has another namespace than the new one, the file of its previous namespace can be read, and
  the calls on the files succeed.
\<close>

theorem namespace_there_and_back:
  assumes "ctx_os_works os good cfg (NSFile_path os (NewNSFile os (cc_current c)))" "kubeconfigPath os = Inr cfg"
    and "kube_state os w c" "cc_current c \<noteq> []" "map_of (cc_contexts c) (cc_current c) = Some ns0"
    and "\<And>kc w. namespaceExists os kc ns w = Inr True" "\<And>kc w. namespaceExists os kc ns0 w = Inr True"
    and "NSFile_Load os (NewNSFile os (cc_current c)) w = Inr prev"
    and "good ns" "ns \<noteq> []" "trim_space ns = ns" "ns \<noteq> ns0" "ns \<noteq> ''-''" "ns0 \<noteq> []" "trim_space ns0 = ns0"
  shows "\<exists>w1 w2 es1 es2. run_ens_op os (EnsSwitchOp ns) w = (w1, es1, Val (Inr ())) \<and>
    kube_state os w1 (with_namespace c ns) \<and>
    run_ens_op os (EnsSwitchOp ''-'') w1 = (w2, es2, Val (Inr ())) \<and> kube_state os w2 c"
proof -
  obtain f root where p: "Parse os w = Val (Inr (f, root))" "config_of root = Some c" "kubeconfigPath os = Inr f"
    by (rule kube_stateE [OF assms(3)])
  with assms(2) have "yaml_text good root" using Parse_text [OF assms(1)] by simp
  then have "good ns0"
    by (rule config_namespace_text [OF p(2) _ ctx_os_worksD(2) [OF assms(1)] assms(5)])
  then have "ens_state os good cfg w c" "ens_known os good (ens_namespace c)" "ens_known os good ns" "ens_namespace c = ns0"
    using assms by (auto simp: ens_state_def ens_known_def ens_load_def ens_namespace_def)
  then show ?thesis
    using namespaces.back_undoes_switch [of os good cfg w c ns] assms(12-14) by (auto simp: ens_state_def)
qed

lemma sample_namespaceExists: "namespaceExists sample_os kc ns w = Inr True"
  by (simp add: namespaceExists_def mock_namespaces_def newKubernetesClientSet_def Bytes_def)
    (simp add: getenv_def sample_os_def)

lemma namespace_there_and_back_witness:
  "\<exists>w1 w2 es1 es2. run_ens_op sample_os (EnsSwitchOp ''sys'') (sample_contexts, None) = (w1, es1, Val (Inr ())) \<and>
    kube_state sample_os w1 \<lparr>cc_contexts = [(''a'', ''sys''), (''b'', ''default'')], cc_current = ''a''\<rparr> \<and>
    run_ens_op sample_os (EnsSwitchOp ''-'') w1 = (w2, es2, Val (Inr ())) \<and>
    kube_state sample_os w2 \<lparr>cc_contexts = [(''a'', ''default''), (''b'', ''default'')], cc_current = ''a''\<rparr>"
  using namespace_there_and_back [OF sample_os_ok sample_paths sample_state _ _ sample_namespaceExists
      sample_namespaceExists, of "''default''" None "[]" "''sys''"]
  by (simp add: NSFile_Load_def with_namespace_def sample_os_def trim_space_def trim_left_space_def is_space_def)

end
