(* ===== verification/Neat.thy ===== *)
theory Neat
  imports Mounts
begin

text \<open>
  The sidecar that makes the listing of an object readable, \<open>sidecar/neat/cmd/neat.go\<close> and
  \<open>sidecar/neat/pkg/defaults/defaults.go\<close>: fields the user did not write are deleted from the JSON
  text of the object. The text is read with \<open>gjson\<close> and edited with \<open>sjson\<close>, the parameter
  \<open>json_lib\<close>; the decoding and defaulting of Kubernetes objects is the parameter \<open>kube_scheme\<close>.
\<close>

section \<open>Reading and editing\<close>

text \<open>A result of \<open>gjson\<close>: the value, \<open>None\<close> if there is none, and the answer of \<open>String()\<close>.\<close>

record gres =
  g_value :: "json option"
  g_text :: string

text \<open>An edit returns a text also with an error, and the code stores it before it looks at the error.\<close>

record json_lib =
  jl_Valid :: "string \<Rightarrow> bool"
  jl_Get :: "string \<Rightarrow> string \<Rightarrow> gres"
  jl_Parse :: "string \<Rightarrow> gres"
  jl_Array :: "gres \<Rightarrow> gres list"
  jl_Sub :: "gres \<Rightarrow> string \<Rightarrow> gres"
    \<comment> \<open>\<open>Get\<close> on a result\<close>
  jl_Set :: "string \<Rightarrow> string \<Rightarrow> json option \<Rightarrow> string \<times> err option"
  jl_SetRaw :: "string \<Rightarrow> string \<Rightarrow> string \<Rightarrow> string \<times> err option"
  jl_Delete :: "string \<Rightarrow> string \<Rightarrow> string \<times> err option"

record 'o kube_scheme =
  ks_metadata :: "string \<Rightarrow> err + string"
    \<comment> \<open>\<open>json.Unmarshal\<close> into a \<open>PartialObjectMetadata\<close>, and its kind\<close>
  ks_recognizes :: "string \<Rightarrow> bool"
  ks_unmarshal :: "string \<Rightarrow> err + obj"
  ks_flatten :: "obj \<Rightarrow> string \<Rightarrow> err + (string, json) gomap"
    \<comment> \<open>\<open>flatten.Flatten\<close> with dots\<close>
  ks_show :: "json \<Rightarrow> string"
    \<comment> \<open>the format \<open>%v\<close> of a value\<close>
  ks_decode :: "string \<Rightarrow> err + 'o"
  ks_default :: "'o \<Rightarrow> 'o"
  ks_marshal :: "'o \<Rightarrow> err + string"

section \<open>Default values\<close>

definition flatMapJSON :: "'o kube_scheme \<Rightarrow> string \<Rightarrow> string \<Rightarrow> err + (string, json) gomap" where
  "flatMapJSON ks j path = (case ks_unmarshal ks j of
     Inl e \<Rightarrow> Inl (Wrap ''error unmarshaling'' e)
   | Inr jParsed \<Rightarrow> ks_flatten ks jParsed path)"

definition computeDefault :: "json_lib \<Rightarrow> 'o kube_scheme \<Rightarrow> string \<Rightarrow> string \<Rightarrow> err + string" where
  "computeDefault jl ks path objJSON = (case jl_Delete jl objJSON path of
     (_, Some e) \<Rightarrow> Inl (Wrap (''error deleting path to default '' @ single_quoted path @ '' '') e)
   | (candidateJSON, None) \<Rightarrow> (case ks_decode ks candidateJSON of
       Inl e \<Rightarrow> Inl (Wrap ''error decoding into kubernetes object '' e)
     | Inr candidate \<Rightarrow> (case ks_marshal ks (ks_default ks candidate) of
         Inl e \<Rightarrow> Inl (Wrap ''error marshaling kubernetes object '' e)
       | Inr resJSON \<Rightarrow> Inr (g_text (jl_Get jl resJSON path)))))"

definition isDefault :: "json_lib \<Rightarrow> 'o kube_scheme \<Rightarrow> string \<Rightarrow> json \<Rightarrow> string \<Rightarrow> err + bool" where
  "isDefault jl ks path v objJSON = (case computeDefault jl ks path objJSON of
     Inl e \<Rightarrow> Inl (Wrap (''error computing default for '' @ single_quoted path @ '' '') e)
   | Inr computed \<Rightarrow> Inr (computed = ks_show ks v))"

text \<open>
  A path stays in the map unless it was found not to be a default; with an error the loop goes on
  to the next path. Then all that stayed is deleted. Errors are logged only.
\<close>

definition paths_to_delete ::
  "json_lib \<Rightarrow> 'o kube_scheme \<Rightarrow> string \<Rightarrow> (string, json) gomap \<Rightarrow> (string, json) gomap" where
  "paths_to_delete jl ks doc m = filter (\<lambda>(k, v). isDefault jl ks k v doc \<noteq> Inr False) m"

definition delete_paths :: "json_lib \<Rightarrow> string list \<Rightarrow> string \<Rightarrow> string" where
  "delete_paths jl paths doc = fold (\<lambda>k d. fst (jl_Delete jl d k)) paths doc"

definition NeatDefaults ::
  "json_lib \<Rightarrow> 'o kube_scheme \<Rightarrow> order \<Rightarrow> string \<Rightarrow> string \<times> err option" where
  "NeatDefaults jl ks ord doc = (case ks_metadata ks doc of
     Inl e \<Rightarrow> ([], Some (Wrap ''error unmarshaling as PartialObject '' e))
   | Inr gvk \<Rightarrow>
       (if \<not> ks_recognizes ks gvk then (doc, None)
        else let specJSON = jl_Get jl doc ''spec'' in
          (if g_value specJSON = None then (doc, None)
           else case flatMapJSON ks (g_text specJSON) ''spec.'' of
             Inl e \<Rightarrow> ([], Some (Wrap ''error flattening json '' e))
           | Inr m \<Rightarrow> (delete_paths jl (ord (keys_of (paths_to_delete jl ks doc m))) doc, None))))"

section \<open>Fields set by controllers\<close>

definition neatScheduler :: "json_lib \<Rightarrow> string \<Rightarrow> string \<times> err option" where
  "neatScheduler jl doc = jl_Delete jl doc ''spec.nodeName''"

definition neatStatus :: "json_lib \<Rightarrow> string \<Rightarrow> string \<times> err option" where
  "neatStatus jl doc = jl_Delete jl doc ''status''"

text \<open>The elements are those of the array before the loop; the indices are looked up in the changed text.\<close>

fun delete_tokens :: "json_lib \<Rightarrow> string \<Rightarrow> nat \<Rightarrow> gres list \<Rightarrow> string \<Rightarrow> string" where
  "delete_tokens jl path i [] doc = doc"
| "delete_tokens jl path i (v # vs) doc =
     delete_tokens jl path (Suc i) vs
       (if has_prefix ''default-token-'' (g_text (jl_Sub jl v ''name''))
        then fst (jl_Delete jl doc (path @ ''.'' @ itoa (int i))) else doc)"

fun delete_mounts :: "json_lib \<Rightarrow> nat \<Rightarrow> gres list \<Rightarrow> string \<Rightarrow> string" where
  "delete_mounts jl ci [] doc = doc"
| "delete_mounts jl ci (c # cs) doc =
     delete_mounts jl (Suc ci) cs
       (delete_tokens jl (''spec.containers.'' @ itoa (int ci) @ ''.volumeMounts'') 0
          (jl_Array jl (jl_Sub jl c ''volumeMounts'')) doc)"

definition neatServiceAccount :: "json_lib \<Rightarrow> string \<Rightarrow> string \<times> err option" where
  "neatServiceAccount jl doc =
     (let doc1 = delete_tokens jl ''spec.volumes'' 0 (jl_Array jl (jl_Get jl doc ''spec.volumes'')) doc;
          doc2 = delete_mounts jl 0 (jl_Array jl (jl_Get jl doc1 ''spec.containers'')) doc1
      in (fst (jl_Delete jl doc2 ''spec.serviceAccount''), None))"

section \<open>Metadata and spec\<close>

definition managed_by_path :: string where
  "managed_by_path = ''metadata.labels.app'' @ [CHR 0x5C] @ ''.kubernetes'' @ [CHR 0x5C] @ ''.io/managed-by''"

definition neatMetadata :: "json_lib \<Rightarrow> string \<Rightarrow> string \<times> err option" where
  "neatMetadata jl doc =
     (let doc1 = fst (jl_Delete jl doc managed_by_path);
          doc2 = fst (jl_Delete jl doc1 managed_by_path);
          newMeta = jl_Get jl doc2 ''{metadata.name,metadata.namespace,metadata.labels}''
      in case jl_Set jl doc2 ''metadata'' (g_value newMeta) of
        (doc3, Some e) \<Rightarrow> (doc3, Some (Wrap ''error setting new metadata '' e))
      | (doc3, None) \<Rightarrow> (doc3, None))"

definition neatSpec :: "json_lib \<Rightarrow> string \<Rightarrow> string \<times> err option" where
  "neatSpec jl doc = (case jl_Delete jl doc ''spec.meta'' of
     (doc1, Some e) \<Rightarrow> (doc1, Some e)
   | (doc1, None) \<Rightarrow> (case jl_Delete jl doc1 ''spec.mount'' of
       (doc2, Some e) \<Rightarrow> (doc2, Some e)
     | (doc2, None) \<Rightarrow> (doc2, None)))"

definition selectSpec :: "json_lib \<Rightarrow> string \<Rightarrow> string" where
  "selectSpec jl doc = g_text (jl_Get jl doc ''spec'')"

section \<open>Empty elements\<close>

fun is_empty :: "json \<Rightarrow> bool" where
  "is_empty (JArr xs) \<longleftrightarrow> xs = []"
| "is_empty (JObj m) \<longleftrightarrow> m = []"
| "is_empty _ \<longleftrightarrow> False"

definition isResultEmpty :: "gres \<Rightarrow> bool" where
  "isResultEmpty r \<longleftrightarrow> (case g_value r of None \<Rightarrow> False | Some v \<Rightarrow> is_empty v)"

text \<open>The leading dot of the path is cut off; an empty root has none.\<close>

definition empty_path :: "string \<Rightarrow> string list outcome" where
  "empty_path path = (case path of
     [] \<Rightarrow> Panic ''slice bounds out of range [1:0]''
   | c # p \<Rightarrow> Val [p])"

fun findEmptyPathsRecursive :: "json \<Rightarrow> string \<Rightarrow> string list outcome"
and find_elements :: "json list \<Rightarrow> nat \<Rightarrow> string \<Rightarrow> string list outcome"
and find_members :: "(string \<times> json) list \<Rightarrow> string \<Rightarrow> string list outcome" where
  "findEmptyPathsRecursive (JArr xs) path =
     (if xs = [] then empty_path path else find_elements xs 0 path)"
| "findEmptyPathsRecursive (JObj m) path =
     (if m = [] then empty_path path else find_members m path)"
| "findEmptyPathsRecursive JNull path = Val []"
| "findEmptyPathsRecursive (JBool b) path = Val []"
| "findEmptyPathsRecursive (JNum n) path = Val []"
| "findEmptyPathsRecursive (JStr s) path = Val []"
| "find_elements [] i path = Val []"
| "find_elements (x # xs) i path =
     obind (findEmptyPathsRecursive x (path @ ''.'' @ itoa (int i))) (\<lambda>ps.
     obind (find_elements xs (Suc i) path) (\<lambda>qs. Val (ps @ qs)))"
| "find_members [] path = Val []"
| "find_members ((k, x) # m) path =
     obind (findEmptyPathsRecursive x (path @ ''.'' @ k)) (\<lambda>ps.
     obind (find_members m path) (\<lambda>qs. Val (ps @ qs)))"

definition delete_if_empty :: "json_lib \<Rightarrow> string \<Rightarrow> string \<Rightarrow> string" where
  "delete_if_empty jl path doc =
     (if isResultEmpty (jl_Get jl doc path) then fst (jl_Delete jl doc path) else doc)"

text \<open>The path and its prefixes, the longest first.\<close>

fun delete_empty_prefixes :: "json_lib \<Rightarrow> string list \<Rightarrow> nat \<Rightarrow> string \<Rightarrow> string" where
  "delete_empty_prefixes jl parts 0 doc = doc"
| "delete_empty_prefixes jl parts (Suc i) doc =
     delete_empty_prefixes jl parts i
       (delete_if_empty jl (join_with ''.'' (take (Suc i) parts)) doc)"

definition delete_empty_path :: "json_lib \<Rightarrow> string \<Rightarrow> string \<Rightarrow> string" where
  "delete_empty_path jl emptyPath doc =
     (let parts = split_on (CHR ''.'') emptyPath in delete_empty_prefixes jl parts (length parts) doc)"

definition neatEmpty :: "json_lib \<Rightarrow> string \<Rightarrow> (string \<times> err option) outcome" where
  "neatEmpty jl doc =
     obind (case g_value (jl_Parse jl doc) of None \<Rightarrow> Val [] | Some v \<Rightarrow> findEmptyPathsRecursive v [])
       (\<lambda>empties. Val (fold (delete_empty_path jl) empties doc, None))"

section \<open>One object\<close>

definition step :: "string \<times> err option \<Rightarrow> string \<Rightarrow>
    (string \<Rightarrow> (string \<times> err option) outcome) \<Rightarrow> (string \<times> err option) outcome" where
  "step r msg f = (case r of (d, Some e) \<Rightarrow> Val (d, Some (Wrap msg e)) | (d, None) \<Rightarrow> f d)"

definition neat_object ::
  "json_lib \<Rightarrow> 'o kube_scheme \<Rightarrow> order \<Rightarrow> string \<Rightarrow> int \<Rightarrow> string \<Rightarrow> (string \<times> err option) outcome" where
  "neat_object jl ks ord kind level doc =
     step (NeatDefaults jl ks ord doc) ''error in neatDefaults '' (\<lambda>d1.
     step (neatScheduler jl d1) ''error in neatScheduler '' (\<lambda>d2.
     step (if kind = ''Pod'' then neatServiceAccount jl d2 else (d2, None)) ''error in neatServiceAccount '' (\<lambda>d3.
     step (neatMetadata jl d3) ''error in neatMetadata '' (\<lambda>d4.
     step (neatStatus jl d4) ''error in neatStatus '' (\<lambda>d5.
     obind (neatEmpty jl (if level > 2 then fst (neatSpec jl d5) else d5)) (\<lambda>r.
     step r ''error in neatEmpty '' (\<lambda>d6.
       Val (if level > 3 then selectSpec jl d6 else d6, None))))))))"

text \<open>
  A list is its items, each made neat by a call of its own; the fuel bounds the depth of lists in
  lists. An invalid text of less than twenty characters cannot be cut for the message.
\<close>

fun neat_items ::
  "(string \<Rightarrow> (string \<times> err option) outcome) \<Rightarrow> json_lib \<Rightarrow> nat \<Rightarrow> gres list \<Rightarrow> string \<Rightarrow> string outcome" where
  "neat_items neat jl i [] draft = Val draft"
| "neat_items neat jl i (x # xs) draft = obind (neat (g_text x)) (\<lambda>(itemNeat, err).
     neat_items neat jl (Suc i) xs
       (if err \<noteq> None then draft else fst (jl_SetRaw jl draft (''items.'' @ itoa (int i)) itemNeat)))"

fun Neat ::
  "nat \<Rightarrow> json_lib \<Rightarrow> 'o kube_scheme \<Rightarrow> order \<Rightarrow> string \<Rightarrow> int \<Rightarrow> (string \<times> err option) outcome" where
  "Neat 0 jl ks ord doc level = Diverge"
| "Neat (Suc fuel) jl ks ord doc level =
     (if doc = [] then Val (doc, Some (Err ''error in neatPod, input json is empty''))
      else if \<not> jl_Valid jl doc then
        (if length doc < 20 then Panic ''slice bounds out of range''
         else Val (doc, Some (Err (''error in neatPod, input is not a vaild json: '' @ take 20 doc))))
      else
        let kind = g_text (jl_Get jl doc ''kind'') in
        if kind = ''List'' then
          obind (neat_items (\<lambda>item. Neat fuel jl ks ord item level) jl 0 (jl_Array jl (jl_Get jl doc ''items'')) doc)
            (\<lambda>draft. Val (draft, None))
        else neat_object jl ks ord kind level doc)"


section \<open>Enough fuel\<close>

text \<open>Everything but the recursion into lists returns or panics.\<close>

lemma find_returns:
  "findEmptyPathsRecursive v path \<noteq> Diverge" "find_elements xs i path \<noteq> Diverge" "find_members m path \<noteq> Diverge"
proof (induction v path and xs i path and m path
    rule: findEmptyPathsRecursive_find_elements_find_members.induct)
qed (auto simp: empty_path_def obind_Diverge_iff split: list.split)

lemma step_returns: "(\<And>d. f d \<noteq> Diverge) \<Longrightarrow> step r msg f \<noteq> Diverge"
  by (auto simp: step_def split: prod.split option.split)

lemma neatEmpty_returns: "neatEmpty jl doc \<noteq> Diverge"
  by (auto simp: neatEmpty_def obind_Diverge_iff find_returns split: option.splits)

lemma neat_object_returns: "neat_object jl ks ord kind level doc \<noteq> Diverge"
  unfolding neat_object_def
  by (intro step_returns notI) (auto simp: obind_Diverge_iff neatEmpty_returns step_def split: option.splits)

lemma neat_items_returns:
  "(\<And>x. x \<in> set xs \<Longrightarrow> neat (g_text x) \<noteq> Diverge) \<Longrightarrow> neat_items neat jl i xs draft \<noteq> Diverge"
  by (induction xs arbitrary: i draft) (auto simp: obind_Diverge_iff)

text \<open>An item of a list is a proper part of its text, so its length is enough fuel.\<close>

theorem neat_returns:
  assumes "\<And>d x. x \<in> set (jl_Array jl (jl_Get jl d ''items'')) \<Longrightarrow> length (g_text x) < length d"
  shows "length doc < fuel \<Longrightarrow> Neat fuel jl ks ord doc level \<noteq> Diverge"
proof (induction fuel arbitrary: doc)
  case (Suc fuel)
  have "Neat fuel jl ks ord (g_text x) level \<noteq> Diverge"
    if "x \<in> set (jl_Array jl (jl_Get jl doc ''items''))" for x
    using assms [OF that] Suc.prems by (intro Suc.IH) simp
  then show ?case
    by (auto simp: neat_object_returns Let_def obind_Diverge_iff neat_items_returns)
qed simp

section \<open>What goes wrong\<close>

text \<open>The message for an invalid text needs twenty characters.\<close>

lemma short_invalid_panics:
  assumes "doc \<noteq> []" "length doc < 20" "\<not> jl_Valid jl doc"
  shows "Neat (Suc fuel) jl ks ord doc level = Panic ''slice bounds out of range''"
  using assms by simp

text \<open>A field whose default could not be computed is deleted like one with its default value.\<close>

lemma undecided_default_deleted:
  assumes "(k, v) \<in> set m" "computeDefault jl ks k doc = Inl e"
  shows "(k, v) \<in> set (paths_to_delete jl ks doc m)"
  using assms by (simp add: paths_to_delete_def isDefault_def)

text \<open>
  Deleting an empty element of an array moves the ones behind it, whose paths were collected
  before: of \<open>{"a": [[], []]}\<close> one empty element remains.
\<close>

lemma empty_array_elements_remain:
  assumes "g_value (jl_Parse jl d0) = Some (JObj [(''a'', JArr [JArr [], JArr []])])"
    and "g_value (jl_Get jl d0 ''a.0'') = Some (JArr [])" "fst (jl_Delete jl d0 ''a.0'') = d1"
    and "g_value (jl_Get jl d1 ''a'') = Some (JArr [JArr []])" "g_value (jl_Get jl d1 ''a.1'') = None"
  shows "neatEmpty jl d0 = Val (d1, None)"
proof -
  have digits: "itoa 0 = ''0''" "itoa 1 = ''1''"
    by code_simp+
  have "neatEmpty jl d0 = Val (delete_empty_path jl ''a.1'' (delete_empty_path jl ''a.0'' d0), None)"
    using assms(1) digits by (simp add: neatEmpty_def empty_path_def)
  moreover have "delete_empty_path jl ''a.0'' d0 = d1" "delete_empty_path jl ''a.1'' d1 = d1"
    using assms(2-5) by (simp_all add: delete_empty_path_def delete_if_empty_def isResultEmpty_def)
  ultimately show ?thesis by simp
qed

end
