(* ===== verification/Neat_Empty.thy ===== *)
theory Neat_Empty
  imports Neat
begin

text \<open>
  What \<open>neatEmpty\<close> does: on documents whose arrays hold no objects or arrays, the loop over the paths
  to the empty elements removes exactly the elements without a value below them, with keys of letters, digits, \<open>-\<close>, \<open>_\<close>
  and \<open>/\<close>; a key with a dot keeps its empty value, and an empty document is a panic. The text editor
  is read through its documented laws, on paths of such keys through objects.
\<close>

section \<open>Paths through objects\<close>

fun look :: "string list \<Rightarrow> json \<Rightarrow> json option" where
  "look [] v = Some v"
| "look (k # ks) (JObj m) = (case map_of m k of None \<Rightarrow> None | Some x \<Rightarrow> look ks x)"
| "look (k # ks) _ = None"

definition change_key :: "string \<Rightarrow> (json \<Rightarrow> json) \<Rightarrow> (string \<times> json) list \<Rightarrow> (string \<times> json) list" where
  "change_key k f m = map (\<lambda>(k', x). (k', if k' = k then f x else x)) m"

fun del :: "string list \<Rightarrow> json \<Rightarrow> json" where
  "del [k] (JObj m) = JObj (AList.delete k m)"
| "del (k # k2 # ks) (JObj m) = JObj (change_key k (del (k2 # ks)) m)"
| "del _ v = v"

text \<open>A path that does not lead into an array or a scalar, and a key without a special meaning.\<close>

fun obj_path :: "string list \<Rightarrow> json \<Rightarrow> bool" where
  "obj_path [] v \<longleftrightarrow> True"
| "obj_path (k # ks) (JObj m) \<longleftrightarrow> (case map_of m k of None \<Rightarrow> True | Some x \<Rightarrow> obj_path ks x)"
| "obj_path (k # ks) _ \<longleftrightarrow> False"

definition path_key :: "string \<Rightarrow> bool" where
  "path_key k \<longleftrightarrow> k \<noteq> [] \<and> (\<forall>c \<in> set k. is_letter c \<or> is_digit c \<or> c = CHR ''-'' \<or> c = CHR ''_'' \<or> c = CHR ''/'')"

text \<open>Documents whose objects have no key twice.\<close>

fun distinct_keys :: "json \<Rightarrow> bool" where
  "distinct_keys (JArr xs) \<longleftrightarrow> (\<forall>x \<in> set xs. distinct_keys x)"
| "distinct_keys (JObj m) \<longleftrightarrow> distinct (map fst m) \<and> (\<forall>p \<in> set m. distinct_keys (snd p))"
| "distinct_keys _ \<longleftrightarrow> True"

text \<open>Those with plain keys whose arrays hold scalars only.\<close>

fun is_scalar :: "json \<Rightarrow> bool" where
  "is_scalar (JArr xs) \<longleftrightarrow> False"
| "is_scalar (JObj m) \<longleftrightarrow> False"
| "is_scalar _ \<longleftrightarrow> True"

fun tidy :: "json \<Rightarrow> bool" where
  "tidy (JArr xs) \<longleftrightarrow> (\<forall>x \<in> set xs. is_scalar x)"
| "tidy (JObj m) \<longleftrightarrow> distinct (map fst m) \<and> (\<forall>p \<in> set m. path_key (fst p) \<and> tidy (snd p))"
| "tidy _ \<longleftrightarrow> True"

lemma tidy_distinct: "tidy v \<Longrightarrow> distinct_keys v"
proof (induction v)
  case (JArr xs)
  have "is_scalar x \<Longrightarrow> distinct_keys x" for x by (cases x) auto
  with JArr show ?case by auto
qed auto

definition doc_is :: "json_lib \<Rightarrow> string \<Rightarrow> json \<Rightarrow> bool" where
  "doc_is jl doc v \<longleftrightarrow> g_value (jl_Parse jl doc) = Some v"

text \<open>
  A path of plain keys through objects is looked up, and deleted, by the keys themselves: a member
  with a dot in its key is not on it.
\<close>

definition json_lib_ok :: "json_lib \<Rightarrow> bool" where
  "json_lib_ok jl \<longleftrightarrow> (\<forall>doc v ks. doc_is jl doc v \<and> distinct_keys v \<and> ks \<noteq> [] \<and> (\<forall>k \<in> set ks. path_key k) \<and> obj_path ks v \<longrightarrow>
     g_value (jl_Get jl doc (join_with ''.'' ks)) = look ks v \<and>
     doc_is jl (fst (jl_Delete jl doc (join_with ''.'' ks))) (del ks v))"

section \<open>The reference: pruning\<close>

fun prune :: "json \<Rightarrow> json" where
  "prune (JObj m) = JObj (filter (\<lambda>(k, x). \<not> is_empty x) (map (\<lambda>(k, x). (k, prune x)) m))"
| "prune v = v"

section \<open>The paths as lists of keys\<close>

fun empty_keys :: "json \<Rightarrow> string list list" where
  "empty_keys (JObj m) = (if m = [] then [[]] else concat (map (\<lambda>(k, x). map ((#) k) (empty_keys x)) m))"
| "empty_keys (JArr xs) = (if xs = [] then [[]] else [])"
| "empty_keys v = []"

definition dotted :: "string list \<Rightarrow> string" where
  "dotted ks = concat (map ((#) (CHR ''.'')) ks)"

lemma dotted_Cons: "dotted (k # ks) = CHR ''.'' # k @ dotted ks"
  by (simp add: dotted_def)

lemma tl_dotted: "ks \<noteq> [] \<Longrightarrow> tl (dotted ks) = join_with ''.'' ks"
  by (induction ks rule: induct_list012) (simp_all add: dotted_def)

lemma find_scalars: "\<forall>x \<in> set xs. is_scalar x \<Longrightarrow> find_elements xs i path = Val []"
proof (induction xs arbitrary: i)
  case (Cons x xs)
  then show ?case by (cases x) auto
qed simp

lemma find_empty_keys:
  "tidy v \<Longrightarrow> path \<noteq> [] \<or> \<not> is_empty v \<Longrightarrow>
     findEmptyPathsRecursive v path = Val (map (\<lambda>ks. tl (path @ dotted ks)) (empty_keys v))"
proof (induction v arbitrary: path)
  case (JArr xs)
  then show ?case
    by (auto simp: empty_path_def find_scalars dotted_def split: list.split)
next
  case (JObj m)
  have "find_members m' path = Val (map (\<lambda>ks. tl (path @ dotted ks))
      (concat (map (\<lambda>(k, x). map ((#) k) (empty_keys x)) m')))" if "set m' \<subseteq> set m" for m'
    using that
  proof (induction m')
    case (Cons p m')
    obtain k x where p: "p = (k, x)" by fastforce
    with Cons.prems JObj.prems have "tidy x" by auto
    with JObj.IH [of p x "path @ ''.'' @ k"] p Cons show ?case
      by (auto simp: dotted_Cons)
  qed simp
  from this [of m] JObj.prems show ?case
    by (auto simp: empty_path_def dotted_def split: list.split)
qed auto


lemma empty_keys_path:
  "tidy v \<Longrightarrow> ks \<in> set (empty_keys v) \<Longrightarrow> obj_path ks v \<and> (\<forall>k \<in> set ks. path_key k) \<and> (\<not> is_empty v \<longrightarrow> ks \<noteq> [])"
proof (induction v arbitrary: ks)
  case (JObj m)
  show ?case
  proof (cases "m = []")
    case False
    with JObj.prems obtain k x ks' where ks: "(k, x) \<in> set m" "ks = k # ks'" "ks' \<in> set (empty_keys x)"
      by auto
    with JObj.prems have "map_of m k = Some x" "tidy x" "path_key k" by auto
    with JObj.IH [of "(k, x)" x ks'] ks show ?thesis by auto
  qed (use JObj.prems in auto)
qed (auto split: if_splits)

section \<open>The loop on values\<close>

definition drop_at :: "string list \<Rightarrow> json \<Rightarrow> json" where
  "drop_at ks v = (case look ks v of None \<Rightarrow> v | Some x \<Rightarrow> if is_empty x then del ks v else v)"

fun drop_prefixes :: "string list \<Rightarrow> nat \<Rightarrow> json \<Rightarrow> json" where
  "drop_prefixes ks 0 v = v"
| "drop_prefixes ks (Suc i) v = drop_prefixes ks i (drop_at (take (Suc i) ks) v)"

text \<open>The same by recursion on the path: inside the child first, then the child itself.\<close>

fun drop_empty :: "string list \<Rightarrow> json \<Rightarrow> json" where
  "drop_empty (k # ks) (JObj m) =
     JObj (filter (\<lambda>(k', x). \<not> (k' = k \<and> is_empty x)) (change_key k (drop_empty ks) m))"
| "drop_empty _ v = v"

lemma map_fst_change_key [simp]: "map fst (change_key k f m) = map fst m"
  by (simp add: change_key_def o_def case_prod_beta)

lemma map_of_change_key [simp]:
  "map_of (change_key k f m) k' = (if k' = k then map_option f (map_of m k) else map_of m k')"
  by (induction m) (auto simp: change_key_def)

lemma change_key_id: "map_of m k = None \<Longrightarrow> change_key k f m = m"
  by (induction m) (auto simp: change_key_def split: if_splits)

lemma change_key_cong:
  "distinct (map fst m) \<Longrightarrow> map_of m k = Some x \<Longrightarrow> f x = g x \<Longrightarrow> change_key k f m = change_key k g m"
  by (auto simp: change_key_def map_of_eq_Some_iff dest: eq_key_imp_eq_value)

lemma change_key_comp: "change_key k g (change_key k f m) = change_key k (\<lambda>x. g (f x)) m"
  by (auto simp: change_key_def)

lemma change_key_same: "distinct (map fst m) \<Longrightarrow> map_of m k = Some x \<Longrightarrow> f x = x \<Longrightarrow> change_key k f m = m"
  by (subst change_key_cong [where g = "\<lambda>x. x"]) (auto simp: change_key_def)

lemma drop_at_child:
  assumes "distinct (map fst m)" "ks \<noteq> []"
  shows "drop_at (k # ks) (JObj m) = JObj (change_key k (drop_at ks) m)"
proof (cases "map_of m k")
  case None
  then show ?thesis by (simp add: drop_at_def change_key_id)
next
  case (Some x)
  obtain k2 ks' where ks: "ks = k2 # ks'" using assms(2) by (cases ks) auto
  show ?thesis
  proof (cases "drop_at ks x = x")
    case True
    then show ?thesis
      using Some ks change_key_same [OF assms(1) Some, of "del ks"]
        change_key_same [where f = "drop_at ks", OF assms(1) Some True]
      by (auto simp: drop_at_def split: option.splits if_splits)
  next
    case False
    then have "drop_at ks x = del ks x" "look ks x \<noteq> None" "is_empty (the (look ks x))"
      by (auto simp: drop_at_def split: option.splits if_splits)
    with Some ks change_key_cong [OF assms(1) Some, of "drop_at ks" "del ks"] show ?thesis
      by (auto simp: drop_at_def)
  qed
qed

lemma drop_at_key: "distinct (map fst m) \<Longrightarrow>
    drop_at [k] (JObj m) = JObj (filter (\<lambda>(k', x). \<not> (k' = k \<and> is_empty x)) m)"
proof (cases "map_of m k")
  case None
  then have "filter (\<lambda>(k', x). \<not> (k' = k \<and> is_empty x)) m = m"
    by (auto simp: filter_id_conv map_of_eq_None_iff image_iff)
  with None show ?thesis by (simp add: drop_at_def)
next
  case (Some x)
  assume d: "distinct (map fst m)"
  have eq: "x' = x" if "(k, x') \<in> set m" for x'
    using that d Some by (metis map_of_eq_Some_iff option.inject)
  show ?thesis
  proof (cases "is_empty x")
    case True
    have "AList.delete k m = filter (\<lambda>(k', x). \<not> (k' = k \<and> is_empty x)) m"
      unfolding AList.delete_eq using eq True by (intro filter_cong) auto
    with Some True show ?thesis by (simp add: drop_at_def)
  next
    case False
    then have "filter (\<lambda>(k', x). \<not> (k' = k \<and> is_empty x)) m = m"
      using eq by (auto simp: filter_id_conv)
    with Some False show ?thesis by (simp add: drop_at_def)
  qed
qed

lemma drop_prefixes_child:
  "distinct (map fst m) \<Longrightarrow> i \<le> length ks \<Longrightarrow>
     drop_prefixes (k # ks) (Suc i) (JObj m) =
     JObj (filter (\<lambda>(k', x). \<not> (k' = k \<and> is_empty x)) (change_key k (drop_prefixes ks i) m))"
proof (induction i arbitrary: m)
  case 0
  then show ?case by (simp add: drop_at_key) (simp add: change_key_def case_prod_beta)
next
  case (Suc i)
  have comp: "drop_prefixes ks (Suc i) = (\<lambda>x. drop_prefixes ks i (drop_at (take (Suc i) ks) x))"
    by (rule ext) simp
  have "drop_prefixes (k # ks) (Suc (Suc i)) (JObj m)
      = drop_prefixes (k # ks) (Suc i) (JObj (change_key k (drop_at (take (Suc i) ks)) m))"
    using Suc.prems drop_at_child [of m "take (Suc i) ks" k]
    by (subst drop_prefixes.simps(2)) (cases ks, simp_all del: drop_prefixes.simps)
  also have "\<dots> = JObj (filter (\<lambda>(k', x). \<not> (k' = k \<and> is_empty x)) (change_key k (drop_prefixes ks (Suc i)) m))"
    using Suc by (simp add: change_key_comp comp)
  finally show ?case .
qed

lemma obj_path_leaf [simp]:
  "obj_path ks JNull \<longleftrightarrow> ks = []" "obj_path ks (JBool b) \<longleftrightarrow> ks = []" "obj_path ks (JNum n) \<longleftrightarrow> ks = []"
  "obj_path ks (JStr s) \<longleftrightarrow> ks = []" "obj_path ks (JArr xs) \<longleftrightarrow> ks = []"
  by (cases ks; simp)+

lemma drop_prefixes_whole:
  "tidy v \<Longrightarrow> obj_path ks v \<Longrightarrow> drop_prefixes ks (length ks) v = drop_empty ks v"
proof (induction ks v rule: drop_empty.induct)
  case (1 k ks m)
  then have d: "distinct (map fst m)" by simp
  have "change_key k (drop_prefixes ks (length ks)) m = change_key k (drop_empty ks) m"
  proof (cases "map_of m k")
    case (Some x)
    then have "(k, x) \<in> set m" by (rule map_of_SomeD)
    with 1 Some have "drop_prefixes ks (length ks) x = drop_empty ks x" by auto
    then show ?thesis by (rule change_key_cong [OF d Some])
  qed (simp add: change_key_id)
  with drop_prefixes_child [OF d, of "length ks" ks k] show ?case by simp
qed auto


section \<open>All paths\<close>

lemma drop_empty_leaf [simp]: "is_empty v \<Longrightarrow> drop_empty ks v = v"
  by (cases "(ks, v)" rule: drop_empty.cases) (auto simp: change_key_def)

lemma fold_drop_empty_leaf: "is_empty v \<Longrightarrow> fold drop_empty ps v = v"
  by (induction ps) auto

lemma change_key_absent: "k \<notin> fst ` set m \<Longrightarrow> change_key k f m = m"
  by (rule change_key_id) (simp add: map_of_eq_None_iff)

lemma change_key_member:
  "k \<notin> fst ` set m1 \<Longrightarrow> k \<notin> fst ` set m2 \<Longrightarrow>
     change_key k f (m1 @ (k, x) # m2) = m1 @ (k, f x) # m2"
  using change_key_absent [of k m1 f] change_key_absent [of k m2 f] by (simp add: change_key_def)

lemma filter_absent: "k \<notin> fst ` set m \<Longrightarrow> filter (\<lambda>(k', x). k' = k \<longrightarrow> \<not> is_empty x) m = m"
  by (auto simp: filter_id_conv image_iff)

text \<open>The paths below one member of an object.\<close>

lemma fold_absent: "k \<notin> fst ` set m \<Longrightarrow> fold drop_empty (map ((#) k) ps) (JObj m) = JObj m"
  by (induction ps) (simp_all add: change_key_absent filter_absent)

lemma fold_member:
  assumes "k \<notin> fst ` set m1" "k \<notin> fst ` set m2"
  shows "fold drop_empty (map ((#) k) ps) (JObj (m1 @ (k, x) # m2)) =
    JObj (m1 @ (if ps \<noteq> [] \<and> is_empty (fold drop_empty ps x) then [] else [(k, fold drop_empty ps x)]) @ m2)"
proof (induction ps arbitrary: x)
  case (Cons p ps)
  let ?x = "drop_empty p x"
  have first: "drop_empty (k # p) (JObj (m1 @ (k, x) # m2)) =
      JObj (m1 @ (if is_empty ?x then [] else [(k, ?x)]) @ m2)"
    using assms by (simp add: change_key_member filter_absent)
  show ?case
  proof (cases "is_empty ?x")
    case True
    have "k \<notin> fst ` set (m1 @ m2)" using assms by auto
    with True first fold_absent [of k "m1 @ m2" ps] show ?thesis
      by (simp add: fold_drop_empty_leaf)
  next
    case False
    with first Cons.IH [of ?x] show ?thesis by auto
  qed
qed simp

lemma empty_keys_empty: "is_empty v \<Longrightarrow> empty_keys v = [[]]"
  by (cases v) auto


lemma fold_empty_keys: "tidy v \<Longrightarrow> fold drop_empty (empty_keys v) v = prune v"
proof (induction v)
  case (JObj m)
  let ?keys = "\<lambda>m'. concat (map (\<lambda>(k, x). map ((#) k) (empty_keys x)) m')"
  let ?prune = "\<lambda>m'. filter (\<lambda>(k, x). \<not> is_empty x) (map (\<lambda>(k, x). (k, prune x)) m')"
  have "fold drop_empty (?keys m2) (JObj (m1 @ m2)) = JObj (m1 @ ?prune m2)"
    if "distinct (map fst m2)" "fst ` set m1 \<inter> fst ` set m2 = {}" "set m2 \<subseteq> set m" for m1 m2
    using that
  proof (induction m2 arbitrary: m1)
    case (Cons p m2)
    obtain k x where p: "p = (k, x)" by fastforce
    have x: "fold drop_empty (empty_keys x) x = prune x"
      using JObj.IH [of p x] JObj.prems Cons.prems p by auto
    have nonempty: "empty_keys x = [] \<Longrightarrow> \<not> is_empty (prune x)"
      using x empty_keys_empty [of x] by auto
    let ?mid = "if is_empty (prune x) then [] else [(k, prune x)]"
    have "fold drop_empty (map ((#) k) (empty_keys x)) (JObj (m1 @ (k, x) # m2)) = JObj (m1 @ ?mid @ m2)"
      using Cons.prems p nonempty by (subst fold_member) (auto simp: x)
    moreover have "fst ` set (m1 @ ?mid) \<inter> fst ` set m2 = {}"
      using Cons.prems p by auto
    ultimately show ?case
      using Cons.IH [of "m1 @ ?mid"] Cons.prems p by auto
  qed simp
  from this [of m "[]"] JObj.prems show ?case by (cases "m = []") auto
qed auto


section \<open>The loop on texts\<close>

lemma obj_path_del: "obj_path p v \<Longrightarrow> obj_path p (del q v)"
proof (induction q v arbitrary: p rule: del.induct)
  case (1 k m)
  then show ?case by (cases p) (auto simp: delete_conv split: option.splits)
next
  case (2 k k2 ks m)
  then show ?case by (cases p) (auto split: option.splits if_splits)
qed auto

lemma tidy_del: "tidy v \<Longrightarrow> tidy (del q v)"
proof (induction q v rule: del.induct)
  case (1 k m)
  then show ?case by (auto simp: AList.delete_eq distinct_map_filter)
next
  case (2 k k2 ks m)
  then show ?case by (auto simp: change_key_def o_def case_prod_beta)
qed auto

lemma obj_path_take: "obj_path p v \<Longrightarrow> obj_path (take i p) v"
proof (induction p v arbitrary: i rule: obj_path.induct)
  case (2 k ks m)
  then show ?case by (cases i) (auto split: option.splits)
qed auto

lemma drop_at_keeps: "tidy v \<Longrightarrow> tidy (drop_at ks v)" "obj_path p v \<Longrightarrow> obj_path p (drop_at ks v)"
  by (auto simp: drop_at_def tidy_del obj_path_del split: option.split)

lemma drop_prefixes_keeps:
  "tidy v \<Longrightarrow> tidy (drop_prefixes ks i v)" "obj_path p v \<Longrightarrow> obj_path p (drop_prefixes ks i v)"
  by (induction i arbitrary: v) (auto simp: drop_at_keeps)

lemma delete_if_empty_value:
  assumes "json_lib_ok jl" "doc_is jl doc v" "tidy v" "ks \<noteq> []" "\<forall>k \<in> set ks. path_key k" "obj_path ks v"
  shows "doc_is jl (delete_if_empty jl (join_with ''.'' ks) doc) (drop_at ks v)"
proof -
  have "g_value (jl_Get jl doc (join_with ''.'' ks)) = look ks v"
    and "doc_is jl (fst (jl_Delete jl doc (join_with ''.'' ks))) (del ks v)"
    using assms(1) [unfolded json_lib_ok_def, rule_format, of doc v ks] assms(2,4-6) tidy_distinct [OF assms(3)] by blast+
  with assms(2) show ?thesis
    by (simp add: delete_if_empty_def isResultEmpty_def drop_at_def split: option.split)
qed

lemma delete_empty_prefixes_value:
  assumes "json_lib_ok jl" "\<forall>k \<in> set ks. path_key k"
  shows "doc_is jl doc v \<Longrightarrow> tidy v \<Longrightarrow> obj_path ks v \<Longrightarrow> i \<le> length ks \<Longrightarrow>
    doc_is jl (delete_empty_prefixes jl ks i doc) (drop_prefixes ks i v)"
proof (induction i arbitrary: doc v)
  case (Suc i)
  have "take (Suc i) ks \<noteq> []" "\<forall>k \<in> set (take (Suc i) ks). path_key k"
    using Suc.prems(4) assms(2) by (auto dest: in_set_takeD)
  with Suc.prems have "doc_is jl (delete_if_empty jl (join_with ''.'' (take (Suc i) ks)) doc) (drop_at (take (Suc i) ks) v)"
    by (intro delete_if_empty_value assms(1) obj_path_take)
  with Suc show ?case by (simp add: drop_at_keeps del: take_Suc)
qed simp

lemma path_key_no_dot: "path_key k \<Longrightarrow> CHR ''.'' \<notin> set k"
  by (auto simp: path_key_def is_letter_def is_digit_def dest!: bspec [of _ _ "CHR ''.''"])

lemma delete_empty_path_value:
  assumes "json_lib_ok jl" "doc_is jl doc v" "tidy v" "ks \<noteq> []" "\<forall>k \<in> set ks. path_key k" "obj_path ks v"
  shows "doc_is jl (delete_empty_path jl (join_with ''.'' ks) doc) (drop_empty ks v)"
proof -
  have "split_on (CHR ''.'') (join_with ''.'' ks) = ks"
    using assms(4,5) by (intro split_join) (auto dest: path_key_no_dot)
  with delete_empty_prefixes_value [OF assms(1,5,2,3,6), of "length ks"] assms(3,6) show ?thesis
    by (simp add: delete_empty_path_def drop_prefixes_whole)
qed

lemma fold_delete_value:
  assumes "json_lib_ok jl"
  shows "doc_is jl doc v \<Longrightarrow> tidy v \<Longrightarrow>
    \<forall>ks \<in> set kss. ks \<noteq> [] \<and> (\<forall>k \<in> set ks. path_key k) \<and> obj_path ks v \<Longrightarrow>
    doc_is jl (fold (delete_empty_path jl) (map (join_with ''.'') kss) doc) (fold drop_empty kss v)"
proof (induction kss arbitrary: doc v)
  case (Cons ks kss)
  then have v: "drop_empty ks v = drop_prefixes ks (length ks) v" by (simp add: drop_prefixes_whole)
  show ?case
    using Cons.prems delete_empty_path_value [OF assms, of doc v ks]
    by (simp, intro Cons.IH) (auto simp: v drop_prefixes_keeps)
qed simp

section \<open>Pruning keeps the leaves\<close>

definition is_leaf :: "json \<Rightarrow> bool" where
  "is_leaf v \<longleftrightarrow> is_scalar v \<or> (\<exists>x xs. v = JArr (x # xs))"

lemma map_of_prune:
  "distinct (map fst m) \<Longrightarrow>
     map_of (filter (\<lambda>(k, x). \<not> is_empty x) (map (\<lambda>(k, x). (k, prune x)) m)) k =
     (case map_of m k of None \<Rightarrow> None | Some x \<Rightarrow> if is_empty (prune x) then None else Some (prune x))"
  by (induction m) (auto split: option.split simp: map_of_eq_None_iff image_iff)

lemma prune_no_empty: "tidy v \<Longrightarrow> ks \<noteq> [] \<Longrightarrow> look ks (prune v) = Some x \<Longrightarrow> \<not> is_empty x"
proof (induction ks v arbitrary: x rule: look.induct)
  case (2 k ks m)
  from 2(2,4) obtain y where y: "map_of m k = Some y" "\<not> is_empty (prune y)" "look ks (prune y) = Some x"
    by (auto simp: map_of_prune split: option.splits if_splits)
  from map_of_SomeD [OF y(1)] 2(2) have "tidy y" by auto
  with y 2(1) show ?case by (cases "ks = []") auto
qed auto

lemma is_empty_prune_leaf: "look ks v = Some x \<Longrightarrow> is_leaf x \<Longrightarrow> tidy v \<Longrightarrow>
    \<not> is_empty (prune v) \<and> look ks (prune v) = Some x"
proof (induction ks v rule: look.induct)
  case (1 v)
  then show ?case by (cases v) (auto simp: is_leaf_def)
next
  case (2 k ks m)
  then obtain y where y: "map_of m k = Some y" "look ks y = Some x" by (auto split: option.splits)
  from map_of_SomeD [OF y(1)] 2(4) have "tidy y" by auto
  with 2 y have *: "\<not> is_empty (prune y)" "look ks (prune y) = Some x" by auto
  from 2(4) y(1) *(1) have "map_of (filter (\<lambda>(k, x). \<not> is_empty x) (map (\<lambda>(k, x). (k, prune x)) m)) k = Some (prune y)"
    by (simp add: map_of_prune)
  with *(2) show ?case by auto
qed auto


section \<open>Properties\<close>

text \<open>
  C40. For a document whose objects have distinct keys of letters, digits, \<open>-\<close>, \<open>_\<close> and \<open>/\<close> (no dot),
  and without objects or arrays inside arrays: a document that is itself \<open>{}\<close> or \<open>[]\<close> makes
  \<open>neatEmpty\<close> panic. From any other it returns no error and leaves the pruned document: no element
  below the root is empty, and every value and every array with elements is where it was.
\<close>

theorem neat_empty_prunes:
  assumes "json_lib_ok jl" "doc_is jl doc v" "tidy v"
  shows "if is_empty v then neatEmpty jl doc = Panic ''slice bounds out of range [1:0]''
    else \<exists>doc'. neatEmpty jl doc = Val (doc', None) \<and> doc_is jl doc' (prune v) \<and>
      (\<forall>ks x. ks \<noteq> [] \<and> look ks (prune v) = Some x \<longrightarrow> \<not> is_empty x) \<and>
      (\<forall>ks x. look ks v = Some x \<and> is_leaf x \<longrightarrow> look ks (prune v) = Some x)"
proof (cases "is_empty v")
  case True
  with assms(2) show ?thesis
    by (cases v) (simp_all add: neatEmpty_def doc_is_def empty_path_def obind_def)
next
  case False
  have paths: "\<forall>ks \<in> set (empty_keys v). ks \<noteq> [] \<and> (\<forall>k \<in> set ks. path_key k) \<and> obj_path ks v"
    using empty_keys_path [OF assms(3)] False by blast
  then have keys: "map (\<lambda>ks. tl (dotted ks)) (empty_keys v) = map (join_with ''.'') (empty_keys v)"
    by (simp add: tl_dotted)
  have "findEmptyPathsRecursive v [] = Val (map (join_with ''.'') (empty_keys v))"
    using find_empty_keys [OF assms(3), of "[]"] False by (simp flip: keys)
  with assms(2) have "neatEmpty jl doc = Val (fold (delete_empty_path jl) (map (join_with ''.'') (empty_keys v)) doc, None)"
    by (simp add: neatEmpty_def doc_is_def)
  moreover have "doc_is jl (fold (delete_empty_path jl) (map (join_with ''.'') (empty_keys v)) doc) (prune v)"
    using fold_delete_value [OF assms(1-3) paths] fold_empty_keys [OF assms(3)] by simp
  ultimately show ?thesis
    using False prune_no_empty [OF assms(3)] is_empty_prune_leaf [OF _ _ assms(3)] by auto
qed

text \<open>
  The path of an empty element is its keys joined with dots, not escaped, and is split at every dot:
  an empty value under a key with a dot is not found again and stays.
\<close>

theorem dotted_key_keeps_empty:
  assumes "json_lib_ok jl" "doc_is jl doc (JObj [(a @ ''.'' @ b, e)])" "is_empty e" "path_key a" "path_key b"
  shows "neatEmpty jl doc = Val (doc, None)"
proof -
  have e: "findEmptyPathsRecursive e (''.'' @ a @ ''.'' @ b) = Val [a @ ''.'' @ b]"
    using assms(3) by (cases e) (simp_all add: empty_path_def)
  have keys: "split_on (CHR ''.'') (a @ ''.'' @ b) = [a, b]"
    using split_join [of "[a, b]" "CHR ''.''"] assms(4,5) by (auto dest: path_key_no_dot)
  have v: "distinct_keys (JObj [(a @ ''.'' @ b, e)])" using assms(3) by (cases e) auto
  have ne: "a \<noteq> a @ ''.'' @ b" "a @ ''.'' @ b \<noteq> a" by auto
  have "g_value (jl_Get jl doc (join_with ''.'' ks)) = None" if "ks = [a] \<or> ks = [a, b]" for ks
    using assms(1) [unfolded json_lib_ok_def, rule_format, of doc "JObj [(a @ ''.'' @ b, e)]" ks]
      assms(2,4,5) v ne that by auto
  from this [of "[a]"] this [of "[a, b]"]
  have "delete_empty_path jl (a @ ''.'' @ b) doc = doc"
    unfolding delete_empty_path_def keys
    by (simp add: delete_if_empty_def isResultEmpty_def numeral_2_eq_2)
  with e assms(2) show ?thesis by (simp add: neatEmpty_def doc_is_def)
qed

text \<open>
  A library for the documents with some of three keys, named by the first characters of the keys they
  have, a dot for the key with a dot.
\<close>

definition key_mark :: "string \<Rightarrow> char" where
  "key_mark k = (if CHR ''.'' \<in> set k then CHR ''.'' else hd k)"

lemma key_mark_keys [simp]:
  "key_mark ''a'' = CHR ''a''" "key_mark ''b'' = CHR ''b''" "key_mark ''c.d'' = CHR ''.''"
  by (simp_all add: key_mark_def)

definition sample_value :: "string \<Rightarrow> json" where
  "sample_value doc = JObj (filter (\<lambda>(k, x). key_mark k \<in> set doc)
     [(''a'', JObj []), (''b'', JNum ''1''), (''c.d'', JObj [])])"

definition sample_lib :: json_lib where
  "sample_lib = \<lparr>jl_Valid = (\<lambda>d. True),
     jl_Get = (\<lambda>d p. \<lparr>g_value = look (split_on (CHR ''.'') p) (sample_value d), g_text = []\<rparr>),
     jl_Parse = (\<lambda>d. \<lparr>g_value = Some (sample_value d), g_text = d\<rparr>),
     jl_Array = (\<lambda>r. []), jl_Sub = (\<lambda>r p. r), jl_Set = (\<lambda>d p v. (d, None)),
     jl_SetRaw = (\<lambda>d p v. (d, None)),
     jl_Delete = (\<lambda>d p. (case p of [c] \<Rightarrow> removeAll c d | _ \<Rightarrow> d, None))\<rparr>"

lemma sample_lib_ok: "json_lib_ok sample_lib"
proof -
  have "split_on (CHR ''.'') (join_with ''.'' ks) = ks" if "ks \<noteq> []" "\<forall>k \<in> set ks. path_key k" for ks
    using that by (intro split_join) (auto dest: path_key_no_dot)
  moreover have "sample_value (case join_with ''.'' ks of [c] \<Rightarrow> removeAll c doc | _ \<Rightarrow> doc) = del ks (sample_value doc)"
    if ks: "ks \<noteq> []" "\<forall>k \<in> set ks. path_key k" "obj_path ks (sample_value doc)" for ks doc
  proof -
    from ks(1) consider (2) k where "ks = [k]" | (3) k k2 ks' where "ks = k # k2 # ks'"
      by (metis list.exhaust)
    then show ?thesis
    proof cases
      case 2
      from ks(2) 2 have "k \<noteq> []" "CHR ''.'' \<notin> set k" by (simp_all add: path_key_def path_key_no_dot)
      then show ?thesis
        by (cases k; cases "tl k") (auto simp: 2 sample_value_def)
    next
      case 3
      from ks(2) 3 have "k \<noteq> []" "k2 \<noteq> []" by (simp_all add: path_key_def)
      then have "2 < length (join_with ''.'' ks)" by (cases k; cases k2; cases ks') (auto simp: 3)
      then have "(case join_with ''.'' ks of [c] \<Rightarrow> removeAll c doc | _ \<Rightarrow> doc) = doc"
        by (auto split: list.split)
      then show ?thesis
        using ks(3) by (cases ks') (auto simp: 3 sample_value_def change_key_def split: if_splits)
    qed
  qed
  ultimately show ?thesis
    by (auto simp: json_lib_ok_def doc_is_def sample_lib_def)
qed

lemma neat_empty_prunes_witness:
  "(\<exists>doc'. neatEmpty sample_lib ''ab'' = Val (doc', None) \<and> doc_is sample_lib doc' (JObj [(''b'', JNum ''1'')])) \<and>
    neatEmpty sample_lib [] = Panic ''slice bounds out of range [1:0]''"
proof -
  have v: "doc_is sample_lib ''ab'' (JObj [(''a'', JObj []), (''b'', JNum ''1'')])" "doc_is sample_lib [] (JObj [])"
    by (simp_all add: doc_is_def sample_lib_def sample_value_def)
  have "tidy (JObj [(''a'', JObj []), (''b'', JNum ''1'')])" "tidy (JObj [])"
    by (simp_all add: path_key_def is_letter_def)
  from neat_empty_prunes [OF sample_lib_ok v(1) this(1)] neat_empty_prunes [OF sample_lib_ok v(2) this(2)]
  show ?thesis by auto
qed

lemma dotted_key_keeps_empty_witness: "neatEmpty sample_lib ''.'' = Val (''.'', None)"
  using dotted_key_keeps_empty [OF sample_lib_ok, of "''.''" "''c''" "''d''" "JObj []"]
  by (simp add: doc_is_def sample_lib_def sample_value_def path_key_def is_letter_def)

end
