(* ===== verification/Neat_Cmd.thy ===== *)
theory Neat_Cmd
  imports Neat_Empty Cli_Base
begin

text \<open>
  The commands of the neat sidecar, \<open>sidecar/neat/cmd/cmd.go\<close>: the choice of formats around \<open>Neat\<close>,
  the root command on a file or the standard input, and \<open>get\<close>, which runs \<open>kubectl\<close>. YAML is
  converted by a library, a parameter like the files and \<open>kubectl\<close>.
\<close>

record 'w neat_env =
  ne_stdin :: "'w \<Rightarrow> string"
  ne_read_file :: "string \<Rightarrow> 'w \<Rightarrow> err + string"
  ne_kubectl :: "string list \<Rightarrow> 'w \<Rightarrow> 'w \<times> string \<times> err option"
    \<comment> \<open>\<open>CombinedOutput\<close> of a run with these arguments\<close>
  ne_yaml_to_json :: "string \<Rightarrow> err + string"
  ne_json_to_yaml :: "string \<Rightarrow> err + string"

text \<open>The flags: the output with \<open>None\<close> where it was not given, and its default.\<close>

record neat_flags =
  nf_output :: "string option"
  nf_file :: string
  nf_level :: int

definition outputFormat :: "neat_flags \<Rightarrow> string" where
  "outputFormat fl = (case nf_output fl of None \<Rightarrow> ''yaml'' | Some s \<Rightarrow> s)"

definition isJSON :: "string \<Rightarrow> bool" where
  "isJSON s \<longleftrightarrow> has_prefix ''{'' (trim_left_space s)"

text \<open>The length of the text is enough fuel, by \<open>neat_returns\<close>.\<close>

definition NeatYAMLOrJSON ::
  "'w neat_env \<Rightarrow> json_lib \<Rightarrow> 'o kube_scheme \<Rightarrow> order \<Rightarrow> string \<Rightarrow> string \<Rightarrow> int \<Rightarrow> (err + string) outcome" where
  "NeatYAMLOrJSON ne jl ks ord doc format level =
     (let itsYaml = (\<not> isJSON doc) in
      case (if itsYaml then ne_yaml_to_json ne doc else Inr doc) of
        Inl e \<Rightarrow> Val (Inl (Wrap ''error converting from yaml to json '' e))
      | Inr injson \<Rightarrow> obind (Neat (Suc (length injson)) jl ks ord injson level) (\<lambda>(outjson, err).
          case err of
            Some e \<Rightarrow> Val (Inl (Wrap ''error neating '' e))
          | None \<Rightarrow>
              (if format = ''yaml'' \<or> format = ''same'' \<and> itsYaml then
                 (case ne_json_to_yaml ne outjson of
                    Inl e \<Rightarrow> Val (Inl (Wrap ''error converting from json to yaml '' e))
                  | Inr out \<Rightarrow> Val (Inr out))
               else Val (Inr outjson))))"

definition drop_generation :: "string \<Rightarrow> string" where
  "drop_generation out =
     join_with [CHR 0x0A] (filter (\<lambda>line. \<not> contains_str line ''generation:'') (split_on (CHR 0x0A) out))"

definition neat_rootCmd ::
  "'w neat_env \<Rightarrow> json_lib \<Rightarrow> 'o kube_scheme \<Rightarrow> order \<Rightarrow> neat_flags \<Rightarrow> ('w, err option) cmd" where
  "neat_rootCmd ne jl ks ord fl =
     cbind (cread (\<lambda>w. if nf_file fl = ''-'' then Inr (ne_stdin ne w) else ne_read_file ne (nf_file fl) w)) (\<lambda>doc.
       case doc of
         Inl e \<Rightarrow> creturn (Some e)
       | Inr d \<Rightarrow>
           (let outFormat = (if nf_output fl = None then ''same'' else outputFormat fl) in
            cbind (clift (NeatYAMLOrJSON ne jl ks ord d outFormat (nf_level fl))) (\<lambda>r.
              case r of
                Inl e \<Rightarrow> creturn (Some e)
              | Inr out \<Rightarrow> cthen (cprint (drop_generation out)) (creturn None))))"

definition get_format :: "neat_flags \<Rightarrow> string list \<Rightarrow> string" where
  "get_format fl args =
     (let kubeout = ''yaml'';
          outFormat = (if (\<exists>arg \<in> set args. arg = ''json'' \<or> arg = ''ojson'') then ''json'' else outputFormat fl)
      in if nf_output fl = None \<and> kubeout = ''json'' then ''json'' else outFormat)"

definition neat_getCmd ::
  "'w neat_env \<Rightarrow> json_lib \<Rightarrow> 'o kube_scheme \<Rightarrow> order \<Rightarrow> neat_flags \<Rightarrow> string list \<Rightarrow> ('w, err option) cmd" where
  "neat_getCmd ne jl ks ord fl args =
     (let cmdArgs = [''get'', ''-o'', ''json''] @ args in
      cbind (cstep (ne_kubectl ne cmdArgs)) (\<lambda>(kres, err).
        case err of
          Some e \<Rightarrow> creturn (Some (Err (''Error invoking kubectl as ['' @ join_with '' '' (''kubectl'' # cmdArgs) @
                      ''] '' @ err_text e)))
        | None \<Rightarrow> cbind (clift (NeatYAMLOrJSON ne jl ks ord kres (get_format fl args) (nf_level fl))) (\<lambda>r.
            case r of
              Inl e \<Rightarrow> creturn (Some e)
            | Inr out \<Rightarrow> cthen (cprintln out) (creturn None))))"

section \<open>What the output is\<close>

text \<open>
  No line of the output holds \<open>generation:\<close>, and every other line is there: the filter works on
  lines of the printed text and so drops lines of any value that holds the word.
\<close>

lemma drop_generation_lines:
  assumes "\<exists>line \<in> set (split_on (CHR 0x0A) out). \<not> contains_str line ''generation:''"
  shows "split_on (CHR 0x0A) (drop_generation out) =
    filter (\<lambda>line. \<not> contains_str line ''generation:'') (split_on (CHR 0x0A) out)"
  unfolding drop_generation_def
  using assms by (intro split_join) (auto simp: filter_empty_conv dest: split_on_parts)

text \<open>The short form \<open>-ojson\<close> of kubectl's flag is not one of the words that choose JSON.\<close>

lemma ojson_not_recognised:
  "get_format \<lparr>nf_output = None, nf_file = ''-'', nf_level = 4\<rparr> [''pod'', ''p'', ''-ojson''] = ''yaml''"
  "get_format \<lparr>nf_output = None, nf_file = ''-'', nf_level = 4\<rparr> [''pod'', ''json''] = ''json''"
  by (simp_all add: get_format_def outputFormat_def)

text \<open>The commands always return or panic.\<close>

lemma NeatYAMLOrJSON_returns:
  assumes "\<And>d x. x \<in> set (jl_Array jl (jl_Get jl d ''items'')) \<Longrightarrow> length (g_text x) < length d"
  shows "NeatYAMLOrJSON ne jl ks ord doc format level \<noteq> Diverge"
proof -
  have "Neat (Suc (length d)) jl ks ord d level \<noteq> Diverge" for d
    using assms by (intro neat_returns) auto
  then show ?thesis
    by (auto simp del: Neat.simps simp: NeatYAMLOrJSON_def Let_def obind_Diverge_iff
        split: sum.splits option.splits if_splits)
qed

end
