(* ===== verification/Policy_Ctl.thy ===== *)
theory Policy_Ctl
  imports Sync_Ctl
begin

text \<open>
  The yield policy controller, \<open>space/policy/pkg/controller/yieldpolicy/yieldpolicy_controller.go\<close>:
  the policy cache, and the reconciler that hands active mounts from the source of a policy to its
  target when the condition of the policy holds. The condition is a jq program: its parser and
  the first result of running it on the two models are parameters.
\<close>

section \<open>Policies and their cache\<close>

record policy_spec =
  ps_Source :: auri
  ps_Target :: auri
  ps_Condition :: string

record policy = policy_spec +
  pl_name :: string

record policy_cache =
  pc_policies :: "(string, policy) gomap"
  pc_modelToPolicies :: "(string, (string, policy) gomap) gomap"
  pc_watched :: "string list"

definition new_policy_cache :: policy_cache where
  "new_policy_cache = \<lparr>pc_policies = [], pc_modelToPolicies = [], pc_watched = []\<rparr>"

definition pl_src :: "nn_string \<Rightarrow> policy \<Rightarrow> string" where
  "pl_src nns p = nns (SpacedName (ps_Source p))"

definition pl_tgt :: "nn_string \<Rightarrow> policy \<Rightarrow> string" where
  "pl_tgt nns p = nns (SpacedName (ps_Target p))"

definition policy_addWatchFunc :: "'w kube \<Rightarrow> auri \<Rightarrow> 'w \<Rightarrow> 'w \<times> err option" where
  "policy_addWatchFunc ku ar w =
     (case GetObj ku w ar of
        Inl e \<Rightarrow> (w, Some (as_err e))
      | Inr ob \<Rightarrow> ku_watch ku ob w)"

definition policy_watch_kind ::
  "'w kube \<Rightarrow> auri \<Rightarrow> policy_cache \<times> 'w \<Rightarrow> (policy_cache \<times> 'w) \<times> err option" where
  "policy_watch_kind ku ar = (\<lambda>(pc, w).
     let k = Kind_String (a_Kind ar) in
     if k \<in> set (pc_watched pc) then ((pc, w), None)
     else (case policy_addWatchFunc ku ar w of
             (w', Some e) \<Rightarrow> ((pc, w'), Some e)
           | (w', None) \<Rightarrow> ((pc\<lparr>pc_watched := List.insert k (pc_watched pc)\<rparr>, w'), None)))"

definition pc_enter :: "policy \<Rightarrow> policy_cache \<Rightarrow> policy_cache" where
  "pc_enter p pc = pc\<lparr>pc_policies := AList.update (pl_name p) p (pc_policies pc)\<rparr>"

definition pc_link :: "nn_string \<Rightarrow> policy \<Rightarrow> policy_cache \<Rightarrow> policy_cache" where
  "pc_link nns p pc = pc\<lparr>pc_modelToPolicies :=
     setFunc (setFunc (pc_modelToPolicies pc) (pl_src nns p) (pl_name p) p) (pl_tgt nns p) (pl_name p) p\<rparr>"

definition PolicyCache_Add ::
  "'w kube \<Rightarrow> nn_string \<Rightarrow> policy \<Rightarrow> policy_cache \<times> 'w \<Rightarrow> (policy_cache \<times> 'w) \<times> err option" where
  "PolicyCache_Add ku nns p = (\<lambda>(pc, w).
     case policy_watch_kind ku (ps_Source p) (pc_enter p pc, w) of
       (st, Some e) \<Rightarrow> (st, Some e)
     | (st, None) \<Rightarrow>
    (case policy_watch_kind ku (ps_Target p) st of
       (st, Some e) \<Rightarrow> (st, Some e)
     | ((pc', w'), None) \<Rightarrow> ((pc_link nns p pc', w'), None)))"

definition PolicyCache_Remove :: "nn_string \<Rightarrow> string \<Rightarrow> policy_cache \<Rightarrow> policy_cache" where
  "PolicyCache_Remove nns name pc =
     (case map_of (pc_policies pc) name of
        None \<Rightarrow> pc
      | Some pl \<Rightarrow> pc\<lparr>pc_policies := AList.delete name (pc_policies pc),
          pc_modelToPolicies :=
            unsetFunc (unsetFunc (pc_modelToPolicies pc) (pl_src nns pl) name) (pl_tgt nns pl) name\<rparr>)"

definition pc_put :: "nn_string \<Rightarrow> policy \<Rightarrow> policy_cache \<Rightarrow> policy_cache" where
  "pc_put nns p pc = pc_link nns p (pc_enter p pc)"

interpretation policies: reverse_index pc_policies pc_modelToPolicies pl_name "pl_src nns" "pl_tgt nns"
    "pc_put nns" "PolicyCache_Remove nns" for nns
  by unfold_locales
    (auto simp: pc_put_def pc_link_def pc_enter_def PolicyCache_Remove_def go_map_simps split: option.splits)

section \<open>Yielding mounts\<close>

text \<open>
  The two inner loops of \<open>doEnforce\<close> over kinds and names. The mounts are pointers, and a nil one
  is dereferenced: that of the source when the target has the name too, that of the target when
  the one of the source is active. The third component is \<open>updated\<close>.
\<close>

type_synonym yield_state = "mounts \<times> mounts \<times> bool"

definition yield_one :: "string \<Rightarrow> string \<Rightarrow> yield_state \<Rightarrow> yield_state outcome" where
  "yield_one k n = (\<lambda>(sm, tm, updated).
     case lookup2 tm k n of
       None \<Rightarrow> Val (sm, tm, updated)
     | Some tp \<Rightarrow>
    (case lookup2 sm k n of
       Some (Some srcMtRef) \<Rightarrow>
         if m_Status srcMtRef = MountActiveStatus then
           (case tp of
              None \<Rightarrow> Panic ''nil pointer dereference''
            | Some tref \<Rightarrow>
                Val (setFunc sm k n (Some (srcMtRef\<lparr>m_Status := MountInactiveStatus\<rparr>)),
                     setFunc tm k n (Some (tref\<lparr>m_Status := MountActiveStatus\<rparr>)), True))
         else Val (sm, tm, updated)
     | _ \<Rightarrow> Panic ''nil pointer dereference''))"

fun yield_names :: "string \<Rightarrow> string list \<Rightarrow> yield_state \<Rightarrow> yield_state outcome" where
  "yield_names k [] st = Val st"
| "yield_names k (n # ns) st = obind (yield_one k n st) (yield_names k ns)"

fun yield_kinds :: "order \<Rightarrow> string list \<Rightarrow> yield_state \<Rightarrow> yield_state outcome" where
  "yield_kinds ord [] st = Val st"
| "yield_kinds ord (k # ks) (sm, tm, updated) =
     (if map_of tm k = None then yield_kinds ord ks (sm, tm, updated)
      else obind (yield_names k (ord (keys_of (the (map_of sm k)))) (sm, tm, updated)) (yield_kinds ord ks))"

definition yield_mounts :: "order \<Rightarrow> mounts \<Rightarrow> mounts \<Rightarrow> yield_state outcome" where
  "yield_mounts ord srcMounts targetMounts =
     yield_kinds ord (ord (keys_of srcMounts)) (srcMounts, targetMounts, False)"

section \<open>The reconciler\<close>

text \<open>
  The jq library: a parsed query run on the two models gives no result, or a first one that is an
  error or a value.
\<close>

record 'q jq =
  jq_parse :: "string \<Rightarrow> err + 'q"
  jq_run :: "'q \<Rightarrow> obj \<Rightarrow> obj \<Rightarrow> (err + json) option"

definition fired :: "(err + json) option \<Rightarrow> bool" where
  "fired res \<longleftrightarrow> res = Some (Inr (JBool True))"

definition update_both :: "'w kube \<Rightarrow> obj \<Rightarrow> obj \<Rightarrow> 'w \<Rightarrow> 'w" where
  "update_both ku s t w =
     (case ku_update ku s w of
        (w1, Some e) \<Rightarrow> w1
      | (w1, None) \<Rightarrow> fst (ku_update ku t w1))"

text \<open>One round of the loop: the cluster after it and, when the loop is left by a return, the error.\<close>

definition enforce_policy ::
  "'w kube \<Rightarrow> 't mount_json \<Rightarrow> 'q jq \<Rightarrow> order \<Rightarrow> policy \<Rightarrow> 'w \<Rightarrow> ('w \<times> err option) outcome" where
  "enforce_policy ku mj jq ord pl w =
     (case GetObj ku w (ps_Source pl) of
        Inl e \<Rightarrow> Val (w, None)
      | Inr plSrc \<Rightarrow>
     (case GetObj ku w (ps_Target pl) of
        Inl e \<Rightarrow> Val (w, None)
      | Inr plTarget \<Rightarrow>
     (case jq_parse jq (ps_Condition pl) of
        Inl e \<Rightarrow> Exit (err_text e)
      | Inr query \<Rightarrow>
          if \<not> fired (jq_run jq query plSrc plTarget) then Val (w, None)
          else
     (case GetMounts ku mj ord plSrc of
        Inl e \<Rightarrow> Val (w, Some e)
      | Inr srcMounts \<Rightarrow>
     (case GetMounts ku mj ord plTarget of
        Inl e \<Rightarrow> Val (w, Some e)
      | Inr targetMounts \<Rightarrow>
          obind (yield_mounts ord srcMounts targetMounts) (\<lambda>(sm, tm, updated).
            if updated then
              (case SetMounts ku mj plSrc sm of
                 Inl e \<Rightarrow> Val (w, None)
               | Inr s' \<Rightarrow>
              (case SetMounts ku mj plTarget tm of
                 Inl e \<Rightarrow> Val (w, None)
               | Inr t' \<Rightarrow> Val (update_both ku s' t' w, None)))
            else Val (update_both ku plSrc plTarget w, None)))))))"

fun enforce_policies ::
  "'w kube \<Rightarrow> 't mount_json \<Rightarrow> 'q jq \<Rightarrow> order \<Rightarrow> policy list \<Rightarrow> 'w \<Rightarrow> ('w \<times> err option) outcome" where
  "enforce_policies ku mj jq ord [] w = Val (w, None)"
| "enforce_policies ku mj jq ord (pl # pls) w =
     obind (enforce_policy ku mj jq ord pl w) (\<lambda>(w', err).
       case err of Some e \<Rightarrow> Val (w', Some e) | None \<Rightarrow> enforce_policies ku mj jq ord pls w')"

definition policy_doEnforce ::
  "'w kube \<Rightarrow> 't mount_json \<Rightarrow> 'q jq \<Rightarrow> nn_string \<Rightarrow> order \<Rightarrow> request \<Rightarrow> policy_cache \<Rightarrow> 'w \<Rightarrow>
   ('w \<times> err option) outcome" where
  "policy_doEnforce ku mj jq nns ord rq pc w =
     (case map_of (pc_modelToPolicies pc) (nns rq) of
        None \<Rightarrow> Val (w, None)
      | Some pls \<Rightarrow> enforce_policies ku mj jq ord (map snd (range_map ord pls)) w)"

type_synonym 'w get_policy = "'w \<Rightarrow> nsname \<Rightarrow> get_error + policy_spec"

definition doPolicy ::
  "'w kube \<Rightarrow> 't mount_json \<Rightarrow> 'q jq \<Rightarrow> 'w get_policy \<Rightarrow> nn_string \<Rightarrow> order \<Rightarrow> request \<Rightarrow>
   policy_cache \<times> 'w \<Rightarrow> ((policy_cache \<times> 'w) \<times> err option) outcome" where
  "doPolicy ku mj jq gp nns ord rq = (\<lambda>(pc, w).
     let name = nns rq in
     (case gp w rq of
        Inl (NotFound s) \<Rightarrow> Val ((PolicyCache_Remove nns name pc, w), None)
      | Inl (OtherError s) \<Rightarrow> Val ((pc, w), Some (Err s))
      | Inr spec \<Rightarrow>
          (case PolicyCache_Add ku nns (policy_spec.extend spec (policy.fields name)) (pc, w) of
             (st, Some e) \<Rightarrow> Val (st, Some e)
           | ((pc', w'), None) \<Rightarrow>
               obind (policy_doEnforce ku mj jq nns ord (SpacedName (ps_Source spec)) pc' w')
                 (\<lambda>(w'', e). Val ((pc', w''), e)))))"

definition policyTag :: string where "policyTag = ''policy''"

definition policy_Reconcile ::
  "'w kube \<Rightarrow> 't mount_json \<Rightarrow> 'q jq \<Rightarrow> 'w get_policy \<Rightarrow> nn_string \<Rightarrow> order \<Rightarrow> request \<Rightarrow>
   policy_cache \<times> 'w \<Rightarrow> ((policy_cache \<times> 'w) \<times> err option) outcome" where
  "policy_Reconcile ku mj jq gp nns ord rq0 st =
     (case DemuxRequest rq0 of (rq, tag) \<Rightarrow>
        if tag = policyTag then doPolicy ku mj jq gp nns ord rq st
        else if tag = enforceTag then
          (case st of (pc, w) \<Rightarrow>
             obind (policy_doEnforce ku mj jq nns ord rq pc w) (\<lambda>(w', e). Val ((pc, w'), e)))
        else Val (st, None))"

text \<open>
  The \<open>Add\<close> that registers each controller: the errors of creating it and of its watch are
  arguments. The sync controller returns the error of the watch, the policy controller drops it.
\<close>

definition sync_Add :: "err option \<Rightarrow> err option \<Rightarrow> err option" where
  "sync_Add new_err watch_err = (case new_err of Some e \<Rightarrow> Some e | None \<Rightarrow> watch_err)"

definition policy_Add :: "err option \<Rightarrow> err option \<Rightarrow> err option" where
  "policy_Add new_err watch_err =
     (case new_err of Some e \<Rightarrow> Some e | None \<Rightarrow> (case watch_err of Some e \<Rightarrow> None | None \<Rightarrow> None))"

section \<open>What yielding does\<close>

definition no_nil :: "mounts \<Rightarrow> bool" where
  "no_nil m \<longleftrightarrow> (\<forall>k n. lookup2 m k n \<noteq> Some None)"

text \<open>A mount the source holds actively and the target has too.\<close>

definition shared_active :: "mounts \<Rightarrow> mounts \<Rightarrow> string \<Rightarrow> string \<Rightarrow> bool" where
  "shared_active sm tm k n \<longleftrightarrow>
     (\<exists>r. lookup2 sm k n = Some (Some r) \<and> m_Status r = MountActiveStatus) \<and> lookup2 tm k n \<noteq> None"

definition with_status :: "string \<Rightarrow> mount option option \<Rightarrow> mount option option" where
  "with_status s = map_option (map_option (\<lambda>r. r\<lparr>m_Status := s\<rparr>))"

definition handed :: "mounts \<Rightarrow> mounts \<Rightarrow> (string \<times> string) set \<Rightarrow> yield_state \<Rightarrow> bool" where
  "handed sm tm S st \<longleftrightarrow> (case st of (sm', tm', updated) \<Rightarrow>
     dom (map_of sm) \<subseteq> dom (map_of sm') \<and>
     (\<forall>k n. lookup2 sm' k n =
        (if (k, n) \<in> S \<and> shared_active sm tm k n then with_status MountInactiveStatus (lookup2 sm k n)
         else lookup2 sm k n)) \<and>
     (\<forall>k n. lookup2 tm' k n =
        (if (k, n) \<in> S \<and> shared_active sm tm k n then with_status MountActiveStatus (lookup2 tm k n)
         else lookup2 tm k n)) \<and>
     (updated \<longleftrightarrow> (\<exists>k n. (k, n) \<in> S \<and> shared_active sm tm k n)))"

lemma status_neq [simp]: "MountInactiveStatus \<noteq> MountActiveStatus"
  by (simp add: MountInactiveStatus_def MountActiveStatus_def)

lemma handed_grow: "handed sm tm S st \<Longrightarrow> \<forall>(k, n) \<in> T. \<not> shared_active sm tm k n \<Longrightarrow> handed sm tm (S \<union> T) st"
  unfolding handed_def by (cases st) (auto; metis case_prodD)

lemma dom_setFunc: "dom (map_of m) \<subseteq> dom (map_of (setFunc m k n v))"
  by (auto simp: setFunc_def go_map_simps)

lemma with_status_Some: "with_status s (Some (Some r)) = Some (Some (r\<lparr>m_Status := s\<rparr>))"
  by (simp add: with_status_def)

text \<open>A pair that was not visited yet and that is shared is handed over.\<close>

lemma yield_one_hands:
  assumes st: "handed sm tm S (sm', tm', u)" and out: "(k, n) \<notin> S"
    and r: "lookup2 sm k n = Some (Some r)" "m_Status r = MountActiveStatus" and t: "lookup2 tm k n = Some (Some t)"
  shows "\<exists>st'. yield_one k n (sm', tm', u) = Val st' \<and> handed sm tm (insert (k, n) S) st'"
proof -
  let ?sm = "setFunc sm' k n (Some (r\<lparr>m_Status := MountInactiveStatus\<rparr>))"
    and ?tm = "setFunc tm' k n (Some (t\<lparr>m_Status := MountActiveStatus\<rparr>))"
  have "lookup2 sm' k n = Some (Some r)" "lookup2 tm' k n = Some (Some t)" using st out r(1) t by (simp_all add: handed_def)
  with r(2) have run: "yield_one k n (sm', tm', u) = Val (?sm, ?tm, True)" by (simp add: yield_one_def)
  have sh: "shared_active sm tm k n" using r t by (simp add: shared_active_def)
  have "handed sm tm (insert (k, n) S) (?sm, ?tm, True)"
    unfolding handed_def prod.case
  proof (intro conjI)
    show "dom (map_of sm) \<subseteq> dom (map_of ?sm)"
      using st dom_setFunc [of sm' k n] unfolding handed_def prod.case by (meson subset_trans)
  qed (use st sh r t in \<open>auto simp: handed_def go_map_simps with_status_Some\<close>)
  with run show ?thesis by blast
qed

lemma yield_one_handed:
  assumes nil: "no_nil sm" "no_nil tm" and st: "handed sm tm S (sm', tm', u)" and mem: "lookup2 sm k n \<noteq> None"
  shows "\<exists>st'. yield_one k n (sm', tm', u) = Val st' \<and> handed sm tm (insert (k, n) S) st'"
proof -
  let ?in = "(k, n) \<in> S \<and> shared_active sm tm k n"
  have S: "lookup2 sm' k n = (if ?in then with_status MountInactiveStatus (lookup2 sm k n) else lookup2 sm k n)"
    and T: "lookup2 tm' k n = (if ?in then with_status MountActiveStatus (lookup2 tm k n) else lookup2 tm k n)"
    using st by (simp_all add: handed_def)
  obtain r where r: "lookup2 sm k n = Some (Some r)" using mem nil(1) by (auto simp: no_nil_def) (metis option.exhaust)
  show ?thesis
  proof (cases "shared_active sm tm k n \<and> (k, n) \<notin> S")
    case True
    then obtain t where "lookup2 tm k n = Some (Some t)" "m_Status r = MountActiveStatus"
      using nil(2) r by (auto simp: shared_active_def no_nil_def) (metis option.exhaust)
    with yield_one_hands [OF st _ r] True show ?thesis by blast
  next
    case False
    have "yield_one k n (sm', tm', u) = Val (sm', tm', u)"
    proof (cases ?in)
      case True
      then obtain t where "lookup2 tm k n = Some t" by (auto simp: shared_active_def)
      with True S T r show ?thesis by (simp add: yield_one_def with_status_def)
    next
      case out: False
      with False have "lookup2 tm k n = None \<or> m_Status r \<noteq> MountActiveStatus" using r by (auto simp: shared_active_def)
      with S T r out show ?thesis by (auto simp: yield_one_def split: option.splits)
    qed
    moreover have "handed sm tm (insert (k, n) S) (sm', tm', u)"
      using handed_grow [OF st, of "{(k, n)}"] False st by (cases "(k, n) \<in> S") (simp_all add: insert_absorb)
    ultimately show ?thesis by blast
  qed
qed

lemma yield_names_handed:
  assumes nil: "no_nil sm" "no_nil tm"
  shows "handed sm tm S st \<Longrightarrow> \<forall>n \<in> set ns. lookup2 sm k n \<noteq> None \<Longrightarrow>
    \<exists>st'. yield_names k ns st = Val st' \<and> handed sm tm (S \<union> {k} \<times> set ns) st'"
proof (induction ns arbitrary: S st)
  case (Cons n ns)
  obtain sm' tm' u where st: "st = (sm', tm', u)" by (cases st)
  from yield_one_handed [OF nil Cons.prems(1) [unfolded st], of k n] Cons.prems(2)
  obtain st1 where st1: "yield_one k n st = Val st1" "handed sm tm (insert (k, n) S) st1" by (auto simp: st)
  from Cons.IH [OF st1(2)] Cons.prems(2) st1(1) show ?case by (auto simp: insert_Times_insert)
qed simp

lemma lookup2_dom: "lookup2 m k n \<noteq> None \<Longrightarrow> map_of m k \<noteq> None"
  by (auto simp: lookup2_def split: option.splits)

lemma yield_kinds_handed:
  assumes nil: "no_nil sm" "no_nil tm" and ord: "range_order ord"
  shows "handed sm tm S st \<Longrightarrow> set ks \<subseteq> dom (map_of sm) \<Longrightarrow>
    \<exists>st'. yield_kinds ord ks st = Val st' \<and> handed sm tm (S \<union> {(k, n). k \<in> set ks}) st'"
proof (induction ks arbitrary: S st)
  case (Cons k ks)
  obtain sm' tm' u where st: "st = (sm', tm', u)" by (cases st)
  note h = Cons.prems(1) [unfolded st]
  have names: "lookup2 sm' k n \<noteq> None \<longleftrightarrow> lookup2 sm k n \<noteq> None"
    "lookup2 tm' k n \<noteq> None \<longleftrightarrow> lookup2 tm k n \<noteq> None" for n
    using h by (auto simp: handed_def with_status_def)
  have step: "\<exists>st'. (if map_of tm' k = None then Val st
      else yield_names k (ord (keys_of (the (map_of sm' k)))) st) = Val st' \<and> handed sm tm (S \<union> {k} \<times> UNIV) st'"
  proof (cases "map_of tm' k")
    case None
    then have "\<not> shared_active sm tm k n" for n
      using names(2) [of n] by (auto simp: lookup2_def shared_active_def split: option.splits)
    with handed_grow [OF Cons.prems(1), of "{k} \<times> UNIV"] None show ?thesis by auto
  next
    case (Some inner)
    obtain i where i: "map_of sm' k = Some i"
      using h Cons.prems(2) by (auto simp: handed_def)
    have ns: "n \<in> set (ord (keys_of i)) \<longleftrightarrow> lookup2 sm k n \<noteq> None" for n
      using names(1) [of n] i by (simp add: range_order_set [OF ord] lookup2_def keys_of_dom domIff del: set_map)
    from yield_names_handed [OF nil Cons.prems(1), of "ord (keys_of i)" k] ns
    obtain st' where st': "yield_names k (ord (keys_of i)) st = Val st'"
      "handed sm tm (S \<union> {k} \<times> set (ord (keys_of i))) st'" by blast
    have "\<forall>(x, n) \<in> {k} \<times> UNIV - {k} \<times> set (ord (keys_of i)). \<not> shared_active sm tm x n"
      using ns by (auto simp: shared_active_def)
    from handed_grow [OF st'(2) this]
    have "handed sm tm (S \<union> {k} \<times> UNIV) st'" by (simp add: Un_assoc Un_absorb1 Sigma_mono)
    with st'(1) Some i show ?thesis by simp
  qed
  then obtain st1 where st1: "(if map_of tm' k = None then Val st
      else yield_names k (ord (keys_of (the (map_of sm' k)))) st) = Val st1" "handed sm tm (S \<union> {k} \<times> UNIV) st1"
    by blast
  have run: "yield_kinds ord (k # ks) st = yield_kinds ord ks st1"
    using st1(1) by (auto simp: st split: if_splits)
  have "S \<union> {k} \<times> UNIV \<union> {(x, n). x \<in> set ks} = S \<union> {(x, n). x \<in> set (k # ks)}" by auto
  with Cons.IH [OF st1(2)] Cons.prems(2) show ?case unfolding run by simp
qed simp

lemma yield_mounts_spec:
  assumes "no_nil sm" and "no_nil tm" and ord: "range_order ord"
  shows "\<exists>sm' tm' u. yield_mounts ord sm tm = Val (sm', tm', u) \<and>
    (\<forall>k n. lookup2 sm' k n =
       (if shared_active sm tm k n then with_status MountInactiveStatus (lookup2 sm k n) else lookup2 sm k n)) \<and>
    (\<forall>k n. lookup2 tm' k n =
       (if shared_active sm tm k n then with_status MountActiveStatus (lookup2 tm k n) else lookup2 tm k n)) \<and>
    (u \<longleftrightarrow> (\<exists>k n. shared_active sm tm k n))"
proof -
  have "handed sm tm {} (sm, tm, False)" by (simp add: handed_def)
  from yield_kinds_handed [OF assms this, of "ord (keys_of sm)"] obtain sm' tm' u
    where st: "yield_mounts ord sm tm = Val (sm', tm', u)"
      "handed sm tm ({} \<union> {(k, n). k \<in> set (ord (keys_of sm))}) (sm', tm', u)"
    by (auto simp: yield_mounts_def range_order_set [OF ord] keys_of_dom simp del: set_map)
  have "shared_active sm tm k n \<Longrightarrow> k \<in> set (ord (keys_of sm))" for k n
    using lookup2_dom [of sm k n]
    by (auto simp: shared_active_def range_order_set [OF ord] keys_of_dom simp del: set_map)
  with st show ?thesis unfolding handed_def by (intro exI [of _ sm'] exI [of _ tm'] exI [of _ u]) auto
qed

section \<open>An instance of the libraries\<close>

definition no_auri :: auri where
  "no_auri = \<lparr>a_Kind = \<lparr>k_Group = [], k_Version = [], k_Name = []\<rparr>, a_Name = [], a_Namespace = [], a_Path = []\<rparr>"

definition decode_ref :: "json \<Rightarrow> mount option" where
  "decode_ref v = (case v of
     JObj m \<Rightarrow> Some \<lparr>m_Source = no_auri, m_Target = no_auri, m_Mode = str_at m [''mode''], m_Status = str_at m [''status'']\<rparr>
   | _ \<Rightarrow> None)"

definition encode_ref :: "mount option \<Rightarrow> json" where
  "encode_ref p = (case p of None \<Rightarrow> JNull
     | Some r \<Rightarrow> JObj [(''mode'', JStr (m_Mode r)), (''status'', JStr (m_Status r))])"

definition tree_json :: "json mount_json" where
  "tree_json = \<lparr>mj_marshal = Inr,
     mj_unmarshal_refs = (\<lambda>v. Inr (map (\<lambda>(n, r). (n, decode_ref r)) (obj_of v))),
     mj_marshal_mounts = (\<lambda>ms. Inr (JObj (map (\<lambda>(k, refs). (k, JObj (map (\<lambda>(n, r). (n, encode_ref r)) refs))) ms))),
     mj_unmarshal_obj = (\<lambda>v. Inr (obj_of v))\<rparr>"

text \<open>A jq with two programs: one that holds, and one that does not parse.\<close>

definition tiny_jq :: "unit jq" where
  "tiny_jq = \<lparr>jq_parse = (\<lambda>s. if s = ''true'' then Inr () else Inl (Err ''unexpected token'')),
     jq_run = (\<lambda>q s t. Some (Inr (JBool True)))\<rparr>"

definition room_with :: "string \<Rightarrow> string \<Rightarrow> string \<Rightarrow> (gvk \<times> nsname) \<times> obj" where
  "room_with n lamp status =
     (((''digi.dev'', ''v1'', ''Room''), \<lparr>n_Namespace = ''default'', n_Name = n\<rparr>),
      [(''apiVersion'', JStr ''digi.dev/v1''), (''kind'', JStr ''Room''),
       (''metadata'', JObj [(''name'', JStr n), (''namespace'', JStr ''default'')]),
       (''spec'', JObj [(''mount'', JObj [(''lamps'', JObj [(lamp,
          JObj [(''mode'', JStr ''hide''), (''status'', JStr status)])])])])])"

definition lamp_status :: "mem \<Rightarrow> string \<Rightarrow> string \<Rightarrow> string" where
  "lamp_status w room lamp =
     (case mem_get w (''digi.dev'', ''v1'', ''Room'') \<lparr>n_Namespace = ''default'', n_Name = room\<rparr> of
        Inl e \<Rightarrow> [] | Inr ob \<Rightarrow> str_at ob [''spec'', ''mount'', ''lamps'', lamp, ''status''])"

definition yield_policy :: "string \<Rightarrow> policy" where
  "yield_policy cond = \<lparr>ps_Source = room_auri ''r1'', ps_Target = room_auri ''r2'', ps_Condition = cond, pl_name = ''default/y''\<rparr>"

definition two_rooms :: mem where
  "two_rooms = [room_with ''r1'' ''default/l'' ''active'', room_with ''r2'' ''default/l'' ''inactive'']"

section \<open>Properties\<close>

text \<open>
  C21. When a policy fires, every mount that the source holds actively and the target has too
  becomes inactive at the source and active at the target; no other mount of either changes in any
  field. This does not depend on the order in which kinds and names are visited, and the models
  are rewritten exactly when there was such a mount.
\<close>

theorem yield_hands_over:
  assumes "no_nil sm" and "no_nil tm" and "range_order ord"
  shows "\<exists>sm' tm' updated. yield_mounts ord sm tm = Val (sm', tm', updated) \<and>
    (\<forall>k n. lookup2 sm' k n =
       (if shared_active sm tm k n then with_status MountInactiveStatus (lookup2 sm k n) else lookup2 sm k n)) \<and>
    (\<forall>k n. lookup2 tm' k n =
       (if shared_active sm tm k n then with_status MountActiveStatus (lookup2 tm k n) else lookup2 tm k n)) \<and>
    (updated \<longleftrightarrow> (\<exists>k n. shared_active sm tm k n))"
  by (rule yield_mounts_spec [OF assms])

definition sample_mounts :: "string \<Rightarrow> mounts" where
  "sample_mounts st = [(''lamps'', [(''l'',
     Some \<lparr>m_Source = no_auri, m_Target = no_auri, m_Mode = ''hide'', m_Status = st\<rparr>)])]"

lemma sample_mounts_no_nil [simp]: "no_nil (sample_mounts st)"
  by (auto simp: no_nil_def sample_mounts_def lookup2_def)

lemma yield_hands_over_witness:
  "\<exists>sm' tm' u. yield_mounts rev (sample_mounts ''active'') (sample_mounts ''inactive'') = Val (sm', tm', u) \<and>
    lookup2 sm' ''lamps'' ''l'' = lookup2 (sample_mounts ''inactive'') ''lamps'' ''l''"
proof -
  let ?s = "sample_mounts ''active''" and ?t = "sample_mounts ''inactive''"
  have sh: "shared_active ?s ?t ''lamps'' ''l''"
    by (simp add: shared_active_def sample_mounts_def lookup2_def MountActiveStatus_def)
  have w: "with_status MountInactiveStatus (lookup2 ?s ''lamps'' ''l'') = lookup2 ?t ''lamps'' ''l''" by code_simp
  obtain sm' tm' u where "yield_mounts rev ?s ?t = Val (sm', tm', u)"
    "\<forall>k n. lookup2 sm' k n = (if shared_active ?s ?t k n then with_status MountInactiveStatus (lookup2 ?s k n) else lookup2 ?s k n)"
    using yield_hands_over [OF sample_mounts_no_nil sample_mounts_no_nil range_order_rev, of "''active''" "''inactive''"]
    by blast
  with sh w show ?thesis by auto
qed

text \<open>
  Handing over is exclusive and settles: afterwards the source holds no active mount that the
  target also has, and enforcing the policy again finds nothing to change.
\<close>

theorem yield_settles:
  assumes "no_nil sm" and "no_nil tm" and "range_order ord" and "range_order ord'"
    and "yield_mounts ord sm tm = Val (sm1, tm1, u1)"
  shows "(\<forall>k n. \<not> shared_active sm1 tm1 k n) \<and>
    (\<exists>sm2 tm2. yield_mounts ord' sm1 tm1 = Val (sm2, tm2, False) \<and>
       (\<forall>k n. lookup2 sm2 k n = lookup2 sm1 k n \<and> lookup2 tm2 k n = lookup2 tm1 k n))"
proof -
  have L: "lookup2 sm1 k n = (if shared_active sm tm k n then with_status MountInactiveStatus (lookup2 sm k n) else lookup2 sm k n)"
    "lookup2 tm1 k n = (if shared_active sm tm k n then with_status MountActiveStatus (lookup2 tm k n) else lookup2 tm k n)"
    for k n using yield_mounts_spec [OF assms(1-3)] assms(5) by auto
  have nil: "no_nil sm1" "no_nil tm1"
    using assms(1,2) by (auto simp: no_nil_def L with_status_def split: if_splits)
  have none: "\<not> shared_active sm1 tm1 k n" for k n
    by (auto simp: shared_active_def [of sm1] L with_status_def) (auto simp: shared_active_def)
  from yield_mounts_spec [OF nil assms(4)] none show ?thesis by auto
qed

lemma yield_settles_witness:
  "\<exists>sm1 tm1 u. yield_mounts rev (sample_mounts ''active'') (sample_mounts ''inactive'') = Val (sm1, tm1, u) \<and>
    \<not> shared_active sm1 tm1 ''lamps'' ''l''"
proof -
  obtain sm1 tm1 u where "yield_mounts rev (sample_mounts ''active'') (sample_mounts ''inactive'') = Val (sm1, tm1, u)"
    using yield_mounts_spec [OF sample_mounts_no_nil sample_mounts_no_nil range_order_rev] by blast
  with yield_settles [OF sample_mounts_no_nil sample_mounts_no_nil range_order_rev range_order_rev this]
  show ?thesis by blast
qed

text \<open>
  A half-done handover is not reported: when the source was written and the write of the
  target fails, the mount is active nowhere, and the reconciler returns no error, so the request is
  not tried again.
\<close>

theorem half_handover_not_reported:
  "case enforce_policies (mem_kube (\<lambda>ob. str_at ob [''metadata'', ''name''] = ''r2'')) tree_json tiny_jq rev
      [yield_policy ''true''] two_rooms of
     Val (w, err) \<Rightarrow> err = None \<and> lamp_status two_rooms ''r1'' ''default/l'' = ''active'' \<and>
       lamp_status w ''r1'' ''default/l'' = ''inactive'' \<and> lamp_status w ''r2'' ''default/l'' = ''inactive''
   | _ \<Rightarrow> False"
  by code_simp

text \<open>
  A condition that does not parse ends the controller process: as soon as both models of the
  policy exist, enforcing it exits, whatever other policies wait for the same request after it.
\<close>

theorem bad_condition_exits:
  assumes "GetObj ku w (ps_Source pl) = Inr s" and "GetObj ku w (ps_Target pl) = Inr t"
    and "jq_parse jq (ps_Condition pl) = Inl e"
    and "map_of (pc_modelToPolicies pc) (nns rq) = Some pls" and "map snd (range_map ord pls) = pl # rest"
  shows "policy_doEnforce ku mj jq nns ord rq pc w = Exit (err_text e)"
  using assms by (simp add: policy_doEnforce_def enforce_policy_def)

lemma bad_condition_exits_witness:
  "policy_doEnforce (mem_kube never) tree_json tiny_jq nns_plain rev (req ''r1'')
     (pc_put nns_plain (yield_policy ''.a ==='') new_policy_cache) two_rooms = Exit ''unexpected token''"
proof -
  let ?pl = "yield_policy ''.a ===''"
  have s: "GetObj (mem_kube never) two_rooms (ps_Source ?pl) = Inr (snd (hd two_rooms))"
    and t: "GetObj (mem_kube never) two_rooms (ps_Target ?pl) = Inr (snd (last two_rooms))"
    and j: "jq_parse tiny_jq (ps_Condition ?pl) = Inl (Err ''unexpected token'')"
    and m: "map_of (pc_modelToPolicies (pc_put nns_plain ?pl new_policy_cache)) (nns_plain (req ''r1'')) =
      Some [(''default/y'', ?pl)]"
    and r: "map snd (range_map rev [(''default/y'', ?pl)]) = [?pl]" by code_simp+
  from bad_condition_exits [where nns = nns_plain and rq = "req ''r1''" and mj = tree_json, OF s t j m r]
  show ?thesis by simp
qed

end
