(* ===== verification/Managers.thy ===== *)
theory Managers
  imports Policy_Ctl Cli_Space
begin

text \<open>
  The processes of the two controllers, \<open>cmd/manager/main.go\<close> of \<open>space/sync\<close> and \<open>space/policy\<close>,
  which differ in the lock they take and in the controller they add. The calls of controller-runtime
  and of the operator SDK are parameters; starting the manager sees its options, and whether
  the controller watches its kind.
\<close>

record mgr_options =
  mo_Namespace :: string
  mo_NewCache :: "string list option"
    \<comment> \<open>the namespaces of a \<open>MultiNamespacedCacheBuilder\<close>\<close>

record 'w mgr_env =
  mg_goVersion :: string
  mg_goos :: string
  mg_goarch :: string
  mg_sdkVersion :: string
  mg_namespace :: "err + string"
    \<comment> \<open>\<open>k8sutil.GetWatchNamespace\<close>\<close>
  mg_config :: "err option"
    \<comment> \<open>\<open>config.GetConfig\<close>\<close>
  mg_become :: "string \<Rightarrow> 'w \<Rightarrow> 'w \<times> err option"
    \<comment> \<open>\<open>leader.Become\<close>\<close>
  mg_new :: "mgr_options \<Rightarrow> err option"
    \<comment> \<open>\<open>manager.New\<close>\<close>
  mg_scheme :: "err option"
    \<comment> \<open>\<open>AddToScheme\<close>\<close>
  mg_controller :: "err option"
    \<comment> \<open>\<open>controller.New\<close>\<close>
  mg_watch :: "err option"
    \<comment> \<open>the watch of the kind of the controller\<close>
  mg_start :: "mgr_options \<Rightarrow> bool \<Rightarrow> 'w \<Rightarrow> 'w \<times> err option"

definition version_string :: string where "version_string = ''0.0.1''"

definition printVersion :: "'w mgr_env \<Rightarrow> ('w, unit) cmd" where
  "printVersion me =
     cthen (cemit (EvLog (''Operator Version: '' @ version_string)))
    (cthen (cemit (EvLog (''Go Version: '' @ mg_goVersion me)))
    (cthen (cemit (EvLog (''Go OS/Arch: '' @ mg_goos me @ ''/'' @ mg_goarch me)))
           (cemit (EvLog (''Version of operator-sdk: '' @ mg_sdkVersion me)))))"

text \<open>The loop over the functions that add controllers, given the results of their calls.\<close>

fun AddToManager :: "err option list \<Rightarrow> err option" where
  "AddToManager [] = None"
| "AddToManager (r # rs) = (case r of Some e \<Rightarrow> Some e | None \<Rightarrow> AddToManager rs)"

definition manager_options :: "string \<Rightarrow> mgr_options" where
  "manager_options namespace =
     (if contains_str namespace '','' then \<lparr>mo_Namespace = [], mo_NewCache = Some (split_on CHR '','' namespace)\<rparr>
      else \<lparr>mo_Namespace = namespace, mo_NewCache = None\<rparr>)"

text \<open>\<open>log.Fatal\<close> of an error and a text: \<open>Sprint\<close> puts no space between them.\<close>

definition fatal_with :: "string \<Rightarrow> err option \<Rightarrow> ('w, unit) cmd" where
  "fatal_with note e = (case e of None \<Rightarrow> creturn () | Some x \<Rightarrow> cfatal (err_text x @ note))"

definition manager_main :: "string \<Rightarrow> (err option \<Rightarrow> err option \<Rightarrow> err option) \<Rightarrow> 'w mgr_env \<Rightarrow> ('w, unit) cmd" where
  "manager_main lock add me =
     cthen (printVersion me)
    (case mg_namespace me of
       Inl e \<Rightarrow> cfatal (err_text e @ ''Failed to get watch namespace'')
     | Inr namespace \<Rightarrow>
         cthen (fatal_with [] (mg_config me))
        (cthen (cbind (cstep (mg_become me lock)) (fatal_with []))
        (cthen (fatal_with [] (mg_new me (manager_options namespace)))
        (cthen (cemit (EvLog ''Registering Components.''))
        (cthen (fatal_with [] (mg_scheme me))
        (cthen (fatal_with [] (AddToManager [add (mg_controller me) (mg_watch me)]))
        (cthen (cemit (EvLog ''Starting the Cmd.''))
        (cbind (cstep (mg_start me (manager_options namespace) (mg_watch me = None)))
               (fatal_with ''Manager exited non-zero'')))))))))"

definition syncer_main :: "'w mgr_env \<Rightarrow> ('w, unit) cmd" where
  "syncer_main = manager_main ''syncer-lock'' sync_Add"

definition policer_main :: "'w mgr_env \<Rightarrow> ('w, unit) cmd" where
  "policer_main = manager_main ''policer-lock'' policy_Add"

section \<open>What is started\<close>

lemma fatal_with_run [cmd_simps]:
  "fatal_with note None w = (w, [], Val ())" "fatal_with note (Some e) w = (w, [], Exit (err_text e @ note))"
  by (simp_all add: fatal_with_def creturn_def)

lemma contains_char: "contains_str s [c] \<longleftrightarrow> c \<in> set s"
  by (induction s) auto

text \<open>The namespaces that are watched: the one that was given, or those of a list, one by one.\<close>

lemma manager_options_watch:
  "mo_Namespace (manager_options ns) = (if CHR '','' \<in> set ns then [] else ns)"
  "mo_NewCache (manager_options ns) = (if CHR '','' \<in> set ns then Some (split_on CHR '','' ns) else None)"
  by (simp_all add: manager_options_def contains_char)

text \<open>The lines printed on the way to the start.\<close>

definition start_lines :: "'w mgr_env \<Rightarrow> event list" where
  "start_lines me = [EvLog (''Operator Version: '' @ version_string), EvLog (''Go Version: '' @ mg_goVersion me),
     EvLog (''Go OS/Arch: '' @ mg_goos me @ ''/'' @ mg_goarch me), EvLog (''Version of operator-sdk: '' @ mg_sdkVersion me)]"

lemma printVersion_run: "printVersion me w = (w, start_lines me, Val ())"
  by (simp add: printVersion_def cthen_def cbind_def cemit_def start_lines_def)

text \<open>
  C24. A watch that fails: the sync controller ends with the error before it starts, the policy
  controller starts and runs without ever seeing a policy.
\<close>

theorem failed_watch:
  assumes "mg_namespace me = Inr ns" "mg_config me = None" "\<And>lock. mg_become me lock w = (w1, None)"
    and "mg_new me (manager_options ns) = None" "mg_scheme me = None" "mg_controller me = None"
    and "mg_watch me = Some e" "mg_start me (manager_options ns) False w1 = (w2, res)"
  shows "syncer_main me w = (w1, start_lines me @ [EvLog ''Registering Components.''], Exit (err_text e)) \<and>
    policer_main me w = (w2, start_lines me @ [EvLog ''Registering Components.'', EvLog ''Starting the Cmd.''],
      case res of None \<Rightarrow> Val () | Some x \<Rightarrow> Exit (err_text x @ ''Manager exited non-zero''))"
  using assms
  by (simp add: syncer_main_def policer_main_def manager_main_def printVersion_run sync_Add_def policy_Add_def
      cthen_def cbind_def cstep_def cemit_def fatal_with_run creturn_def split: option.split)

text \<open>A cluster without the kind of the controller.\<close>

definition sample_manager :: "nat mgr_env" where
  "sample_manager = \<lparr>mg_goVersion = ''go1.15'', mg_goos = ''linux'', mg_goarch = ''amd64'', mg_sdkVersion = ''v0.19.0'',
     mg_namespace = Inr ''a,b'', mg_config = None, mg_become = (\<lambda>l w. (Suc w, None)), mg_new = (\<lambda>opts. None),
     mg_scheme = None, mg_controller = None, mg_watch = Some (Err ''no matches for kind''),
     mg_start = (\<lambda>opts watching w. (if watching then w else w + 10, None))\<rparr>"

lemma failed_watch_witness:
  "syncer_main sample_manager 0 =
      (1, start_lines sample_manager @ [EvLog ''Registering Components.''], Exit ''no matches for kind'') \<and>
    policer_main sample_manager 0 =
      (11, start_lines sample_manager @ [EvLog ''Registering Components.'', EvLog ''Starting the Cmd.''], Val ())"
  using failed_watch [of sample_manager "''a,b''" 0 1 "Err ''no matches for kind''" 11 None]
  by (simp add: sample_manager_def)

end
