(* ===== verification/Work_Queue.thy ===== *)
theory Work_Queue
  imports Sync_Ctl "HOL-Library.Multiset"
begin

text \<open>
  A controller as its manager runs it: \<open>Reconcile\<close> is called for one request after the other while
  others change the cluster, and events of watched objects put requests into the queue.

  The API server is read through its history: \<open>hist\<close> gives the objects changed so far, in order, and
  \<open>differs\<close> the objects two states of the cluster do not agree on. Of the work queue, the step relation
  keeps what is documented: a request stays until it was handled without error, an event of a watched
  object puts its requests in, also while one is handled, and further requests may come at any time.
  An event on its way counts as a request that waits, and reads see the current state of the cluster.
  The locale proves for both controllers that nothing that was declared is forgotten.
\<close>

section \<open>Histories\<close>

type_synonym change = "gvk \<times> nsname"

definition grows :: "('w \<Rightarrow> change list) \<Rightarrow> ('w \<Rightarrow> 'w \<Rightarrow> change set) \<Rightarrow> 'w \<Rightarrow> 'w \<Rightarrow> bool" where
  "grows hist differs w w' \<longleftrightarrow> (\<exists>es. hist w' = hist w @ es \<and> differs w w' \<subseteq> set es)"

definition new_changes :: "('w \<Rightarrow> change list) \<Rightarrow> 'w \<Rightarrow> 'w \<Rightarrow> change set" where
  "new_changes hist w w' = set (drop (length (hist w)) (hist w'))"

lemma grows_refl [intro]: "differs w w = {} \<Longrightarrow> grows hist differs w w"
  by (simp add: grows_def)

lemma grows_trans:
  assumes "grows hist differs w1 w2" and "grows hist differs w2 w3"
    and "differs w1 w3 \<subseteq> differs w1 w2 \<union> differs w2 w3"
  shows "grows hist differs w1 w3"
proof -
  from assms(1,2) obtain es fs where "hist w2 = hist w1 @ es" "hist w3 = hist w2 @ fs"
    "differs w1 w2 \<subseteq> set es" "differs w2 w3 \<subseteq> set fs" by (auto simp: grows_def)
  with assms(3) have "hist w3 = hist w1 @ (es @ fs) \<and> differs w1 w3 \<subseteq> set (es @ fs)" by auto
  then show ?thesis unfolding grows_def by blast
qed

text \<open>Changes in a part of a stretch of the history are changes of the whole.\<close>

lemma grows_changes:
  assumes "grows hist differs w0 w" and "grows hist differs w w'"
  shows "differs w w' \<subseteq> new_changes hist w0 w'"
    and "grows hist differs w' w'' \<Longrightarrow> new_changes hist w0 w' \<subseteq> new_changes hist w0 w''"
  using assms unfolding grows_def new_changes_def by auto

text \<open>
  What two states of the cluster do not agree on: models, and the objects of the controller's own kind
  as its client decodes them. Every call that writes appends what it changes.
\<close>

definition changed ::
  "'w kube \<Rightarrow> gvk \<Rightarrow> ('w \<Rightarrow> request \<Rightarrow> get_error + 's) \<Rightarrow> 'w \<Rightarrow> 'w \<Rightarrow> change set" where
  "changed ku own get w w' = {ch. ku_get ku w' (fst ch) (snd ch) \<noteq> ku_get ku w (fst ch) (snd ch)} \<union>
     Pair own ` {rq. get w' rq \<noteq> get w rq}"

definition history_laws ::
  "'w kube \<Rightarrow> ('w \<Rightarrow> change list) \<Rightarrow> ('w \<Rightarrow> 'w \<Rightarrow> change set) \<Rightarrow> bool" where
  "history_laws ku hist differs \<longleftrightarrow>
     (\<forall>ob w. grows hist differs w (fst (ku_update ku ob w))) \<and>
     (\<forall>old new w. grows hist differs w (fst (ku_patch ku old new w))) \<and>
     (\<forall>ob w. grows hist differs w (fst (ku_watch ku ob w)))"

lemma changed_refl [simp]: "changed ku own get w w = {}"
  by (simp add: changed_def)

lemma changed_via: "changed ku own get w1 w3 \<subseteq> changed ku own get w1 w2 \<union> changed ku own get w2 w3"
  unfolding changed_def by (intro subsetI, simp only: Un_iff mem_Collect_eq image_iff Bex_def) metis

lemma changed_own: "get w' rq \<noteq> get w rq \<Longrightarrow> (own, rq) \<in> changed ku own get w w'"
  by (simp add: changed_def)

lemma unchanged_obj: "(Auri_Gvk ar, SpacedName ar) \<notin> changed ku own get w w' \<Longrightarrow> GetObj ku w' ar = GetObj ku w ar"
  by (simp add: changed_def GetObj_def)

lemma grows_changed_refl [intro, simp]: "grows hist (changed ku own get) w w"
  by (rule grows_refl) simp

lemma grows_changed [trans]:
  "grows hist (changed ku own get) w1 w2 \<Longrightarrow> grows hist (changed ku own get) w2 w3 \<Longrightarrow>
    grows hist (changed ku own get) w1 w3"
  by (erule grows_trans) (assumption, rule changed_via)

lemma grows_update: "history_laws ku hist differs \<Longrightarrow> ku_update ku ob w = (w', e) \<Longrightarrow> grows hist differs w w'"
  unfolding history_laws_def by (metis fst_conv)

lemma grows_patch: "history_laws ku hist differs \<Longrightarrow> grows hist differs w (fst (ku_patch ku old new w))"
  unfolding history_laws_def by blast

lemma grows_watch: "history_laws ku hist differs \<Longrightarrow> ku_watch ku ob w = (w', e) \<Longrightarrow> grows hist differs w w'"
  unfolding history_laws_def by (metis fst_conv)

section \<open>Names and events\<close>

lemma range_order_id': "range_order id"
  by (simp add: range_order_def)

text \<open>The kinds a cache has watches of are stored as strings.\<close>

definition watched_gvk :: "string list \<Rightarrow> gvk \<Rightarrow> bool" where
  "watched_gvk ks g = (case g of (grp, ver, knd) \<Rightarrow>
     Kind_String \<lparr>k_Group = grp, k_Version = ver, k_Name = knd\<rparr> \<in> set ks)"

lemma watched_auri: "watched_gvk ks (Auri_Gvk ar) \<longleftrightarrow> Kind_String (a_Kind ar) \<in> set ks"
  by (cases "a_Kind ar") (simp add: watched_gvk_def Auri_Gvk_def Kind_Gvk_def)

text \<open>A request carries its tag in front of its name, so the object's own is recovered.\<close>

lemma Demux_MuxRequest:
  assumes "q \<in> set (MuxRequest tag rq)" and "CHR ''-'' \<notin> set tag"
  shows "DemuxRequest q = (rq, tag)"
  using assms DemuxRequest_mux [of tag rq] by (auto simp: MuxRequest_def)

lemma MuxRequest_not_Nil: "\<exists>q. q \<in> set (MuxRequest tag rq)"
  by (simp add: MuxRequest_def)

text \<open>The names of objects, like all names of the API server, hold no slash.\<close>

definition plain_name :: "request \<Rightarrow> bool" where
  "plain_name rq \<longleftrightarrow> CHR ''/'' \<notin> set (n_Namespace rq) \<and> CHR ''/'' \<notin> set (n_Name rq)"

lemma plain_name_unique:
  assumes "nns_documented nns" and "plain_name rq" and "nns r = nns rq"
  shows "r = rq"
proof -
  have *: "n_Namespace r @ CHR ''/'' # n_Name r = n_Namespace rq @ CHR ''/'' # n_Name rq"
    using assms(1,3) by (simp add: nns_documented_def)
  have rq: "CHR ''/'' \<notin> set (n_Namespace rq)" "CHR ''/'' \<notin> set (n_Name rq)"
    using assms(2) by (auto simp: plain_name_def)
  then have "count_list (n_Namespace r @ CHR ''/'' # n_Name r) (CHR ''/'') = 1"
    unfolding * by (simp add: count_list_0_iff)
  then have "CHR ''/'' \<notin> set (n_Namespace r)" by (simp add: count_list_0_iff)
  moreover have "takeWhile (\<lambda>c. c \<noteq> x) (as @ x # bs) = as" if "x \<notin> set as" for x :: char and as bs
    using that by (induction as) auto
  ultimately have "n_Namespace r = n_Namespace rq" using * rq(1) by metis
  with * show ?thesis by simp
qed

section \<open>The controller and its queue\<close>

record ('c, 'w) ctl_state =
  ct_cache :: 'c
  ct_world :: 'w
  ct_queue :: "request set"
  ct_dropped :: "string set"
    \<comment> \<open>what an error was dropped for, for reference in the properties\<close>

inductive ctl_step ::
  "(order \<Rightarrow> request \<Rightarrow> 'c \<times> 'w \<Rightarrow> (('c \<times> 'w) \<times> err option) outcome) \<Rightarrow>
   (order \<Rightarrow> request \<Rightarrow> 'c \<times> 'w \<Rightarrow> string list) \<Rightarrow> ('c \<Rightarrow> change \<Rightarrow> request list) \<Rightarrow>
   ('w \<Rightarrow> change list) \<Rightarrow> ('w \<Rightarrow> 'w \<Rightarrow> change set) \<Rightarrow>
   ('c, 'w) ctl_state \<Rightarrow> ('c, 'w) ctl_state \<Rightarrow> bool"
  for rec failed evs hist differs where
  reconcile: "q \<in> ct_queue s \<Longrightarrow> range_order ord \<Longrightarrow>
    rec ord q (ct_cache s, ct_world s) = Val ((c', w'), e) \<Longrightarrow>
    ct_queue s - {q} \<union> (if e = None then {} else {q}) \<union>
      (\<Union>ch \<in> new_changes hist (ct_world s) w'. set (evs c' ch)) \<subseteq> qs \<Longrightarrow>
    ds = (if e = None then set (failed ord q (ct_cache s, ct_world s)) else {}) \<Longrightarrow>
    ctl_step rec failed evs hist differs s
      \<lparr>ct_cache = c', ct_world = w', ct_queue = qs, ct_dropped = ct_dropped s \<union> ds\<rparr>"
| others: "grows hist differs (ct_world s) w' \<Longrightarrow>
    ct_queue s \<union> (\<Union>ch \<in> new_changes hist (ct_world s) w'. set (evs (ct_cache s) ch)) \<subseteq> qs \<Longrightarrow>
    ctl_step rec failed evs hist differs s (s\<lparr>ct_world := w', ct_queue := qs\<rparr>)"

text \<open>A request is waiting that is for the object \<open>rq\<close> of the controller's own kind.\<close>

definition asked_own :: "string \<Rightarrow> request set \<Rightarrow> request \<Rightarrow> bool" where
  "asked_own tag qs rq \<longleftrightarrow> (\<exists>q \<in> qs. DemuxRequest q = (rq, tag))"

lemma asked_own_mono: "asked_own tag qs rq \<Longrightarrow> qs \<subseteq> qs' \<Longrightarrow> asked_own tag qs' rq"
  by (auto simp: asked_own_def)

text \<open>Others change the cluster, and the watches see it.\<close>

definition seen ::
  "('c \<Rightarrow> change \<Rightarrow> request list) \<Rightarrow> ('w \<Rightarrow> change list) \<Rightarrow> 'w \<Rightarrow> ('c, 'w) ctl_state \<Rightarrow> ('c, 'w) ctl_state" where
  "seen evs hist w' s = s\<lparr>ct_world := w', ct_queue := ct_queue s \<union>
     (\<Union>ch \<in> new_changes hist (ct_world s) w'. set (evs (ct_cache s) ch))\<rparr>"

lemma seen_step: "grows hist differs (ct_world s) w' \<Longrightarrow> ctl_step rec failed evs hist differs s (seen evs hist w' s)"
  unfolding seen_def by (rule ctl_step.others) auto

lemma seen_world [simp]: "ct_world (seen evs hist w' s) = w'"
  by (simp add: seen_def)

section \<open>Controllers with a queue\<close>

text \<open>
  What both controllers share: \<open>differs\<close> behaves like a difference, an event of an object of the
  controller's own kind asks for that object, and a call of \<open>Reconcile\<close> extends the history. The laws
  hold under a condition \<open>ok\<close> on the parameters of the controller.
\<close>

locale queued =
  fixes ok :: bool
    and rec :: "order \<Rightarrow> request \<Rightarrow> 'c \<times> 'w \<Rightarrow> (('c \<times> 'w) \<times> err option) outcome"
    and failed :: "order \<Rightarrow> request \<Rightarrow> 'c \<times> 'w \<Rightarrow> string list"
    and evs :: "'c \<Rightarrow> change \<Rightarrow> request list"
    and hist :: "'w \<Rightarrow> change list"
    and differs :: "'w \<Rightarrow> 'w \<Rightarrow> change set"
    and own :: gvk
    and tag :: string
  assumes same: "differs w w = {}"
    and via: "differs w1 w3 \<subseteq> differs w1 w2 \<union> differs w2 w3"
    and own_event: "\<exists>q \<in> set (evs c (own, rq)). DemuxRequest q = (rq, tag)"
    and rec_grows: "ok \<Longrightarrow> rec ord q (c, w) = Val ((c', w'), e) \<Longrightarrow> grows hist differs w w'"
begin

abbreviation step :: "('c, 'w) ctl_state \<Rightarrow> ('c, 'w) ctl_state \<Rightarrow> bool" where
  "step \<equiv> ctl_step rec failed evs hist differs"

lemma grows_same: "grows hist differs w w"
  by (rule grows_refl) (rule same)

text \<open>A change of an object of the own kind puts a request for it into the queue.\<close>

lemma asked_own_by_event:
  assumes "grows hist differs w w'" and "(own, rq) \<in> differs w w'"
    and "(\<Union>ch \<in> new_changes hist w w'. set (evs c ch)) \<subseteq> qs"
  shows "asked_own tag qs rq"
proof -
  have "(own, rq) \<in> new_changes hist w w'"
    using grows_changes(1) [OF grows_same assms(1)] assms(2) by blast
  moreover obtain q where "q \<in> set (evs c (own, rq))" "DemuxRequest q = (rq, tag)" using own_event by blast
  ultimately show ?thesis using assms(3) unfolding asked_own_def by blast
qed

text \<open>The history goes on through all steps.\<close>

lemma steps_grow:
  assumes ok and "rtranclp step s t"
  shows "grows hist differs (ct_world s) (ct_world t)"
  using assms(2)
proof induction
  case base
  show ?case by (rule grows_same)
next
  case (step t u)
  from step(2) have "grows hist differs (ct_world t) (ct_world u)"
    by cases (auto intro: rec_grows [OF assms(1)])
  from grows_trans [OF step(3) this via] show ?case .
qed

end

section \<open>Nothing is forgotten\<close>

text \<open>
  Objects of the controller's own kind declare things to be settled, each between some objects.
\<close>

locale level_triggered = queued ok rec failed evs hist differs own tag
  for ok :: bool
    and rec :: "order \<Rightarrow> request \<Rightarrow> 'c \<times> 'w \<Rightarrow> (('c \<times> 'w) \<times> err option) outcome"
    and failed evs hist differs own tag +
  fixes declared :: "'w \<Rightarrow> request \<Rightarrow> 'b option"
    and name :: "'b \<Rightarrow> string"
    and objs :: "'b \<Rightarrow> change set"
    and asks :: "request \<Rightarrow> 'b \<Rightarrow> bool"
    and linked :: "'c \<Rightarrow> 'b \<Rightarrow> bool"
    and settled :: "'b \<Rightarrow> 'w \<Rightarrow> bool"
  assumes declared_change: "declared w' rq \<noteq> declared w rq \<Longrightarrow> (own, rq) \<in> differs w w'"
    and obj_event: "linked c b \<Longrightarrow> ch \<in> objs b \<Longrightarrow> \<exists>q \<in> set (evs c ch). asks q b"
    and asks_other: "asks q b \<Longrightarrow> snd (DemuxRequest q) \<noteq> tag"
    and settled_kept: "settled b w \<Longrightarrow> objs b \<inter> differs w w' = {} \<Longrightarrow> settled b w'"
    and keeps_linked: "ok \<Longrightarrow> rec ord q (c, w) = Val ((c', w'), e) \<Longrightarrow> declared w rq = Some b \<Longrightarrow>
      DemuxRequest q \<noteq> (rq, tag) \<Longrightarrow> linked c b \<Longrightarrow> linked c' b"
    and run_own: "ok \<Longrightarrow> range_order ord \<Longrightarrow> rec ord q (c, w) = Val ((c', w'), None) \<Longrightarrow>
      DemuxRequest q = (rq, tag) \<Longrightarrow> declared w rq = Some b \<Longrightarrow>
      linked c' b \<and> (name b \<in> set (failed ord q (c, w)) \<or> objs b \<inter> new_changes hist w w' \<noteq> {} \<or>
        (\<exists>w1. grows hist differs w w1 \<and> grows hist differs w1 w' \<and> settled b w1))"
    and run_asked: "ok \<Longrightarrow> range_order ord \<Longrightarrow> rec ord q (c, w) = Val ((c', w'), None) \<Longrightarrow>
      asks q b \<Longrightarrow> declared w rq = Some b \<Longrightarrow> linked c b \<Longrightarrow>
      name b \<in> set (failed ord q (c, w)) \<or> objs b \<inter> new_changes hist w w' \<noteq> {} \<or>
        (\<exists>w1. grows hist differs w w1 \<and> grows hist differs w1 w' \<and> settled b w1)"
begin

definition asked :: "request set \<Rightarrow> 'b \<Rightarrow> bool" where
  "asked qs b \<longleftrightarrow> (\<exists>q \<in> qs. asks q b)"

definition cared_for :: "('c, 'w) ctl_state \<Rightarrow> 'b \<Rightarrow> bool" where
  "cared_for s b \<longleftrightarrow> settled b (ct_world s) \<or> asked (ct_queue s) b \<or> name b \<in> ct_dropped s"

definition inv :: "('c, 'w) ctl_state \<Rightarrow> bool" where
  "inv s \<longleftrightarrow> (\<forall>rq b. declared (ct_world s) rq = Some b \<longrightarrow>
     asked_own tag (ct_queue s) rq \<or> linked (ct_cache s) b \<and> cared_for s b)"

lemma asked_by_event:
  assumes "linked c b" and "objs b \<inter> chs \<noteq> {}" and "(\<Union>ch \<in> chs. set (evs c ch)) \<subseteq> qs"
  shows "asked qs b"
proof -
  from assms(2) obtain ch where ch: "ch \<in> objs b" "ch \<in> chs" by blast
  from obj_event [OF assms(1) ch(1)] obtain q where "q \<in> set (evs c ch)" "asks q b" by blast
  with ch(2) assms(3) show ?thesis unfolding asked_def by blast
qed

lemma declared_asked:
  assumes "grows hist differs w w'" and "declared w' rq \<noteq> declared w rq"
    and "(\<Union>ch \<in> new_changes hist w w'. set (evs c ch)) \<subseteq> qs"
  shows "asked_own tag qs rq"
  by (rule asked_own_by_event [OF assms(1) declared_change [OF assms(2)] assms(3)])

lemma settled_or_asked:
  assumes "settled b w" and "grows hist differs w0 w" and "grows hist differs w w'" and "linked c b"
    and "(\<Union>ch \<in> new_changes hist w0 w'. set (evs c ch)) \<subseteq> qs"
  shows "settled b w' \<or> asked qs b"
proof (cases "objs b \<inter> differs w w' = {}")
  case True
  with settled_kept [OF assms(1)] show ?thesis by blast
next
  case False
  with grows_changes(1) [OF assms(2,3)] have "objs b \<inter> new_changes hist w0 w' \<noteq> {}" by blast
  from asked_by_event [OF assms(4) this assms(5)] show ?thesis ..
qed

lemma looked_after:
  assumes "linked c' b"
    and "name b \<in> ds \<or> objs b \<inter> new_changes hist w w' \<noteq> {} \<or>
      (\<exists>w1. grows hist differs w w1 \<and> grows hist differs w1 w' \<and> settled b w1)"
    and "(\<Union>ch \<in> new_changes hist w w'. set (evs c' ch)) \<subseteq> qs"
  shows "cared_for \<lparr>ct_cache = c', ct_world = w', ct_queue = qs, ct_dropped = ds\<rparr> b"
  using assms(2) settled_or_asked [OF _ _ _ assms(1,3)] asked_by_event [OF assms(1) _ assms(3)]
  by (auto simp: cared_for_def)

lemma reconcile_inv:
  assumes ok and ord: "range_order ord" and inv: "inv s"
    and run: "rec ord q (ct_cache s, ct_world s) = Val ((c', w'), e)"
    and qs: "ct_queue s - {q} \<subseteq> qs" "e \<noteq> None \<Longrightarrow> q \<in> qs"
      "(\<Union>ch \<in> new_changes hist (ct_world s) w'. set (evs c' ch)) \<subseteq> qs"
    and ds: "ct_dropped s \<subseteq> ds" "e = None \<Longrightarrow> set (failed ord q (ct_cache s, ct_world s)) \<subseteq> ds"
  shows "inv \<lparr>ct_cache = c', ct_world = w', ct_queue = qs, ct_dropped = ds\<rparr>"
  unfolding inv_def ctl_state.simps
proof (intro allI impI)
  let ?w = "ct_world s" and ?t = "\<lparr>ct_cache = c', ct_world = w', ct_queue = qs, ct_dropped = ds\<rparr>"
  fix rq b assume declared': "declared w' rq = Some b"
  note g = rec_grows [OF \<open>ok\<close> run]
  show "asked_own tag qs rq \<or> linked c' b \<and> cared_for ?t b"
  proof (cases "asked_own tag qs rq")
    case False
    then have declared: "declared ?w rq = Some b" using declared_asked [OF g _ qs(3)] declared' by metis
    note cared = looked_after [OF _ _ qs(3), where b = b and ds = ds]
    show ?thesis
    proof (cases "DemuxRequest q = (rq, tag)")
      case True
      with False have "q \<notin> qs" by (auto simp: asked_own_def)
      with qs(2) have e: "e = None" by blast
      from run_own [OF \<open>ok\<close> ord run [unfolded e] True declared] cared ds(2) [OF e] show ?thesis by blast
    next
      case other: False
      have "\<not> asked_own tag (ct_queue s) rq" using False other qs(1) by (auto simp: asked_own_def)
      with inv declared have old: "linked (ct_cache s) b" "cared_for s b" by (auto simp: inv_def)
      note l = keeps_linked [OF \<open>ok\<close> run declared other old(1)]
      have "cared_for ?t b"
      proof (cases "settled b ?w \<or> name b \<in> ds \<or> asked (ct_queue s - {q}) b")
        case True
        moreover have "settled b w' \<or> asked qs b" if "settled b ?w"
          by (rule settled_or_asked [OF that grows_same g l qs(3)])
        ultimately show ?thesis using qs(1) by (auto simp: cared_for_def asked_def)
      next
        case False
        with old(2) ds(1) have "asks q b" by (auto simp: cared_for_def asked_def)
        show ?thesis
        proof (cases e)
          case None
          from run_asked [OF \<open>ok\<close> ord run [unfolded None] \<open>asks q b\<close> declared old(1)] cared [OF l] ds(2) [OF None]
          show ?thesis by blast
        next
          case (Some x)
          with qs(2) \<open>asks q b\<close> show ?thesis by (auto simp: cared_for_def asked_def)
        qed
      qed
      with l show ?thesis by blast
    qed
  qed simp
qed

lemma others_inv:
  assumes g: "grows hist differs (ct_world s) w'" and inv: "inv s"
    and qs: "ct_queue s \<subseteq> qs" "(\<Union>ch \<in> new_changes hist (ct_world s) w'. set (evs (ct_cache s) ch)) \<subseteq> qs"
  shows "inv (s\<lparr>ct_world := w', ct_queue := qs\<rparr>)"
  unfolding inv_def
proof (intro allI impI)
  let ?t = "s\<lparr>ct_world := w', ct_queue := qs\<rparr>"
  fix rq b assume declared': "declared (ct_world ?t) rq = Some b"
  show "asked_own tag (ct_queue ?t) rq \<or> linked (ct_cache ?t) b \<and> cared_for ?t b"
  proof (cases "asked_own tag qs rq")
    case False
    then have "declared (ct_world s) rq = Some b" using declared_asked [OF g _ qs(2)] declared' by force
    moreover have "\<not> asked_own tag (ct_queue s) rq" using False asked_own_mono [OF _ qs(1)] by blast
    ultimately have "linked (ct_cache s) b" "cared_for s b" using inv by (auto simp: inv_def)
    with settled_or_asked [OF _ grows_same g _ qs(2)] qs(1)
    show ?thesis by (auto simp: cared_for_def asked_def)
  qed simp
qed

lemma step_inv:
  assumes ok and "step s t" and "inv s"
  shows "inv t"
  using assms(2)
proof cases
  case (reconcile q ord c' w' e qs ds)
  show ?thesis unfolding reconcile(1)
    by (rule reconcile_inv [OF assms(1) reconcile(3) assms(3) reconcile(4)]) (use reconcile(5,6) in auto)
next
  case (others w' qs)
  show ?thesis unfolding others(1) by (rule others_inv [OF others(2) assms(3)]) (use others(3) in auto)
qed

lemma declared_stays:
  assumes ok and "rtranclp step s t" and "(own, rq) \<notin> new_changes hist (ct_world s) (ct_world t)"
  shows "declared (ct_world t) rq = declared (ct_world s) rq"
  using grows_changes(1) [OF grows_same steps_grow [OF assms(1,2)]] declared_change assms(3) by blast

sublocale reach: step_invariant step "\<lambda>s. ok \<longrightarrow> inv s"
  by unfold_locales (blast intro: step_inv)

text \<open>From a start at which all that is declared is asked for.\<close>

lemma nothing_forgotten:
  assumes ok and "rtranclp step s0 s"
    and "\<And>rq b. declared (ct_world s0) rq = Some b \<Longrightarrow> asked_own tag (ct_queue s0) rq"
    and "declared (ct_world s) rq = Some b"
  shows "asked_own tag (ct_queue s) rq \<or> (\<exists>q \<in> ct_queue s. asks q b) \<or> name b \<in> ct_dropped s \<or>
    settled b (ct_world s)"
proof -
  have "inv s0" using assms(3) by (auto simp: inv_def)
  with reach.reached [OF assms(2)] assms(1,4) show ?thesis by (auto simp: inv_def cared_for_def asked_def)
qed

end

section \<open>Nothing that was deleted is kept\<close>

text \<open>
  What the cache holds of an object of the controller's own kind: nothing (\<open>absent\<close>), or entries at a
  given set of models (\<open>within\<close>). Only the calls for an object bring it into the cache, and a call that
  ends well for an object that is gone takes it out.
\<close>

locale forgetting = queued ok rec failed evs hist differs own tag
  for ok :: bool
    and rec :: "order \<Rightarrow> request \<Rightarrow> 'c \<times> 'w \<Rightarrow> (('c \<times> 'w) \<times> err option) outcome"
    and failed evs hist differs own tag +
  fixes get :: "'w \<Rightarrow> request \<Rightarrow> get_error + 's"
    and models :: "'s \<Rightarrow> string set"
    and absent :: "'c \<Rightarrow> request \<Rightarrow> bool"
    and within :: "string set \<Rightarrow> 'c \<Rightarrow> request \<Rightarrow> bool"
  assumes get_change: "get w' rq \<noteq> get w rq \<Longrightarrow> (own, rq) \<in> differs w w'"
    and within_absent: "absent c rq \<Longrightarrow> within E c rq"
    and rec_other: "ok \<Longrightarrow> rec ord q (c, w) = Val ((c', w'), e) \<Longrightarrow> plain_name rq \<Longrightarrow> DemuxRequest q \<noteq> (rq, tag) \<Longrightarrow>
      (absent c rq \<longrightarrow> absent c' rq) \<and> (within E c rq \<longrightarrow> within E c' rq)"
    and rec_gone: "ok \<Longrightarrow> rec ord q (c, w) = Val ((c', w'), None) \<Longrightarrow> DemuxRequest q = (rq, tag) \<Longrightarrow>
      get w rq = Inl x \<Longrightarrow> within E c rq \<Longrightarrow> absent c' rq"
    and rec_there: "ok \<Longrightarrow> rec ord q (c, w) = Val ((c', w'), e) \<Longrightarrow> DemuxRequest q = (rq, tag) \<Longrightarrow>
      (\<forall>sp. get w rq = Inr sp \<longrightarrow> models sp = E) \<Longrightarrow> within E c rq \<Longrightarrow> within E c' rq"
begin

text \<open>While the object is there, it stays with its models.\<close>

definition steady :: "string set \<Rightarrow> request \<Rightarrow> ('c, 'w) ctl_state \<Rightarrow> bool" where
  "steady E rq s \<longleftrightarrow> (\<forall>sp. get (ct_world s) rq = Inr sp \<longrightarrow> models sp = E)"

definition tracked :: "string set \<Rightarrow> request \<Rightarrow> ('c, 'w) ctl_state \<Rightarrow> bool" where
  "tracked E rq s \<longleftrightarrow> within E (ct_cache s) rq \<and>
     (absent (ct_cache s) rq \<or> asked_own tag (ct_queue s) rq \<or> (\<exists>sp. get (ct_world s) rq = Inr sp))"

lemma there_or_asked:
  assumes "grows hist differs w w'" and "get w rq = Inr sp"
    and "(\<Union>ch \<in> new_changes hist w w'. set (evs c ch)) \<subseteq> qs"
  shows "asked_own tag qs rq \<or> get w' rq = Inr sp"
  using asked_own_by_event [OF assms(1) get_change assms(3), of rq] assms(2) by metis

lemma reconcile_tracked:
  assumes ok and rq: "plain_name rq" and st: "steady E rq s" "tracked E rq s"
    and run: "rec ord q (ct_cache s, ct_world s) = Val ((c', w'), e)"
    and qs: "ct_queue s - {q} \<subseteq> qs" "e \<noteq> None \<Longrightarrow> q \<in> qs"
      "(\<Union>ch \<in> new_changes hist (ct_world s) w'. set (evs c' ch)) \<subseteq> qs"
  shows "tracked E rq \<lparr>ct_cache = c', ct_world = w', ct_queue = qs, ct_dropped = ds\<rparr>"
proof -
  note there = there_or_asked [OF rec_grows [OF \<open>ok\<close> run] _ qs(3), of rq]
  have w: "within E (ct_cache s) rq" using st(2) by (simp add: tracked_def)
  show ?thesis
  proof (cases "DemuxRequest q = (rq, tag)")
    case True
    have "absent c' rq \<or> asked_own tag qs rq \<or> (\<exists>sp. get w' rq = Inr sp)"
    proof (cases e)
      case None
      then show ?thesis
        using rec_gone [OF \<open>ok\<close> run [unfolded None] True _ w] there by (cases "get (ct_world s) rq") auto
    next
      case (Some x)
      with qs(2) True show ?thesis by (auto simp: asked_own_def)
    qed
    moreover have "within E c' rq"
      using rec_there [OF \<open>ok\<close> run True _ w] st(1) by (simp add: steady_def)
    ultimately show ?thesis by (simp add: tracked_def)
  next
    case False
    note keep = rec_other [OF \<open>ok\<close> run rq False]
    have "asked_own tag qs rq" if "asked_own tag (ct_queue s) rq"
      using that False qs(1) by (auto simp: asked_own_def)
    with st(2) keep [of E] there show ?thesis by (auto simp: tracked_def)
  qed
qed

lemma step_tracked:
  assumes ok and "plain_name rq" and "step s t" and "steady E rq s" and "tracked E rq s"
  shows "tracked E rq t"
  using assms(3)
proof cases
  case (reconcile q ord c' w' e qs ds)
  show ?thesis unfolding reconcile(1)
    by (rule reconcile_tracked [OF assms(1,2,4,5) reconcile(4)]) (use reconcile(5) in auto)
next
  case (others w' qs)
  have "asked_own tag qs rq \<or> get w' rq = Inr sp" if "get (ct_world s) rq = Inr sp" for sp
    by (rule there_or_asked [OF others(2) that]) (use others(3) in blast)
  moreover have "asked_own tag qs rq" if "asked_own tag (ct_queue s) rq"
    by (rule asked_own_mono [OF that]) (use others(3) in blast)
  ultimately show ?thesis using assms(5) unfolding others(1) by (auto simp: tracked_def)
qed

text \<open>Steps from states in which the object, if it is there, has its models.\<close>

sublocale steady_steps: step_invariant "\<lambda>s t. step s t \<and> steady E rq s" "\<lambda>s. ok \<longrightarrow> plain_name rq \<longrightarrow> tracked E rq s"
  for E rq
  by unfold_locales (blast intro: step_tracked)

lemma deleted_is_absent:
  assumes ok and "plain_name rq" and "rtranclp (\<lambda>s t. step s t \<and> steady E rq s) s0 s"
    and "absent (ct_cache s0) rq" and "get (ct_world s) rq = Inl x" and "\<not> asked_own tag (ct_queue s) rq"
  shows "absent (ct_cache s) rq"
proof -
  have "tracked E rq s0" using assms(4) within_absent by (simp add: tracked_def)
  with steady_steps.reached [OF assms(3)] assms(1,2) have "tracked E rq s" by blast
  with assms(5,6) show ?thesis by (simp add: tracked_def)
qed

end

section \<open>Coming to rest\<close>

text \<open>
  The controller left alone: a call that returns no error, whose request leaves the queue, and the
  events of what it changed enter.
\<close>

definition calm_step ::
  "(order \<Rightarrow> request \<Rightarrow> 'c \<times> 'w \<Rightarrow> (('c \<times> 'w) \<times> err option) outcome) \<Rightarrow>
   (order \<Rightarrow> request \<Rightarrow> 'c \<times> 'w \<Rightarrow> string list) \<Rightarrow> ('c \<Rightarrow> change \<Rightarrow> request list) \<Rightarrow>
   ('w \<Rightarrow> change list) \<Rightarrow> ('c, 'w) ctl_state \<Rightarrow> ('c, 'w) ctl_state \<Rightarrow> bool"
where
  "calm_step rec failed evs hist s t \<longleftrightarrow> (\<exists>q ord c' w'. q \<in> ct_queue s \<and> range_order ord \<and>
     rec ord q (ct_cache s, ct_world s) = Val ((c', w'), None) \<and>
     t = \<lparr>ct_cache = c', ct_world = w',
       ct_queue = ct_queue s - {q} \<union> (\<Union>ch \<in> new_changes hist (ct_world s) w'. set (evs c' ch)),
       ct_dropped = ct_dropped s \<union> set (failed ord q (ct_cache s, ct_world s))\<rparr>)"

text \<open>
  A call without error either changes nothing or makes something smaller that cannot become smaller
  for ever; \<open>kept\<close> is what the calls rely on and preserve.
\<close>

locale resting = queued ok rec failed evs hist differs own tag
  for ok :: bool
    and rec :: "order \<Rightarrow> request \<Rightarrow> 'c \<times> 'w \<Rightarrow> (('c \<times> 'w) \<times> err option) outcome"
    and failed evs hist differs own tag +
  fixes r :: "('p \<times> 'p) set"
    and pot :: "'w \<Rightarrow> 'p"
    and kept :: "'c \<Rightarrow> 'w \<Rightarrow> bool"
  assumes order_wf: "ok \<Longrightarrow> wf r"
    and progress: "ok \<Longrightarrow> kept c w \<Longrightarrow> range_order ord \<Longrightarrow> rec ord q (c, w) = Val ((c', w'), None) \<Longrightarrow>
      kept c' w' \<and> (hist w' = hist w \<and> pot w' = pot w \<or> (pot w', pot w) \<in> r)"
begin

abbreviation calm :: "('c, 'w) ctl_state \<Rightarrow> ('c, 'w) ctl_state \<Rightarrow> bool" where
  "calm \<equiv> calm_step rec failed evs hist"

lemma calm_is_step: "calm s t \<Longrightarrow> step s t"
  unfolding calm_step_def by (elim exE conjE, hypsubst) (rule ctl_step.reconcile [where e = None]; simp)

lemma calm_steps: "rtranclp calm s t \<Longrightarrow> rtranclp step s t"
  by (rule rtranclp_mono [THEN predicate2D, rotated]) (auto intro: calm_is_step)

definition calm_inv :: "('c, 'w) ctl_state \<Rightarrow> bool" where
  "calm_inv s \<longleftrightarrow> kept (ct_cache s) (ct_world s) \<and> finite (ct_queue s)"

definition smaller :: "(('c, 'w) ctl_state \<times> ('c, 'w) ctl_state) set" where
  "smaller = inv_image (r <*lex*> less_than) (\<lambda>s. (pot (ct_world s), card (ct_queue s)))"

lemma calm_step_smaller:
  assumes ok and inv: "calm_inv s" and step: "calm s t"
  shows "calm_inv t" and "(t, s) \<in> smaller"
proof -
  let ?w = "ct_world s"
  have fin: "finite (ct_queue s)" and kept: "kept (ct_cache s) ?w" using inv by (simp_all add: calm_inv_def)
  obtain q ord c' w' where q: "q \<in> ct_queue s" and ord: "range_order ord"
    and run: "rec ord q (ct_cache s, ?w) = Val ((c', w'), None)"
    and t: "ct_cache t = c'" "ct_world t = w'"
      "ct_queue t = ct_queue s - {q} \<union> (\<Union>ch \<in> new_changes hist ?w w'. set (evs c' ch))"
    using step by (auto simp: calm_step_def)
  note p = progress [OF \<open>ok\<close> kept ord run]
  with fin t show "calm_inv t" by (simp add: calm_inv_def new_changes_def)
  show "(t, s) \<in> smaller"
  proof (cases "hist w' = hist ?w \<and> pot w' = pot ?w")
    case True
    then have "ct_queue t = ct_queue s - {q}" using t(3) by (simp add: new_changes_def)
    then have "card (ct_queue t) < card (ct_queue s)" using card_Diff1_less [OF fin q] by simp
    with True t(2) show ?thesis by (simp add: smaller_def)
  next
    case False
    with p t(2) show ?thesis by (auto simp: smaller_def)
  qed
qed

sublocale calm_steps: step_invariant calm "\<lambda>s. ok \<longrightarrow> calm_inv s"
  by unfold_locales (blast intro: calm_step_smaller(1))

lemma calm_run_ends:
  assumes ok and "calm_inv (f 0)"
  shows "\<exists>i. \<not> calm (f i) (f (Suc i))"
proof (rule ccontr)
  assume "\<not> ?thesis"
  then have step: "calm (f i) (f (Suc i))" for i by blast
  note smaller = calm_step_smaller [OF \<open>ok\<close> _ step]
  have "calm_inv (f i)" for i by (induction i) (use assms(2) smaller(1) in auto)
  then have "(f (Suc i), f i) \<in> smaller" for i by (rule smaller(2))
  moreover have "wf smaller"
    unfolding smaller_def by (intro wf_inv_image wf_lex_prod wf_less_than order_wf \<open>ok\<close>)
  ultimately show False unfolding wf_iff_no_infinite_down_chain by blast
qed

end

text \<open>
  An API server without others. A write that changes something is the one change it adds to the
  history; a write of what is there, a refused write and a watch add none. A write of another kind
  leaves the objects of the controller's own kind.
\<close>

definition calm_laws ::
  "'w kube \<Rightarrow> gvk \<Rightarrow> ('w \<Rightarrow> request \<Rightarrow> get_error + 's) \<Rightarrow> ('w \<Rightarrow> change list) \<Rightarrow> bool" where
  "calm_laws ku own get hist \<longleftrightarrow>
     (\<forall>ob w w'. ku_update ku ob w = (w', None) \<longrightarrow> hist w' = hist w @
        (if ku_get ku w (fst (ku_key ku ob)) (snd (ku_key ku ob)) = Inr ob then [] else [ku_key ku ob])) \<and>
     (\<forall>ob w w' e. ku_update ku ob w = (w', Some e) \<longrightarrow> hist w' = hist w) \<and>
     (\<forall>ob w w' e. ku_update ku ob w = (w', e) \<longrightarrow> fst (ku_key ku ob) \<noteq> own \<longrightarrow> get w' = get w) \<and>
     (\<forall>ob w w' e. ku_watch ku ob w = (w', e) \<longrightarrow> hist w' = hist w \<and> get w' = get w \<and> ku_get ku w' = ku_get ku w)"

lemma calm_lawsD:
  assumes "calm_laws ku own get hist"
  shows "\<And>ob w w'. ku_update ku ob w = (w', None) \<Longrightarrow> hist w' = hist w @
      (if ku_get ku w (fst (ku_key ku ob)) (snd (ku_key ku ob)) = Inr ob then [] else [ku_key ku ob])"
    and "\<And>ob w w' e. ku_update ku ob w = (w', Some e) \<Longrightarrow> hist w' = hist w"
    and "\<And>ob w w' e. ku_update ku ob w = (w', e) \<Longrightarrow> fst (ku_key ku ob) \<noteq> own \<Longrightarrow> get w' = get w"
    and "\<And>ob w w' e. ku_watch ku ob w = (w', e) \<Longrightarrow> hist w' = hist w \<and> get w' = get w \<and> ku_get ku w' = ku_get ku w"
  using assms unfolding calm_laws_def by blast+

definition still ::
  "'w kube \<Rightarrow> ('w \<Rightarrow> request \<Rightarrow> get_error + 's) \<Rightarrow> ('w \<Rightarrow> change list) \<Rightarrow> 'w \<Rightarrow> 'w \<Rightarrow> bool" where
  "still ku get hist w w' \<longleftrightarrow> get w' = get w \<and> hist w' = hist w \<and> ku_get ku w' = ku_get ku w"

lemma still_refl [simp]: "still ku get hist w w"
  by (simp add: still_def)

lemma still_trans: "still ku get hist w1 w2 \<Longrightarrow> still ku get hist w2 w3 \<Longrightarrow> still ku get hist w1 w3"
  by (simp add: still_def)

lemma update_still:
  assumes laws: "kube_laws ku" "calm_laws ku own get hist" and key: "fst (ku_key ku ob) \<noteq> own"
    and run: "ku_update ku ob w = (w', e)"
    and same: "e \<noteq> None \<or> ku_get ku w (fst (ku_key ku ob)) (snd (ku_key ku ob)) = Inr ob"
  shows "still ku get hist w w'"
proof (cases e)
  case (Some x)
  then have "ku_get ku w' = ku_get ku w" using kube_lawsD(3) [OF laws(1)] run by (intro ext) blast
  with run calm_lawsD(2,3) [OF laws(2)] Some key show ?thesis by (auto simp: still_def)
next
  case None
  with same have there: "ku_get ku w (fst (ku_key ku ob)) (snd (ku_key ku ob)) = Inr ob" by simp
  have "ku_get ku w' = ku_get ku w"
    using kube_lawsD(2) [OF laws(1) run [unfolded None]] there by (intro ext) auto
  moreover have "hist w' = hist w" using calm_lawsD(1) [OF laws(2) run [unfolded None]] there by simp
  ultimately show ?thesis using calm_lawsD(3) [OF laws(2) run key] by (simp add: still_def)
qed

text \<open>What calls of a controller do on the way to rest: they change nothing, or they make \<open>pot\<close> smaller.\<close>

definition moves ::
  "'w kube \<Rightarrow> ('w \<Rightarrow> request \<Rightarrow> get_error + 's) \<Rightarrow> ('w \<Rightarrow> change list) \<Rightarrow> ('w \<Rightarrow> 'p) \<Rightarrow> ('p \<times> 'p) set \<Rightarrow>
   'w \<Rightarrow> 'w \<Rightarrow> bool" where
  "moves ku get hist pot r w w' \<longleftrightarrow> still ku get hist w w' \<or> get w' = get w \<and> (pot w', pot w) \<in> r"

text \<open>What \<open>pot\<close> says of the cluster it reads from the objects.\<close>

definition of_objects :: "'w kube \<Rightarrow> ('w \<Rightarrow> 'p) \<Rightarrow> bool" where
  "of_objects ku pot \<longleftrightarrow> (\<forall>w w'. ku_get ku w' = ku_get ku w \<longrightarrow> pot w' = pot w)"

lemma still_moves [intro]: "still ku get hist w w' \<Longrightarrow> moves ku get hist pot r w w'"
  by (simp add: moves_def)

lemma still_pot: "of_objects ku pot \<Longrightarrow> still ku get hist w w' \<Longrightarrow> pot w' = pot w"
  unfolding of_objects_def still_def by blast

lemma moves_trans:
  assumes "trans r" and "of_objects ku pot" and "moves ku get hist pot r w1 w2" and "moves ku get hist pot r w2 w3"
  shows "moves ku get hist pot r w1 w3"
  using assms(3,4) still_pot [OF assms(2), of get hist w1 w2] still_pot [OF assms(2), of get hist w2 w3]
    transD [OF assms(1), of "pot w3" "pot w2" "pot w1"] still_trans [of ku get hist w1 w2 w3]
  unfolding moves_def by (auto simp: still_def)

lemma moves_progress:
  "of_objects ku pot \<Longrightarrow> moves ku get hist pot r w w' \<Longrightarrow>
    get w' = get w \<and> (hist w' = hist w \<and> pot w' = pot w \<or> (pot w', pot w) \<in> r)"
  using still_pot [of ku pot get hist w w'] by (auto simp: moves_def still_def)

text \<open>The order along the edges between models: what belongs to a later model lies below.\<close>

definition obj_key :: "auri \<Rightarrow> change" where
  "obj_key ar = (Auri_Gvk ar, SpacedName ar)"

definition downhill :: "(change \<times> change) set \<Rightarrow> ('p \<Rightarrow> change) \<Rightarrow> ('p \<times> 'p) set" where
  "downhill E key = inv_image ((E\<^sup>+)\<inverse>) key"

lemma downhill_order:
  assumes "finite E" and "acyclic E"
  shows "wf (downhill E key)" and "trans (downhill E key)"
proof -
  have "wf ((E\<inverse>)\<^sup>+)" using assms by (intro wf_trancl finite_acyclic_wf_converse)
  then show "wf (downhill E key)" by (simp add: downhill_def trancl_converse)
  show "trans (downhill E key)" by (simp add: downhill_def trans_inv_image)
qed

lemma downhill_edge: "(key b, key x) \<in> E \<Longrightarrow> (x, b) \<in> downhill E key"
  by (auto simp: downhill_def)

text \<open>One element went, and every new one lies below one that went.\<close>

lemma mset_set_smaller:
  assumes "finite M" and "finite M'" and "M - M' \<noteq> {}" and "\<And>x. x \<in> M' - M \<Longrightarrow> \<exists>b \<in> M - M'. (x, b) \<in> r"
  shows "(mset_set M', mset_set M) \<in> mult r"
proof -
  have sets: "M \<inter> M' \<union> (M' - M) = M'" "M \<inter> M' \<union> (M - M') = M" by blast+
  have parts: "mset_set M' = mset_set (M \<inter> M') + mset_set (M' - M)" "mset_set M = mset_set (M \<inter> M') + mset_set (M - M')"
    using mset_set_Union [of "M \<inter> M'" "M' - M"] mset_set_Union [of "M \<inter> M'" "M - M'"] assms(1,2)
    unfolding sets by blast+
  show ?thesis
    unfolding parts
  proof (rule one_step_implies_mult)
    show "mset_set (M - M') \<noteq> {#}" using assms(1,3) by (auto simp: mset_set_empty_iff)
    show "\<forall>x \<in> set_mset (mset_set (M' - M)). \<exists>j \<in> set_mset (mset_set (M - M')). (x, j) \<in> r"
      using assms by simp
  qed
qed

section \<open>Running examples\<close>

text \<open>A call of \<open>Reconcile\<close> with nothing else going on.\<close>

definition handled ::
  "(order \<Rightarrow> request \<Rightarrow> 'c \<times> 'w \<Rightarrow> (('c \<times> 'w) \<times> err option) outcome) \<Rightarrow>
   (order \<Rightarrow> request \<Rightarrow> 'c \<times> 'w \<Rightarrow> string list) \<Rightarrow> ('c \<Rightarrow> change \<Rightarrow> request list) \<Rightarrow>
   ('w \<Rightarrow> change list) \<Rightarrow> order \<Rightarrow> request \<Rightarrow> ('c, 'w) ctl_state \<Rightarrow> ('c, 'w) ctl_state option"
where
  "handled rec failed evs hist ord q s =
     (if q \<notin> ct_queue s then None
      else (case rec ord q (ct_cache s, ct_world s) of
         Val ((c', w'), e) \<Rightarrow> Some
           \<lparr>ct_cache = c', ct_world = w',
            ct_queue = ct_queue s - {q} \<union> (if e = None then {} else {q}) \<union>
              (\<Union>ch \<in> new_changes hist (ct_world s) w'. set (evs c' ch)),
            ct_dropped = ct_dropped s \<union>
              (if e = None then set (failed ord q (ct_cache s, ct_world s)) else {})\<rparr>
       | _ \<Rightarrow> None))"

lemma handled_step:
  assumes "handled rec failed evs hist ord q s = Some t" and "range_order ord"
  shows "ctl_step rec failed evs hist differs s t"
proof -
  from assms(1) obtain c' w' e where run: "q \<in> ct_queue s" "rec ord q (ct_cache s, ct_world s) = Val ((c', w'), e)"
    by (auto simp: handled_def split: if_splits outcome.splits)
  have t: "t = \<lparr>ct_cache = c', ct_world = w',
      ct_queue = ct_queue s - {q} \<union> (if e = None then {} else {q}) \<union>
        (\<Union>ch \<in> new_changes hist (ct_world s) w'. set (evs c' ch)),
      ct_dropped = ct_dropped s \<union> (if e = None then set (failed ord q (ct_cache s, ct_world s)) else {})\<rparr>"
    using assms(1) run by (simp add: handled_def del: Un_insert_right Un_empty_right)
  show ?thesis unfolding t
    by (rule ctl_step.reconcile [where q = q and e = e and ord = ord]) (simp_all add: run assms(2))
qed

fun handled_all ::
  "(order \<Rightarrow> request \<Rightarrow> 'c \<times> 'w \<Rightarrow> (('c \<times> 'w) \<times> err option) outcome) \<Rightarrow>
   (order \<Rightarrow> request \<Rightarrow> 'c \<times> 'w \<Rightarrow> string list) \<Rightarrow> ('c \<Rightarrow> change \<Rightarrow> request list) \<Rightarrow>
   ('w \<Rightarrow> change list) \<Rightarrow> (order \<times> request) list \<Rightarrow> ('c, 'w) ctl_state \<Rightarrow> ('c, 'w) ctl_state option"
where
  "handled_all rec failed evs hist [] s = Some s"
| "handled_all rec failed evs hist ((ord, q) # rest) s =
     Option.bind (handled rec failed evs hist ord q s) (handled_all rec failed evs hist rest)"

lemma handled_all_steps:
  "handled_all rec failed evs hist qs s = Some t \<Longrightarrow> (\<forall>p \<in> set qs. range_order (fst p)) \<Longrightarrow>
    rtranclp (ctl_step rec failed evs hist differs) s t"
proof (induction qs arbitrary: s)
  case (Cons p rest)
  obtain ord q where p: "p = (ord, q)" by fastforce
  with Cons.prems obtain s1 where s1: "handled rec failed evs hist ord q s = Some s1" "range_order ord"
    "handled_all rec failed evs hist rest s1 = Some t" by (auto split: Option.bind_splits)
  from converse_rtranclp_into_rtranclp [where r = "ctl_step rec failed evs hist differs", OF handled_step [OF s1(1,2)]]
    Cons.IH [OF s1(3)] Cons.prems(2) show ?case by simp
qed simp

section \<open>A server with a history\<close>

text \<open>The cluster in memory with the list of its changes; a write that changes nothing is not in it.\<close>

type_synonym logged = "mem \<times> change list"

definition put_logged :: "obj \<Rightarrow> logged \<Rightarrow> logged" where
  "put_logged ob = (\<lambda>(m, h). (AList.update (mem_key ob) ob m,
     if map_of m (mem_key ob) = Some ob then h else h @ [mem_key ob]))"

definition log_kube :: "(obj \<Rightarrow> bool) \<Rightarrow> logged kube" where
  "log_kube refused = \<lparr>ku_get = (\<lambda>(m, h). mem_get m),
     ku_update = (\<lambda>ob w. if refused ob then (w, Some (Err ''refused'')) else (put_logged ob w, None)),
     ku_patch = (\<lambda>old new w. (put_logged new w, None)),
     ku_watch = (\<lambda>ob w. (w, None)),
     ku_key = ku_key (mem_kube refused), ku_nested = ku_nested (mem_kube refused),
     ku_set_nested = ku_set_nested (mem_kube refused), ku_nested_map = ku_nested_map (mem_kube refused),
     ku_set_nested_map = ku_set_nested_map (mem_kube refused)\<rparr>"

text \<open>Objects of the controller's own kind that stay as they are.\<close>

definition table_get :: "(request \<times> 's) list \<Rightarrow> logged \<Rightarrow> request \<Rightarrow> get_error + 's" where
  "table_get tbl w rq = (case map_of tbl rq of Some spec \<Rightarrow> Inr spec | None \<Rightarrow> Inl (NotFound (n_Name rq)))"

lemma table_get_mem: "table_get tbl w rq = Inr spec \<Longrightarrow> (rq, spec) \<in> set tbl"
  by (auto simp: table_get_def split: option.splits dest: map_of_SomeD)

lemma log_kube_laws [simp]: "kube_laws (log_kube refused)"
  unfolding kube_laws_def
proof (intro conjI allI impI)
  note laws = kube_lawsD [OF mem_kube_laws, of refused]
  fix w :: logged and w' ob ob' g n e v p
  show "ku_get (log_kube refused) w g n = Inr ob \<Longrightarrow> ku_key (log_kube refused) ob = (g, n)"
    using laws(1) [of "fst w" g n ob] by (simp add: log_kube_def mem_kube_def split: prod.splits)
  show "ku_update (log_kube refused) ob w = (w', None) \<Longrightarrow> ku_get (log_kube refused) w' g n =
      (if ku_key (log_kube refused) ob = (g, n) then Inr ob else ku_get (log_kube refused) w g n)"
    by (auto simp: log_kube_def mem_kube_def put_logged_def mem_get_def go_map_simps split: if_splits prod.splits)
  show "ku_update (log_kube refused) ob w = (w', Some e) \<Longrightarrow>
      ku_get (log_kube refused) w' g n = ku_get (log_kube refused) w g n"
    by (auto simp: log_kube_def split: if_splits)
  show "ku_set_nested (log_kube refused) ob v p = Inr ob' \<Longrightarrow> ku_nested (log_kube refused) ob' p = Inr (Some v)"
    using laws(4) [of ob v p ob'] by (simp add: log_kube_def)
  show "ku_set_nested (log_kube refused) ob v p = Inr ob' \<Longrightarrow> spec_path p \<Longrightarrow>
      ku_key (log_kube refused) ob' = ku_key (log_kube refused) ob"
    using laws(5) [of ob v p ob'] by (simp add: log_kube_def)
qed

lemma log_kube_calm: "calm_laws (log_kube refused) own (table_get tbl) snd"
  unfolding calm_laws_def
proof (intro conjI allI impI)
  fix ob :: obj and w w' :: logged and e
  obtain m h where w: "w = (m, h)" by fastforce
  show "snd w' = snd w @ (if ku_get (log_kube refused) w (fst (ku_key (log_kube refused) ob)) (snd (ku_key (log_kube refused) ob)) = Inr ob
      then [] else [ku_key (log_kube refused) ob])" if "ku_update (log_kube refused) ob w = (w', None)"
    using that by (auto simp: w log_kube_def mem_kube_def put_logged_def mem_get_def split: if_splits option.splits)
  show "snd w' = snd w" if "ku_update (log_kube refused) ob w = (w', Some e)"
    using that by (auto simp: log_kube_def split: if_splits)
next
  fix ob :: obj and w w' :: logged and e :: "err option"
  show "table_get tbl w' = table_get tbl w" by (simp add: table_get_def fun_eq_iff)
  assume "ku_watch (log_kube refused) ob w = (w', e)"
  then have "w' = w" by (simp add: log_kube_def)
  then show "snd w' = snd w" "table_get tbl w' = table_get tbl w"
    "ku_get (log_kube refused) w' = ku_get (log_kube refused) w" by simp_all
qed

lemma put_logged_grows: "grows snd (changed (log_kube refused) own (table_get tbl)) w (put_logged ob w)"
proof -
  obtain m h where w: "w = (m, h)" by fastforce
  have "(g, n) = mem_key ob \<and> map_of m (mem_key ob) \<noteq> Some ob"
    if "mem_get (AList.update (mem_key ob) ob m) g n \<noteq> mem_get m g n" for g n
    using that by (auto simp: mem_get_def go_map_simps split: if_splits)
  then have "changed (log_kube refused) own (table_get tbl) w (put_logged ob w) \<subseteq>
      (if map_of m (mem_key ob) = Some ob then {} else {mem_key ob})"
    by (force simp: w changed_def log_kube_def put_logged_def table_get_def)
  then show ?thesis by (auto simp: w grows_def put_logged_def split: if_splits)
qed

lemma log_kube_history [simp]: "history_laws (log_kube refused) snd (changed (log_kube refused) own (table_get tbl))"
  unfolding history_laws_def
  by (simp add: log_kube_def [of refused] put_logged_grows [unfolded log_kube_def])

end
