(* ===== verification/Sync_Queue.thy ===== *)
theory Sync_Queue
  imports Work_Queue
begin

text \<open>
  The sync controller as its manager runs it: \<open>Add\<close> registers the watch of Sync objects, the binding
  cache adds watches of the kinds of its bindings, \<open>MuxRequest\<close> turns their events into requests, and
  \<open>Reconcile\<close> is called for one request after the other while others change the cluster. The queue and
  the proof that nothing is forgotten are those of \<open>Work_Queue\<close>.
\<close>

section \<open>The controller and its queue\<close>

definition sync_gvk :: gvk where
  "sync_gvk = (''digi.dev'', ''v1'', ''Sync'')"

abbreviation sync_changed :: "'w kube \<Rightarrow> 'w get_sync \<Rightarrow> 'w \<Rightarrow> 'w \<Rightarrow> change set" where
  "sync_changed ku gs \<equiv> changed ku sync_gvk gs"

text \<open>The requests an event of an object makes, given the watches of the controller.\<close>

definition event_requests :: "binding_cache \<Rightarrow> change \<Rightarrow> request list" where
  "event_requests bc ch = (case ch of (g, n) \<Rightarrow>
     (if g = sync_gvk then MuxRequest syncTag n else []) @
     (if watched_gvk (bc_watched bc) g then MuxRequest enforceTag n else []))"

type_synonym 'w sync_state = "(binding_cache, 'w) ctl_state"

text \<open>The names of the bindings whose round of the loop in \<open>doEnforce\<close> ends with an error.\<close>

fun failed_rounds :: "'w kube \<Rightarrow> nn_string \<Rightarrow> string \<Rightarrow> binding list \<Rightarrow> 'w \<Rightarrow> string list" where
  "failed_rounds ku nns reqName [] w = []"
| "failed_rounds ku nns reqName (bd # bds) w =
     (case enforce_binding ku nns reqName bd w of
        (w', e) \<Rightarrow> (if e = None then [] else [bd_name bd]) @ failed_rounds ku nns reqName bds w')"

definition doEnforce_failed ::
  "'w kube \<Rightarrow> nn_string \<Rightarrow> order \<Rightarrow> request \<Rightarrow> binding_cache \<Rightarrow> 'w \<Rightarrow> string list" where
  "doEnforce_failed ku nns ord rq bc w =
     (case map_of (bc_modelToBindings bc) (nns rq) of
        None \<Rightarrow> []
      | Some bds \<Rightarrow> failed_rounds ku nns (nns rq) (map snd (range_map ord bds)) w)"

definition Reconcile_failed ::
  "'w kube \<Rightarrow> 'w get_sync \<Rightarrow> nn_string \<Rightarrow> order \<Rightarrow> request \<Rightarrow> binding_cache \<times> 'w \<Rightarrow> string list" where
  "Reconcile_failed ku gs nns ord q = (\<lambda>(bc, w). case DemuxRequest q of (rq, tag) \<Rightarrow>
     if tag = syncTag then
       (case gs w rq of
          Inl e \<Rightarrow> []
        | Inr spec \<Rightarrow>
            (case BindingCache_Add ku nns (sync_spec.extend spec (binding.fields (nns rq))) (bc, w) of
               (st, Some e) \<Rightarrow> []
             | ((bc', w'), None) \<Rightarrow> doEnforce_failed ku nns ord (SpacedName (sc_Source spec)) bc' w'))
     else if tag = enforceTag then doEnforce_failed ku nns ord rq bc w
     else [])"

definition sync_Reconcile ::
  "'w kube \<Rightarrow> 'w get_sync \<Rightarrow> nn_string \<Rightarrow> order \<Rightarrow> request \<Rightarrow> binding_cache \<times> 'w \<Rightarrow>
   ((binding_cache \<times> 'w) \<times> err option) outcome" where
  "sync_Reconcile ku gs nns ord q st = Val (Reconcile ku gs nns ord q st)"

definition sync_step ::
  "'w kube \<Rightarrow> 'w get_sync \<Rightarrow> nn_string \<Rightarrow> ('w \<Rightarrow> change list) \<Rightarrow> 'w sync_state \<Rightarrow> 'w sync_state \<Rightarrow> bool" where
  "sync_step ku gs nns hist = ctl_step (sync_Reconcile ku gs nns) (Reconcile_failed ku gs nns) event_requests
     hist (sync_changed ku gs)"

text \<open>At the start the watch of the Sync objects reports all that are there.\<close>

definition sync_start :: "'w get_sync \<Rightarrow> 'w sync_state \<Rightarrow> bool" where
  "sync_start gs s \<longleftrightarrow> ct_cache s = new_binding_cache \<and> ct_dropped s = {} \<and>
     (\<forall>rq spec. gs (ct_world s) rq = Inr spec \<longrightarrow> set (MuxRequest syncTag rq) \<subseteq> ct_queue s)"

section \<open>What one call changes\<close>

lemma matchAttr_grows:
  "history_laws ku hist (sync_changed ku gs) \<Longrightarrow> matchAttr ku src p target p' w = (w', e) \<Longrightarrow> grows hist (sync_changed ku gs) w w'"
  by (auto simp: matchAttr_def intro: grows_update split: sum.splits)

lemma enforce_binding_grows:
  "history_laws ku hist (sync_changed ku gs) \<Longrightarrow> enforce_binding ku nns r b w = (w', e) \<Longrightarrow> grows hist (sync_changed ku gs) w w'"
  by (auto simp: enforce_binding_def intro: matchAttr_grows split: sum.splits if_splits)

lemma enforce_loop_grows:
  "history_laws ku hist (sync_changed ku gs) \<Longrightarrow> enforce_loop ku nns r bds (w, e0) = (w', e) \<Longrightarrow> grows hist (sync_changed ku gs) w w'"
proof (induction bds arbitrary: w e0)
  case (Cons b bds)
  then show ?case
    by (cases "enforce_binding ku nns r b w") (auto intro: grows_changed enforce_binding_grows)
qed simp

lemma doEnforce_grows:
  "history_laws ku hist (sync_changed ku gs) \<Longrightarrow> doEnforce ku nns ord rq bc w = (w', e) \<Longrightarrow> grows hist (sync_changed ku gs) w w'"
  by (auto simp: doEnforce_def intro: enforce_loop_grows split: option.splits)

lemma watch_kind_grows:
  "history_laws ku hist (sync_changed ku gs) \<Longrightarrow> watch_kind ku ar (bc, w) = ((bc', w'), e) \<Longrightarrow> grows hist (sync_changed ku gs) w w'"
  by (auto simp: watch_kind_def addWatchFunc_def Let_def intro: grows_watch
      split: if_splits prod.splits option.splits sum.splits)

lemma Add_grows:
  "history_laws ku hist (sync_changed ku gs) \<Longrightarrow> BindingCache_Add ku nns b (bc, w) = ((bc', w'), e) \<Longrightarrow> grows hist (sync_changed ku gs) w w'"
  unfolding BindingCache_Add_def
  by (auto split: if_splits prod.splits option.splits intro: grows_changed watch_kind_grows)

lemma finalize_grows: "history_laws ku hist (sync_changed ku gs) \<Longrightarrow> grows hist (sync_changed ku gs) w (finalize ku name bc w)"
  by (auto simp: finalize_def intro: grows_patch split: option.splits sum.splits)

section \<open>Bindings that are taken care of\<close>

definition settled :: "'w kube \<Rightarrow> binding \<Rightarrow> 'w \<Rightarrow> bool" where
  "settled ku b w \<longleftrightarrow> attr_at ku w (sc_Source b) \<noteq> None \<and> attr_at ku w (sc_Target b) = attr_at ku w (sc_Source b)"

text \<open>A request for a model of a binding.\<close>

definition asks :: "nn_string \<Rightarrow> request \<Rightarrow> binding \<Rightarrow> bool" where
  "asks nns q b \<longleftrightarrow>
     (\<exists>rq. DemuxRequest q = (rq, enforceTag) \<and> (nns rq = bd_src nns b \<or> nns rq = bd_tgt nns b))"

definition binding_objs :: "binding \<Rightarrow> change set" where
  "binding_objs b = {(Auri_Gvk (sc_Source b), SpacedName (sc_Source b)), (Auri_Gvk (sc_Target b), SpacedName (sc_Target b))}"

definition linked :: "nn_string \<Rightarrow> binding_cache \<Rightarrow> binding \<Rightarrow> bool" where
  "linked nns bc b \<longleftrightarrow> map_of (bc_bindings bc) (bd_name b) = Some b \<and>
     lookup2 (bc_modelToBindings bc) (bd_src nns b) (bd_name b) = Some b \<and>
     lookup2 (bc_modelToBindings bc) (bd_tgt nns b) (bd_name b) = Some b \<and>
     {Kind_String (a_Kind (sc_Source b)), Kind_String (a_Kind (sc_Target b))} \<subseteq> set (bc_watched bc) \<and>
     (sc_Mode b = MatchMode \<or> sc_Mode b = SyncMode)"

definition spec_ok :: "'a sync_spec_scheme \<Rightarrow> bool" where
  "spec_ok b \<longleftrightarrow> \<not> same_object (sc_Source b) (sc_Target b) \<and>
     spec_path (AttrPathSlice (a_Path (sc_Source b))) \<and> spec_path (AttrPathSlice (a_Path (sc_Target b)))"

definition binding_for :: "nn_string \<Rightarrow> sync_spec \<Rightarrow> request \<Rightarrow> binding" where
  "binding_for nns spec rq = sync_spec.extend spec (binding.fields (nns rq))"

text \<open>
  The bindings the properties are about: between two objects, of attributes below \<open>spec\<close>, of Sync
  objects whose names hold no slash. Other Sync objects may be there too.
\<close>

definition declared_binding :: "nn_string \<Rightarrow> 'w get_sync \<Rightarrow> 'w \<Rightarrow> request \<Rightarrow> binding option" where
  "declared_binding nns gs w rq = (case gs w rq of Inl e \<Rightarrow> None
     | Inr spec \<Rightarrow> if plain_name rq \<and> spec_ok spec then Some (binding_for nns spec rq) else None)"

lemma declared_binding_Some:
  "declared_binding nns gs w rq = Some b \<longleftrightarrow> 
    (\<exists>spec. gs w rq = Inr spec \<and> plain_name rq \<and> spec_ok spec \<and> b = binding_for nns spec rq)"
  by (auto simp: declared_binding_def split: sum.splits if_splits)

lemma binding_for_sel [simp]:
  "bd_name (binding_for nns spec rq) = nns rq" "sc_Source (binding_for nns spec rq) = sc_Source spec"
  "sc_Target (binding_for nns spec rq) = sc_Target spec" "sc_Mode (binding_for nns spec rq) = sc_Mode spec"
  by (simp_all add: binding_for_def sync_spec.extend_def binding.fields_def)

lemma spec_ok_binding_for [simp]: "spec_ok (binding_for nns spec rq) = spec_ok spec"
  by (simp add: spec_ok_def)

lemma tags_plain [simp]: "CHR ''-'' \<notin> set syncTag" "CHR ''-'' \<notin> set enforceTag" "syncTag \<noteq> enforceTag" "enforceTag \<noteq> syncTag"
  by (simp_all add: syncTag_def enforceTag_def)

section \<open>What enforcing does for a binding\<close>

definition mode_ok :: "binding \<Rightarrow> bool" where
  "mode_ok b \<longleftrightarrow> sc_Mode b = MatchMode \<or> sc_Mode b = SyncMode"

lemma settled_copy:
  assumes "attr_at ku w (sc_Source b) = Some v" and "attr_at ku w (sc_Target b) = Some v"
  shows "settled ku b w"
  using assms by (simp add: settled_def)

lemma enforce_binding_settles:
  assumes laws: "kube_laws ku" and b: "spec_ok b" "mode_ok b" and r: "r = bd_src nns b \<or> r = bd_tgt nns b"
    and run: "enforce_binding ku nns r b w = (w', None)"
  shows "settled ku b w'"
proof -
  obtain src tgt where ob: "GetObj ku w (sc_Source b) = Inr src" "GetObj ku w (sc_Target b) = Inr tgt"
    using run by (auto simp: enforce_binding_def split: sum.splits)
  have ok: "\<not> same_object (sc_Source b) (sc_Target b)" "\<not> same_object (sc_Target b) (sc_Source b)"
    "spec_path (AttrPathSlice (a_Path (sc_Source b)))" "spec_path (AttrPathSlice (a_Path (sc_Target b)))"
    using b(1) by (auto simp: spec_ok_def same_object_def)
  have "matchAttr ku src (a_Path (sc_Source b)) tgt (a_Path (sc_Target b)) w = (w', None) \<or>
      matchAttr ku tgt (a_Path (sc_Target b)) src (a_Path (sc_Source b)) w = (w', None)"
    using run ob b(2) r by (auto simp: enforce_binding_def mode_ok_def MatchMode_def SyncMode_def split: if_splits)
  then show ?thesis
  proof
    assume "matchAttr ku src (a_Path (sc_Source b)) tgt (a_Path (sc_Target b)) w = (w', None)"
    from enforce_copy [OF laws ok(1,4) ob this] show ?thesis by (auto intro: settled_copy)
  next
    assume "matchAttr ku tgt (a_Path (sc_Target b)) src (a_Path (sc_Source b)) w = (w', None)"
    from enforce_copy [OF laws ok(2,3) ob(2,1) this] show ?thesis by (auto intro: settled_copy)
  qed
qed

lemma enforce_loop_settles:
  assumes laws: "kube_laws ku" "history_laws ku hist (sync_changed ku gs)"
    and b: "spec_ok b" "mode_ok b" "r = bd_src nns b \<or> r = bd_tgt nns b"
  shows "b \<in> set bds \<Longrightarrow> bd_name b \<notin> set (failed_rounds ku nns r bds w) \<Longrightarrow>
    enforce_loop ku nns r bds (w, e0) = (w', e) \<Longrightarrow>
    \<exists>w1. grows hist (sync_changed ku gs) w w1 \<and> grows hist (sync_changed ku gs) w1 w' \<and> settled ku b w1"
proof (induction bds arbitrary: w e0)
  case (Cons x bds)
  obtain w1 e1 where x: "enforce_binding ku nns r x w = (w1, e1)" by fastforce
  with Cons.prems(3) have rest: "enforce_loop ku nns r bds (w1, e1) = (w', e)" by simp
  note g = enforce_binding_grows [OF laws(2) x]
  show ?case
  proof (cases "x = b")
    case True
    with Cons.prems(2) x have "e1 = None" by (auto split: if_splits)
    with x True have "settled ku b w1" using enforce_binding_settles [OF laws(1) b] by blast
    with g enforce_loop_grows [OF laws(2) rest] show ?thesis by blast
  next
    case False
    with Cons.prems x have "b \<in> set bds" "bd_name b \<notin> set (failed_rounds ku nns r bds w1)" by auto
    from Cons.IH [OF this rest] obtain w2
      where "grows hist (sync_changed ku gs) w1 w2" "grows hist (sync_changed ku gs) w2 w'" "settled ku b w2" by blast
    with grows_changed [OF g] show ?thesis by blast
  qed
qed simp

lemma doEnforce_settles:
  assumes laws: "kube_laws ku" "history_laws ku hist (sync_changed ku gs)" and ord: "range_order ord"
    and b: "linked nns bc b" "spec_ok b" "nns rq = bd_src nns b \<or> nns rq = bd_tgt nns b"
    and run: "doEnforce ku nns ord rq bc w = (w', e)" "bd_name b \<notin> set (doEnforce_failed ku nns ord rq bc w)"
  shows "\<exists>w1. grows hist (sync_changed ku gs) w w1 \<and> grows hist (sync_changed ku gs) w1 w' \<and> settled ku b w1"
proof -
  have "lookup2 (bc_modelToBindings bc) (nns rq) (bd_name b) = Some b"
    using b(1,3) by (auto simp: linked_def)
  then obtain bds where bds: "map_of (bc_modelToBindings bc) (nns rq) = Some bds" "map_of bds (bd_name b) = Some b"
    by (auto simp: lookup2_def split: option.splits)
  have "b \<in> set (map snd (range_map ord bds))" unfolding list.set_map set_range_map [OF ord] using bds(2) by force
  with enforce_loop_settles [OF laws b(2) _ b(3), of "map snd (range_map ord bds)" w None w' e] run bds(1) b(1)
  show ?thesis by (auto simp: doEnforce_def doEnforce_failed_def linked_def mode_ok_def)
qed

section \<open>What is kept\<close>

lemma event_asks:
  assumes "linked nns bc b" and "ch \<in> binding_objs b"
  shows "\<exists>q \<in> set (event_requests bc ch). asks nns q b"
proof -
  from assms(2) obtain ar where ar: "ch = (Auri_Gvk ar, SpacedName ar)" "ar = sc_Source b \<or> ar = sc_Target b"
    by (auto simp: binding_objs_def)
  obtain q where q: "q \<in> set (MuxRequest enforceTag (SpacedName ar))" using MuxRequest_not_Nil by blast
  with ar assms(1) have "q \<in> set (event_requests bc ch)"
    by (auto simp: event_requests_def watched_auri linked_def)
  moreover have "asks nns q b"
    using Demux_MuxRequest [OF q] ar(2) by (auto simp: asks_def bd_src_def bd_tgt_def)
  ultimately show ?thesis by blast
qed

lemma settled_kept:
  assumes "settled ku b w" and "binding_objs b \<inter> sync_changed ku gs w w' = {}"
  shows "settled ku b w'"
proof -
  have "GetObj ku w' (sc_Source b) = GetObj ku w (sc_Source b)" "GetObj ku w' (sc_Target b) = GetObj ku w (sc_Target b)"
    using assms(2) by (auto intro!: unchanged_obj [where own = sync_gvk and get = gs] simp: binding_objs_def)
  with assms(1) show ?thesis by (simp add: settled_def attr_at_def)
qed

lemma watch_kind_watched:
  assumes "watch_kind ku ar (bc, w) = ((bc', w'), e)"
  shows "set (bc_watched bc) \<subseteq> set (bc_watched bc')"
    and "e = None \<Longrightarrow> Kind_String (a_Kind ar) \<in> set (bc_watched bc')"
  using assms by (auto simp: watch_kind_def Let_def split: if_splits prod.splits option.splits)

text \<open>The two watches of \<open>Add\<close>, and what is linked after them.\<close>

lemma Add_cases:
  assumes "BindingCache_Add ku nns b (bc, w) = ((bc', w'), e)"
  obtains (mode) "bc' = bc" "e \<noteq> None"
    | (failed) "e \<noteq> None" "bc_bindings bc' = bc_bindings (bc_enter b bc)"
        "bc_modelToBindings bc' = bc_modelToBindings bc" "set (bc_watched bc) \<subseteq> set (bc_watched bc')"
    | (added) bc2 where "e = None" "mode_ok b" "bc' = bc_link nns b bc2" "bc_bindings bc2 = bc_bindings (bc_enter b bc)"
        "bc_modelToBindings bc2 = bc_modelToBindings bc" "set (bc_watched bc) \<subseteq> set (bc_watched bc2)"
        "{Kind_String (a_Kind (sc_Source b)), Kind_String (a_Kind (sc_Target b))} \<subseteq> set (bc_watched bc2)"
proof (cases "mode_ok b")
  case False
  with assms show thesis by (intro mode) (auto simp: BindingCache_Add_def mode_ok_def)
next
  case True
  then have m: "\<not> (sc_Mode b \<noteq> MatchMode \<and> sc_Mode b \<noteq> SyncMode)" by (simp add: mode_ok_def)
  obtain bc1 w1 e1 where 1: "watch_kind ku (sc_Source b) (bc_enter b bc, w) = ((bc1, w1), e1)" by (metis surj_pair)
  obtain bc2 w2 e2 where 2: "watch_kind ku (sc_Target b) (bc1, w1) = ((bc2, w2), e2)" by (metis surj_pair)
  have enter: "bc_modelToBindings (bc_enter b bc) = bc_modelToBindings bc" "bc_watched (bc_enter b bc) = bc_watched bc"
    by (simp_all add: bc_enter_def)
  note c1 = watch_kind_cache [OF 1, unfolded enter] watch_kind_watched [OF 1, unfolded enter]
  note c2 = watch_kind_cache [OF 2] watch_kind_watched [OF 2]
  show thesis
  proof (cases e1)
    case (Some x)
    with assms 1 m have "bc' = bc1" "e = Some x" by (simp_all add: BindingCache_Add_def)
    with c1 show thesis by (intro failed) auto
  next
    case None
    show thesis
    proof (cases e2)
      case (Some x)
      with assms 1 2 m None have "bc' = bc2" "e = Some x" by (simp_all add: BindingCache_Add_def)
      with c1 c2 show thesis by (intro failed) auto
    next
      case e2: None
      with assms 1 2 m None have "bc' = bc_link nns b bc2" "e = None" by (simp_all add: BindingCache_Add_def)
      with c1 c2 None e2 True show thesis by (intro added [of bc2]) auto
    qed
  qed
qed

lemma Add_linked: "BindingCache_Add ku nns b (bc, w) = ((bc', w'), None) \<Longrightarrow> linked nns bc' b"
  by (erule Add_cases) (auto simp: linked_def mode_ok_def bc_link_def bc_enter_def go_map_simps)

lemma Add_keeps_linked:
  "BindingCache_Add ku nns b0 (bc, w) = ((bc', w'), e) \<Longrightarrow> linked nns bc b \<Longrightarrow> bd_name b0 \<noteq> bd_name b \<Longrightarrow> linked nns bc' b"
  by (erule Add_cases) (auto simp: linked_def bc_link_def bc_enter_def go_map_simps)

lemma Remove_keeps_linked:
  "linked nns bc b \<Longrightarrow> name \<noteq> bd_name b \<Longrightarrow> linked nns (BindingCache_Remove nns name bc) b"
  by (auto simp: linked_def BindingCache_Remove_def go_map_simps split: option.splits)

lemma doSync_grows:
  assumes "history_laws ku hist (sync_changed ku gs)" and "doSync ku gs nns ord r (bc, w) = ((bc', w'), e)"
  shows "grows hist (sync_changed ku gs) w w'"
  using assms(2) unfolding doSync_def Let_def
  by (auto split: sum.splits get_error.splits prod.splits option.splits
      intro: finalize_grows [OF assms(1)] Add_grows [OF assms(1)] doEnforce_grows [OF assms(1)] grows_changed)

lemma Reconcile_grows:
  "history_laws ku hist (sync_changed ku gs) \<Longrightarrow> Reconcile ku gs nns ord q (bc, w) = ((bc', w'), e) \<Longrightarrow> grows hist (sync_changed ku gs) w w'"
  by (auto simp: Reconcile_def intro: doSync_grows doEnforce_grows split: prod.splits if_splits)

text \<open>A call for another request leaves a binding linked.\<close>

lemma Reconcile_keeps_linked:
  assumes "Reconcile ku gs nns ord q (bc, w) = ((bc', w'), e)" and "linked nns bc b"
    and "DemuxRequest q = (r, tag)" and "tag = syncTag \<Longrightarrow> nns r \<noteq> bd_name b"
  shows "linked nns bc' b"
proof (cases "tag = syncTag")
  case True
  with assms(1,3) have "doSync ku gs nns ord r (bc, w) = ((bc', w'), e)" by (simp add: Reconcile_def)
  with assms(2) assms(4) [OF True] show ?thesis
    unfolding doSync_def Let_def
    by (auto split: sum.splits get_error.splits prod.splits option.splits
        intro: Remove_keeps_linked Add_keeps_linked simp: sync_spec.extend_def binding.fields_def)
next
  case False
  with assms(1-3) show ?thesis by (auto simp: Reconcile_def split: if_splits prod.splits)
qed

section \<open>The invariant\<close>

lemma Reconcile_of_sync:
  assumes laws: "kube_laws ku" "history_laws ku hist (sync_changed ku gs)" and ord: "range_order ord" and ok: "spec_ok spec"
    and run: "Reconcile ku gs nns ord q (bc, w) = ((bc', w'), None)" and q: "DemuxRequest q = (rq, syncTag)"
    and gs: "gs w rq = Inr spec" and kept: "nns rq \<notin> set (Reconcile_failed ku gs nns ord q (bc, w))"
  shows "linked nns bc' (binding_for nns spec rq) \<and>
    (\<exists>w1. grows hist (sync_changed ku gs) w w1 \<and> grows hist (sync_changed ku gs) w1 w' \<and> settled ku (binding_for nns spec rq) w1)"
proof -
  let ?b = "binding_for nns spec rq"
  have "doSync ku gs nns ord rq (bc, w) = ((bc', w'), None)" using run q by (simp add: Reconcile_def)
  then obtain w0 where add: "BindingCache_Add ku nns ?b (bc, w) = ((bc', w0), None)"
    and enf: "doEnforce ku nns ord (SpacedName (sc_Source spec)) bc' w0 = (w', None)"
    using gs by (auto simp: doSync_def binding_for_def Let_def split: prod.splits option.splits)
  note l = Add_linked [OF add]
  have "nns rq \<notin> set (doEnforce_failed ku nns ord (SpacedName (sc_Source spec)) bc' w0)"
    using kept q gs add by (simp add: Reconcile_failed_def binding_for_def)
  with doEnforce_settles [OF laws ord l _ _ enf] ok obtain w1
    where "grows hist (sync_changed ku gs) w0 w1" "grows hist (sync_changed ku gs) w1 w'" "settled ku ?b w1"
    by (auto simp: bd_src_def)
  with l Add_grows [OF laws(2) add] grows_changed show ?thesis by metis
qed

lemma Reconcile_of_model:
  assumes laws: "kube_laws ku" "history_laws ku hist (sync_changed ku gs)" and ord: "range_order ord"
    and ok: "spec_ok b" and run: "Reconcile ku gs nns ord q (bc, w) = ((bc', w'), e)"
    and q: "asks nns q b" and l: "linked nns bc b" and kept: "bd_name b \<notin> set (Reconcile_failed ku gs nns ord q (bc, w))"
  shows "\<exists>w1. grows hist (sync_changed ku gs) w w1 \<and> grows hist (sync_changed ku gs) w1 w' \<and> settled ku b w1"
proof -
  from q obtain rq where rq: "DemuxRequest q = (rq, enforceTag)" "nns rq = bd_src nns b \<or> nns rq = bd_tgt nns b"
    by (auto simp: asks_def)
  then have "doEnforce ku nns ord rq bc w = (w', e)" "bd_name b \<notin> set (doEnforce_failed ku nns ord rq bc w)"
    using run kept by (auto simp: Reconcile_def Reconcile_failed_def split: prod.splits)
  from doEnforce_settles [OF laws ord l ok rq(2) this] show ?thesis .
qed

lemma Reconcile_links:
  assumes "Reconcile ku gs nns ord q (bc, w) = ((bc', w'), None)" and "DemuxRequest q = (rq, syncTag)" and "gs w rq = Inr spec"
  shows "linked nns bc' (binding_for nns spec rq)"
  using assms
  by (auto simp: Reconcile_def doSync_def binding_for_def Let_def split: prod.splits option.splits
      intro: Add_linked [unfolded binding_for_def])

text \<open>The laws of the queue need the history only; \<open>P\<close> stands for what else is assumed.\<close>

interpretation sync_queue: queued
    "P \<and> history_laws ku hist (sync_changed ku gs)" "sync_Reconcile ku gs nns" "Reconcile_failed ku gs nns" event_requests hist
    "sync_changed ku gs" sync_gvk syncTag
  for P ku gs nns hist
proof (unfold_locales, goal_cases)
  case (2 w1 w3 w2)
  then show ?case by (rule changed_via)
next
  case (3 bc rq)
  obtain q where q: "q \<in> set (MuxRequest syncTag rq)" using MuxRequest_not_Nil by blast
  then have "q \<in> set (event_requests bc (sync_gvk, rq))" by (simp add: event_requests_def)
  with Demux_MuxRequest [OF q] show ?case by auto
qed (auto simp: sync_Reconcile_def intro: Reconcile_grows)

interpretation sync: level_triggered
    "(kube_laws ku \<and> nns_documented nns) \<and> history_laws ku hist (sync_changed ku gs)"
    "sync_Reconcile ku gs nns" "Reconcile_failed ku gs nns" event_requests hist "sync_changed ku gs" sync_gvk syncTag
    "declared_binding nns gs" bd_name binding_objs "asks nns" "linked nns" "settled ku"
  for ku gs nns hist
proof (unfold_locales, goal_cases)
  case (1 w' rq w)
  then have "gs w' rq \<noteq> gs w rq" by (auto simp: declared_binding_def)
  then show ?case by (rule changed_own)
next
  case (2 c b ch)
  then show ?case by (rule event_asks)
next
  case (4 b w w')
  then show ?case by (rule settled_kept)
next
  case (5 ord q c w c' w' e rq b)
  then obtain spec r tag where spec: "plain_name rq" "b = binding_for nns spec rq" and q: "DemuxRequest q = (r, tag)"
    by (auto simp: declared_binding_Some) (metis surj_pair)
  have "nns r \<noteq> bd_name b" if "tag = syncTag"
    using plain_name_unique [of nns rq r] 5(1,4) spec that q by auto
  from Reconcile_keeps_linked [OF _ 5(5) q this] 5(2) show ?case by (simp add: sync_Reconcile_def)
next
  case (6 ord q c w c' w' rq b)
  then obtain spec where spec: "gs w rq = Inr spec" "b = binding_for nns spec rq" and ok: "spec_ok spec" by (auto simp: declared_binding_Some)
  have run: "Reconcile ku gs nns ord q (c, w) = ((c', w'), None)" using 6(3) by (simp add: sync_Reconcile_def)
  from Reconcile_of_sync [OF _ _ 6(2) ok run 6(4) spec(1)] Reconcile_links [OF run 6(4) spec(1)] 6(1) spec(2)
  show ?case by auto
next
  case (7 ord q c w c' w' b rq)
  then have ok: "spec_ok b" by (auto simp: declared_binding_Some)
  have run: "Reconcile ku gs nns ord q (c, w) = ((c', w'), None)" using 7(3) by (simp add: sync_Reconcile_def)
  show ?case
  proof (cases "bd_name b \<in> set (Reconcile_failed ku gs nns ord q (c, w))")
    case False
    from 7(1) have "kube_laws ku" "history_laws ku hist (sync_changed ku gs)" by blast+
    from Reconcile_of_model [OF this 7(2) ok run 7(4,6) False] show ?thesis by simp
  qed simp
qed (auto simp: asks_def)

lemma sync_start_asked:
  assumes "sync_start gs s" and "declared_binding nns gs (ct_world s) rq = Some b"
  shows "asked_own syncTag (ct_queue s) rq"
proof -
  obtain q where q: "q \<in> set (MuxRequest syncTag rq)" using MuxRequest_not_Nil by blast
  with assms have "q \<in> ct_queue s" unfolding sync_start_def declared_binding_Some by blast
  with Demux_MuxRequest [OF q] show ?thesis by (auto simp: asked_own_def)
qed

section \<open>The types of the cache\<close>

text \<open>
  The maps of the cache are maps, every binding is stored under its own name, and what is found under
  a model names the model.
\<close>

definition cache_ok :: "nn_string \<Rightarrow> binding_cache \<Rightarrow> bool" where
  "cache_ok nns bc \<longleftrightarrow> gomap_ok (bc_bindings bc) \<and> gomap2_ok (bc_modelToBindings bc) \<and>
     (\<forall>n b. map_of (bc_bindings bc) n = Some b \<longrightarrow> bd_name b = n) \<and>
     (\<forall>m n b. lookup2 (bc_modelToBindings bc) m n = Some b \<longrightarrow>
        bd_name b = n \<and> mode_ok b \<and> (m = bd_src nns b \<or> m = bd_tgt nns b))"

lemma cache_ok_new: "cache_ok nns new_binding_cache"
  by (simp add: cache_ok_def new_binding_cache_def)

lemma Add_cache_ok:
  assumes "BindingCache_Add ku nns b (bc, w) = ((bc', w'), e)" and "cache_ok nns bc"
  shows "cache_ok nns bc'"
  using assms(1)
proof (cases rule: Add_cases)
  case (added bc2)
  from assms(2) added show ?thesis
    by (auto simp: cache_ok_def bc_link_def bc_enter_def go_map_simps split: if_splits)
qed (use assms(2) in \<open>auto simp: cache_ok_def bc_enter_def go_map_simps split: if_splits\<close>)

lemma Remove_cache_ok: "cache_ok nns bc \<Longrightarrow> cache_ok nns (BindingCache_Remove nns name bc)"
  by (auto simp: cache_ok_def BindingCache_Remove_def go_map_simps split: option.splits if_splits)

lemma Reconcile_cache_ok:
  assumes "Reconcile ku gs nns ord q (bc, w) = ((bc', w'), e)" and "cache_ok nns bc"
  shows "cache_ok nns bc'"
  using assms unfolding Reconcile_def doSync_def Let_def
  by (auto split: if_splits sum.splits get_error.splits prod.splits option.splits
      intro: Remove_cache_ok Add_cache_ok)

interpretation typed: step_invariant "sync_step ku gs nns hist" "\<lambda>s. cache_ok nns (ct_cache s)"
  for ku gs nns hist
  by unfold_locales (auto simp: sync_step_def sync_Reconcile_def elim!: ctl_step.cases dest: Reconcile_cache_ok)

section \<open>What the cache holds of a Sync object\<close>

definition sync_models :: "nn_string \<Rightarrow> sync_spec \<Rightarrow> string set" where
  "sync_models nns spec = {nns (SpacedName (sc_Source spec)), nns (SpacedName (sc_Target spec))}"

lemma Add_added:
  "BindingCache_Add ku nns b (bc, w) = ((bc', w'), e) \<Longrightarrow> bc' = bc \<or> bindings.added nns b bc bc'"
  by (erule Add_cases) (auto simp: bindings.added_def bc_link_def bc_enter_def go_map_simps)

text \<open>A call for a Sync object takes its binding out or adds it; other calls leave the bindings as they are.\<close>

lemma Reconcile_cache:
  assumes "Reconcile ku gs nns ord q (bc, w) = ((bc', w'), e)" and "DemuxRequest q = (r, tag)"
  obtains (removed) x where "tag = syncTag" "gs w r = Inl x" "bc' = BindingCache_Remove nns (nns r) bc"
  | (added) spec where "tag = syncTag" "gs w r = Inr spec" "bindings.added nns (binding_for nns spec r) bc bc'"
  | (same) "bc' = bc" "tag = syncTag \<and> e = None \<longrightarrow> (\<exists>spec. gs w r = Inr spec)"
proof (cases "tag = syncTag")
  case False
  with assms show thesis by (intro same) (auto simp: Reconcile_def split: if_splits prod.splits)
next
  case True
  with assms have run: "doSync ku gs nns ord r (bc, w) = ((bc', w'), e)" by (simp add: Reconcile_def)
  show thesis
  proof (cases "gs w r")
    case (Inl x)
    with run True show thesis
      by (cases x) (auto simp: doSync_def Let_def intro: removed same)
  next
    case (Inr spec)
    obtain bc1 w1 e1 where add: "BindingCache_Add ku nns (binding_for nns spec r) (bc, w) = ((bc1, w1), e1)" by (metis surj_pair)
    with run Inr have "bc' = bc1" by (auto simp: doSync_def binding_for_def Let_def split: option.splits prod.splits)
    with Add_added [OF add] Inr True show thesis by (auto intro: added same)
  qed
qed

interpretation sync_cache: forgetting
    "nns_documented nns \<and> history_laws ku hist (sync_changed ku gs)"
    "sync_Reconcile ku gs nns" "Reconcile_failed ku gs nns" event_requests hist "sync_changed ku gs" sync_gvk syncTag
    gs "sync_models nns" "\<lambda>bc rq. bindings.absent bc (nns rq)" "\<lambda>E bc rq. bindings.within nns E bc (nns rq)"
  for ku gs nns hist
proof (unfold_locales, goal_cases)
  case (3 ord q c w c' w' e rq E)
  then have run: "Reconcile ku gs nns ord q (c, w) = ((c', w'), e)" by (simp add: sync_Reconcile_def)
  obtain r tag where q: "DemuxRequest q = (r, tag)" by fastforce
  with 3(1,3,4) have "tag = syncTag \<longrightarrow> nns r \<noteq> nns rq" using plain_name_unique by blast
  with run q show ?case
    by (auto elim!: Reconcile_cache simp: bindings.remove_other bindings.added_other)
next
  case (4 ord q c w c' w' rq x E)
  from 4(2) have "Reconcile ku gs nns ord q (c, w) = ((c', w'), None)" by (simp add: sync_Reconcile_def)
  from this 4(3) show ?case using 4(4,5)
    by (cases rule: Reconcile_cache) (auto intro: bindings.remove_absent)
next
  case (5 ord q c w c' w' e rq E)
  from 5(2) have "Reconcile ku gs nns ord q (c, w) = ((c', w'), e)" by (simp add: sync_Reconcile_def)
  from this 5(3) show ?case
  proof (cases rule: Reconcile_cache)
    case (added spec)
    with 5(4) have "{bd_src nns (binding_for nns spec rq), bd_tgt nns (binding_for nns spec rq)} = E"
      by (simp add: sync_models_def bd_src_def bd_tgt_def)
    with bindings.added_within [OF added(3)] 5(5) show ?thesis by simp
  qed (use 5(5) in \<open>auto intro: bindings.absent_within bindings.remove_absent\<close>)
qed (auto intro: changed_own bindings.absent_within)

lemma all_cared_for:
  assumes "kube_laws ku" "history_laws ku hist (sync_changed ku gs)" "nns_documented nns"
    and "sync_start gs s0" "rtranclp (sync_step ku gs nns hist) s0 s"
    and "gs (ct_world s) rq = Inr spec" "plain_name rq" "spec_ok spec"
  shows "asked_own syncTag (ct_queue s) rq \<or> (\<exists>q \<in> ct_queue s. asks nns q (binding_for nns spec rq)) \<or>
    nns rq \<in> ct_dropped s \<or> settled ku (binding_for nns spec rq) (ct_world s)"
proof -
  have "declared_binding nns gs (ct_world s) rq = Some (binding_for nns spec rq)"
    using assms(6-8) by (simp add: declared_binding_def)
  from sync.nothing_forgotten [OF _ assms(5) [unfolded sync_step_def] sync_start_asked [OF assms(4)] this]
  show ?thesis using assms(1-3) by simp
qed

section \<open>An example\<close>

definition sync_handled ::
  "'w kube \<Rightarrow> 'w get_sync \<Rightarrow> nn_string \<Rightarrow> ('w \<Rightarrow> change list) \<Rightarrow> (order \<times> request) list \<Rightarrow> 'w sync_state \<Rightarrow> 'w sync_state option"
where
  "sync_handled ku gs nns hist =
     handled_all (sync_Reconcile ku gs nns) (Reconcile_failed ku gs nns) event_requests hist"

lemma sync_handled_steps:
  "sync_handled ku gs nns hist qs s = Some t \<Longrightarrow> (\<forall>p \<in> set qs. range_order (fst p)) \<Longrightarrow>
    rtranclp (sync_step ku gs nns hist) s t"
  unfolding sync_handled_def sync_step_def by (rule handled_all_steps)

definition two_syncs :: "(request \<times> sync_spec) list" where
  "two_syncs = [(req ''good'', \<lparr>sc_Source = lamp_auri ''l1'', sc_Target = lamp_auri ''l2'', sc_Mode = MatchMode\<rparr>),
     (req ''bad'', \<lparr>sc_Source = lamp_auri ''l1'', sc_Target = lamp_auri ''l3'', sc_Mode = MatchMode\<rparr>)]"

definition three_lamps :: logged where
  "three_lamps = ([model_entry ''Lamp'' ''l1'' ''on'', model_entry ''Lamp'' ''l2'' ''off'',
     model_entry ''Lamp'' ''l3'' ''off''], [])"

definition first_state :: "logged sync_state" where
  "first_state = \<lparr>ct_cache = new_binding_cache, ct_world = three_lamps,
     ct_queue = {req ''sync-good'', req ''sync-bad''}, ct_dropped = {}\<rparr>"

definition refuses_l3 :: "obj \<Rightarrow> bool" where
  "refuses_l3 ob \<longleftrightarrow> n_Name (snd (mem_key ob)) = ''l3''"

definition bad_binding :: binding where
  "bad_binding = binding_for nns_plain (snd (two_syncs ! 1)) (req ''bad'')"

lemma first_state_start: "sync_start (table_get two_syncs) first_state"
proof -
  have "set (MuxRequest syncTag rq) \<subseteq> ct_queue first_state" if "table_get two_syncs w rq = Inr spec" for w rq spec
  proof -
    have "list_all (\<lambda>(rq, spec). set (MuxRequest syncTag rq) \<subseteq> ct_queue first_state) two_syncs" by code_simp
    with table_get_mem [OF that] show ?thesis by (auto simp only: list_all_iff)
  qed
  then show ?thesis unfolding sync_start_def by (auto simp: first_state_def)
qed

section \<open>Properties\<close>

text \<open>
  C16. No Sync object is forgotten. Whatever the order of requests and whatever others do to the
  cluster in the meantime: of every Sync object that binds attributes of two different models, none of
  them the metadata, kind or version of an object, the attributes agree, or a request is waiting for the
  Sync object or for one of its models, or an error of its binding was dropped. So with an empty queue
  and no dropped error, all these bindings are enforced.
\<close>

theorem no_sync_forgotten:
  assumes "kube_laws ku" "history_laws ku hist (sync_changed ku gs)" "nns_documented nns"
    and "sync_start gs s0" "rtranclp (sync_step ku gs nns hist) s0 s"
  shows "(\<forall>rq spec. gs (ct_world s) rq = Inr spec \<longrightarrow> plain_name rq \<longrightarrow> spec_ok spec \<longrightarrow>
      asked_own syncTag (ct_queue s) rq \<or> (\<exists>q \<in> ct_queue s. asks nns q (binding_for nns spec rq)) \<or>
      nns rq \<in> ct_dropped s \<or> settled ku (binding_for nns spec rq) (ct_world s)) \<and>
    (ct_queue s = {} \<longrightarrow> ct_dropped s = {} \<longrightarrow>
      (\<forall>rq spec. gs (ct_world s) rq = Inr spec \<longrightarrow> plain_name rq \<longrightarrow> spec_ok spec \<longrightarrow>
        settled ku (binding_for nns spec rq) (ct_world s)))"
proof -
  note cared = all_cared_for [OF assms]
  have "settled ku (binding_for nns spec rq) (ct_world s)"
    if "ct_queue s = {}" "ct_dropped s = {}" "gs (ct_world s) rq = Inr spec" "plain_name rq" "spec_ok spec" for rq spec
    using cared [OF that(3-5)] that(1,2) by (simp add: asked_own_def)
  with cared show ?thesis by blast
qed

lemma no_sync_forgotten_witness:
  "\<exists>s. rtranclp (sync_step (log_kube (\<lambda>ob. False)) (table_get two_syncs) nns_plain snd) first_state s \<and>
    ct_queue s = {} \<and> settled (log_kube (\<lambda>ob. False)) bad_binding (ct_world s)"
proof -
  let ?ku = "log_kube (\<lambda>ob. False)" and ?gs = "table_get two_syncs"
  let ?run = "sync_handled ?ku ?gs nns_plain snd [(\<lambda>xs. xs, req ''sync-good''), (\<lambda>xs. xs, req ''enforce-l2''),
    (rev, req ''sync-bad''), (rev, req ''enforce-l3'')] first_state"
  have "case ?run of None \<Rightarrow> False | Some t \<Rightarrow> ct_queue t = {} \<and> ct_dropped t = {}" by code_simp
  then obtain t where t: "?run = Some t" "ct_queue t = {}" "ct_dropped t = {}" by (auto split: option.splits)
  have steps: "rtranclp (sync_step ?ku ?gs nns_plain snd) first_state t"
    by (rule sync_handled_steps [OF t(1)]) simp
  have "?gs (ct_world t) (req ''bad'') = Inr (snd (two_syncs ! 1))" unfolding table_get_def by code_simp
  moreover have "plain_name (req ''bad'')" "spec_ok (snd (two_syncs ! 1))" by code_simp+
  ultimately have "settled ?ku bad_binding (ct_world t)"
    using no_sync_forgotten [OF log_kube_laws log_kube_history nns_plain_documented first_state_start steps, THEN conjunct2,
      rule_format, OF t(2,3)] unfolding bad_binding_def by blast
  with steps t(2) show ?thesis by blast
qed

text \<open>
  C17. In every state the controller reaches, its maps are maps, a binding is stored under its own
  name, and a binding found under a model has a known mode and names that model as its source or its
  target: the branches of \<open>doEnforce\<close> for other modes and for unmatched requests are never taken.
\<close>

theorem cache_well_typed:
  assumes "sync_start gs s0" and "rtranclp (sync_step ku gs nns hist) s0 s"
  shows "cache_ok nns (ct_cache s) \<and>
    (\<forall>rq bds b. map_of (bc_modelToBindings (ct_cache s)) (nns rq) = Some bds \<longrightarrow> b \<in> set (map snd (range_map id bds)) \<longrightarrow>
       (sc_Mode b = MatchMode \<or> sc_Mode b = SyncMode) \<and> (nns rq = bd_src nns b \<or> nns rq = bd_tgt nns b))"
proof -
  have ok: "cache_ok nns (ct_cache s)"
    by (rule typed.reached [OF assms(2)]) (use assms(1) in \<open>simp add: sync_start_def cache_ok_new\<close>)
  have "mode_ok b \<and> (nns rq = bd_src nns b \<or> nns rq = bd_tgt nns b)"
    if "map_of (bc_modelToBindings (ct_cache s)) (nns rq) = Some bds" "b \<in> set (map snd (range_map id bds))" for rq bds b
  proof -
    from that(2) obtain n where "map_of bds n = Some b" by (auto simp: set_range_map [OF range_order_id'])
    with that(1) ok show ?thesis by (auto simp: cache_ok_def lookup2_def split: option.splits)
  qed
  with ok show ?thesis by (simp add: mode_ok_def)
qed

lemma cache_well_typed_witness:
  "\<exists>t. sync_handled (log_kube refuses_l3) (table_get two_syncs) nns_plain snd [(\<lambda>xs. xs, req ''sync-good'')] first_state =
     Some t \<and> cache_ok nns_plain (ct_cache t)"
proof -
  let ?run = "sync_handled (log_kube refuses_l3) (table_get two_syncs) nns_plain snd [(\<lambda>xs. xs, req ''sync-good'')] first_state"
  have "?run \<noteq> None" by code_simp
  then obtain t where t: "?run = Some t" by blast
  from cache_well_typed [OF first_state_start sync_handled_steps [OF t]] t show ?thesis by simp
qed

text \<open>
  C19. A deleted Sync object is forgotten. Whatever the order of requests and whatever others do: when
  a Sync object is gone and no request for it waits, the cache holds no binding of its name, and no
  request makes the controller enforce one, provided that the object, while it was there, always
  bound the same models.
\<close>

theorem deleted_sync_forgotten:
  assumes "history_laws ku hist (sync_changed ku gs)" "nns_documented nns" "plain_name rq" "sync_start gs s0"
    and "rtranclp (\<lambda>s t. sync_step ku gs nns hist s t \<and>
      (\<forall>spec. gs (ct_world s) rq = Inr spec \<longrightarrow> sync_models nns spec = E)) s0 s"
    and "gs (ct_world s) rq = Inl x" "\<not> asked_own syncTag (ct_queue s) rq"
  shows "map_of (bc_bindings (ct_cache s)) (nns rq) = None \<and>
    (\<forall>r bds b. map_of (bc_modelToBindings (ct_cache s)) (nns r) = Some bds \<longrightarrow> b \<in> set (map snd (range_map id bds)) \<longrightarrow>
       bd_name b \<noteq> nns rq)"
proof -
  have "bindings.absent new_binding_cache (nns rq)" by (simp add: bindings.absent_def new_binding_cache_def)
  with assms(4) have start: "bindings.absent (ct_cache s0) (nns rq)" "cache_ok nns (ct_cache s0)"
    by (simp_all add: sync_start_def cache_ok_new)
  have gone: "bindings.absent (ct_cache s) (nns rq)"
    by (rule sync_cache.deleted_is_absent [where ku = ku and gs = gs and nns = nns and hist = hist and E = E, OF _ assms(3) _ start(1) assms(6,7)])
      (use assms(1,2,5) in \<open>simp_all add: sync_cache.steady_def sync_step_def\<close>)
  have "rtranclp (sync_step ku gs nns hist) s0 s"
    using assms(5) by (rule rtranclp_mono [THEN predicate2D, rotated]) blast
  from typed.reached [OF this start(2)] have ok: "cache_ok nns (ct_cache s)" .
  have "bd_name b \<noteq> nns rq"
    if "map_of (bc_modelToBindings (ct_cache s)) (nns r) = Some bds" "b \<in> set (map snd (range_map id bds))" for r bds b
  proof -
    from that(2) obtain n where "map_of bds n = Some b" by (auto simp: set_range_map [OF range_order_id'])
    with that(1) have "lookup2 (bc_modelToBindings (ct_cache s)) (nns r) n = Some b" by (simp add: lookup2_def)
    with ok gone show ?thesis by (auto simp: cache_ok_def bindings.absent_def)
  qed
  with gone show ?thesis by (simp add: bindings.absent_def)
qed

text \<open>
  An error of any binding but the last one of a loop is dropped: after a refused write the queue
  runs empty with the attributes of a binding apart, and only a later change of one of its models
  brings the binding back.
\<close>

theorem refused_write_forgotten:
  "\<exists>s. rtranclp (sync_step (log_kube refuses_l3) (table_get two_syncs) nns_plain snd) first_state s \<and>
    ct_queue s = {} \<and> attr_at (log_kube refuses_l3) (ct_world s) (sc_Source bad_binding) = Some (JStr ''on'') \<and>
    attr_at (log_kube refuses_l3) (ct_world s) (sc_Target bad_binding) = Some (JStr ''off'')"
proof -
  let ?ku = "log_kube refuses_l3" and ?gs = "table_get two_syncs"
  let ?run = "sync_handled ?ku ?gs nns_plain snd [(\<lambda>xs. xs, req ''sync-good''), (\<lambda>xs. xs, req ''enforce-l2''),
    (rev, req ''sync-bad'')] first_state"
  have "case ?run of None \<Rightarrow> False | Some t \<Rightarrow> ct_queue t = {} \<and>
      attr_at ?ku (ct_world t) (sc_Source bad_binding) = Some (JStr ''on'') \<and>
      attr_at ?ku (ct_world t) (sc_Target bad_binding) = Some (JStr ''off'')" by code_simp
  then obtain t where t: "?run = Some t" "ct_queue t = {}"
    "attr_at ?ku (ct_world t) (sc_Source bad_binding) = Some (JStr ''on'')"
    "attr_at ?ku (ct_world t) (sc_Target bad_binding) = Some (JStr ''off'')" by (auto split: option.splits)
  have "rtranclp (sync_step ?ku ?gs nns_plain snd) first_state t"
    by (rule sync_handled_steps [OF t(1)]) simp
  with t(2-4) show ?thesis by blast
qed

text \<open>
  Nothing checks that the attributes two Sync objects write are apart. When one attribute is the
  target of two sources that differ, the queue of the controller never runs empty, whatever the
  order of requests: each binding undoes what the other did, and the write asks for the other again.
\<close>

theorem conflicting_syncs_never_rest:
  assumes "kube_laws ku" "history_laws ku hist (sync_changed ku gs)" "nns_documented nns"
    and "sync_start gs s0" "rtranclp (sync_step ku gs nns hist) s0 s"
    and "gs (ct_world s) rq1 = Inr spec1" "plain_name rq1" "spec_ok spec1"
    and "gs (ct_world s) rq2 = Inr spec2" "plain_name rq2" "spec_ok spec2"
    and "sc_Target spec1 = sc_Target spec2"
    and "attr_at ku (ct_world s) (sc_Source spec1) \<noteq> attr_at ku (ct_world s) (sc_Source spec2)"
    and "nns rq1 \<notin> ct_dropped s" "nns rq2 \<notin> ct_dropped s"
  shows "ct_queue s \<noteq> {}"
  using all_cared_for [OF assms(1-5,6-8)] all_cared_for [OF assms(1-5,9-11)] assms(12-15)
  by (auto simp: settled_def asked_own_def)

end
