(* ===== verification/Pipe_Sync.thy ===== *)
theory Pipe_Sync
  imports Cli_Space Sync_Queue
begin

text \<open>
  From the command line to the models: \<open>digi space pipe\<close> stores a Sync object, whose creation wakes the
  sync controller, which copies the attribute. The client of the command and the typed get of the
  controller are of one API server: what \<open>sa_find\<close> finds is what \<open>doSync\<close> reads.
\<close>

section \<open>One API server\<close>

definition api_get_sync :: "'w sync_api \<Rightarrow> 'w get_sync" where
  "api_get_sync sa w rq = (case sa_find sa w rq of None \<Rightarrow> Inl (NotFound (n_Name rq)) | Some spec \<Rightarrow> Inr spec)"

abbreviation api_changed :: "'w kube \<Rightarrow> 'w sync_api \<Rightarrow> 'w \<Rightarrow> 'w \<Rightarrow> change set" where
  "api_changed ku sa \<equiv> sync_changed ku (api_get_sync sa)"

text \<open>Creating and deleting append to the history what they change.\<close>

definition sync_history :: "'w sync_api \<Rightarrow> ('w \<Rightarrow> change list) \<Rightarrow> ('w \<Rightarrow> 'w \<Rightarrow> change set) \<Rightarrow> bool" where
  "sync_history sa hist differs \<longleftrightarrow>
     (\<forall>x w. grows hist differs w (fst (sa_create sa x w))) \<and> (\<forall>x w. grows hist differs w (fst (sa_delete sa x w)))"

section \<open>Pipes\<close>

text \<open>What \<open>NewPiper\<close> returns: the ends are normalised, so their attributes are below \<open>spec\<close>.\<close>

lemma NewPiper_ends:
  assumes "NewPiper resolve s t = Val (Inr p)"
  obtains a b where "pp_Source p = normalize_end a" "pp_Target p = normalize_end b"
proof -
  obtain r1 where r1: "ParseAuri resolve s = Val r1" using assms by (auto simp: NewPiper_def obind_Val_iff)
  then obtain a where a: "r1 = Inr a" using assms by (cases r1) (auto simp: NewPiper_def)
  obtain r2 where r2: "ParseAuri resolve t = Val r2" using assms r1 a by (auto simp: NewPiper_def obind_Val_iff)
  then obtain b where "r2 = Inr b" using assms r1 a by (cases r2) (auto simp: NewPiper_def)
  with assms r1 r2 a that show thesis by (auto simp: NewPiper_def)
qed

lemma spec_path_normalized: "spec_path (AttrPathSlice (a_Path (normalize_end ar)))"
proof -
  obtain zs where "normalizePath (a_Path ar) = ''spec'' @ CHR ''.'' # zs"
    using normalizePath_prefix [of "a_Path ar"] by (auto simp: prefix_def)
  then show ?thesis
    by (simp add: normalize_end_def AttrPathSlice_def trim_left_def spec_path_def split_on_append [of _ "''spec''", simplified])
qed

lemma binding_key_plain: "plain_name (binding_key nns p)"
  by (auto simp: plain_name_def syncBindingName_def Let_def replace_all_char)

lemma Piper_Pipe_grows:
  assumes "sync_history sa hist (api_changed ku sa)" and "Piper_Pipe nns sa err p w = (w', e)"
  shows "grows hist (api_changed ku sa) w w'"
proof (cases err)
  case None
  let ?x = "newSyncBinding nns p"
  have "w' = fst (sa_create sa ?x (fst (sa_delete sa ?x w)))"
    using assms(2) None by (simp add: Piper_Pipe_def createSyncBinding_def)
  with assms(1) show ?thesis unfolding sync_history_def by (metis grows_changed)
qed (use assms(2) in \<open>simp add: Piper_Pipe_def createSyncBinding_def\<close>)

text \<open>A command that returns has stored the Sync object of its pipe.\<close>

lemma pipeCmd_stores:
  assumes "sync_laws (se_sync se)" and "pipeCmd cl se fs [s, t] w = (w', es, Val ())" and "\<not> GetBool fs ''delete''"
    and "NewPiper (resolve_in cl w) s t = Val (Inr p)"
  shows "Piper_Pipe (se_nns se) (se_sync se) None p w = (w', None)"
    and "api_get_sync (se_sync se) w' (binding_key (se_nns se) p) =
      Inr \<lparr>sc_Source = pp_Source p, sc_Target = pp_Target p, sc_Mode = MatchMode\<rparr>"
proof -
  have "Piper_Pipe (se_nns se) (se_sync se) (se_sync_err se) p w = (w', None)"
    using assms(2-4)
    by (auto simp: pipeCmd_def MinimumNArgs_def cbind_Val_iff cread_def clift_def cstep_def fatal_on_def creturn_def
        split: option.splits prod.splits)
  then show pipe: "Piper_Pipe (se_nns se) (se_sync se) None p w = (w', None)"
    by (cases "se_sync_err se") (simp_all add: Piper_Pipe_def createSyncBinding_def)
  from pipe_effect(1) [OF assms(1) this]
  show "api_get_sync (se_sync se) w' (binding_key (se_nns se) p) =
      Inr \<lparr>sc_Source = pp_Source p, sc_Target = pp_Target p, sc_Mode = MatchMode\<rparr>"
    by (simp add: api_get_sync_def)
qed

section \<open>An API server with both\<close>

text \<open>The cluster of models with a history, and a table of Sync objects beside it.\<close>

type_synonym synced = "logged \<times> (nsname \<times> sync_spec) list"

definition beside :: "'w kube \<Rightarrow> ('w \<times> 'x) kube" where
  "beside ku = \<lparr>ku_get = (\<lambda>(w, x). ku_get ku w),
     ku_update = (\<lambda>ob (w, x). case ku_update ku ob w of (w', e) \<Rightarrow> ((w', x), e)),
     ku_patch = (\<lambda>old new (w, x). case ku_patch ku old new w of (w', e) \<Rightarrow> ((w', x), e)),
     ku_watch = (\<lambda>ob (w, x). case ku_watch ku ob w of (w', e) \<Rightarrow> ((w', x), e)),
     ku_key = ku_key ku, ku_nested = ku_nested ku, ku_set_nested = ku_set_nested ku,
     ku_nested_map = ku_nested_map ku, ku_set_nested_map = ku_set_nested_map ku\<rparr>"

definition log_change :: "change \<Rightarrow> logged \<Rightarrow> logged" where
  "log_change ch = (\<lambda>(m, h). (m, h @ [ch]))"

definition log_sync :: "synced sync_api" where
  "log_sync = \<lparr>sa_create = (\<lambda>(n, s) (l, t). if map_of t n = None then ((log_change (sync_gvk, n) l, AList.update n s t), None)
       else ((l, t), Some (Err ''already exists''))),
     sa_delete = (\<lambda>(n, s) (l, t). if map_of t n = None then ((l, t), Some (Err ''not found''))
       else ((log_change (sync_gvk, n) l, AList.delete n t), None)),
     sa_find = (\<lambda>(l, t). map_of t)\<rparr>"

definition synced_history :: "synced \<Rightarrow> change list" where
  "synced_history = (\<lambda>((m, h), t). h)"

abbreviation two_kube :: "synced kube" where "two_kube \<equiv> beside (log_kube (\<lambda>ob. False))"

lemma log_sync_laws [simp]: "sync_laws log_sync"
  by (auto simp: sync_laws_def log_sync_def update_conv' delete_conv' restrict_map_def split: if_splits)

lemma beside_laws [simp]:
  assumes "kube_laws ku"
  shows "kube_laws (beside ku)"
  unfolding kube_laws_def
proof (intro conjI allI impI)
  note laws = kube_lawsD [OF assms]
  fix w w' :: "'a \<times> 'b" and ob ob' g n e v p
  show "ku_get (beside ku) w g n = Inr ob \<Longrightarrow> ku_key (beside ku) ob = (g, n)"
    using laws(1) by (auto simp: beside_def split: prod.splits)
  show "ku_update (beside ku) ob w = (w', None) \<Longrightarrow> ku_get (beside ku) w' g n =
      (if ku_key (beside ku) ob = (g, n) then Inr ob else ku_get (beside ku) w g n)"
    using laws(2) [of ob "fst w" "fst w'" g n] by (auto simp: beside_def split: prod.splits)
  show "ku_update (beside ku) ob w = (w', Some e) \<Longrightarrow> ku_get (beside ku) w' g n = ku_get (beside ku) w g n"
    using laws(3) [of ob "fst w" "fst w'" e g n] by (auto simp: beside_def split: prod.splits)
  show "ku_set_nested (beside ku) ob v p = Inr ob' \<Longrightarrow> ku_nested (beside ku) ob' p = Inr (Some v)"
    using laws(4) by (auto simp: beside_def)
  show "ku_set_nested (beside ku) ob v p = Inr ob' \<Longrightarrow> spec_path p \<Longrightarrow> ku_key (beside ku) ob' = ku_key (beside ku) ob"
    using laws(5) by (auto simp: beside_def)
qed

lemma synced_changed:
  "api_changed (beside ku) log_sync (l, t) (l', t) = sync_changed ku (table_get []) l l'"
  by (auto simp: changed_def beside_def api_get_sync_def log_sync_def table_get_def)

lemma beside_runs:
  "fst (ku_update (beside ku) ob (l, t)) = (fst (ku_update ku ob l), t)"
  "fst (ku_patch (beside ku) old new (l, t)) = (fst (ku_patch ku old new l), t)"
  "fst (ku_watch (beside ku) ob (l, t)) = (fst (ku_watch ku ob l), t)"
  by (simp_all add: beside_def split_beta)

lemma beside_history: "history_laws two_kube synced_history (api_changed two_kube log_sync)"
proof -
  let ?ku = "log_kube (\<lambda>ob. False)"
  have "grows synced_history (api_changed two_kube log_sync) (l, t) (l', t)"
    if "grows snd (sync_changed ?ku (table_get [])) l l'" for l l' :: logged and t
    using that unfolding grows_def synced_changed by (auto simp: synced_history_def split: prod.splits)
  note lifted = this
  note laws = log_kube_history [of "\<lambda>ob. False" sync_gvk "[]", unfolded history_laws_def]
  show ?thesis
    unfolding history_laws_def
  proof (intro conjI allI)
    fix ob old new :: obj and w :: synced
    obtain l t where w: "w = (l, t)" by fastforce
    show "grows synced_history (api_changed two_kube log_sync) w (fst (ku_update two_kube ob w))"
      unfolding w beside_runs by (rule lifted) (use laws in blast)
    show "grows synced_history (api_changed two_kube log_sync) w (fst (ku_patch two_kube old new w))"
      unfolding w beside_runs by (rule lifted) (use laws in blast)
    show "grows synced_history (api_changed two_kube log_sync) w (fst (ku_watch two_kube ob w))"
      unfolding w beside_runs by (rule lifted) (use laws in blast)
  qed
qed

lemma log_sync_history: "sync_history log_sync synced_history (api_changed two_kube log_sync)"
  by (auto simp: sync_history_def grows_def synced_history_def log_sync_def log_change_def changed_def beside_def
      log_kube_def api_get_sync_def go_map_simps split: prod.splits)

section \<open>Properties\<close>

text \<open>
  C27. A pipe takes effect. Once \<open>digi space pipe\<close> has returned, that is, its Sync object was accepted, and
  the change it makes is seen, and as long as nobody touches the Sync object again: in every later state
  in which the queue is empty and no error of this binding was dropped, the attribute of the
  target is there and is that of the source, whatever else was reconciled or changed before and since.
  Source and target are two different models.
\<close>

theorem pipe_takes_effect:
  fixes se :: "('w, 'j, 'g) space_env"
  assumes laws: "kube_laws ku" "sync_laws (se_sync se)" "history_laws ku hist (api_changed ku (se_sync se))"
      "sync_history (se_sync se) hist (api_changed ku (se_sync se))" "nns_documented (se_nns se)"
    and before: "sync_start (api_get_sync (se_sync se)) s0"
      "rtranclp (sync_step ku (api_get_sync (se_sync se)) (se_nns se) hist) s0 s1"
    and cmd: "pipeCmd cl se fs [src, tgt] (ct_world s1) = (w, es, Val ())" "\<not> GetBool fs ''delete''"
      "NewPiper (resolve_in cl (ct_world s1)) src tgt = Val (Inr p)" "\<not> same_object (pp_Source p) (pp_Target p)"
    and since: "rtranclp (sync_step ku (api_get_sync (se_sync se)) (se_nns se) hist) (seen event_requests hist w s1) s2"
      "(sync_gvk, binding_key (se_nns se) p) \<notin> new_changes hist w (ct_world s2)"
    and quiet: "ct_queue s2 = {}" "se_nns se (binding_key (se_nns se) p) \<notin> ct_dropped s2"
  shows "attr_at ku (ct_world s2) (pp_Source p) \<noteq> None \<and>
    attr_at ku (ct_world s2) (pp_Target p) = attr_at ku (ct_world s2) (pp_Source p)"
proof -
  let ?gs = "api_get_sync (se_sync se)" and ?nns = "se_nns se" and ?rq = "binding_key (se_nns se) p"
  let ?spec = "\<lparr>sc_Source = pp_Source p, sc_Target = pp_Target p, sc_Mode = MatchMode\<rparr>"
  let ?t = "seen event_requests hist w s1"
  note stored = pipeCmd_stores [OF laws(2) cmd(1-3)]
  have "sync_step ku ?gs ?nns hist s1 ?t"
    unfolding sync_step_def by (rule seen_step) (rule Piper_Pipe_grows [OF laws(4) stored(1)])
  with before(2) since(1) have reached: "rtranclp (sync_step ku ?gs ?nns hist) s0 s2"
    by (meson rtranclp.rtrancl_into_rtrancl rtranclp_trans)
  obtain a b where "pp_Source p = normalize_end a" "pp_Target p = normalize_end b" by (rule NewPiper_ends [OF cmd(3)])
  with cmd(4) have ok: "spec_ok ?spec" by (simp add: spec_ok_def spec_path_normalized)
  have "declared_binding ?nns ?gs (ct_world s2) ?rq = declared_binding ?nns ?gs (ct_world ?t) ?rq"
    by (rule sync.declared_stays [OF _ since(1) [unfolded sync_step_def]]) (use laws since(2) in simp_all)
  then have "declared_binding ?nns ?gs (ct_world s2) ?rq = Some (binding_for ?nns ?spec ?rq)"
    using stored(2) ok binding_key_plain by (simp add: declared_binding_def)
  then obtain spec where spec: "?gs (ct_world s2) ?rq = Inr spec" "spec_ok spec"
    "binding_for ?nns ?spec ?rq = binding_for ?nns spec ?rq" by (auto simp: declared_binding_Some)
  from all_cared_for [OF laws(1,3,5) before(1) reached spec(1) binding_key_plain spec(2)] quiet
  have "settled ku (binding_for ?nns ?spec ?rq) (ct_world s2)" by (simp add: asked_own_def spec(3))
  then show ?thesis by (simp add: settled_def)
qed

definition data_lamp :: "string \<Rightarrow> string \<Rightarrow> (gvk \<times> nsname) \<times> obj" where
  "data_lamp n pw = (((''digi.dev'', ''v1'', ''Lamp''), req n),
     [(''apiVersion'', JStr ''digi.dev/v1''), (''kind'', JStr ''Lamp''),
      (''metadata'', JObj [(''name'', JStr n), (''namespace'', JStr ''default'')]),
      (''spec'', JObj [(''data'', JObj [(''power'', JStr pw)])])])"

definition lamp_power :: "string \<Rightarrow> auri" where
  "lamp_power n = \<lparr>a_Kind = lamp_kind, a_Name = n, a_Namespace = ''default'', a_Path = ''spec.data.power''\<rparr>"

definition quiet_state :: "synced sync_state" where
  "quiet_state = \<lparr>ct_cache = new_binding_cache,
     ct_world = (([data_lamp ''l1'' ''on'', data_lamp ''l2'' ''off''], []), []), ct_queue = {}, ct_dropped = {}\<rparr>"

definition pipe_env :: "(synced, unit, unit) space_env" where
  "pipe_env = \<lparr>se_kube = \<lparr>kf_load = (\<lambda>w f. Inl NotExist), kf_write = (\<lambda>c f w. (w, None)),
       kf_temp = (\<lambda>w. (w, None)), kf_remove = (\<lambda>f w. (w, None)), kf_merge = (\<lambda>w fs. Inr NewConfig),
       kf_resolve_cluster = (\<lambda>f c. c), kf_resolve_user = (\<lambda>f u. u), kf_home = []\<rparr>,
     se_nns = nns_plain,
     se_json = \<lparr>sj_SetRaw = (\<lambda>j p s. Inr j), sj_Delete = (\<lambda>j p. Inr j),
       sj_decode = (\<lambda>j. Inr []), sj_nested_map = (\<lambda>ob p. Inr None)\<rparr>,
     se_api = \<lparr>api_groups = (\<lambda>w. Inr ()), api_mapping = (\<lambda>g gk v. Inr (fst gk, v, snd gk)),
       api_list = (\<lambda>w r ns. Inr []), api_get = (\<lambda>w r ns n. Inr []), api_update = (\<lambda>w r ns ob. (w, None)),
       api_marshal = (\<lambda>ob. Inr ()), api_unmarshal = (\<lambda>j. Inr []), api_gvk = (\<lambda>ob. (''digi.dev'', ''v1'', ''Lamp'')),
       api_namespace = (\<lambda>ob. ''default'')\<rparr>,
     se_api_err = None, se_sync = log_sync, se_sync_err = None, se_client_err = None, se_get_proxy = (\<lambda>w. Inr []),
     se_update_proxy = (\<lambda>ob w. (w, None)), se_set_nested = (\<lambda>ob v p. ob),
     se_url = (\<lambda>b q. None), se_http = (\<lambda>u w. (w, Inr (200, [], True)))\<rparr>"

definition pipe_args :: "string list" where
  "pipe_args = [''/digi.dev/v1/lamp/default/l1.power'', ''/digi.dev/v1/lamp/default/l2.power'']"

lemma pipe_takes_effect_witness:
  "\<exists>w s. pipeCmd (sample_cli no_viper) pipe_env pipe_flags pipe_args (ct_world quiet_state) = (w, [], Val ()) \<and>
    rtranclp (sync_step two_kube (api_get_sync log_sync) nns_plain synced_history)
      (seen event_requests synced_history w quiet_state) s \<and>
    attr_at two_kube (ct_world quiet_state) (lamp_power ''l2'') = Some (JStr ''off'') \<and>
    attr_at two_kube (ct_world s) (lamp_power ''l2'') = attr_at two_kube (ct_world s) (lamp_power ''l1'')"
proof -
  let ?p = "\<lparr>pp_Source = lamp_power ''l1'', pp_Target = lamp_power ''l2''\<rparr>" and ?gs = "api_get_sync log_sync"
  let ?cmd = "pipeCmd (sample_cli no_viper) pipe_env pipe_flags pipe_args (ct_world quiet_state)"
  let ?w = "fst ?cmd" and ?name = "''default-l1-spec.data.power-match-spec.data.power-default-l2''"
  let ?run = "sync_handled two_kube ?gs nns_plain synced_history
    [(rev, req (''sync-'' @ ?name)), (rev, req ''enforce-l2'')] (seen event_requests synced_history ?w quiet_state)"
  have cmd: "snd ?cmd = ([], Val ())" by code_simp
  have piper: "NewPiper (resolve_in (sample_cli no_viper) (ct_world quiet_state)) (pipe_args ! 0) (pipe_args ! 1) = Val (Inr ?p)"
    by code_simp
  have "case ?run of None \<Rightarrow> False | Some t \<Rightarrow> ct_queue t = {} \<and> ct_dropped t = {} \<and>
      (sync_gvk, binding_key nns_plain ?p) \<notin> new_changes synced_history ?w (ct_world t)" by code_simp
  then obtain t where t: "?run = Some t" "ct_queue t = {}" "ct_dropped t = {}"
    "(sync_gvk, binding_key nns_plain ?p) \<notin> new_changes synced_history ?w (ct_world t)" by (auto split: option.splits)
  have steps: "rtranclp (sync_step two_kube ?gs nns_plain synced_history) (seen event_requests synced_history ?w quiet_state) t"
    by (rule sync_handled_steps [OF t(1)]) simp
  have start: "sync_start ?gs quiet_state"
    by (auto simp: sync_start_def quiet_state_def api_get_sync_def log_sync_def)
  have env: "se_sync pipe_env = log_sync" "se_nns pipe_env = nns_plain" by (simp_all add: pipe_env_def)
  have args: "pipe_args = [pipe_args ! 0, pipe_args ! 1]" by (simp add: pipe_args_def)
  have run: "pipeCmd (sample_cli no_viper) pipe_env pipe_flags [pipe_args ! 0, pipe_args ! 1] (ct_world quiet_state) = (?w, [], Val ())"
    using cmd unfolding args [symmetric] by (metis prod.collapse)
  have far: "\<not> same_object (pp_Source ?p) (pp_Target ?p)" "\<not> GetBool pipe_flags ''delete''" by code_simp+
  have "attr_at two_kube (ct_world quiet_state) (lamp_power ''l2'') = Some (JStr ''off'')" by code_simp
  moreover have "attr_at two_kube (ct_world t) (lamp_power ''l2'') = attr_at two_kube (ct_world t) (lamp_power ''l1'')"
    using pipe_takes_effect [where se = pipe_env and ku = two_kube and hist = synced_history,
        unfolded env, OF beside_laws [OF log_kube_laws] log_sync_laws beside_history log_sync_history nns_plain_documented
        start rtranclp.rtrancl_refl run far(2) piper far(1) steps t(4,2)] t(3) by simp
  ultimately show ?thesis using cmd steps by (metis prod.collapse)
qed

text \<open>A pipe that is made and taken away again, each change handled by the controller.\<close>

definition handled_change :: "request \<Rightarrow> synced \<Rightarrow> synced sync_state \<Rightarrow> synced sync_state option" where
  "handled_change q w s = handled (sync_Reconcile two_kube (api_get_sync log_sync) nns_plain)
     (Reconcile_failed two_kube (api_get_sync log_sync) nns_plain) event_requests synced_history rev q
     (seen event_requests synced_history w s)"

abbreviation one_step :: "synced sync_state \<Rightarrow> synced sync_state \<Rightarrow> bool" where
  "one_step \<equiv> sync_step two_kube (api_get_sync log_sync) nns_plain synced_history"

lemma handled_change_steps:
  assumes "handled_change q w s = Some t" and "grows synced_history (api_changed two_kube log_sync) (ct_world s) w"
    and "P (ct_world s)" "P w"
  shows "rtranclp (\<lambda>s t. one_step s t \<and> P (ct_world s)) s t"
proof -
  let ?m = "seen event_requests synced_history w s"
  have "one_step s ?m" unfolding sync_step_def by (rule seen_step [OF assms(2)])
  moreover have "one_step ?m t"
    unfolding sync_step_def by (rule handled_step [OF assms(1) [unfolded handled_change_def]]) simp
  ultimately show ?thesis using assms(3,4)
    by (intro converse_rtranclp_into_rtranclp [of _ s ?m] converse_rtranclp_into_rtranclp [of _ ?m t]) simp_all
qed

definition l1_to_l2 :: piper where
  "l1_to_l2 = \<lparr>pp_Source = lamp_power ''l1'', pp_Target = lamp_power ''l2''\<rparr>"

definition piped :: "synced \<Rightarrow> synced" where
  "piped w = fst (Piper_Pipe nns_plain log_sync None l1_to_l2 w)"

definition unpiped :: "synced \<Rightarrow> synced" where
  "unpiped w = fst (Piper_Unpipe nns_plain log_sync None l1_to_l2 w)"

lemma piped_grows:
  "grows synced_history (api_changed two_kube log_sync) w (piped w)"
  "grows synced_history (api_changed two_kube log_sync) w (unpiped w)"
proof -
  show "grows synced_history (api_changed two_kube log_sync) w (piped w)"
    unfolding piped_def by (rule Piper_Pipe_grows [OF log_sync_history prod.collapse [symmetric]])
  show "grows synced_history (api_changed two_kube log_sync) w (unpiped w)"
    using log_sync_history
    unfolding unpiped_def Piper_Unpipe_def deleteSyncBinding_def option.case sync_history_def by blast
qed

definition pipe_request :: request where
  "pipe_request = req ''sync-default-l1-spec.data.power-match-spec.data.power-default-l2''"

lemma deleted_sync_forgotten_witness:
  "\<exists>s t. rtranclp one_step quiet_state s \<and> rtranclp one_step s t \<and>
    map_of (bc_bindings (ct_cache s)) (nns_plain (binding_key nns_plain l1_to_l2)) \<noteq> None \<and>
    map_of (bc_bindings (ct_cache t)) (nns_plain (binding_key nns_plain l1_to_l2)) = None"
proof -
  let ?gs = "api_get_sync log_sync" and ?rq = "binding_key nns_plain l1_to_l2"
  let ?spec = "snd (newSyncBinding nns_plain l1_to_l2)"
  let ?s = "handled_change pipe_request (piped (ct_world quiet_state)) quiet_state"
  let ?t = "\<lambda>s. handled_change pipe_request (unpiped (ct_world s)) s"
  define P where "P w \<longleftrightarrow> (\<forall>spec. ?gs w ?rq = Inr spec \<longrightarrow> sync_models nns_plain spec = sync_models nns_plain ?spec)" for w
  have P: "P w" if "case ?gs w ?rq of Inl e \<Rightarrow> True | Inr spec \<Rightarrow> spec = ?spec" for w
    using that by (auto simp: P_def split: sum.splits)
  have "case ?s of None \<Rightarrow> False | Some s \<Rightarrow>
      map_of (bc_bindings (ct_cache s)) (nns_plain ?rq) \<noteq> None \<and>
      (case ?gs (ct_world s) ?rq of Inl e \<Rightarrow> True | Inr spec \<Rightarrow> spec = ?spec) \<and>
      (case ?gs (unpiped (ct_world s)) ?rq of Inl e \<Rightarrow> True | Inr spec \<Rightarrow> spec = ?spec) \<and>
      (case ?t s of None \<Rightarrow> False | Some t \<Rightarrow> \<not> asked_own syncTag (ct_queue t) ?rq \<and>
         (case ?gs (ct_world t) ?rq of Inl e \<Rightarrow> True | Inr spec \<Rightarrow> False))" by code_simp
  then obtain s t where s: "?s = Some s" "map_of (bc_bindings (ct_cache s)) (nns_plain ?rq) \<noteq> None"
      "P (ct_world s)" "P (unpiped (ct_world s))"
    and t: "?t s = Some t" "\<not> asked_own syncTag (ct_queue t) ?rq" "case ?gs (ct_world t) ?rq of Inl e \<Rightarrow> True | Inr spec \<Rightarrow> False"
    by (auto split: option.splits intro!: P)
  have "case ?gs (ct_world quiet_state) ?rq of Inl e \<Rightarrow> True | Inr spec \<Rightarrow> spec = ?spec"
    "case ?gs (piped (ct_world quiet_state)) ?rq of Inl e \<Rightarrow> True | Inr spec \<Rightarrow> spec = ?spec" by code_simp+
  from handled_change_steps [of _ _ _ _ P, OF s(1) piped_grows(1) this [THEN P]]
    handled_change_steps [of _ _ _ _ P, OF t(1) piped_grows(2) s(3,4)]
  have st: "rtranclp (\<lambda>s t. one_step s t \<and> P (ct_world s)) quiet_state s"
    "rtranclp (\<lambda>s t. one_step s t \<and> P (ct_world s)) s t" .
  then have all: "rtranclp (\<lambda>s t. one_step s t \<and> P (ct_world s)) quiet_state t" by (rule rtranclp_trans)
  have steps: "rtranclp one_step a b" if "rtranclp (\<lambda>s t. one_step s t \<and> P (ct_world s)) a b" for a b
    using that by (rule rtranclp_mono [THEN predicate2D, rotated]) blast
  from t(3) obtain x where "?gs (ct_world t) ?rq = Inl x" by (auto split: sum.splits)
  moreover have "sync_start ?gs quiet_state"
    by (auto simp: sync_start_def quiet_state_def api_get_sync_def log_sync_def)
  ultimately have "map_of (bc_bindings (ct_cache t)) (nns_plain ?rq) = None"
    using deleted_sync_forgotten [OF beside_history nns_plain_documented binding_key_plain _ all [unfolded P_def]] t(2) by blast
  with st [THEN steps] s(2) show ?thesis by blast
qed

end
