(* ===== verification/Sync_Rest.thy ===== *)
theory Sync_Rest
  imports Sync_Queue
begin

text \<open>
  The sync controller left alone comes to rest: when nobody else changes the cluster, every binding
  copies from source to target, no model is the target of two bindings and the models do not depend
  on each other in a cycle, no schedule of calls that return no error goes on for ever. What gets
  smaller is the multiset of the bindings that are not settled, in the order of the models, and with
  the same bindings the queue.
\<close>

text \<open>Setting a field to the value it has gives the same object.\<close>

definition set_there_same :: "'w kube \<Rightarrow> bool" where
  "set_there_same ku \<longleftrightarrow>
     (\<forall>ob v p. spec_path p \<longrightarrow> ku_nested ku ob p = Inr (Some v) \<longrightarrow> ku_set_nested ku ob v p = Inr ob)"

section \<open>Bindings in an order\<close>

abbreviation tgt_key :: "binding \<Rightarrow> change" where
  "tgt_key b \<equiv> obj_key (sc_Target b)"

definition model_edges :: "binding set \<Rightarrow> (change \<times> change) set" where
  "model_edges B = (\<lambda>b. (obj_key (sc_Source b), obj_key (sc_Target b))) ` B"

definition arranged :: "binding set \<Rightarrow> bool" where
  "arranged B \<longleftrightarrow> finite B \<and> acyclic (model_edges B) \<and> inj_on tgt_key B \<and>
     (\<forall>b \<in> B. spec_ok b \<and> sc_Mode b = MatchMode \<and> Auri_Gvk (sc_Target b) \<noteq> sync_gvk)"

definition sync_bindings :: "nn_string \<Rightarrow> (request \<Rightarrow> get_error + sync_spec) \<Rightarrow> binding set" where
  "sync_bindings nns G = {binding_for nns spec rq | rq spec. G rq = Inr spec}"

text \<open>The binding of a model comes before those of the models the other depends on.\<close>

abbreviation downstream :: "binding set \<Rightarrow> (binding \<times> binding) set" where
  "downstream B \<equiv> downhill (model_edges B) tgt_key"

lemma downstream_order: "arranged B \<Longrightarrow> wf (downstream B)" "arranged B \<Longrightarrow> trans (downstream B)"
  by (simp_all add: arranged_def model_edges_def downhill_order)

lemma downstream_next:
  "x \<in> B \<Longrightarrow> obj_key (sc_Source x) = tgt_key b \<Longrightarrow> (x, b) \<in> downstream B"
  by (rule downhill_edge) (auto simp: model_edges_def intro: image_eqI [where x = x])

section \<open>Progress\<close>

definition unsettled :: "'w kube \<Rightarrow> binding set \<Rightarrow> 'w \<Rightarrow> binding multiset" where
  "unsettled ku B w = mset_set {b \<in> B. \<not> settled ku b w}"

abbreviation sync_moves :: "'w kube \<Rightarrow> 'w get_sync \<Rightarrow> ('w \<Rightarrow> change list) \<Rightarrow> binding set \<Rightarrow> 'w \<Rightarrow> 'w \<Rightarrow> bool" where
  "sync_moves ku gs hist B \<equiv> moves ku gs hist (unsettled ku B) (mult (downstream B))"

lemma settled_get: "ku_get ku w' = ku_get ku w \<Longrightarrow> settled ku b w' = settled ku b w"
  by (simp add: settled_def attr_at_def GetObj_def)

lemma unsettled_of_objects [simp]: "of_objects ku (unsettled ku B)"
  unfolding of_objects_def unsettled_def
proof (intro allI impI)
  fix w w' assume "ku_get ku w' = ku_get ku w"
  from settled_get [OF this] show "mset_set {b \<in> B. \<not> settled ku b w'} = mset_set {b \<in> B. \<not> settled ku b w}" by (simp only:)
qed

lemma sync_moves_trans:
  "arranged B \<Longrightarrow> sync_moves ku gs hist B w1 w2 \<Longrightarrow> sync_moves ku gs hist B w2 w3 \<Longrightarrow> sync_moves ku gs hist B w1 w3"
  by (rule moves_trans) (simp_all add: trans_mult downstream_order)

text \<open>A copy that changes the target settles the binding.\<close>

lemma copy_settles:
  assumes laws: "kube_laws ku" "calm_laws ku sync_gvk gs hist" "set_there_same ku" and B: "arranged B" and b: "b \<in> B"
    and obs: "GetObj ku w (sc_Source b) = Inr src" "GetObj ku w (sc_Target b) = Inr tgt"
    and v: "GetAttr ku src (a_Path (sc_Source b)) = Inr v" "ku_set_nested ku tgt v (AttrPathSlice (a_Path (sc_Target b))) = Inr tgt'"
    and changed: "tgt' \<noteq> tgt"
    and get: "\<And>g n. ku_get ku w' g n = (if (g, n) = tgt_key b then Inr tgt' else ku_get ku w g n)"
  shows "(unsettled ku B w', unsettled ku B w) \<in> mult (downstream B)"
  unfolding unsettled_def
proof (rule mset_set_smaller)
  from B b have ok: "spec_ok b" by (auto simp: arranged_def)
  show "finite {b \<in> B. \<not> settled ku b w}" "finite {b \<in> B. \<not> settled ku b w'}" using B by (simp_all add: arranged_def)
  have other: "GetObj ku w' ar = GetObj ku w ar" if "obj_key ar \<noteq> tgt_key b" for ar
    using that get [of "Auri_Gvk ar" "SpacedName ar"] by (auto simp: GetObj_def obj_key_def split: if_splits)
  have "attr_at ku w (sc_Target b) \<noteq> Some v"
  proof
    assume "attr_at ku w (sc_Target b) = Some v"
    then have "ku_nested ku tgt (AttrPathSlice (a_Path (sc_Target b))) = Inr (Some v)"
      using obs(2) by (auto simp: attr_at_def GetAttr_def split: sum.splits option.splits)
    with laws(3) ok v(2) changed show False by (auto simp: spec_ok_def set_there_same_def)
  qed
  moreover have src: "attr_at ku w (sc_Source b) = Some v" using obs(1) v(1) by (simp add: attr_at_def)
  ultimately have before: "\<not> settled ku b w" by (auto simp: settled_def)
  have "obj_key (sc_Source b) \<noteq> tgt_key b" using ok by (auto simp: spec_ok_def same_object_def obj_key_def)
  then have "attr_at ku w' (sc_Source b) = Some v" using src other by (simp add: attr_at_def)
  moreover have "attr_at ku w' (sc_Target b) = Some v"
    using get kube_lawsD(4) [OF laws(1) v(2)] by (simp add: attr_at_def GetObj_def GetAttr_def obj_key_def)
  ultimately have after: "settled ku b w'" by (simp add: settled_def)
  with before b show "{b \<in> B. \<not> settled ku b w} - {b \<in> B. \<not> settled ku b w'} \<noteq> {}" by blast
  fix x assume "x \<in> {b \<in> B. \<not> settled ku b w'} - {b \<in> B. \<not> settled ku b w}"
  then have x: "x \<in> B" "settled ku x w" "\<not> settled ku x w'" by auto
  have "obj_key (sc_Source x) = tgt_key b \<or> tgt_key x = tgt_key b"
  proof (rule ccontr)
    assume "\<not> ?thesis"
    with other have "GetObj ku w' (sc_Source x) = GetObj ku w (sc_Source x)" "GetObj ku w' (sc_Target x) = GetObj ku w (sc_Target x)"
      by auto
    with x(2,3) show False by (simp add: settled_def attr_at_def)
  qed
  moreover have "tgt_key x \<noteq> tgt_key b" using B x b after by (auto simp: arranged_def dest: inj_onD)
  ultimately show "\<exists>b \<in> {b \<in> B. \<not> settled ku b w} - {b \<in> B. \<not> settled ku b w'}. (x, b) \<in> downstream B"
    using downstream_next [OF x(1)] b before after by blast
qed

lemma copy_moves:
  assumes laws: "kube_laws ku" "calm_laws ku sync_gvk gs hist" "set_there_same ku" and B: "arranged B" and b: "b \<in> B"
    and run: "enforce_binding ku nns r b w = (w', e)"
  shows "sync_moves ku gs hist B w w'"
proof -
  note L = kube_lawsD [OF laws(1)] and C = calm_lawsD [OF laws(2)]
  from B b have ok: "spec_ok b" "sc_Mode b = MatchMode" "Auri_Gvk (sc_Target b) \<noteq> sync_gvk" by (auto simp: arranged_def)
  note path = ok(1) [unfolded spec_ok_def]
  show ?thesis
  proof (cases "w' = w")
    case False
    then obtain src tgt v tgt' where run': "GetObj ku w (sc_Source b) = Inr src" "GetObj ku w (sc_Target b) = Inr tgt"
      "GetAttr ku src (a_Path (sc_Source b)) = Inr v" "ku_set_nested ku tgt v (AttrPathSlice (a_Path (sc_Target b))) = Inr tgt'"
      "ku_update ku tgt' w = (w', e)"
      using run ok(2) by (auto simp: enforce_binding_def matchAttr_def MatchMode_def SyncMode_def split: sum.splits if_splits)
    have key: "ku_key ku tgt' = tgt_key b"
      using L(1) run'(2) L(5) [OF run'(4)] path by (auto simp: GetObj_def obj_key_def)
    then have gs: "gs w' = gs w" using C(3) [OF run'(5)] ok(3) by (simp add: obj_key_def)
    show ?thesis
    proof (cases "e \<noteq> None \<or> tgt' = tgt")
      case True
      with run'(2) have "e \<noteq> None \<or> ku_get ku w (fst (tgt_key b)) (snd (tgt_key b)) = Inr tgt'"
        by (auto simp: GetObj_def obj_key_def)
      then show ?thesis
        using update_still [OF laws(1,2) _ run'(5)] key ok(3) by (auto simp: obj_key_def)
    next
      case changed: False
      then have upd: "ku_update ku tgt' w = (w', None)" using run'(5) by simp
      have get: "ku_get ku w' g n = (if (g, n) = tgt_key b then Inr tgt' else ku_get ku w g n)" for g n
        using L(2) [OF upd] key by auto
      from copy_settles [OF laws B b run'(1-4) _ get] changed gs show ?thesis by (simp add: moves_def)
    qed
  qed (simp add: still_moves)
qed

lemma enforce_loop_moves:
  assumes "kube_laws ku" "calm_laws ku sync_gvk gs hist" "set_there_same ku" "arranged B"
  shows "set bds \<subseteq> B \<Longrightarrow> enforce_loop ku nns r bds (w, e0) = (w', e) \<Longrightarrow> sync_moves ku gs hist B w w'"
proof (induction bds arbitrary: w e0)
  case Nil
  then show ?case by (simp add: still_moves)
next
  case (Cons b bds)
  obtain w1 e1 where b: "enforce_binding ku nns r b w = (w1, e1)" by fastforce
  with Cons.prems(2) have rest: "enforce_loop ku nns r bds (w1, e1) = (w', e)" by simp
  from Cons.prems(1) have mem: "b \<in> B" "set bds \<subseteq> B" by auto
  from sync_moves_trans [OF assms(4) copy_moves [OF assms mem(1) b] Cons.IH [OF mem(2) rest]] show ?case .
qed

section \<open>The cache holds these bindings\<close>

definition cache_in :: "binding set \<Rightarrow> binding_cache \<Rightarrow> bool" where
  "cache_in B bc \<longleftrightarrow> (\<forall>n b. map_of (bc_bindings bc) n = Some b \<longrightarrow> b \<in> B \<and> bd_name b = n) \<and>
     (\<forall>m n b. lookup2 (bc_modelToBindings bc) m n = Some b \<longrightarrow> b \<in> B)"

lemma Add_cache_in:
  "BindingCache_Add ku nns b (bc, w) = ((bc', w'), e) \<Longrightarrow> b \<in> B \<Longrightarrow> cache_in B bc \<Longrightarrow> cache_in B bc'"
  by (erule Add_cases) (auto simp: cache_in_def bc_link_def bc_enter_def go_map_simps split: if_splits)

lemma Remove_cache_in: "cache_in B bc \<Longrightarrow> cache_in B (BindingCache_Remove nns name bc)"
  by (auto simp: cache_in_def BindingCache_Remove_def go_map_simps split: option.splits if_splits)

lemma doEnforce_moves:
  assumes "kube_laws ku" "calm_laws ku sync_gvk gs hist" "set_there_same ku" "arranged B" and "cache_in B bc" and ord: "range_order ord"
    and "doEnforce ku nns ord rq bc w = (w', e)"
  shows "sync_moves ku gs hist B w w'"
proof (cases "map_of (bc_modelToBindings bc) (nns rq)")
  case None
  with assms(7) show ?thesis by (simp add: doEnforce_def still_moves)
next
  case (Some bds)
  have bds: "set (map snd (range_map ord bds)) \<subseteq> B"
  proof
    fix b assume "b \<in> set (map snd (range_map ord bds))"
    then obtain n where "map_of bds n = Some b" by (auto simp: set_range_map [OF ord])
    with Some have "lookup2 (bc_modelToBindings bc) (nns rq) n = Some b" by (simp add: lookup2_def)
    with assms(5) show "b \<in> B" by (auto simp: cache_in_def)
  qed
  from Some assms(7) have "enforce_loop ku nns (nns rq) (map snd (range_map ord bds)) (w, None) = (w', e)"
    by (simp add: doEnforce_def)
  from enforce_loop_moves [OF assms(1-4) bds this] show ?thesis .
qed

lemma watch_kind_still:
  "calm_laws ku sync_gvk gs hist \<Longrightarrow> watch_kind ku ar (bc, w) = ((bc', w'), e) \<Longrightarrow> still ku gs hist w w'"
  by (auto simp: watch_kind_def addWatchFunc_def Let_def still_def dest: calm_lawsD(4)
      split: if_splits prod.splits option.splits sum.splits)

lemma Add_still:
  "calm_laws ku sync_gvk gs hist \<Longrightarrow> BindingCache_Add ku nns b (bc, w) = ((bc', w'), e) \<Longrightarrow> still ku gs hist w w'"
  unfolding BindingCache_Add_def
  by (auto split: if_splits prod.splits option.splits intro: still_trans watch_kind_still)

text \<open>A call without error, for the Sync objects that there are.\<close>

lemma Reconcile_moves:
  assumes laws: "kube_laws ku" "calm_laws ku sync_gvk gs hist" "set_there_same ku" "nns_documented nns" and B: "arranged (sync_bindings nns (gs w))"
    and plain: "\<forall>rq spec. gs w rq = Inr spec \<longrightarrow> plain_name rq"
    and bc: "cache_in (sync_bindings nns (gs w)) bc" and ord: "range_order ord"
    and run: "Reconcile ku gs nns ord q (bc, w) = ((bc', w'), None)"
  shows "sync_moves ku gs hist (sync_bindings nns (gs w)) w w' \<and> cache_in (sync_bindings nns (gs w)) bc'"
proof -
  let ?B = "sync_bindings nns (gs w)"
  obtain r tag where q: "DemuxRequest q = (r, tag)" by fastforce
  note enforce = doEnforce_moves [OF laws(1,2,3) B _ ord]
  show ?thesis
  proof (cases "tag = syncTag")
    case False
    with run q bc enforce show ?thesis
      by (auto simp: Reconcile_def still_moves split: if_splits prod.splits)
  next
    case True
    with run q have sync: "doSync ku gs nns ord r (bc, w) = ((bc', w'), None)" by (simp add: Reconcile_def)
    show ?thesis
    proof (cases "gs w r")
      case (Inl x)
      then obtain s where x: "x = NotFound s" using sync by (cases x) (auto simp: doSync_def)
      have "map_of (bc_bindings bc) (nns r) = None"
      proof (rule ccontr)
        assume "map_of (bc_bindings bc) (nns r) \<noteq> None"
        then obtain b where "b \<in> ?B" "bd_name b = nns r" using bc by (auto simp: cache_in_def)
        then obtain rq spec where "gs w rq = Inr spec" "nns rq = nns r" by (auto simp: sync_bindings_def)
        with plain plain_name_unique [OF laws(4), of rq r] Inl show False by auto
      qed
      with sync Inl x bc show ?thesis
        by (auto simp: doSync_def Let_def finalize_def still_moves Remove_cache_in)
    next
      case (Inr spec)
      have b: "binding_for nns spec r \<in> ?B" using Inr by (auto simp: sync_bindings_def)
      obtain bc1 w1 where add: "BindingCache_Add ku nns (binding_for nns spec r) (bc, w) = ((bc1, w1), None)"
        and enf: "doEnforce ku nns ord (SpacedName (sc_Source spec)) bc1 w1 = (w', None)" "bc' = bc1"
        using sync Inr by (auto simp: doSync_def binding_for_def Let_def split: prod.splits option.splits)
      note c = Add_cache_in [OF add b bc]
      from sync_moves_trans [OF B still_moves [OF Add_still [OF laws(2) add]] enforce [OF c enf(1)]] c enf(2)
      show ?thesis by simp
    qed
  qed
qed

section \<open>Steps of the controller alone\<close>

interpretation sync_rest: resting
    "(kube_laws ku \<and> calm_laws ku sync_gvk gs hist \<and> set_there_same ku \<and> nns_documented nns \<and> arranged (sync_bindings nns G) \<and>
      (\<forall>rq spec. G rq = Inr spec \<longrightarrow> plain_name rq)) \<and> history_laws ku hist (sync_changed ku gs)"
    "sync_Reconcile ku gs nns" "Reconcile_failed ku gs nns" event_requests hist "sync_changed ku gs" sync_gvk syncTag
    "mult (downstream (sync_bindings nns G))" "unsettled ku (sync_bindings nns G)"
    "\<lambda>bc w. gs w = G \<and> cache_in (sync_bindings nns G) bc"
  for ku gs nns hist G
proof (unfold_locales, goal_cases)
  case 1
  then show ?case by (intro wf_mult downstream_order) blast
next
  case (2 bc w ord q bc' w')
  then have laws: "kube_laws ku" "calm_laws ku sync_gvk gs hist" "set_there_same ku" "nns_documented nns" and G: "gs w = G" by blast+
  from 2 have "sync_moves ku gs hist (sync_bindings nns (gs w)) w w' \<and> cache_in (sync_bindings nns (gs w)) bc'"
    unfolding G by (intro Reconcile_moves [OF laws, of w, unfolded G]) (auto simp: sync_Reconcile_def)
  with moves_progress [OF unsettled_of_objects, of ku gs hist _ _ w w'] G show ?case by blast
qed

abbreviation sync_calm ::
  "'w kube \<Rightarrow> 'w get_sync \<Rightarrow> nn_string \<Rightarrow> ('w \<Rightarrow> change list) \<Rightarrow> 'w sync_state \<Rightarrow> 'w sync_state \<Rightarrow> bool" where
  "sync_calm ku gs nns hist \<equiv> calm_step (sync_Reconcile ku gs nns) (Reconcile_failed ku gs nns) event_requests hist"

section \<open>The server with a history is calm\<close>

lemma set_nested_there: "nested v p = Inr (Some x) \<Longrightarrow> set_nested v x p = Inr v"
proof (induction v x p rule: set_nested.induct)
  case (2 m x k ks)
  then obtain u where "map_of m k = Some u" "nested u ks = Inr (Some x)" by (auto split: option.splits)
  moreover have "AList.update k u m = m" if "map_of m k = Some u" for u
    using that by (induction m) auto
  ultimately show ?case using "2.IH" by simp
qed auto

lemma log_kube_set_there: "set_there_same (log_kube refused)"
  unfolding set_there_same_def
proof (intro allI impI)
  fix ob v p assume "spec_path p" "ku_nested (log_kube refused) ob p = Inr (Some v)"
  then show "ku_set_nested (log_kube refused) ob v p = Inr ob"
    using set_nested_there [of "JObj ob" p v] by (auto simp: log_kube_def mem_kube_def spec_path_def obj_of_def)
qed

definition lamp_rank :: "change \<Rightarrow> nat" where
  "lamp_rank k = (if n_Name (snd k) = ''l1'' then 0 else 1)"

lemma two_syncs_arranged: "arranged (sync_bindings nns_plain (table_get two_syncs w))"
proof -
  let ?bs = "map (\<lambda>(rq, spec). binding_for nns_plain spec rq) two_syncs"
  have B: "sync_bindings nns_plain (table_get two_syncs w) \<subseteq> set ?bs"
    using table_get_mem [of two_syncs w] by (force simp: sync_bindings_def)
  have "list_all (\<lambda>b. spec_ok b \<and> sc_Mode b = MatchMode \<and> Auri_Gvk (sc_Target b) \<noteq> sync_gvk \<and>
      lamp_rank (obj_key (sc_Source b)) < lamp_rank (tgt_key b)) ?bs" by code_simp
  then have ok: "spec_ok b \<and> sc_Mode b = MatchMode \<and> Auri_Gvk (sc_Target b) \<noteq> sync_gvk \<and>
      lamp_rank (obj_key (sc_Source b)) < lamp_rank (tgt_key b)" if "b \<in> set ?bs" for b
    using that unfolding list_all_iff by blast
  have "distinct (map tgt_key ?bs)" by code_simp
  then have "inj_on tgt_key (set ?bs)" by (simp only: distinct_map)
  moreover have "model_edges (set ?bs) \<subseteq> measure lamp_rank"
    unfolding model_edges_def by (intro image_subsetI) (simp only: in_measure ok)
  then have "acyclic (model_edges (set ?bs))" by (rule acyclic_subset [OF wf_acyclic [OF wf_measure]])
  moreover have "model_edges (sync_bindings nns_plain (table_get two_syncs w)) \<subseteq> model_edges (set ?bs)"
    using B by (auto simp: model_edges_def)
  ultimately show ?thesis
    unfolding arranged_def using B ok by (meson acyclic_subset finite_set finite_subset inj_on_subset subsetD)
qed

section \<open>Properties\<close>

text \<open>
  C20. Left alone, the sync controller comes to rest with all bindings enforced. When all Sync objects
  copy from source to target, no model is the target of two and the models form no cycle, no sequence
  of calls without error, in whatever order of the requests, is infinite; and once the queue is empty
  and no error was dropped in a round, the attributes of every binding agree.
\<close>

theorem sync_comes_to_rest:
  assumes "kube_laws ku" "history_laws ku hist (sync_changed ku gs)" "calm_laws ku sync_gvk gs hist" "nns_documented nns"
    and "set_there_same ku" "arranged (sync_bindings nns (gs (ct_world s0)))" "\<forall>rq spec. gs (ct_world s0) rq = Inr spec \<longrightarrow> plain_name rq"
    and "sync_start gs s0" "finite (ct_queue s0)"
  shows "(\<forall>f. f 0 = s0 \<longrightarrow> (\<exists>i. \<not> sync_calm ku gs nns hist (f i) (f (Suc i)))) \<and>
    (\<forall>s. rtranclp (sync_calm ku gs nns hist) s0 s \<longrightarrow> ct_queue s = {} \<longrightarrow> ct_dropped s = {} \<longrightarrow>
      (\<forall>b \<in> sync_bindings nns (gs (ct_world s0)). settled ku b (ct_world s)))"
proof -
  let ?G = "gs (ct_world s0)"
  note ok = conjI [OF conjI [OF assms(1) conjI [OF assms(3) conjI [OF assms(5) conjI [OF assms(4) conjI [OF assms(6,7)]]]]] assms(2)]
  have start: "sync_rest.calm_inv gs ?G nns s0"
    unfolding sync_rest.calm_inv_def using assms(8,9) by (simp add: sync_start_def new_binding_cache_def cache_in_def)
  have ends: "\<exists>i. \<not> sync_calm ku gs nns hist (f i) (f (Suc i))" if "f 0 = s0" for f
    by (rule sync_rest.calm_run_ends [OF ok]) (simp add: that start)
  have rest: "settled ku b (ct_world s)"
    if run: "rtranclp (sync_calm ku gs nns hist) s0 s" and quiet: "ct_queue s = {}" "ct_dropped s = {}"
      and b: "b \<in> sync_bindings nns ?G" for s b
  proof -
    from sync_rest.calm_steps.reached [OF run] ok start have "sync_rest.calm_inv gs ?G nns s" by blast
    then have G: "gs (ct_world s) = ?G" by (simp add: sync_rest.calm_inv_def)
    have steps: "rtranclp (sync_step ku gs nns hist) s0 s"
      unfolding sync_step_def by (rule sync_rest.calm_steps [OF run])
    from b obtain rq spec where spec: "?G rq = Inr spec" "b = binding_for nns spec rq" by (auto simp: sync_bindings_def)
    with assms(6) b have "spec_ok spec" by (auto simp: arranged_def)
    with all_cared_for [OF assms(1,2,4,8) steps, of rq spec] spec assms(7) G quiet
    show ?thesis by (simp add: asked_own_def)
  qed
  from ends rest show ?thesis by blast
qed

lemma sync_comes_to_rest_witness:
  "\<not> (\<exists>f. f 0 = first_state \<and> (\<forall>i. sync_calm (log_kube (\<lambda>ob. False)) (table_get two_syncs) nns_plain snd (f i) (f (Suc i))))"
proof -
  have "plain_name rq" if "table_get two_syncs w rq = Inr spec" for w rq spec
  proof -
    have "list_all (\<lambda>(rq, spec). plain_name rq) two_syncs" by code_simp
    with table_get_mem [OF that] show ?thesis by (auto simp only: list_all_iff)
  qed
  then have plain: "\<forall>rq spec. table_get two_syncs (ct_world first_state) rq = Inr spec \<longrightarrow> plain_name rq" by blast
  have "finite (ct_queue first_state)" by (simp add: first_state_def)
  from sync_comes_to_rest [OF log_kube_laws log_kube_history log_kube_calm nns_plain_documented log_kube_set_there two_syncs_arranged
      plain first_state_start this] show ?thesis by blast
qed

end
