(* ===== verification/Mount_Webhook.thy ===== *)
theory Mount_Webhook
  imports Webhook Mounts
begin

text \<open>
  What the mount webhook sees of the mounts that \<open>digi space mount\<close> makes: the model the command sends
  to the API server comes back in a review of the update, and is read again at the next start.
  \<open>sjson_top\<close> states that an edit of the text leaves the other keys at the top as they are.
\<close>

definition same_but :: "string \<Rightarrow> obj \<Rightarrow> obj \<Rightarrow> bool" where
  "same_but k ob ob' \<longleftrightarrow> (\<forall>k'. k' \<noteq> k \<longrightarrow> map_of ob' k' = map_of ob k')"

definition sjson_top :: "'j sjson \<Rightarrow> bool" where
  "sjson_top sj \<longleftrightarrow>
     (\<forall>j ob p s j'. sj_decode sj j = Inr ob \<longrightarrow> object_path p \<longrightarrow> plain_text s \<longrightarrow> sj_SetRaw sj j p (quoted s) = Inr j' \<longrightarrow>
        (\<exists>ob'. sj_decode sj j' = Inr ob' \<and> same_but (hd (sjson_path p)) ob ob')) \<and>
     (\<forall>j ob p j'. sj_decode sj j = Inr ob \<longrightarrow> object_path p \<longrightarrow> sj_Delete sj j p = Inr j' \<longrightarrow>
        (\<exists>ob'. sj_decode sj j' = Inr ob' \<and> same_but (hd (sjson_path p)) ob ob'))"

lemma pathPrefixStr_top: "hd (sjson_path (pathPrefixStr pl nns m @ s)) = ''spec''"
  by (simp add: pathPrefixStr_def trim_left_def sjson_path_char sjson_path_dot is_meta_def cons_key_def)

text \<open>A command changes nothing outside \<open>spec\<close>, whatever it does to the mounts.\<close>

lemma do_mount_top:
  assumes top: "sjson_top sj" and nns: "nns_documented nns" "plain_source pl m" and plain: "plain_text (m_Mode m)" "plain_text (m_Status m)"
    and ob: "sj_decode sj tj = Inr ob" and run: "do_mount pl nns sj opr m tj = Inr (tj', m')"
  shows "\<exists>ob'. sj_decode sj tj' = Inr ob' \<and> same_but ''spec'' ob ob'"
proof -
  let ?p = "pathPrefixStr pl nns m"
  have set_raw: "\<exists>b. sj_decode sj j' = Inr b \<and> same_but ''spec'' ob b"
    if "sj_decode sj j = Inr a" "same_but ''spec'' ob a" "plain_text t" "object_path (?p @ s)" "sj_SetRaw sj j (?p @ s) (quoted t) = Inr j'" for j j' a s t
  proof -
    from top that(1,3,4,5) obtain b where "sj_decode sj j' = Inr b" "same_but (hd (sjson_path (?p @ s))) a b"
      unfolding sjson_top_def by blast
    with that(2) show ?thesis unfolding pathPrefixStr_top by (auto simp: same_but_def)
  qed
  note op = object_attr_paths [OF nns]
  have self: "same_but ''spec'' ob ob" by (simp add: same_but_def)
  have plain_consts: "plain_text MountInactiveStatus" "plain_text MountActiveStatus" by code_simp+
  from run consider
    (mount) tj1 where "sj_SetRaw sj tj (?p @ MountModeAttrPath) (quoted (m_Mode m)) = Inr tj1"
      "sj_SetRaw sj tj1 (?p @ MountStatusAttrPath) (quoted (m_Status m)) = Inr tj'"
  | (unmount) "sj_Delete sj tj ?p = Inr tj'"
  | (yield) "sj_SetRaw sj tj (?p @ MountStatusAttrPath) (quoted MountInactiveStatus) = Inr tj'"
  | (activate) "sj_SetRaw sj tj (?p @ MountStatusAttrPath) (quoted MountActiveStatus) = Inr tj'"
    by (auto simp: do_mount_def Let_def split: if_splits sum.split_asm)
  then show ?thesis
  proof cases
    case mount
    with set_raw [OF ob self plain(1) op(1)] set_raw [OF _ _ plain(2) op(2)] show ?thesis by blast
  next
    case unmount
    from top ob op(3) this obtain b where "sj_decode sj tj' = Inr b" "same_but (hd (sjson_path ?p)) ob b"
      unfolding sjson_top_def by blast
    with pathPrefixStr_top [of pl nns m "[]"] show ?thesis by auto
  next
    case yield
    from set_raw [OF ob self plain_consts(1) op(2) yield] show ?thesis .
  next
    case activate
    from set_raw [OF ob self plain_consts(2) op(2) activate] show ?thesis .
  qed
qed

lemma do_mounts_top:
  assumes "sjson_top sj" and "nns_documented nns"
  shows "\<forall>m \<in> set ms. plain_source pl m \<and> plain_text (m_Mode m) \<and> plain_text (m_Status m) \<Longrightarrow> sj_decode sj tj = Inr ob \<Longrightarrow>
    do_mounts pl nns sj opr ms tj = Inr tj' \<Longrightarrow> \<exists>ob'. sj_decode sj tj' = Inr ob' \<and> same_but ''spec'' ob ob'"
proof (induction ms arbitrary: tj ob)
  case (Cons m ms)
  from Cons.prems(3) obtain tj1 m' where 1: "do_mount pl nns sj opr m tj = Inr (tj1, m')"
    "do_mounts pl nns sj opr ms tj1 = Inr tj'" by (auto split: sum.splits)
  from do_mount_top [OF assms _ _ _ Cons.prems(2) 1(1)] Cons.prems(1) obtain ob1
    where ob1: "sj_decode sj tj1 = Inr ob1" "same_but ''spec'' ob ob1" by auto
  from Cons.IH [OF _ ob1(1) 1(2)] Cons.prems(1) obtain ob'
    where "sj_decode sj tj' = Inr ob'" "same_but ''spec'' ob1 ob'" by auto
  with ob1(2) show ?case by (auto simp: same_but_def)
qed (auto simp: same_but_def)

lemma tree_sjson_top: "sjson_top tree_sjson"
  unfolding sjson_top_def same_but_def
proof (intro conjI allI impI)
  fix j ob j' :: obj and p s
  assume ob: "sj_decode tree_sjson j = Inr ob"
  obtain q qs where p: "sjson_path p = q # qs" by (cases "sjson_path p") auto
  show "\<exists>ob'. sj_decode tree_sjson j' = Inr ob' \<and> (\<forall>k'. k' \<noteq> hd (sjson_path p) \<longrightarrow> map_of ob' k' = map_of ob k')"
    if "sj_SetRaw tree_sjson j p (quoted s) = Inr j'"
    using that ob p by (auto simp: tree_sjson_def obj_of_def go_map_simps)
  show "\<exists>ob'. sj_decode tree_sjson j' = Inr ob' \<and> (\<forall>k'. k' \<noteq> hd (sjson_path p) \<longrightarrow> map_of ob' k' = map_of ob k')"
    if "sj_Delete tree_sjson j p = Inr j'"
    using that ob p by (cases qs) (auto simp: tree_sjson_def obj_of_def go_map_simps split: option.splits)
qed

section \<open>Properties\<close>

text \<open>
  C11. What the webhook answers to the mounts of the command line: the model that \<open>digi space mount\<close> sends
  holds the reference to every source, whichever digis the sources are, the target itself among them,
  as long as their names and namespaces are labels without dots, the mode is plain text and the edit
  succeeds; but, if the model has no key \<open>.spec.mount\<close> of its own at the top,
  the review of the update allows it and leaves the graph as it is, a review of its creation would
  too, and at the next start the discovery finds no edge in it.
\<close>

theorem mounts_escape_webhook:
  assumes "sjson_laws sj" "sjson_top sj" "nns_documented nns" "plain_text mode" "range_order ord"
    and "NewMounter resolve names target MOUNT mode n = Val (Inr mo)" "\<forall>m \<in> set (mo_Mounts mo). plain_source pl m"
    and "do_mounts pl nns sj (mo_Op mo) (mo_Mounts mo) tj = Inr tj'"
    and "sj_decode sj tj = Inr ob" "sj_decode sj tj' = Inr ob'" "map_of ob MountAttrPath = None"
    and "kl_decode kl old = Inr (Some ob)" "kl_decode kl new = Inr (Some ob')" "kl_diff kl (Some ob') (Some ob) = None"
  shows "(\<forall>m \<in> set (mo_Mounts mo). json_at sj tj' (pathPrefix pl nns m @ [''status'']) = Some (JStr ''active'')) \<and>
    Validate kl ord (Some \<lparr>rq_UID = uid, rq_Operation = op_UPDATE, rq_Object = new, rq_OldObject = old\<rparr>) mt =
      Val (mt, \<lparr>vr_Valid = True, vr_Message = []\<rparr>, None) \<and>
    Validate kl ord (Some \<lparr>rq_UID = uid, rq_Operation = op_CREATE, rq_Object = new, rq_OldObject = old'\<rparr>) mt =
      Val (mt, \<lparr>vr_Valid = True, vr_Message = []\<rparr>, None) \<and>
    object_edges kl ord namespaced ob' = Val []"
proof -
  have ms: "\<forall>m \<in> set (mo_Mounts mo). m_Mode m = mode \<and> m_Status m = MountActiveStatus"
    by (rule NewMounter_fields [OF assms(6)])
  have "plain_text MountActiveStatus" by code_simp
  with ms assms(4,7) do_mounts_top [OF assms(2,3) _ assms(9,8)] assms(10,11)
  have free: "map_of ob' MountAttrPath = None" by (auto simp: same_but_def MountAttrPath_def)
  have "ord [] = []" using assms(5) by (simp add: range_order_def flip: mset_zero_iff)
  with free assms(13) have "object_edges kl ord namespaced ob' = Val []"
    "doCreate kl ord new mt = Val (mt, \<lparr>vr_Valid = True, vr_Message = []\<rparr>, None)"
    by (simp_all add: object_edges_def doCreate_def objId_def getCompositionRefs_def getFlattenRefs_def mountEdges_def)
  moreover have "doUpdate kl new old = (\<lparr>vr_Valid = True, vr_Message = []\<rparr>, None)"
    using assms(12-14) by (simp add: doUpdate_def)
  moreover have "\<forall>m \<in> set (mo_Mounts mo). json_at sj tj' (pathPrefix pl nns m @ [''status'']) = Some (JStr ''active'')"
    using mounted_references [OF assms(1,3,4,6,7,8)] by blast
  ultimately show ?thesis by (simp add: Validate_def)
qed

text \<open>A digi that mounts itself.\<close>

definition room_model :: obj where
  "room_model = [(''apiVersion'', JStr ''d/v1''), (''kind'', JStr ''Room''),
     (''metadata'', JObj [(''name'', JStr ''r''), (''namespace'', JStr ''default'')])]"

definition self_mounter :: mounter where
  "self_mounter = (case NewMounter (\<lambda>_. Inl (Err ''no alias'')) [''/d/v1/Room/default/r''] ''/d/v1/Room/default/r'' MOUNT ''hide'' 3 of
     Val (Inr mo) \<Rightarrow> mo | _ \<Rightarrow> \<lparr>mo_Mounts = [], mo_Op = 0, mo_NumRetry = 0\<rparr>)"

definition self_mounted :: obj where
  "self_mounted = (case do_mounts add_s nns_plain tree_sjson MOUNT (mo_Mounts self_mounter) room_model of
     Inr ob \<Rightarrow> ob | Inl e \<Rightarrow> [])"

definition room_lib :: kube_lib where
  "room_lib = demo_lib\<lparr>kl_decode := (\<lambda>s. Inr (Some (if s = ''new'' then self_mounted else room_model))),
     kl_diff := (\<lambda>n d. None)\<rparr>"

lemma mounts_escape_webhook_witness:
  "json_at tree_sjson self_mounted [''spec'', ''mount'', ''d/v1/rooms'', ''default/r'', ''status''] = Some (JStr ''active'') \<and>
   Validate room_lib rev (Some \<lparr>rq_UID = ''1'', rq_Operation = op_UPDATE, rq_Object = ''new'', rq_OldObject = ''old''\<rparr>) NewMultiTree =
     Val (NewMultiTree, \<lparr>vr_Valid = True, vr_Message = []\<rparr>, None)"
proof -
  have mo: "NewMounter (\<lambda>_. Inl (Err ''no alias'')) [''/d/v1/Room/default/r''] ''/d/v1/Room/default/r'' MOUNT ''hide'' 3 =
      Val (Inr self_mounter)"
    and src: "list_all (plain_source add_s) (mo_Mounts self_mounter)" and hide: "plain_text ''hide''"
    and run: "do_mounts add_s nns_plain tree_sjson (mo_Op self_mounter) (mo_Mounts self_mounter) room_model = Inr self_mounted"
    and path: "map (\<lambda>m. pathPrefix add_s nns_plain m @ [''status'']) (mo_Mounts self_mounter) =
      [[''spec'', ''mount'', ''d/v1/rooms'', ''default/r'', ''status'']]"
    and free: "map_of room_model MountAttrPath = None"
    by code_simp+
  have ord: "range_order rev" and id: "sj_decode tree_sjson j = Inr j"
    and lib: "kl_decode room_lib ''old'' = Inr (Some room_model)" "kl_decode room_lib ''new'' = Inr (Some self_mounted)"
      "kl_diff room_lib (Some self_mounted) (Some room_model) = None" for j
    by (simp_all add: tree_sjson_def room_lib_def)
  from src have src: "\<forall>m \<in> set (mo_Mounts self_mounter). plain_source add_s m" by (simp add: list_all_iff)
  note all = mounts_escape_webhook [OF tree_sjson_laws tree_sjson_top nns_plain_documented hide ord mo src run id id free lib,
      of "''1''" NewMultiTree]
  from path obtain m where "mo_Mounts self_mounter = [m]"
    "pathPrefix add_s nns_plain m @ [''status''] = [''spec'', ''mount'', ''d/v1/rooms'', ''default/r'', ''status'']"
    by (cases "mo_Mounts self_mounter") auto
  with all show ?thesis by (metis list.set_intros(1))
qed

end
