(* ===== verification/Policy_Queue.thy ===== *)
theory Policy_Queue
  imports Work_Queue Policy_Ctl
begin

text \<open>
  The yield policy controller as its manager runs it, with the queue of \<open>Work_Queue\<close>: a policy is
  settled when its condition does not hold, or when its source holds no active mount that its target
  has too. What the mounts codec must keep of a write is the status of every reference.
\<close>

section \<open>The controller and its queue\<close>

definition policy_gvk :: gvk where
  "policy_gvk = (''digi.dev'', ''v1'', ''YieldPolicy'')"

abbreviation policy_changed :: "'w kube \<Rightarrow> 'w get_policy \<Rightarrow> 'w \<Rightarrow> 'w \<Rightarrow> change set" where
  "policy_changed ku gp \<equiv> changed ku policy_gvk gp"

definition policy_event_requests :: "policy_cache \<Rightarrow> change \<Rightarrow> request list" where
  "policy_event_requests pc ch = (case ch of (g, n) \<Rightarrow>
     (if g = policy_gvk then MuxRequest policyTag n else []) @
     (if watched_gvk (pc_watched pc) g then MuxRequest enforceTag n else []))"

type_synonym 'w policy_state = "(policy_cache, 'w) ctl_state"

text \<open>
  The rounds that drop an error: a model cannot be read, the mounts cannot be set, or one of the two
  writes after a handover fails. An error of reading the mounts is returned.
\<close>

definition failed_policy ::
  "'w kube \<Rightarrow> 't mount_json \<Rightarrow> 'q jq \<Rightarrow> order \<Rightarrow> policy \<Rightarrow> 'w \<Rightarrow> bool" where
  "failed_policy ku mj jq ord pl w =
     (case (GetObj ku w (ps_Source pl), GetObj ku w (ps_Target pl), jq_parse jq (ps_Condition pl)) of
        (Inr src, Inr tgt, Inr query) \<Rightarrow>
          (if \<not> fired (jq_run jq query src tgt) then False
           else
             (case (GetMounts ku mj ord src, GetMounts ku mj ord tgt) of
                (Inr sms, Inr tms) \<Rightarrow>
                  (case yield_mounts ord sms tms of
                     Val (sm, tm, True) \<Rightarrow>
                       (case (SetMounts ku mj src sm, SetMounts ku mj tgt tm) of
                          (Inr s', Inr t') \<Rightarrow>
                            (case ku_update ku s' w of
                               (w1, Some e) \<Rightarrow> True
                             | (w1, None) \<Rightarrow> snd (ku_update ku t' w1) \<noteq> None)
                        | _ \<Rightarrow> True)
                   | _ \<Rightarrow> False)
              | _ \<Rightarrow> False))
      | (Inr src, Inr tgt, Inl e) \<Rightarrow> False
      | _ \<Rightarrow> True)"

fun failed_policies ::
  "'w kube \<Rightarrow> 't mount_json \<Rightarrow> 'q jq \<Rightarrow> order \<Rightarrow> policy list \<Rightarrow> 'w \<Rightarrow> string list" where
  "failed_policies ku mj jq ord [] w = []"
| "failed_policies ku mj jq ord (pl # pls) w =
     (if failed_policy ku mj jq ord pl w then [pl_name pl] else []) @
     (case enforce_policy ku mj jq ord pl w of
        Val (w', None) \<Rightarrow> failed_policies ku mj jq ord pls w'
      | _ \<Rightarrow> [])"

definition policy_doEnforce_failed ::
  "'w kube \<Rightarrow> 't mount_json \<Rightarrow> 'q jq \<Rightarrow> nn_string \<Rightarrow> order \<Rightarrow> request \<Rightarrow> policy_cache \<Rightarrow> 'w \<Rightarrow> string list" where
  "policy_doEnforce_failed ku mj jq nns ord rq pc w =
     (case map_of (pc_modelToPolicies pc) (nns rq) of
        None \<Rightarrow> []
      | Some pls \<Rightarrow> failed_policies ku mj jq ord (map snd (range_map ord pls)) w)"

definition policy_Reconcile_failed ::
  "'w kube \<Rightarrow> 't mount_json \<Rightarrow> 'q jq \<Rightarrow> 'w get_policy \<Rightarrow> nn_string \<Rightarrow> order \<Rightarrow> request \<Rightarrow>
   policy_cache \<times> 'w \<Rightarrow> string list" where
  "policy_Reconcile_failed ku mj jq gp nns ord q = (\<lambda>(pc, w). case DemuxRequest q of (rq, tag) \<Rightarrow>
     if tag = policyTag then
       (case gp w rq of
          Inl e \<Rightarrow> []
        | Inr spec \<Rightarrow>
            (case PolicyCache_Add ku nns (policy_spec.extend spec (policy.fields (nns rq))) (pc, w) of
               (st, Some e) \<Rightarrow> []
             | ((pc', w'), None) \<Rightarrow> policy_doEnforce_failed ku mj jq nns ord (SpacedName (ps_Source spec)) pc' w'))
     else if tag = enforceTag then policy_doEnforce_failed ku mj jq nns ord rq pc w
     else [])"

definition policy_step ::
  "'w kube \<Rightarrow> 't mount_json \<Rightarrow> 'q jq \<Rightarrow> 'w get_policy \<Rightarrow> nn_string \<Rightarrow> ('w \<Rightarrow> change list) \<Rightarrow>
   'w policy_state \<Rightarrow> 'w policy_state \<Rightarrow> bool" where
  "policy_step ku mj jq gp nns hist = ctl_step (policy_Reconcile ku mj jq gp nns)
     (policy_Reconcile_failed ku mj jq gp nns) policy_event_requests hist (policy_changed ku gp)"

definition policy_start :: "'w get_policy \<Rightarrow> 'w policy_state \<Rightarrow> bool" where
  "policy_start gp s \<longleftrightarrow> ct_cache s = new_policy_cache \<and> ct_dropped s = {} \<and>
     (\<forall>rq spec. gp (ct_world s) rq = Inr spec \<longrightarrow> set (MuxRequest policyTag rq) \<subseteq> ct_queue s)"

section \<open>What yielding leaves\<close>

text \<open>Also where a reference is nil: a run that returns leaves no active mount of the source shared.\<close>

definition cleared :: "(string \<times> string) set \<Rightarrow> yield_state \<Rightarrow> bool" where
  "cleared S st \<longleftrightarrow> (case st of (sm, tm, u) \<Rightarrow> \<forall>(k, n) \<in> S. \<not> shared_active sm tm k n)"

definition same_keys :: "yield_state \<Rightarrow> yield_state \<Rightarrow> bool" where
  "same_keys st st' \<longleftrightarrow> (case (st, st') of ((sm, tm, u), (sm', tm', u')) \<Rightarrow>
     (\<forall>k n. (lookup2 sm' k n = None \<longleftrightarrow> lookup2 sm k n = None) \<and> (lookup2 tm' k n = None \<longleftrightarrow> lookup2 tm k n = None)) \<and>
     (\<not> u' \<longrightarrow> st' = st))"

lemma same_keys_refl: "same_keys st st"
  by (cases st) (simp add: same_keys_def)

lemma same_keys_trans: "same_keys st1 st2 \<Longrightarrow> same_keys st2 st3 \<Longrightarrow> same_keys st1 st3"
  by (cases st1; cases st2; cases st3) (auto simp: same_keys_def)

lemma same_keysD:
  assumes "same_keys (sm, tm, u) (sm', tm', u')"
  shows "lookup2 sm' k n = None \<longleftrightarrow> lookup2 sm k n = None" and "\<not> u' \<Longrightarrow> sm' = sm \<and> tm' = tm"
  using assms by (auto simp: same_keys_def)

lemma yield_one_cleared:
  assumes "yield_one k n st = Val st'" and "cleared S st"
  shows "cleared (insert (k, n) S) st' \<and> same_keys st st'"
proof -
  obtain sm tm u where st: "st = (sm, tm, u)" by (cases st)
  show ?thesis
  proof (cases "shared_active sm tm k n")
    case False
    with assms(1) st have "st' = st"
      by (auto simp: yield_one_def shared_active_def split: option.splits if_splits)
    with False assms(2) st show ?thesis by (auto simp: cleared_def same_keys_refl)
  next
    case True
    then obtain r t where r: "lookup2 sm k n = Some (Some r)" "lookup2 tm k n = Some (Some t)"
      and st': "st' = (setFunc sm k n (Some (r\<lparr>m_Status := MountInactiveStatus\<rparr>)),
        setFunc tm k n (Some (t\<lparr>m_Status := MountActiveStatus\<rparr>)), True)"
      using assms(1) st by (auto simp: yield_one_def shared_active_def split: option.splits if_splits)
    have "same_keys st st'"
      using r by (simp add: st st' same_keys_def go_map_simps)
    with assms(2) st st' show ?thesis by (auto simp: cleared_def shared_active_def go_map_simps)
  qed
qed

lemma yield_names_cleared:
  "yield_names k ns st = Val st' \<Longrightarrow> cleared S st \<Longrightarrow> cleared (S \<union> {k} \<times> set ns) st' \<and> same_keys st st'"
proof (induction ns arbitrary: S st)
  case (Cons n ns)
  then obtain st1 where st1: "yield_one k n st = Val st1" "yield_names k ns st1 = Val st'"
    by (auto simp: obind_Val_iff)
  note one = yield_one_cleared [OF st1(1) Cons.prems(2)]
  from Cons.IH [OF st1(2) conjunct1 [OF one]] same_keys_trans [OF conjunct2 [OF one]] show ?case
    by (simp add: insert_Times_insert)
qed (simp add: same_keys_refl)

lemma yield_kinds_cleared:
  assumes ord: "range_order ord"
  shows "yield_kinds ord ks st = Val st' \<Longrightarrow> cleared S st \<Longrightarrow>
    cleared (S \<union> {(k, n). k \<in> set ks}) st' \<and> same_keys st st'"
proof (induction ks arbitrary: S st)
  case (Cons k ks)
  obtain sm tm u where st: "st = (sm, tm, u)" by (cases st)
  have "\<exists>st1. yield_kinds ord ks st1 = Val st' \<and> cleared (S \<union> {k} \<times> UNIV) st1 \<and> same_keys st st1"
  proof (cases "map_of tm k")
    case None
    then have "\<not> shared_active sm tm k n" for n by (simp add: shared_active_def lookup2_def)
    with Cons.prems None st show ?thesis by (intro exI [of _ st]) (auto simp: cleared_def same_keys_refl)
  next
    case (Some inner)
    let ?ns = "ord (keys_of (the (map_of sm k)))"
    obtain st1 where st1: "yield_names k ?ns st = Val st1" "yield_kinds ord ks st1 = Val st'"
      using Cons.prems(1) Some st by (auto simp: obind_Val_iff)
    from yield_names_cleared [OF st1(1) Cons.prems(2)]
    have c: "cleared (S \<union> {k} \<times> set ?ns) st1" "same_keys st st1" by auto
    obtain sm1 tm1 u1 where s1: "st1 = (sm1, tm1, u1)" by (cases st1)
    have "\<not> shared_active sm1 tm1 k n" if "n \<notin> set ?ns" for n
    proof -
      have "lookup2 sm k n = None"
        using that by (auto simp: lookup2_def range_order_set [OF ord] keys_of_dom domIff split: option.splits simp del: set_map)
      then have "lookup2 sm1 k n = None" using same_keysD(1) [OF c(2) [unfolded st s1]] by blast
      then show ?thesis by (simp add: shared_active_def)
    qed
    with c(1) s1 have "cleared (S \<union> {k} \<times> UNIV) st1" by (auto simp: cleared_def)
    with c(2) st1(2) show ?thesis by blast
  qed
  then obtain st1 where st1: "yield_kinds ord ks st1 = Val st'" "cleared (S \<union> {k} \<times> UNIV) st1" "same_keys st st1"
    by blast
  have "S \<union> {k} \<times> UNIV \<union> {(x, n). x \<in> set ks} = S \<union> {(x, n). x \<in> set (k # ks)}" by auto
  with Cons.IH [OF st1(1,2)] same_keys_trans [OF st1(3)] show ?case by simp
qed (simp add: same_keys_refl)

lemma yield_mounts_cleared:
  assumes ord: "range_order ord" and run: "yield_mounts ord sm tm = Val (sm', tm', u)"
  shows "\<not> shared_active sm' tm' k n" and "\<not> u \<Longrightarrow> sm' = sm \<and> tm' = tm"
proof -
  have "cleared {} (sm, tm, False)" by (simp add: cleared_def)
  from yield_kinds_cleared [OF ord run [unfolded yield_mounts_def] this]
  have c: "cleared {(k, n). k \<in> set (ord (keys_of sm))} (sm', tm', u)" "same_keys (sm, tm, False) (sm', tm', u)"
    by auto
  show "\<not> shared_active sm' tm' k n"
  proof
    assume sh: "shared_active sm' tm' k n"
    then have "lookup2 sm' k n \<noteq> None" by (auto simp: shared_active_def)
    then have "lookup2 sm k n \<noteq> None" using same_keysD(1) [OF c(2), of k n] by simp
    from lookup2_dom [OF this] have "k \<in> set (ord (keys_of sm))"
      by (auto simp: range_order_set [OF ord] keys_of_dom simp del: set_map)
    with c(1) sh show False by (auto simp: cleared_def)
  qed
  show "\<not> u \<Longrightarrow> sm' = sm \<and> tm' = tm" using same_keysD(2) [OF c(2)] by blast
qed

section \<open>Policies that are settled\<close>

definition policy_settled :: "'w kube \<Rightarrow> 't mount_json \<Rightarrow> 'q jq \<Rightarrow> policy \<Rightarrow> 'w \<Rightarrow> bool" where
  "policy_settled ku mj jq pl w = (\<exists>src tgt query.
     GetObj ku w (ps_Source pl) = Inr src \<and> GetObj ku w (ps_Target pl) = Inr tgt \<and>
     jq_parse jq (ps_Condition pl) = Inr query \<and>
     (fired (jq_run jq query src tgt) \<longrightarrow>
        (\<exists>sm tm. GetMounts ku mj id src = Inr sm \<and> GetMounts ku mj id tgt = Inr tm \<and>
           (\<forall>k n. \<not> shared_active sm tm k n))))"

text \<open>What the code relies on to hand over: mounts that were set are read back with their status.\<close>

definition status_at :: "mounts \<Rightarrow> string \<Rightarrow> string \<Rightarrow> string option option" where
  "status_at ms k n = map_option (map_option m_Status) (lookup2 ms k n)"

definition mount_codec :: "'w kube \<Rightarrow> 't mount_json \<Rightarrow> bool" where
  "mount_codec ku mj \<longleftrightarrow> (\<forall>ob ob' ms. SetMounts ku mj ob ms = Inr ob' \<longrightarrow>
     ku_key ku ob' = ku_key ku ob \<and>
     (\<exists>ms'. GetMounts ku mj id ob' = Inr ms' \<and> status_at ms' = status_at ms))"

lemma shared_active_status:
  "shared_active sm tm k n \<longleftrightarrow> status_at sm k n = Some (Some MountActiveStatus) \<and> status_at tm k n \<noteq> None"
  by (auto simp: shared_active_def status_at_def)

lemma status_at_cong: "map_of ms' = map_of ms \<Longrightarrow> status_at ms' = status_at ms"
  by (intro ext) (simp add: status_at_def lookup2_def)

lemma GetMounts_id:
  assumes "GetMounts ku mj ord ob = Inr ms" and "range_order ord"
  obtains ms' where "GetMounts ku mj id ob = Inr ms'" and "status_at ms' = status_at ms"
  using GetMounts_order [OF assms range_order_id'] status_at_cong that by blast

lemma policy_settledI:
  assumes "GetObj ku w (ps_Source pl) = Inr src" "GetObj ku w (ps_Target pl) = Inr tgt"
    "jq_parse jq (ps_Condition pl) = Inr query"
    and "GetMounts ku mj id src = Inr sm'" "status_at sm' = status_at sm"
    and "GetMounts ku mj id tgt = Inr tm'" "status_at tm' = status_at tm"
    and "\<And>k n. \<not> shared_active sm tm k n"
  shows "policy_settled ku mj jq pl w"
proof -
  have "\<not> shared_active sm' tm' k n" for k n using assms(5,7,8) by (simp add: shared_active_status)
  with assms(1-4,6) show ?thesis unfolding policy_settled_def by blast
qed

text \<open>The two writes after a handover.\<close>

lemma update_both_settles:
  assumes laws: "kube_laws ku" "mount_codec ku mj" and ns: "\<not> same_object (ps_Source pl) (ps_Target pl)"
    and ob: "GetObj ku w (ps_Source pl) = Inr src" "GetObj ku w (ps_Target pl) = Inr tgt"
      "jq_parse jq (ps_Condition pl) = Inr query"
    and set: "SetMounts ku mj src sm = Inr s'" "SetMounts ku mj tgt tm = Inr t'"
    and upd: "ku_update ku s' w = (w1, None)" "ku_update ku t' w1 = (w', None)"
    and none: "\<And>k n. \<not> shared_active sm tm k n"
  shows "policy_settled ku mj jq pl w'"
proof -
  note L = kube_lawsD [OF laws(1)]
  from laws(2) set obtain sm' tm' where rt: "ku_key ku s' = ku_key ku src" "ku_key ku t' = ku_key ku tgt"
    "GetMounts ku mj id s' = Inr sm'" "status_at sm' = status_at sm"
    "GetMounts ku mj id t' = Inr tm'" "status_at tm' = status_at tm" unfolding mount_codec_def by meson
  have keys: "ku_key ku s' = (Auri_Gvk (ps_Source pl), SpacedName (ps_Source pl))"
    "ku_key ku t' = (Auri_Gvk (ps_Target pl), SpacedName (ps_Target pl))"
    using L(1) ob(1,2) rt(1,2) by (simp_all add: GetObj_def)
  have "GetObj ku w' (ps_Source pl) = Inr s'" "GetObj ku w' (ps_Target pl) = Inr t'"
    using L(2) [OF upd(1)] L(2) [OF upd(2)] keys ns by (auto simp: GetObj_def same_object_def)
  from policy_settledI [OF this ob(3) rt(3-6) none] show ?thesis .
qed

lemma enforce_policy_settles:
  assumes laws: "kube_laws ku" "mount_codec ku mj" and ns: "\<not> same_object (ps_Source pl) (ps_Target pl)"
    and ord: "range_order ord"
    and run: "enforce_policy ku mj jq ord pl w = Val (w', None)" and ok: "\<not> failed_policy ku mj jq ord pl w"
  shows "policy_settled ku mj jq pl w \<or> policy_settled ku mj jq pl w'"
proof -
  from ok obtain src tgt where ob: "GetObj ku w (ps_Source pl) = Inr src" "GetObj ku w (ps_Target pl) = Inr tgt"
    by (auto simp: failed_policy_def split: sum.splits)
  with run obtain query where query: "jq_parse jq (ps_Condition pl) = Inr query"
    by (auto simp: enforce_policy_def split: sum.splits)
  show ?thesis
  proof (cases "fired (jq_run jq query src tgt)")
    case False
    with ob query show ?thesis by (auto simp: policy_settled_def)
  next
    case True
    with run ob query obtain sm tm where ms: "GetMounts ku mj ord src = Inr sm" "GetMounts ku mj ord tgt = Inr tm"
      by (auto simp: enforce_policy_def split: sum.splits)
    with run ob query True obtain sm1 tm1 u where y: "yield_mounts ord sm tm = Val (sm1, tm1, u)"
      by (auto simp: enforce_policy_def obind_Val_iff)
    note c = yield_mounts_cleared [OF ord y]
    show ?thesis
    proof (cases u)
      case False
      obtain sm' tm' where "GetMounts ku mj id src = Inr sm'" "status_at sm' = status_at sm1"
        "GetMounts ku mj id tgt = Inr tm'" "status_at tm' = status_at tm1"
        using GetMounts_id [OF ms(1) ord] GetMounts_id [OF ms(2) ord] c(2) [OF False] by metis
      from policy_settledI [OF ob query this c(1)] show ?thesis ..
    next
      case True
      with ok ob query \<open>fired (jq_run jq query src tgt)\<close> ms y obtain s' t' w1 where
        s': "SetMounts ku mj src sm1 = Inr s'" "SetMounts ku mj tgt tm1 = Inr t'" "ku_update ku s' w = (w1, None)"
        and t': "snd (ku_update ku t' w1) = None"
        by (auto simp: failed_policy_def split: sum.splits prod.splits option.splits)
      from t' obtain w2 where w2: "ku_update ku t' w1 = (w2, None)" by (cases "ku_update ku t' w1") simp
      with run ob query \<open>fired (jq_run jq query src tgt)\<close> ms y s' True have "w' = w2"
        by (simp add: enforce_policy_def update_both_def)
      with update_both_settles [OF laws ns ob query s'(1,2,3) w2 c(1)] show ?thesis by simp
    qed
  qed
qed

section \<open>What one call changes\<close>

lemma update_both_grows:
  "history_laws ku hist (policy_changed ku gp) \<Longrightarrow> grows hist (policy_changed ku gp) w (update_both ku s t w)"
  unfolding update_both_def
  by (cases "ku_update ku s w"; cases "ku_update ku t (fst (ku_update ku s w))")
    (auto intro: grows_update grows_changed split: option.splits)

lemma obind_ValE: "obind m f = Val y \<Longrightarrow> (\<And>x. m = Val x \<Longrightarrow> f x = Val y \<Longrightarrow> P) \<Longrightarrow> P"
  by (cases m) auto

lemma enforce_policy_grows:
  "history_laws ku hist (policy_changed ku gp) \<Longrightarrow> enforce_policy ku mj jq ord pl w = Val (w', e) \<Longrightarrow>
    grows hist (policy_changed ku gp) w w'"
  by (auto simp: enforce_policy_def intro: update_both_grows elim!: obind_ValE split: sum.splits if_splits prod.splits)

lemma enforce_policies_grows:
  "history_laws ku hist (policy_changed ku gp) \<Longrightarrow> enforce_policies ku mj jq ord pls w = Val (w', e) \<Longrightarrow>
    grows hist (policy_changed ku gp) w w'"
  by (induction pls arbitrary: w)
    (auto simp: obind_Val_iff intro: enforce_policy_grows grows_changed split: option.splits)

lemma policy_doEnforce_grows:
  "history_laws ku hist (policy_changed ku gp) \<Longrightarrow> policy_doEnforce ku mj jq nns ord rq pc w = Val (w', e) \<Longrightarrow>
    grows hist (policy_changed ku gp) w w'"
  by (auto simp: policy_doEnforce_def intro: enforce_policies_grows split: option.splits)

lemma policy_watch_kind_grows:
  "history_laws ku hist (policy_changed ku gp) \<Longrightarrow> policy_watch_kind ku ar (pc, w) = ((pc', w'), e) \<Longrightarrow>
    grows hist (policy_changed ku gp) w w'"
  by (auto simp: policy_watch_kind_def policy_addWatchFunc_def Let_def intro: grows_watch
      split: if_splits prod.splits option.splits sum.splits)

lemma PolicyCache_Add_grows:
  "history_laws ku hist (policy_changed ku gp) \<Longrightarrow> PolicyCache_Add ku nns p (pc, w) = ((pc', w'), e) \<Longrightarrow>
    grows hist (policy_changed ku gp) w w'"
  unfolding PolicyCache_Add_def
  by (auto split: prod.splits option.splits intro: grows_changed policy_watch_kind_grows)

lemma policy_Reconcile_grows:
  assumes "history_laws ku hist (policy_changed ku gp)"
    and "policy_Reconcile ku mj jq gp nns ord q (pc, w) = Val ((pc', w'), e)"
  shows "grows hist (policy_changed ku gp) w w'"
  using assms(2) unfolding policy_Reconcile_def doPolicy_def Let_def
  by (auto simp: obind_Val_iff split: if_splits sum.splits get_error.splits prod.splits option.splits
      intro: PolicyCache_Add_grows [OF assms(1)] policy_doEnforce_grows [OF assms(1)] grows_changed)

section \<open>Enforcing for a model\<close>

definition policy_linked :: "nn_string \<Rightarrow> policy_cache \<Rightarrow> policy \<Rightarrow> bool" where
  "policy_linked nns pc p \<longleftrightarrow> map_of (pc_policies pc) (pl_name p) = Some p \<and>
     lookup2 (pc_modelToPolicies pc) (pl_src nns p) (pl_name p) = Some p \<and>
     lookup2 (pc_modelToPolicies pc) (pl_tgt nns p) (pl_name p) = Some p \<and>
     {Kind_String (a_Kind (ps_Source p)), Kind_String (a_Kind (ps_Target p))} \<subseteq> set (pc_watched pc)"

definition policy_asks :: "nn_string \<Rightarrow> request \<Rightarrow> policy \<Rightarrow> bool" where
  "policy_asks nns q p \<longleftrightarrow>
     (\<exists>rq. DemuxRequest q = (rq, enforceTag) \<and> (nns rq = pl_src nns p \<or> nns rq = pl_tgt nns p))"

definition policy_objs :: "policy \<Rightarrow> change set" where
  "policy_objs p = {(Auri_Gvk (ps_Source p), SpacedName (ps_Source p)), (Auri_Gvk (ps_Target p), SpacedName (ps_Target p))}"

definition policy_for :: "nn_string \<Rightarrow> policy_spec \<Rightarrow> request \<Rightarrow> policy" where
  "policy_for nns spec rq = policy_spec.extend spec (policy.fields (nns rq))"

text \<open>The policies the properties are about: between two digis, with names that hold no slash.\<close>

definition declared_policy :: "nn_string \<Rightarrow> 'w get_policy \<Rightarrow> 'w \<Rightarrow> request \<Rightarrow> policy option" where
  "declared_policy nns gp w rq = (case gp w rq of Inl e \<Rightarrow> None
     | Inr spec \<Rightarrow> if plain_name rq \<and> \<not> same_object (ps_Source spec) (ps_Target spec)
                  then Some (policy_for nns spec rq) else None)"

lemma policy_for_sel [simp]:
  "pl_name (policy_for nns spec rq) = nns rq" "ps_Source (policy_for nns spec rq) = ps_Source spec"
  "ps_Target (policy_for nns spec rq) = ps_Target spec" "ps_Condition (policy_for nns spec rq) = ps_Condition spec"
  by (simp_all add: policy_for_def policy_spec.extend_def policy.fields_def)

lemma declared_policy_Some:
  "declared_policy nns gp w rq = Some p \<longleftrightarrow> 
    (\<exists>spec. gp w rq = Inr spec \<and> plain_name rq \<and> \<not> same_object (ps_Source spec) (ps_Target spec) \<and>
      p = policy_for nns spec rq)"
  by (auto simp: declared_policy_def split: sum.splits if_splits)

lemma policy_tags [simp]: "CHR ''-'' \<notin> set policyTag" "CHR ''-'' \<notin> set enforceTag" "policyTag \<noteq> enforceTag" "enforceTag \<noteq> policyTag"
  by (simp_all add: policyTag_def enforceTag_def)

lemma enforce_policies_settles:
  assumes laws: "kube_laws ku" "mount_codec ku mj" "history_laws ku hist (policy_changed ku gp)"
    and pl: "\<not> same_object (ps_Source pl) (ps_Target pl)" and ord: "range_order ord"
  shows "pl \<in> set pls \<Longrightarrow> pl_name pl \<notin> set (failed_policies ku mj jq ord pls w) \<Longrightarrow>
    enforce_policies ku mj jq ord pls w = Val (w', None) \<Longrightarrow>
    \<exists>w1. grows hist (policy_changed ku gp) w w1 \<and> grows hist (policy_changed ku gp) w1 w' \<and> policy_settled ku mj jq pl w1"
proof (induction pls arbitrary: w)
  case (Cons x pls)
  then obtain w1 where x: "enforce_policy ku mj jq ord x w = Val (w1, None)"
    and rest: "enforce_policies ku mj jq ord pls w1 = Val (w', None)"
    by (auto simp: obind_Val_iff split: option.splits)
  note g = enforce_policy_grows [OF laws(3) x] enforce_policies_grows [OF laws(3) rest]
  show ?case
  proof (cases "x = pl")
    case True
    with Cons.prems(2) have "\<not> failed_policy ku mj jq ord pl w" by (auto split: if_splits)
    with enforce_policy_settles [OF laws(1,2) pl ord x [unfolded True]]
    have "policy_settled ku mj jq pl w \<or> policy_settled ku mj jq pl w1" by blast
    with g grows_changed [OF g] show ?thesis by blast
  next
    case False
    with Cons.prems x have "pl \<in> set pls" "pl_name pl \<notin> set (failed_policies ku mj jq ord pls w1)" by auto
    from Cons.IH [OF this rest] obtain w2
      where "grows hist (policy_changed ku gp) w1 w2" "grows hist (policy_changed ku gp) w2 w'" "policy_settled ku mj jq pl w2"
      by blast
    with grows_changed [OF g(1)] show ?thesis by blast
  qed
qed simp

lemma policy_doEnforce_settles:
  assumes laws: "kube_laws ku" "mount_codec ku mj" "history_laws ku hist (policy_changed ku gp)" and ord: "range_order ord"
    and p: "policy_linked nns pc p" "\<not> same_object (ps_Source p) (ps_Target p)" "nns rq = pl_src nns p \<or> nns rq = pl_tgt nns p"
    and run: "policy_doEnforce ku mj jq nns ord rq pc w = Val (w', None)"
      "pl_name p \<notin> set (policy_doEnforce_failed ku mj jq nns ord rq pc w)"
  shows "\<exists>w1. grows hist (policy_changed ku gp) w w1 \<and> grows hist (policy_changed ku gp) w1 w' \<and> policy_settled ku mj jq p w1"
proof -
  have "lookup2 (pc_modelToPolicies pc) (nns rq) (pl_name p) = Some p"
    using p(1,3) by (auto simp: policy_linked_def)
  then obtain pls where pls: "map_of (pc_modelToPolicies pc) (nns rq) = Some pls" "map_of pls (pl_name p) = Some p"
    by (auto simp: lookup2_def split: option.splits)
  have "p \<in> set (map snd (range_map ord pls))" unfolding list.set_map set_range_map [OF ord] using pls(2) by force
  with enforce_policies_settles [OF laws p(2) ord, of "map snd (range_map ord pls)"] run pls(1)
  show ?thesis by (simp add: policy_doEnforce_def policy_doEnforce_failed_def)
qed

section \<open>What is kept\<close>

lemma policy_event_asks:
  assumes "policy_linked nns pc p" and "ch \<in> policy_objs p"
  shows "\<exists>q \<in> set (policy_event_requests pc ch). policy_asks nns q p"
proof -
  from assms(2) obtain ar where ar: "ch = (Auri_Gvk ar, SpacedName ar)" "ar = ps_Source p \<or> ar = ps_Target p"
    by (auto simp: policy_objs_def)
  obtain q where q: "q \<in> set (MuxRequest enforceTag (SpacedName ar))" using MuxRequest_not_Nil by blast
  with ar assms(1) have "q \<in> set (policy_event_requests pc ch)"
    by (auto simp: policy_event_requests_def watched_auri policy_linked_def)
  moreover have "policy_asks nns q p"
    using Demux_MuxRequest [OF q] ar(2) by (auto simp: policy_asks_def pl_src_def pl_tgt_def)
  ultimately show ?thesis by blast
qed

lemma policy_settled_kept:
  assumes "policy_settled ku mj jq p w" and "policy_objs p \<inter> policy_changed ku gp w w' = {}"
  shows "policy_settled ku mj jq p w'"
proof -
  have "GetObj ku w' (ps_Source p) = GetObj ku w (ps_Source p)" "GetObj ku w' (ps_Target p) = GetObj ku w (ps_Target p)"
    using assms(2) by (auto intro!: unchanged_obj [where own = policy_gvk and get = gp] simp: policy_objs_def)
  with assms(1) show ?thesis by (simp add: policy_settled_def)
qed

lemma policy_watch_kind_cache:
  assumes "policy_watch_kind ku ar (pc, w) = ((pc', w'), e)"
  shows "pc_policies pc' = pc_policies pc" and "pc_modelToPolicies pc' = pc_modelToPolicies pc"
    and "set (pc_watched pc) \<subseteq> set (pc_watched pc')"
    and "e = None \<Longrightarrow> Kind_String (a_Kind ar) \<in> set (pc_watched pc')"
  using assms by (auto simp: policy_watch_kind_def Let_def split: if_splits prod.splits option.splits)

lemma PolicyCache_Add_cases:
  assumes "PolicyCache_Add ku nns p (pc, w) = ((pc', w'), e)"
  obtains (failed) "e \<noteq> None" "pc_policies pc' = pc_policies (pc_enter p pc)"
        "pc_modelToPolicies pc' = pc_modelToPolicies pc" "set (pc_watched pc) \<subseteq> set (pc_watched pc')"
    | (added) pc2 where "e = None" "pc' = pc_link nns p pc2" "pc_policies pc2 = pc_policies (pc_enter p pc)"
        "pc_modelToPolicies pc2 = pc_modelToPolicies pc" "set (pc_watched pc) \<subseteq> set (pc_watched pc2)"
        "{Kind_String (a_Kind (ps_Source p)), Kind_String (a_Kind (ps_Target p))} \<subseteq> set (pc_watched pc2)"
proof -
  obtain pc1 w1 e1 where 1: "policy_watch_kind ku (ps_Source p) (pc_enter p pc, w) = ((pc1, w1), e1)" by (metis surj_pair)
  obtain pc2 w2 e2 where 2: "policy_watch_kind ku (ps_Target p) (pc1, w1) = ((pc2, w2), e2)" by (metis surj_pair)
  have enter: "pc_modelToPolicies (pc_enter p pc) = pc_modelToPolicies pc" "pc_watched (pc_enter p pc) = pc_watched pc"
    by (simp_all add: pc_enter_def)
  note c = policy_watch_kind_cache [OF 1, unfolded enter] policy_watch_kind_cache [OF 2]
  show thesis
  proof (cases "e1 = None \<and> e2 = None")
    case True
    with assms 1 2 have "pc' = pc_link nns p pc2" "e = None" by (simp_all add: PolicyCache_Add_def)
    with c True show thesis by (intro added [of pc2]) auto
  next
    case False
    with assms 1 2 have "e \<noteq> None \<and> (pc' = pc1 \<or> pc' = pc2)"
      by (auto simp: PolicyCache_Add_def split: option.splits)
    with c show thesis by (intro failed) auto
  qed
qed

lemma PolicyCache_Add_linked: "PolicyCache_Add ku nns p (pc, w) = ((pc', w'), None) \<Longrightarrow> policy_linked nns pc' p"
  by (erule PolicyCache_Add_cases) (auto simp: policy_linked_def pc_link_def pc_enter_def go_map_simps)

lemma PolicyCache_Add_keeps_linked:
  "PolicyCache_Add ku nns p0 (pc, w) = ((pc', w'), e) \<Longrightarrow> policy_linked nns pc p \<Longrightarrow> pl_name p0 \<noteq> pl_name p \<Longrightarrow>
    policy_linked nns pc' p"
  by (erule PolicyCache_Add_cases) (auto simp: policy_linked_def pc_link_def pc_enter_def go_map_simps)

lemma PolicyCache_Remove_keeps_linked:
  "policy_linked nns pc p \<Longrightarrow> name \<noteq> pl_name p \<Longrightarrow> policy_linked nns (PolicyCache_Remove nns name pc) p"
  by (auto simp: policy_linked_def PolicyCache_Remove_def go_map_simps split: option.splits)

lemma policy_Reconcile_keeps_linked:
  assumes "policy_Reconcile ku mj jq gp nns ord q (pc, w) = Val ((pc', w'), e)" and "policy_linked nns pc p"
    and "DemuxRequest q = (r, tag)" and "tag = policyTag \<Longrightarrow> nns r \<noteq> pl_name p"
  shows "policy_linked nns pc' p"
proof (cases "tag = policyTag")
  case True
  with assms(1,3) have "doPolicy ku mj jq gp nns ord r (pc, w) = Val ((pc', w'), e)" by (simp add: policy_Reconcile_def)
  with assms(2) assms(4) [OF True] show ?thesis
    unfolding doPolicy_def Let_def
    by (auto split: sum.splits get_error.splits prod.splits option.splits elim!: obind_ValE
        intro: PolicyCache_Remove_keeps_linked PolicyCache_Add_keeps_linked
        simp: policy_spec.extend_def policy.fields_def)
next
  case False
  with assms(1-3) show ?thesis by (auto simp: policy_Reconcile_def elim!: obind_ValE split: if_splits prod.splits)
qed

lemma doPolicy_Val:
  assumes "policy_Reconcile ku mj jq gp nns ord q (pc, w) = Val ((pc', w'), None)" and "DemuxRequest q = (rq, policyTag)"
    and "gp w rq = Inr spec"
  obtains w0 where "PolicyCache_Add ku nns (policy_for nns spec rq) (pc, w) = ((pc', w0), None)"
    and "policy_doEnforce ku mj jq nns ord (SpacedName (ps_Source spec)) pc' w0 = Val (w', None)"
  using assms
  by (auto simp: policy_Reconcile_def doPolicy_def policy_for_def Let_def split: prod.splits option.splits elim!: obind_ValE)

lemma policy_Reconcile_of_policy:
  assumes laws: "kube_laws ku" "mount_codec ku mj" "history_laws ku hist (policy_changed ku gp)"
    and ord: "range_order ord" and ok: "\<not> same_object (ps_Source spec) (ps_Target spec)"
    and run: "policy_Reconcile ku mj jq gp nns ord q (pc, w) = Val ((pc', w'), None)" and q: "DemuxRequest q = (rq, policyTag)"
    and gp: "gp w rq = Inr spec"
  shows "policy_linked nns pc' (policy_for nns spec rq) \<and> (nns rq \<in> set (policy_Reconcile_failed ku mj jq gp nns ord q (pc, w)) \<or>
    (\<exists>w1. grows hist (policy_changed ku gp) w w1 \<and> grows hist (policy_changed ku gp) w1 w' \<and>
       policy_settled ku mj jq (policy_for nns spec rq) w1))"
proof -
  let ?p = "policy_for nns spec rq"
  obtain w0 where add: "PolicyCache_Add ku nns ?p (pc, w) = ((pc', w0), None)"
    and enf: "policy_doEnforce ku mj jq nns ord (SpacedName (ps_Source spec)) pc' w0 = Val (w', None)"
    using doPolicy_Val [OF run q gp] .
  note l = PolicyCache_Add_linked [OF add]
  have f: "policy_Reconcile_failed ku mj jq gp nns ord q (pc, w) =
      policy_doEnforce_failed ku mj jq nns ord (SpacedName (ps_Source spec)) pc' w0"
    using q gp add by (simp add: policy_Reconcile_failed_def policy_for_def)
  show ?thesis
  proof (cases "nns rq \<in> set (policy_Reconcile_failed ku mj jq gp nns ord q (pc, w))")
    case False
    with policy_doEnforce_settles [OF laws ord l _ _ enf] ok f obtain w1
      where "grows hist (policy_changed ku gp) w0 w1" "grows hist (policy_changed ku gp) w1 w'" "policy_settled ku mj jq ?p w1"
      by (auto simp: pl_src_def)
    with l PolicyCache_Add_grows [OF laws(3) add] grows_changed show ?thesis by metis
  qed (use l in simp)
qed

lemma policy_Reconcile_of_model:
  assumes laws: "kube_laws ku" "mount_codec ku mj" "history_laws ku hist (policy_changed ku gp)"
    and ord: "range_order ord" and ok: "\<not> same_object (ps_Source p) (ps_Target p)"
    and run: "policy_Reconcile ku mj jq gp nns ord q (pc, w) = Val ((pc', w'), None)"
    and q: "policy_asks nns q p" and l: "policy_linked nns pc p"
    and kept: "pl_name p \<notin> set (policy_Reconcile_failed ku mj jq gp nns ord q (pc, w))"
  shows "\<exists>w1. grows hist (policy_changed ku gp) w w1 \<and> grows hist (policy_changed ku gp) w1 w' \<and> policy_settled ku mj jq p w1"
proof -
  from q obtain rq where rq: "DemuxRequest q = (rq, enforceTag)" "nns rq = pl_src nns p \<or> nns rq = pl_tgt nns p"
    by (auto simp: policy_asks_def)
  then have "policy_doEnforce ku mj jq nns ord rq pc w = Val (w', None)"
    "pl_name p \<notin> set (policy_doEnforce_failed ku mj jq nns ord rq pc w)"
    using run kept by (auto simp: policy_Reconcile_def policy_Reconcile_failed_def elim!: obind_ValE split: prod.splits)
  from policy_doEnforce_settles [OF laws ord l ok rq(2) this] show ?thesis .
qed

section \<open>Nothing is forgotten\<close>

text \<open>The laws of the queue need the history only; \<open>P\<close> stands for what else is assumed.\<close>

interpretation policy_queue: queued
    "P \<and> history_laws ku hist (policy_changed ku gp)" "policy_Reconcile ku mj jq gp nns" "policy_Reconcile_failed ku mj jq gp nns" policy_event_requests hist
    "policy_changed ku gp" policy_gvk policyTag
  for P ku mj jq gp nns hist
proof (unfold_locales, goal_cases)
  case (2 w1 w3 w2)
  then show ?case by (rule changed_via)
next
  case (3 pc rq)
  obtain q where q: "q \<in> set (MuxRequest policyTag rq)" using MuxRequest_not_Nil by blast
  then have "q \<in> set (policy_event_requests pc (policy_gvk, rq))" by (simp add: policy_event_requests_def)
  with Demux_MuxRequest [OF q] show ?case by auto
qed (auto intro: policy_Reconcile_grows)

interpretation policy: level_triggered
    "(kube_laws ku \<and> mount_codec ku mj \<and> nns_documented nns) \<and> history_laws ku hist (policy_changed ku gp)"
    "policy_Reconcile ku mj jq gp nns" "policy_Reconcile_failed ku mj jq gp nns" policy_event_requests hist
    "policy_changed ku gp" policy_gvk policyTag "declared_policy nns gp" pl_name policy_objs "policy_asks nns"
    "policy_linked nns" "policy_settled ku mj jq"
  for ku mj jq gp nns hist
proof (unfold_locales, goal_cases)
  case (1 w' rq w)
  then have "gp w' rq \<noteq> gp w rq" by (auto simp: declared_policy_def)
  then show ?case by (rule changed_own)
next
  case (2 c b ch)
  then show ?case by (rule policy_event_asks)
next
  case (4 b w w')
  then show ?case by (rule policy_settled_kept)
next
  case (5 ord q c w c' w' e rq b)
  then obtain spec r tag where spec: "plain_name rq" "b = policy_for nns spec rq" and q: "DemuxRequest q = (r, tag)"
    by (auto simp: declared_policy_Some) (metis surj_pair)
  have "nns r \<noteq> pl_name b" if "tag = policyTag"
    using plain_name_unique [of nns rq r] 5(1,4) spec that q by auto
  from policy_Reconcile_keeps_linked [OF 5(2,5) q this] show ?case .
next
  case (6 ord q c w c' w' rq b)
  then obtain spec where spec: "gp w rq = Inr spec" "b = policy_for nns spec rq"
    and ok: "\<not> same_object (ps_Source spec) (ps_Target spec)" by (auto simp: declared_policy_Some)
  from 6(1) have "kube_laws ku" "mount_codec ku mj" "history_laws ku hist (policy_changed ku gp)" by blast+
  from policy_Reconcile_of_policy [OF this 6(2) ok 6(3,4) spec(1)] spec(2) show ?case by auto
next
  case (7 ord q c w c' w' b rq)
  then have ok: "\<not> same_object (ps_Source b) (ps_Target b)" by (auto simp: declared_policy_Some)
  show ?case
  proof (cases "pl_name b \<in> set (policy_Reconcile_failed ku mj jq gp nns ord q (c, w))")
    case False
    from 7(1) have "kube_laws ku" "mount_codec ku mj" "history_laws ku hist (policy_changed ku gp)" by blast+
    from policy_Reconcile_of_model [OF this 7(2) ok 7(3,4,6) False] show ?thesis by simp
  qed simp
qed (auto simp: policy_asks_def)

lemma policy_start_asked:
  assumes "policy_start gp s" and "declared_policy nns gp (ct_world s) rq = Some p"
  shows "asked_own policyTag (ct_queue s) rq"
proof -
  obtain q where q: "q \<in> set (MuxRequest policyTag rq)" using MuxRequest_not_Nil by blast
  with assms have "q \<in> ct_queue s" unfolding policy_start_def declared_policy_Some by blast
  with Demux_MuxRequest [OF q] show ?thesis by (auto simp: asked_own_def)
qed

lemma all_policies_cared_for:
  assumes "kube_laws ku" "mount_codec ku mj" "history_laws ku hist (policy_changed ku gp)" "nns_documented nns"
    and "policy_start gp s0" "rtranclp (policy_step ku mj jq gp nns hist) s0 s"
    and "gp (ct_world s) rq = Inr spec" "plain_name rq" "\<not> same_object (ps_Source spec) (ps_Target spec)"
  shows "asked_own policyTag (ct_queue s) rq \<or> (\<exists>q \<in> ct_queue s. policy_asks nns q (policy_for nns spec rq)) \<or>
    nns rq \<in> ct_dropped s \<or> policy_settled ku mj jq (policy_for nns spec rq) (ct_world s)"
proof -
  have "declared_policy nns gp (ct_world s) rq = Some (policy_for nns spec rq)"
    using assms(7-9) by (simp add: declared_policy_def)
  from policy.nothing_forgotten [OF _ assms(6) [unfolded policy_step_def] policy_start_asked [OF assms(5)] this]
  show ?thesis using assms(1-4) by simp
qed

section \<open>What the cache holds of a policy\<close>

definition policy_models :: "nn_string \<Rightarrow> policy_spec \<Rightarrow> string set" where
  "policy_models nns spec = {nns (SpacedName (ps_Source spec)), nns (SpacedName (ps_Target spec))}"

lemma PolicyCache_Add_added:
  "PolicyCache_Add ku nns p (pc, w) = ((pc', w'), e) \<Longrightarrow> policies.added nns p pc pc'"
  by (erule PolicyCache_Add_cases) (auto simp: policies.added_def pc_link_def pc_enter_def go_map_simps)

lemma policy_Reconcile_cache:
  assumes "policy_Reconcile ku mj jq gp nns ord q (pc, w) = Val ((pc', w'), e)" and "DemuxRequest q = (r, tag)"
  obtains (removed) x where "tag = policyTag" "gp w r = Inl x" "pc' = PolicyCache_Remove nns (nns r) pc"
  | (added) spec where "tag = policyTag" "gp w r = Inr spec" "policies.added nns (policy_for nns spec r) pc pc'"
  | (same) "pc' = pc" "tag = policyTag \<longrightarrow> e \<noteq> None"
proof (cases "tag = policyTag")
  case False
  with assms show thesis
    by (intro same) (auto simp: policy_Reconcile_def elim!: obind_ValE split: if_splits prod.splits)
next
  case True
  with assms have run: "doPolicy ku mj jq gp nns ord r (pc, w) = Val ((pc', w'), e)" by (simp add: policy_Reconcile_def)
  show thesis
  proof (cases "gp w r")
    case (Inl x)
    with run True show thesis
      by (cases x) (auto simp: doPolicy_def Let_def intro: removed same)
  next
    case (Inr spec)
    obtain pc1 w1 e1 where add: "PolicyCache_Add ku nns (policy_for nns spec r) (pc, w) = ((pc1, w1), e1)" by (metis surj_pair)
    with run Inr have "pc' = pc1"
      by (auto simp: doPolicy_def policy_for_def Let_def elim!: obind_ValE split: option.splits prod.splits)
    with PolicyCache_Add_added [OF add] Inr True show thesis by (auto intro: added)
  qed
qed

interpretation policy_cache: forgetting
    "nns_documented nns \<and> history_laws ku hist (policy_changed ku gp)"
    "policy_Reconcile ku mj jq gp nns" "policy_Reconcile_failed ku mj jq gp nns" policy_event_requests hist
    "policy_changed ku gp" policy_gvk policyTag
    gp "policy_models nns" "\<lambda>pc rq. policies.absent pc (nns rq)" "\<lambda>E pc rq. policies.within nns E pc (nns rq)"
  for ku mj jq gp nns hist
proof (unfold_locales, goal_cases)
  case (3 ord q c w c' w' e rq E)
  obtain r tag where q: "DemuxRequest q = (r, tag)" by fastforce
  with 3(1,3,4) have "tag = policyTag \<longrightarrow> nns r \<noteq> nns rq" using plain_name_unique by blast
  with 3(2) q show ?case
    by (auto elim!: policy_Reconcile_cache simp: policies.remove_other policies.added_other)
next
  case (4 ord q c w c' w' rq x E)
  from 4(2,3) show ?case using 4(4,5)
    by (cases rule: policy_Reconcile_cache) (auto intro: policies.remove_absent)
next
  case (5 ord q c w c' w' e rq E)
  from 5(2,3) show ?case
  proof (cases rule: policy_Reconcile_cache)
    case (added spec)
    with 5(4) have "{pl_src nns (policy_for nns spec rq), pl_tgt nns (policy_for nns spec rq)} = E"
      by (simp add: policy_models_def pl_src_def pl_tgt_def)
    with policies.added_within [OF added(3)] 5(5) show ?thesis by simp
  qed (use 5(5) in \<open>auto intro: policies.absent_within policies.remove_absent\<close>)
qed (auto intro: changed_own policies.absent_within)

text \<open>
  A deleted policy is forgotten: when it is gone and no request for it waits, the cache holds nothing
  of its name, provided that it always named the same digis while it was there.
\<close>

theorem deleted_policy_forgotten:
  assumes "history_laws ku hist (policy_changed ku gp)" "nns_documented nns" "plain_name rq" "policy_start gp s0"
    and "rtranclp (\<lambda>s t. policy_step ku mj jq gp nns hist s t \<and>
      (\<forall>spec. gp (ct_world s) rq = Inr spec \<longrightarrow> policy_models nns spec = E)) s0 s"
    and "gp (ct_world s) rq = Inl x" "\<not> asked_own policyTag (ct_queue s) rq"
  shows "map_of (pc_policies (ct_cache s)) (nns rq) = None \<and>
    (\<forall>m. lookup2 (pc_modelToPolicies (ct_cache s)) m (nns rq) = None)"
proof -
  have "policies.absent (ct_cache s0) (nns rq)"
    using assms(4) by (simp add: policy_start_def policies.absent_def new_policy_cache_def)
  from policy_cache.deleted_is_absent [where ku = ku and mj = mj and jq = jq and gp = gp and nns = nns and hist = hist
      and E = E, OF _ assms(3) _ this assms(6,7)]
  show ?thesis using assms(1,2,5) by (simp add: policy_cache.steady_def policy_step_def policies.absent_def)
qed

section \<open>An example\<close>

text \<open>The tree of values keeps the status of every reference.\<close>

lemma status_decode: "map_option (map_option m_Status) (map_option decode_ref (Some (encode_ref r))) = Some (map_option m_Status r)"
  by (cases r) (simp_all add: decode_ref_def encode_ref_def str_at_def)

definition mounts_json :: "mounts \<Rightarrow> obj" where
  "mounts_json = map (\<lambda>(k, refs). (k, JObj (map (\<lambda>(n, r). (n, encode_ref r)) refs)))"

lemma mounts_json_read:
  "\<exists>ms'. get_mounts_loop tree_json (range_map id (mounts_json ms)) [] = Inr ms' \<and> status_at ms' = status_at ms"
proof -
  let ?um = "mounts_json ms" and ?dec = "\<lambda>refs. map (\<lambda>(n, r). (n, decode_ref r)) (map (\<lambda>(n, r). (n, encode_ref r)) refs)"
  have dec: "decode_refs tree_json x = Some (map (\<lambda>(n, r). (n, decode_ref r)) (obj_of x))" for x
    by (simp add: decode_refs_def tree_json_def)
  from get_mounts_loop_ok [of tree_json "range_map id ?um" "[]"] dec
  obtain ms' where ms': "get_mounts_loop tree_json (range_map id ?um) [] = Inr ms'" by auto
  have um: "map_of ?um k = map_option (\<lambda>refs. JObj (map (\<lambda>(n, r). (n, encode_ref r)) refs)) (map_of ms k)" for k
    unfolding mounts_json_def by (induction ms) auto
  have refs: "map_of (?dec refs) n = map_option (\<lambda>r. decode_ref (encode_ref r)) (map_of refs n)" for refs n
    by (induction refs) auto
  have read: "map_of ms' k = map_option ?dec (map_of ms k)" for k
  proof -
    have mem: "(k, v) \<in> set (range_map id ?um) \<longleftrightarrow> map_of ?um k = Some v" for v
      by (simp add: set_range_map [OF range_order_id'])
    have val: "map_of ms' k = (if map_of ?um k = Some v then decode_refs tree_json v else map_of [] k)"
      if "\<And>v'. map_of ?um k = Some v' \<Longrightarrow> v' = v" for v
      using get_mounts_loop_val [OF ms', of k v] that unfolding mem by blast
    show ?thesis using val [of "the (map_of ?um k)"] um [of k] by (cases "map_of ms k") (simp_all add: dec obj_of_def)
  qed
  have "status_at ms' k n = status_at ms k n" for k n
  proof (cases "map_of ms k")
    case (Some rs)
    then have "lookup2 ms' k n = map_option (\<lambda>r. decode_ref (encode_ref r)) (map_of rs n)"
      unfolding lookup2_def read by (simp only: option.map option.case refs)
    with Some status_decode show ?thesis by (cases "map_of rs n") (simp_all add: status_at_def lookup2_def)
  qed (simp add: status_at_def lookup2_def read)
  with ms' show ?thesis by blast
qed

lemma tree_json_codec: "mount_codec (log_kube refused) tree_json"
  unfolding mount_codec_def
proof (intro allI impI)
  fix ob ob' ms assume set: "SetMounts (log_kube refused) tree_json ob ms = Inr ob'"
  have path: "MountAttrPathSlice = [''spec'', ''mount'']" by code_simp
  from set obtain v where v: "set_nested (JObj ob) (JObj (mounts_json ms)) MountAttrPathSlice = Inr v" "ob' = obj_of v"
    by (auto simp: SetMounts_def tree_json_def mounts_json_def obj_of_def log_kube_def mem_kube_def map_sum_def split: sum.splits)
  from set_nested_JObj [OF v(1) [unfolded path]]
  obtain m' where m': "v = JObj m'" "\<forall>k. k \<noteq> ''spec'' \<longrightarrow> map_of m' k = map_of ob k" by blast
  have key: "mem_key ob' = mem_key ob" using m' v(2) by (intro mem_key_cong) (auto simp: obj_of_def)
  have "ku_nested_map (log_kube refused) ob' MountAttrPathSlice = Inr (Some (mounts_json ms))"
    using nested_set_nested [OF v(1)] m'(1) v(2) by (simp add: log_kube_def mem_kube_def obj_of_def)
  then have "GetMounts (log_kube refused) tree_json id ob' = get_mounts_loop tree_json (range_map id (mounts_json ms)) []"
    by (simp add: GetMounts_def)
  with mounts_json_read [of ms] key show "ku_key (log_kube refused) ob' = ku_key (log_kube refused) ob \<and>
      (\<exists>ms'. GetMounts (log_kube refused) tree_json id ob' = Inr ms' \<and> status_at ms' = status_at ms)"
    by (simp add: log_kube_def mem_kube_def)
qed

definition policy_handled ::
  "'w kube \<Rightarrow> 't mount_json \<Rightarrow> 'q jq \<Rightarrow> 'w get_policy \<Rightarrow> nn_string \<Rightarrow> ('w \<Rightarrow> change list) \<Rightarrow>
   (order \<times> request) list \<Rightarrow> 'w policy_state \<Rightarrow> 'w policy_state option" where
  "policy_handled ku mj jq gp nns hist = handled_all (policy_Reconcile ku mj jq gp nns)
     (policy_Reconcile_failed ku mj jq gp nns) policy_event_requests hist"

lemma policy_handled_steps:
  "policy_handled ku mj jq gp nns hist qs s = Some t \<Longrightarrow> (\<forall>p \<in> set qs. range_order (fst p)) \<Longrightarrow>
    rtranclp (policy_step ku mj jq gp nns hist) s t"
  unfolding policy_handled_def policy_step_def by (rule handled_all_steps)

definition one_policy :: "(request \<times> policy_spec) list" where
  "one_policy = [(req ''y'', \<lparr>ps_Source = room_auri ''r1'', ps_Target = room_auri ''r2'', ps_Condition = ''true''\<rparr>)]"

definition first_policy_state :: "logged policy_state" where
  "first_policy_state = \<lparr>ct_cache = new_policy_cache, ct_world = (two_rooms, []),
     ct_queue = {req ''policy-y''}, ct_dropped = {}\<rparr>"

definition refuses_r2 :: "obj \<Rightarrow> bool" where
  "refuses_r2 ob \<longleftrightarrow> n_Name (snd (mem_key ob)) = ''r2''"

lemma first_policy_start: "policy_start (table_get one_policy) first_policy_state"
proof -
  have "set (MuxRequest policyTag rq) \<subseteq> ct_queue first_policy_state" if "table_get one_policy w rq = Inr spec" for w rq spec
  proof -
    have "list_all (\<lambda>(rq, spec). set (MuxRequest policyTag rq) \<subseteq> ct_queue first_policy_state) one_policy" by code_simp
    with table_get_mem [OF that] show ?thesis by (auto simp only: list_all_iff)
  qed
  then show ?thesis unfolding policy_start_def by (auto simp: first_policy_state_def)
qed

section \<open>Properties\<close>

text \<open>
  C22. No policy is forgotten. Whatever the order of requests and whatever others do to the cluster
  in the meantime: of every YieldPolicy there is between two digis, either its condition does not hold or its source
  has no active mount that its target has too, or a request is waiting for the policy or for one of
  its models, or an error of one of its rounds was dropped.
\<close>

theorem no_policy_forgotten:
  assumes "kube_laws ku" "mount_codec ku mj" "history_laws ku hist (policy_changed ku gp)" "nns_documented nns"
    and "policy_start gp s0" "rtranclp (policy_step ku mj jq gp nns hist) s0 s"
    and "gp (ct_world s) rq = Inr spec" "plain_name rq" "\<not> same_object (ps_Source spec) (ps_Target spec)"
  shows "asked_own policyTag (ct_queue s) rq \<or> (\<exists>q \<in> ct_queue s. policy_asks nns q (policy_for nns spec rq)) \<or>
    nns rq \<in> ct_dropped s \<or> policy_settled ku mj jq (policy_for nns spec rq) (ct_world s)"
  using all_policies_cared_for [OF assms] .

lemma no_policy_forgotten_witness:
  "\<exists>s. rtranclp (policy_step (log_kube (\<lambda>ob. False)) tree_json tiny_jq (table_get one_policy) nns_plain snd)
      first_policy_state s \<and> ct_queue s = {} \<and>
    lamp_status (fst (ct_world s)) ''r1'' ''default/l'' = ''inactive'' \<and>
    lamp_status (fst (ct_world s)) ''r2'' ''default/l'' = ''active'' \<and>
    policy_settled (log_kube (\<lambda>ob. False)) tree_json tiny_jq
      (policy_for nns_plain (snd (one_policy ! 0)) (req ''y'')) (ct_world s)"
proof -
  let ?ku = "log_kube (\<lambda>ob. False)" and ?gp = "table_get one_policy"
  let ?run = "policy_handled ?ku tree_json tiny_jq ?gp nns_plain snd [(rev, req ''policy-y''), (rev, req ''enforce-r2''),
    (rev, req ''enforce-r1'')] first_policy_state"
  have "case ?run of None \<Rightarrow> False | Some t \<Rightarrow> ct_queue t = {} \<and> ct_dropped t = {} \<and>
      lamp_status (fst (ct_world t)) ''r1'' ''default/l'' = ''inactive'' \<and>
      lamp_status (fst (ct_world t)) ''r2'' ''default/l'' = ''active''" by code_simp
  then obtain t where t: "?run = Some t" "ct_queue t = {}" "ct_dropped t = {}"
    "lamp_status (fst (ct_world t)) ''r1'' ''default/l'' = ''inactive''"
    "lamp_status (fst (ct_world t)) ''r2'' ''default/l'' = ''active''" by (auto split: option.splits)
  have steps: "rtranclp (policy_step ?ku tree_json tiny_jq ?gp nns_plain snd) first_policy_state t"
    by (rule policy_handled_steps [OF t(1)]) simp
  have "?gp (ct_world t) (req ''y'') = Inr (snd (one_policy ! 0))" unfolding table_get_def by code_simp
  moreover have "plain_name (req ''y'')" "\<not> same_object (ps_Source (snd (one_policy ! 0))) (ps_Target (snd (one_policy ! 0)))"
    by code_simp+
  ultimately have "asked_own policyTag (ct_queue t) (req ''y'') \<or>
      (\<exists>q \<in> ct_queue t. policy_asks nns_plain q (policy_for nns_plain (snd (one_policy ! 0)) (req ''y''))) \<or>
      nns_plain (req ''y'') \<in> ct_dropped t \<or>
      policy_settled ?ku tree_json tiny_jq (policy_for nns_plain (snd (one_policy ! 0)) (req ''y'')) (ct_world t)"
    by (rule no_policy_forgotten [OF log_kube_laws tree_json_codec log_kube_history nns_plain_documented
        first_policy_start steps])
  then have "policy_settled ?ku tree_json tiny_jq (policy_for nns_plain (snd (one_policy ! 0)) (req ''y'')) (ct_world t)"
    using t(2,3) by (simp add: asked_own_def)
  with steps t(2,4,5) show ?thesis by blast
qed

text \<open>
  After a refused write of the target the policy counts as settled: the source gave up its mount
  before, so the queue runs empty with the mount active at neither model, and no later event of the
  two makes the controller try again.
\<close>

theorem half_handover_stays:
  "\<exists>s. rtranclp (policy_step (log_kube refuses_r2) tree_json tiny_jq (table_get one_policy) nns_plain snd)
      first_policy_state s \<and> ct_queue s = {} \<and>
    lamp_status (fst (ct_world first_policy_state)) ''r1'' ''default/l'' = ''active'' \<and>
    lamp_status (fst (ct_world s)) ''r1'' ''default/l'' = ''inactive'' \<and>
    lamp_status (fst (ct_world s)) ''r2'' ''default/l'' = ''inactive''"
proof -
  let ?ku = "log_kube refuses_r2" and ?gp = "table_get one_policy"
  let ?run = "policy_handled ?ku tree_json tiny_jq ?gp nns_plain snd [(rev, req ''policy-y''), (rev, req ''enforce-r1'')]
    first_policy_state"
  have "case ?run of None \<Rightarrow> False | Some t \<Rightarrow> ct_queue t = {} \<and>
      lamp_status (fst (ct_world first_policy_state)) ''r1'' ''default/l'' = ''active'' \<and>
      lamp_status (fst (ct_world t)) ''r1'' ''default/l'' = ''inactive'' \<and>
      lamp_status (fst (ct_world t)) ''r2'' ''default/l'' = ''inactive''" by code_simp
  then obtain t where t: "?run = Some t" "ct_queue t = {}"
    "lamp_status (fst (ct_world first_policy_state)) ''r1'' ''default/l'' = ''active''"
    "lamp_status (fst (ct_world t)) ''r1'' ''default/l'' = ''inactive''"
    "lamp_status (fst (ct_world t)) ''r2'' ''default/l'' = ''inactive''" by (auto split: option.splits)
  have "rtranclp (policy_step ?ku tree_json tiny_jq ?gp nns_plain snd) first_policy_state t"
    by (rule policy_handled_steps [OF t(1)]) simp
  with t(2-5) show ?thesis by blast
qed

text \<open>
  Two policies that yield to each other never rest: while both conditions hold and a mount that both
  digis have is active at one of them, the queue is not empty, whatever the order of requests.
\<close>

theorem conflicting_policies_never_rest:
  assumes "kube_laws ku" "mount_codec ku mj" "history_laws ku hist (policy_changed ku gp)" "nns_documented nns"
    and "policy_start gp s0" "rtranclp (policy_step ku mj jq gp nns hist) s0 s"
    and "gp (ct_world s) rq1 = Inr spec1" "plain_name rq1" "gp (ct_world s) rq2 = Inr spec2" "plain_name rq2"
    and ends: "ps_Source spec2 = ps_Target spec1" "ps_Target spec2 = ps_Source spec1"
    and far: "\<not> same_object (ps_Source spec1) (ps_Target spec1)"
    and obs: "GetObj ku (ct_world s) (ps_Source spec1) = Inr a" "GetObj ku (ct_world s) (ps_Target spec1) = Inr b"
    and "jq_parse jq (ps_Condition spec1) = Inr q1" "fired (jq_run jq q1 a b)"
    and "jq_parse jq (ps_Condition spec2) = Inr q2" "fired (jq_run jq q2 b a)"
    and "GetMounts ku mj id a = Inr ma" "GetMounts ku mj id b = Inr mb"
    and "lookup2 ma k n = Some (Some r1)" "lookup2 mb k n = Some (Some r2)"
    and "m_Status r1 = MountActiveStatus \<or> m_Status r2 = MountActiveStatus"
    and "nns rq1 \<notin> ct_dropped s" "nns rq2 \<notin> ct_dropped s"
  shows "ct_queue s \<noteq> {}"
proof
  assume "ct_queue s = {}"
  with assms(25,26) all_policies_cared_for [OF assms(1-6,7,8) far]
    all_policies_cared_for [OF assms(1-6,9,10), unfolded ends] far
  have "policy_settled ku mj jq (policy_for nns spec1 rq1) (ct_world s)"
    "policy_settled ku mj jq (policy_for nns spec2 rq2) (ct_world s)"
    by (auto simp: asked_own_def same_object_def)
  with assms(13-21) ends have "\<not> shared_active ma mb k n" "\<not> shared_active mb ma k n" by (auto simp: policy_settled_def)
  with assms(22-24) show False by (auto simp: shared_active_def)
qed

end
