(* ===== verification/Policy_Rest.thy ===== *)
theory Policy_Rest
  imports Policy_Queue
begin

text \<open>
  The yield policy controller left alone comes to rest: when nobody else changes the cluster and the
  policies do not hand mounts around in a cycle, no schedule of calls that return no error goes on for
  ever, whatever the conditions of the policies. What gets smaller is the multiset of the active mounts
  of the models, in the order in which the policies hand them on, and with the same mounts the queue.
\<close>

section \<open>What yielding moves\<close>

text \<open>A relation that holds for every single handover holds for all of them.\<close>

lemma yield_names_related:
  assumes R: "reflp R" "transp R" "\<And>k n st st'. yield_one k n st = Val st' \<Longrightarrow> R st st'"
  shows "yield_names k ns st = Val st' \<Longrightarrow> R st st'"
  by (induction ns arbitrary: st) (auto simp: obind_Val_iff intro: reflpD [OF R(1)] transpD [OF R(2)] R(3))

lemma yield_kinds_related:
  assumes R: "reflp R" "transp R" "\<And>k n st st'. yield_one k n st = Val st' \<Longrightarrow> R st st'"
  shows "yield_kinds ord ks st = Val st' \<Longrightarrow> R st st'"
proof (induction ks arbitrary: st)
  case (Cons k ks)
  obtain sm tm u where st: "st = (sm, tm, u)" by (cases st)
  show ?case
  proof (cases "map_of tm k = None")
    case False
    with Cons.prems st obtain st1 where st1: "yield_names k (ord (keys_of (the (map_of sm k)))) st = Val st1"
      "yield_kinds ord ks st1 = Val st'" by (auto simp: obind_Val_iff)
    from transpD [OF R(2) yield_names_related [OF R st1(1)] Cons.IH [OF st1(2)]] show ?thesis .
  qed (use Cons st in simp)
qed (simp add: reflpD [OF R(1)])

definition held :: "mounts \<Rightarrow> (string \<times> string) set" where
  "held ms = {(k, n). status_at ms k n = Some (Some MountActiveStatus)}"

definition shared :: "mounts \<Rightarrow> mounts \<Rightarrow> (string \<times> string) set" where
  "shared sm tm = {(k, n). shared_active sm tm k n}"

text \<open>The source takes up no mount, the target only those that both have.\<close>

definition gives :: "yield_state \<Rightarrow> yield_state \<Rightarrow> bool" where
  "gives st st' \<longleftrightarrow> (case (st, st') of ((sm, tm, u), (sm', tm', u')) \<Rightarrow>
     held sm' \<subseteq> held sm \<and> held tm' \<subseteq> held tm \<union> shared sm tm \<and> shared sm' tm' \<subseteq> shared sm tm \<and>
     (\<forall>k n. lookup2 tm' k n = None \<longleftrightarrow> lookup2 tm k n = None) \<and> (u' \<longrightarrow> u \<or> shared sm tm \<noteq> {}))"

lemma gives_reflp: "reflp gives"
  by (auto simp: reflp_def gives_def)

lemma gives_transp: "transp gives"
  unfolding transp_def gives_def by (auto split: prod.splits)

lemma shared_held: "shared sm tm = {(k, n) \<in> held sm. lookup2 tm k n \<noteq> None}"
  by (auto simp: shared_def held_def shared_active_status status_at_def)

lemma yield_one_gives:
  assumes "yield_one k n st = Val st'"
  shows "gives st st'"
proof (cases "st' = st")
  case False
  obtain sm tm u where st: "st = (sm, tm, u)" by (cases st)
  from False assms st obtain r t where r: "lookup2 sm k n = Some (Some r)" "lookup2 tm k n = Some (Some t)"
    "m_Status r = MountActiveStatus" and st': "st' = (setFunc sm k n (Some (r\<lparr>m_Status := MountInactiveStatus\<rparr>)),
      setFunc tm k n (Some (t\<lparr>m_Status := MountActiveStatus\<rparr>)), True)"
    by (auto simp: yield_one_def split: option.splits if_splits)
  have "(k, n) \<in> shared sm tm" using r by (simp add: shared_def shared_active_def)
  then show ?thesis
    using r unfolding st st' gives_def shared_held by (auto simp: held_def status_at_def go_map_simps split: if_splits)
qed (simp add: reflpD [OF gives_reflp])

lemma yield_mounts_gives:
  assumes ord: "range_order ord" and run: "yield_mounts ord sm tm = Val (sm', tm', u)"
  shows "held sm' \<subseteq> held sm - shared sm tm" and "held tm' \<subseteq> held tm \<union> shared sm tm" and "u \<Longrightarrow> shared sm tm \<noteq> {}"
proof -
  have g: "gives (sm, tm, False) (sm', tm', u)"
    by (rule yield_kinds_related [OF gives_reflp gives_transp yield_one_gives run [unfolded yield_mounts_def]])
  have "shared sm' tm' = {}" using yield_mounts_cleared(1) [OF ord run] by (simp add: shared_def)
  with g show "held sm' \<subseteq> held sm - shared sm tm" by (auto simp: gives_def shared_held)
  from g show "held tm' \<subseteq> held tm \<union> shared sm tm" "u \<Longrightarrow> shared sm tm \<noteq> {}" by (auto simp: gives_def)
qed

lemma finite_held: "finite (held ms)"
proof (rule finite_subset)
  show "held ms \<subseteq> (\<Union>(k, refs) \<in> set ms. {k} \<times> fst ` set refs)"
    by (force simp: held_def status_at_def lookup2_def split: option.splits dest!: map_of_SomeD)
qed auto

section \<open>Policies in an order\<close>

definition policy_edges :: "policy set \<Rightarrow> (change \<times> change) set" where
  "policy_edges P = (\<lambda>p. (obj_key (ps_Source p), obj_key (ps_Target p))) ` P"

definition arranged_policies :: "policy set \<Rightarrow> bool" where
  "arranged_policies P \<longleftrightarrow> finite P \<and> acyclic (policy_edges P) \<and>
     (\<forall>p \<in> P. Auri_Gvk (ps_Source p) \<noteq> policy_gvk \<and> Auri_Gvk (ps_Target p) \<noteq> policy_gvk)"

definition declared_policies :: "nn_string \<Rightarrow> (request \<Rightarrow> get_error + policy_spec) \<Rightarrow> policy set" where
  "declared_policies nns G = {policy_for nns spec rq | rq spec. G rq = Inr spec}"

definition active_at :: "'w kube \<Rightarrow> 't mount_json \<Rightarrow> 'w \<Rightarrow> change \<Rightarrow> (string \<times> string) set" where
  "active_at ku mj w ch = (case ku_get ku w (fst ch) (snd ch) of Inl e \<Rightarrow> {}
     | Inr ob \<Rightarrow> (case GetMounts ku mj id ob of Inl e \<Rightarrow> {} | Inr ms \<Rightarrow> held ms))"

definition active_mounts ::
  "'w kube \<Rightarrow> 't mount_json \<Rightarrow> policy set \<Rightarrow> 'w \<Rightarrow> (change \<times> string \<times> string) set" where
  "active_mounts ku mj P w = Sigma (\<Union>(policy_objs ` P)) (active_at ku mj w)"

abbreviation active_pot ::
  "'w kube \<Rightarrow> 't mount_json \<Rightarrow> policy set \<Rightarrow> 'w \<Rightarrow> (change \<times> string \<times> string) multiset" where
  "active_pot ku mj P w \<equiv> mset_set (active_mounts ku mj P w)"

abbreviation handed_on ::
  "policy set \<Rightarrow> ((change \<times> string \<times> string) \<times> (change \<times> string \<times> string)) set" where
  "handed_on P \<equiv> downhill (policy_edges P) fst"

lemma handed_on_order: "arranged_policies P \<Longrightarrow> wf (handed_on P)" "arranged_policies P \<Longrightarrow> trans (handed_on P)"
  by (simp_all add: arranged_policies_def policy_edges_def downhill_order)

lemma policy_objs_keys: "policy_objs p = {obj_key (ps_Source p), obj_key (ps_Target p)}"
  by (simp add: policy_objs_def obj_key_def)

lemma finite_active: "arranged_policies P \<Longrightarrow> finite (active_mounts ku mj P w)"
  unfolding active_mounts_def
  by (intro finite_SigmaI)
    (auto simp: arranged_policies_def policy_objs_keys active_at_def finite_held split: sum.splits)

lemma active_of_objects [simp]: "of_objects ku (active_pot ku mj P)"
  unfolding of_objects_def
proof (intro allI impI)
  fix w w' assume "ku_get ku w' = ku_get ku w"
  then have "active_at ku mj w' = active_at ku mj w" unfolding active_at_def by (simp only:)
  then show "active_pot ku mj P w' = active_pot ku mj P w" by (simp only: active_mounts_def)
qed

section \<open>Progress\<close>

text \<open>Mounts that went from the source of a policy, some of them to its target.\<close>

lemma handover_smaller:
  assumes P: "arranged_policies P" and p: "p \<in> P" and S: "S \<noteq> {}" "S \<subseteq> active_at ku mj w (obj_key (ps_Source p))"
    and src: "active_at ku mj w' (obj_key (ps_Source p)) \<subseteq> active_at ku mj w (obj_key (ps_Source p)) - S"
    and tgt: "active_at ku mj w' (obj_key (ps_Target p)) \<subseteq> active_at ku mj w (obj_key (ps_Target p)) \<union> S"
    and other: "\<And>ch. ch \<notin> policy_objs p \<Longrightarrow> active_at ku mj w' ch = active_at ku mj w ch"
  shows "(active_pot ku mj P w', active_pot ku mj P w) \<in> mult (handed_on P)"
proof (rule mset_set_smaller)
  let ?s = "obj_key (ps_Source p)" and ?t = "obj_key (ps_Target p)"
  have models: "?s \<in> \<Union>(policy_objs ` P)" "(?s, ?t) \<in> policy_edges P" using p by (auto simp: policy_objs_keys policy_edges_def)
  then have went: "{?s} \<times> S \<subseteq> active_mounts ku mj P w - active_mounts ku mj P w'"
    using S(2) src by (auto simp: active_mounts_def)
  with S(1) show "active_mounts ku mj P w - active_mounts ku mj P w' \<noteq> {}" by blast
  fix x assume x: "x \<in> active_mounts ku mj P w' - active_mounts ku mj P w"
  then have new: "snd x \<in> active_at ku mj w' (fst x)" "snd x \<notin> active_at ku mj w (fst x)" by (auto simp: active_mounts_def)
  with src other [of "fst x"] have "fst x = ?t" by (cases "fst x = ?s") (auto simp: policy_objs_keys)
  with new tgt have "fst x = ?t \<and> snd x \<in> S" by auto
  with went models(2) show "\<exists>b \<in> active_mounts ku mj P w - active_mounts ku mj P w'. (x, b) \<in> handed_on P"
    by (intro bexI [of _ "(?s, snd x)"]) (auto intro: downhill_edge)
qed (rule finite_active [OF P])+

abbreviation policy_moves ::
  "'w kube \<Rightarrow> 't mount_json \<Rightarrow> 'w get_policy \<Rightarrow> ('w \<Rightarrow> change list) \<Rightarrow> policy set \<Rightarrow> 'w \<Rightarrow> 'w \<Rightarrow> bool" where
  "policy_moves ku mj gp hist P \<equiv> moves ku gp hist (active_pot ku mj P) (mult (handed_on P))"

lemma policy_moves_trans:
  "arranged_policies P \<Longrightarrow> policy_moves ku mj gp hist P w1 w2 \<Longrightarrow> policy_moves ku mj gp hist P w2 w3 \<Longrightarrow>
    policy_moves ku mj gp hist P w1 w3"
  by (rule moves_trans) (simp_all add: trans_mult handed_on_order)

lemma active_at_GetObj:
  assumes "GetObj ku w ar = Inr ob" and "GetMounts ku mj ord ob = Inr ms" and "range_order ord"
  shows "active_at ku mj w (obj_key ar) = held ms"
proof -
  from GetMounts_id [OF assms(2,3)] obtain ms' where "GetMounts ku mj id ob = Inr ms'" "status_at ms' = status_at ms" .
  with assms(1) show ?thesis by (simp add: active_at_def obj_key_def GetObj_def held_def)
qed

lemma obj_key_get: "kube_laws ku \<Longrightarrow> GetObj ku w ar = Inr ob \<Longrightarrow> ku_key ku ob = obj_key ar"
  using kube_lawsD(1) [of ku w "Auri_Gvk ar" "SpacedName ar" ob] by (simp add: GetObj_def obj_key_def)

lemma write_read_still:
  assumes laws: "kube_laws ku" "calm_laws ku policy_gvk gp hist" and ob: "GetObj ku w ar = Inr ob"
    and kind: "Auri_Gvk ar \<noteq> policy_gvk" and run: "ku_update ku ob w = (w', e)"
  shows "still ku gp hist w w'"
proof (rule update_still [OF laws _ run])
  show "fst (ku_key ku ob) \<noteq> policy_gvk" "e \<noteq> None \<or> ku_get ku w (fst (ku_key ku ob)) (snd (ku_key ku ob)) = Inr ob"
    using obj_key_get [OF laws(1) ob] ob kind by (simp_all add: obj_key_def GetObj_def)
qed

lemma rewrite_still:
  assumes laws: "kube_laws ku" "calm_laws ku policy_gvk gp hist"
    and src: "GetObj ku w (ps_Source p) = Inr s" "Auri_Gvk (ps_Source p) \<noteq> policy_gvk"
    and tgt: "GetObj ku w (ps_Target p) = Inr t" "Auri_Gvk (ps_Target p) \<noteq> policy_gvk"
  shows "still ku gp hist w (update_both ku s t w)"
proof -
  obtain w1 e1 where w1: "ku_update ku s w = (w1, e1)" by fastforce
  obtain w2 e2 where w2: "ku_update ku t w1 = (w2, e2)" by fastforce
  note still1 = write_read_still [OF laws src w1]
  then have "GetObj ku w1 (ps_Target p) = Inr t" using tgt(1) by (simp add: GetObj_def still_def)
  from still_trans [OF still1 write_read_still [OF laws this tgt(2) w2]] still1 w1 w2
  show ?thesis by (simp add: update_both_def split: option.splits)
qed

lemma arranged_far: "arranged_policies P \<Longrightarrow> p \<in> P \<Longrightarrow> obj_key (ps_Source p) \<noteq> obj_key (ps_Target p)"
  unfolding arranged_policies_def acyclic_def policy_edges_def by (metis (mono_tags, lifting) image_eqI r_into_trancl)

text \<open>A handover, whichever of its two writes is refused.\<close>

lemma handover_moves:
  assumes laws: "kube_laws ku" "mount_codec ku mj" "calm_laws ku policy_gvk gp hist" and P: "arranged_policies P" "p \<in> P"
    and ord: "range_order ord" and ob: "GetObj ku w (ps_Source p) = Inr src" "GetObj ku w (ps_Target p) = Inr tgt"
    and ms: "GetMounts ku mj ord src = Inr sm" "GetMounts ku mj ord tgt = Inr tm"
    and y: "yield_mounts ord sm tm = Val (sm1, tm1, True)"
    and set: "SetMounts ku mj src sm1 = Inr s'" "SetMounts ku mj tgt tm1 = Inr t'"
  shows "policy_moves ku mj gp hist P w (update_both ku s' t' w)"
proof -
  let ?s = "obj_key (ps_Source p)" and ?t = "obj_key (ps_Target p)"
  note L = kube_lawsD [OF laws(1)] and C = calm_lawsD [OF laws(3)] and y = yield_mounts_gives [OF ord y]
  note far = arranged_far [OF P]
  have kinds: "fst ?s \<noteq> policy_gvk" "fst ?t \<noteq> policy_gvk" using P by (auto simp: arranged_policies_def obj_key_def)
  from laws(2) set obtain sm' tm' where rt: "ku_key ku s' = ?s" "GetMounts ku mj id s' = Inr sm'" "status_at sm' = status_at sm1"
    "ku_key ku t' = ?t" "GetMounts ku mj id t' = Inr tm'" "status_at tm' = status_at tm1"
    using obj_key_get [OF laws(1) ob(1)] obj_key_get [OF laws(1) ob(2)] unfolding mount_codec_def by metis
  then have new: "held sm' = held sm1" "held tm' = held tm1" by (simp_all add: held_def)
  have old: "active_at ku mj w ?s = held sm" "active_at ku mj w ?t = held tm"
    using active_at_GetObj ob ms ord by metis+
  obtain w1 e1 where w1: "ku_update ku s' w = (w1, e1)" by fastforce
  obtain w2 e2 where w2: "ku_update ku t' w1 = (w2, e2)" by fastforce
  show ?thesis
  proof (cases e1)
    case (Some x)
    with w1 update_still [OF laws(1,3) _ w1] rt(1) kinds(1) show ?thesis by (auto simp: update_both_def)
  next
    case None
    note get1 = L(2) [OF w1 [unfolded None]]
    have get: "ku_get ku w2 g n = (if (g, n) = ?t \<and> e2 = None then Inr t' else if (g, n) = ?s then Inr s' else ku_get ku w g n)" for g n
      using get1 L(2) [of t' w1 w2] L(3) [of t' w1 w2] w2 rt(1,4) by (cases e2) auto
    have "active_at ku mj w2 ?s = held sm1" using get rt(2) new(1) far by (simp add: active_at_def)
    moreover have "active_at ku mj w2 ?t = (if e2 = None then held tm1 else held tm)"
      using get rt(5) new(2) far old(2) by (simp add: active_at_def)
    moreover have "active_at ku mj w2 ch = active_at ku mj w ch" if "ch \<notin> policy_objs p" for ch
      using that get by (auto simp: active_at_def policy_objs_keys)
    ultimately have "(active_pot ku mj P w2, active_pot ku mj P w) \<in> mult (handed_on P)"
      using y by (intro handover_smaller [OF P, where S = "shared sm tm"]) (auto simp: old shared_held)
    moreover have "gp w2 = gp w" using C(3) [OF w1] C(3) [OF w2] rt(1,4) kinds by simp
    ultimately show ?thesis using w1 w2 None by (simp add: update_both_def moves_def)
  qed
qed

lemma enforce_policy_moves:
  assumes laws: "kube_laws ku" "mount_codec ku mj" "calm_laws ku policy_gvk gp hist" and P: "arranged_policies P" "p \<in> P"
    and ord: "range_order ord" and run: "enforce_policy ku mj jq ord p w = Val (w', e)"
  shows "policy_moves ku mj gp hist P w w'"
proof (cases "w' = w")
  case False
  with run obtain src tgt sm tm sm1 tm1 u where ob: "GetObj ku w (ps_Source p) = Inr src" "GetObj ku w (ps_Target p) = Inr tgt"
    and ms: "GetMounts ku mj ord src = Inr sm" "GetMounts ku mj ord tgt = Inr tm"
    and y: "yield_mounts ord sm tm = Val (sm1, tm1, u)"
    and w': "\<not> u \<and> w' = update_both ku src tgt w \<or>
      u \<and> (\<exists>s' t'. SetMounts ku mj src sm1 = Inr s' \<and> SetMounts ku mj tgt tm1 = Inr t' \<and> w' = update_both ku s' t' w)"
    by (auto simp: enforce_policy_def elim!: obind_ValE split: sum.splits if_splits)
  from w' show ?thesis
  proof (elim disjE conjE exE)
    assume "\<not> u" "w' = update_both ku src tgt w"
    with rewrite_still [OF laws(1,3) ob(1) _ ob(2)] P show ?thesis by (auto simp: arranged_policies_def)
  next
    fix s' t' assume "u" "SetMounts ku mj src sm1 = Inr s'" "SetMounts ku mj tgt tm1 = Inr t'" "w' = update_both ku s' t' w"
    with handover_moves [OF laws P ord ob ms] y show ?thesis by simp
  qed
qed (simp add: still_moves)

lemma enforce_policies_moves:
  assumes "kube_laws ku" "mount_codec ku mj" "calm_laws ku policy_gvk gp hist" "arranged_policies P" "range_order ord"
  shows "set pls \<subseteq> P \<Longrightarrow> enforce_policies ku mj jq ord pls w = Val (w', e) \<Longrightarrow> policy_moves ku mj gp hist P w w'"
proof (induction pls arbitrary: w)
  case (Cons p pls)
  then obtain w1 e1 where p: "enforce_policy ku mj jq ord p w = Val (w1, e1)"
    and rest: "e1 \<noteq> None \<and> w' = w1 \<or> enforce_policies ku mj jq ord pls w1 = Val (w', e)"
    by (auto simp: obind_Val_iff split: option.splits)
  from Cons.prems(1) have mem: "p \<in> P" "set pls \<subseteq> P" by auto
  note one = enforce_policy_moves [OF assms(1-4) mem(1) assms(5) p]
  with rest policy_moves_trans [OF assms(4) one Cons.IH [OF mem(2)]] show ?case by blast
qed (simp add: still_moves)

section \<open>The cache holds these policies\<close>

definition policies_in :: "policy set \<Rightarrow> policy_cache \<Rightarrow> bool" where
  "policies_in P pc \<longleftrightarrow> (\<forall>n p. map_of (pc_policies pc) n = Some p \<longrightarrow> p \<in> P) \<and>
     (\<forall>m n p. lookup2 (pc_modelToPolicies pc) m n = Some p \<longrightarrow> p \<in> P)"

lemma Add_policies_in:
  "PolicyCache_Add ku nns p (pc, w) = ((pc', w'), e) \<Longrightarrow> p \<in> P \<Longrightarrow> policies_in P pc \<Longrightarrow> policies_in P pc'"
  by (erule PolicyCache_Add_cases) (auto simp: policies_in_def pc_link_def pc_enter_def go_map_simps split: if_splits)

lemma Remove_policies_in: "policies_in P pc \<Longrightarrow> policies_in P (PolicyCache_Remove nns name pc)"
  by (auto simp: policies_in_def PolicyCache_Remove_def go_map_simps split: option.splits if_splits)

lemma policy_doEnforce_moves:
  assumes laws: "kube_laws ku" "mount_codec ku mj" "calm_laws ku policy_gvk gp hist" "arranged_policies P" "range_order ord"
    and pc: "policies_in P pc" and run: "policy_doEnforce ku mj jq nns ord rq pc w = Val (w', e)"
  shows "policy_moves ku mj gp hist P w w'"
proof (cases "map_of (pc_modelToPolicies pc) (nns rq)")
  case None
  with run show ?thesis by (simp add: policy_doEnforce_def still_moves)
next
  case (Some pls)
  have pls: "set (map snd (range_map ord pls)) \<subseteq> P"
  proof
    fix p assume "p \<in> set (map snd (range_map ord pls))"
    then obtain n where "map_of pls n = Some p" by (auto simp: set_range_map [OF laws(5)])
    with Some have "lookup2 (pc_modelToPolicies pc) (nns rq) n = Some p" by (simp add: lookup2_def)
    with pc show "p \<in> P" by (auto simp: policies_in_def)
  qed
  from Some run have "enforce_policies ku mj jq ord (map snd (range_map ord pls)) w = Val (w', e)"
    by (simp add: policy_doEnforce_def)
  from enforce_policies_moves [OF laws pls this] show ?thesis .
qed

lemma policy_watch_kind_still:
  "calm_laws ku policy_gvk gp hist \<Longrightarrow> policy_watch_kind ku ar (pc, w) = ((pc', w'), e) \<Longrightarrow> still ku gp hist w w'"
  by (auto simp: policy_watch_kind_def policy_addWatchFunc_def Let_def still_def dest: calm_lawsD(4)
      split: if_splits prod.splits option.splits sum.splits)

lemma PolicyCache_Add_still:
  "calm_laws ku policy_gvk gp hist \<Longrightarrow> PolicyCache_Add ku nns p (pc, w) = ((pc', w'), e) \<Longrightarrow> still ku gp hist w w'"
  unfolding PolicyCache_Add_def
  by (auto split: prod.splits option.splits intro: still_trans policy_watch_kind_still)

lemma policy_Reconcile_moves:
  assumes laws: "kube_laws ku" "mount_codec ku mj" "calm_laws ku policy_gvk gp hist"
      "arranged_policies (declared_policies nns (gp w))" "range_order ord"
    and pc: "policies_in (declared_policies nns (gp w)) pc"
    and run: "policy_Reconcile ku mj jq gp nns ord q (pc, w) = Val ((pc', w'), e)"
  shows "policy_moves ku mj gp hist (declared_policies nns (gp w)) w w' \<and> policies_in (declared_policies nns (gp w)) pc'"
proof -
  let ?P = "declared_policies nns (gp w)"
  obtain r tag where q: "DemuxRequest q = (r, tag)" by fastforce
  note enforce = policy_doEnforce_moves [OF laws]
  show ?thesis
  proof (cases "tag = policyTag")
    case False
    with run q pc enforce show ?thesis
      by (auto simp: policy_Reconcile_def still_moves elim!: obind_ValE split: if_splits prod.splits)
  next
    case True
    with run q have run': "doPolicy ku mj jq gp nns ord r (pc, w) = Val ((pc', w'), e)" by (simp add: policy_Reconcile_def)
    show ?thesis
    proof (cases "gp w r")
      case (Inl x)
      with run' pc show ?thesis
        by (cases x) (auto simp: doPolicy_def Let_def still_moves Remove_policies_in)
    next
      case (Inr spec)
      then have p: "policy_for nns spec r \<in> ?P" by (auto simp: declared_policies_def)
      obtain pc1 w1 e1 where add: "PolicyCache_Add ku nns (policy_for nns spec r) (pc, w) = ((pc1, w1), e1)" by (metis surj_pair)
      note c = Add_policies_in [OF add p pc] and still = still_moves [OF PolicyCache_Add_still [OF laws(3) add]]
      from run' Inr add have "pc' = pc1 \<and> (w' = w1 \<or>
          (\<exists>e. policy_doEnforce ku mj jq nns ord (SpacedName (ps_Source spec)) pc1 w1 = Val (w', e)))"
        by (auto simp: doPolicy_def policy_for_def Let_def elim!: obind_ValE split: option.splits)
      with c still policy_moves_trans [OF laws(4) still enforce [OF c]] show ?thesis by blast
    qed
  qed
qed

section \<open>Steps of the controller alone\<close>

interpretation policy_rest: resting
    "(kube_laws ku \<and> mount_codec ku mj \<and> calm_laws ku policy_gvk gp hist \<and> arranged_policies (declared_policies nns G)) \<and>
      history_laws ku hist (policy_changed ku gp)"
    "policy_Reconcile ku mj jq gp nns" "policy_Reconcile_failed ku mj jq gp nns" policy_event_requests hist
    "policy_changed ku gp" policy_gvk policyTag
    "mult (handed_on (declared_policies nns G))" "active_pot ku mj (declared_policies nns G)"
    "\<lambda>pc w. gp w = G \<and> policies_in (declared_policies nns G) pc"
  for ku mj jq gp nns hist G
proof (unfold_locales, goal_cases)
  case 1
  then show ?case by (intro wf_mult handed_on_order) blast
next
  case (2 pc w ord q pc' w')
  then have laws: "kube_laws ku" "mount_codec ku mj" "calm_laws ku policy_gvk gp hist"
    "arranged_policies (declared_policies nns (gp w))" "range_order ord" and G: "gp w = G"
    and pc: "policies_in (declared_policies nns (gp w)) pc" by blast+
  from policy_Reconcile_moves [OF laws pc 2(4)] G moves_progress [OF active_of_objects, of ku gp hist mj _ _ w w']
  show ?case by metis
qed

abbreviation policy_calm ::
  "'w kube \<Rightarrow> 't mount_json \<Rightarrow> 'q jq \<Rightarrow> 'w get_policy \<Rightarrow> nn_string \<Rightarrow> ('w \<Rightarrow> change list) \<Rightarrow>
   'w policy_state \<Rightarrow> 'w policy_state \<Rightarrow> bool" where
  "policy_calm ku mj jq gp nns hist \<equiv>
     calm_step (policy_Reconcile ku mj jq gp nns) (policy_Reconcile_failed ku mj jq gp nns) policy_event_requests hist"

section \<open>A house with a chain of policies\<close>

definition chain_policies :: "(request \<times> policy_spec) list" where
  "chain_policies = map (\<lambda>(y, s, t). (req y, \<lparr>ps_Source = room_auri s, ps_Target = room_auri t, ps_Condition = ''true''\<rparr>))
     [(''y1'', ''r1'', ''r2''), (''y2'', ''r2'', ''r3'')]"

definition first_chain_state :: "logged policy_state" where
  "first_chain_state = \<lparr>ct_cache = new_policy_cache,
     ct_world = (room_with ''r3'' ''default/l'' ''inactive'' # two_rooms, []),
     ct_queue = {req ''policy-y1'', req ''policy-y2''}, ct_dropped = {}\<rparr>"

definition room_rank :: "change \<Rightarrow> nat" where
  "room_rank k = (if n_Name (snd k) = ''r1'' then 0 else if n_Name (snd k) = ''r2'' then 1 else 2)"

lemma chain_start: "policy_start (table_get chain_policies) first_chain_state"
proof -
  have "set (MuxRequest policyTag rq) \<subseteq> ct_queue first_chain_state" if "table_get chain_policies w rq = Inr spec" for w rq spec
  proof -
    have "list_all (\<lambda>(rq, spec). set (MuxRequest policyTag rq) \<subseteq> ct_queue first_chain_state) chain_policies" by code_simp
    with table_get_mem [OF that] show ?thesis by (auto simp only: list_all_iff)
  qed
  then show ?thesis unfolding policy_start_def by (auto simp: first_chain_state_def)
qed

lemma chain_arranged: "arranged_policies (declared_policies nns_plain (table_get chain_policies w))"
proof -
  let ?ps = "map (\<lambda>(rq, spec). policy_for nns_plain spec rq) chain_policies"
  have P: "declared_policies nns_plain (table_get chain_policies w) \<subseteq> set ?ps"
    using table_get_mem [of chain_policies w] by (force simp: declared_policies_def)
  have "list_all (\<lambda>p. Auri_Gvk (ps_Source p) \<noteq> policy_gvk \<and> Auri_Gvk (ps_Target p) \<noteq> policy_gvk \<and>
      room_rank (obj_key (ps_Source p)) < room_rank (obj_key (ps_Target p))) ?ps" by code_simp
  then have ok: "Auri_Gvk (ps_Source p) \<noteq> policy_gvk \<and> Auri_Gvk (ps_Target p) \<noteq> policy_gvk \<and>
      room_rank (obj_key (ps_Source p)) < room_rank (obj_key (ps_Target p))" if "p \<in> set ?ps" for p
    using that unfolding list_all_iff by blast
  then have "policy_edges (declared_policies nns_plain (table_get chain_policies w)) \<subseteq> measure room_rank"
    unfolding policy_edges_def by (intro image_subsetI) (simp only: in_measure ok [OF subsetD [OF P]])
  then have "acyclic (policy_edges (declared_policies nns_plain (table_get chain_policies w)))"
    by (rule acyclic_subset [OF wf_acyclic [OF wf_measure]])
  then show ?thesis unfolding arranged_policies_def using P ok by (meson finite_set finite_subset subsetD)
qed

section \<open>Properties\<close>

text \<open>
  C23. Left alone, the policy controller comes to rest with all policies enforced. When the policies
  hand mounts around in no cycle, no sequence of calls without error, in whatever order of the requests
  and with whatever conditions, is infinite; and once the queue is empty and no error was dropped in a
  round, of every policy the condition does not hold or the source has no active mount that the target
  has too.
\<close>

theorem policies_come_to_rest:
  assumes "kube_laws ku" "mount_codec ku mj" "history_laws ku hist (policy_changed ku gp)" "nns_documented nns"
    and "calm_laws ku policy_gvk gp hist" "arranged_policies (declared_policies nns (gp (ct_world s0)))"
    and "\<forall>rq spec. gp (ct_world s0) rq = Inr spec \<longrightarrow> plain_name rq" "policy_start gp s0" "finite (ct_queue s0)"
  shows "(\<forall>f. f 0 = s0 \<longrightarrow> (\<exists>i. \<not> policy_calm ku mj jq gp nns hist (f i) (f (Suc i)))) \<and>
    (\<forall>s. rtranclp (policy_calm ku mj jq gp nns hist) s0 s \<longrightarrow> ct_queue s = {} \<longrightarrow> ct_dropped s = {} \<longrightarrow>
      (\<forall>p \<in> declared_policies nns (gp (ct_world s0)). policy_settled ku mj jq p (ct_world s)))"
proof -
  let ?G = "gp (ct_world s0)"
  note ok = conjI [OF conjI [OF assms(1) conjI [OF assms(2) conjI [OF assms(5,6)]]] assms(3)]
  have start: "policy_rest.calm_inv gp ?G nns s0"
    unfolding policy_rest.calm_inv_def using assms(8,9) by (simp add: policy_start_def new_policy_cache_def policies_in_def)
  have ends: "\<exists>i. \<not> policy_calm ku mj jq gp nns hist (f i) (f (Suc i))" if "f 0 = s0" for f
    by (rule policy_rest.calm_run_ends [OF ok]) (simp add: that start)
  have rest: "policy_settled ku mj jq p (ct_world s)"
    if run: "rtranclp (policy_calm ku mj jq gp nns hist) s0 s" and quiet: "ct_queue s = {}" "ct_dropped s = {}"
      and p: "p \<in> declared_policies nns ?G" for s p
  proof -
    from policy_rest.calm_steps.reached [OF run] ok start have "policy_rest.calm_inv gp ?G nns s" by blast
    then have G: "gp (ct_world s) = ?G" by (simp add: policy_rest.calm_inv_def)
    have steps: "rtranclp (policy_step ku mj jq gp nns hist) s0 s"
      unfolding policy_step_def by (rule policy_rest.calm_steps [OF run])
    from p obtain rq spec where spec: "?G rq = Inr spec" "p = policy_for nns spec rq" by (auto simp: declared_policies_def)
    with arranged_far [OF assms(6) p] have "\<not> same_object (ps_Source spec) (ps_Target spec)"
      by (auto simp: same_object_def obj_key_def)
    from all_policies_cared_for [OF assms(1-4,8) steps _ _ this, of rq] spec assms(7) G quiet
    show ?thesis by (simp add: asked_own_def)
  qed
  from ends rest show ?thesis by blast
qed

lemma policies_come_to_rest_witness:
  "\<not> (\<exists>f. f 0 = first_chain_state \<and>
     (\<forall>i. policy_calm (log_kube (\<lambda>ob. False)) tree_json tiny_jq (table_get chain_policies) nns_plain snd (f i) (f (Suc i))))"
proof -
  have "plain_name rq" if "table_get chain_policies w rq = Inr spec" for w rq spec
  proof -
    have "list_all (\<lambda>(rq, spec). plain_name rq) chain_policies" by code_simp
    with table_get_mem [OF that] show ?thesis by (auto simp only: list_all_iff)
  qed
  then have plain: "\<forall>rq spec. table_get chain_policies (ct_world first_chain_state) rq = Inr spec \<longrightarrow> plain_name rq" by blast
  have "finite (ct_queue first_chain_state)" by (simp add: first_chain_state_def)
  from policies_come_to_rest [OF log_kube_laws tree_json_codec log_kube_history nns_plain_documented log_kube_calm
      chain_arranged plain chain_start this, where jq = tiny_jq] show ?thesis by blast
qed

end
