(* ===== verification/Spec2Isabelle.thy ===== *)
theory Spec2Isabelle
  imports Webhook_Util Parse_Auri File_Util Multi_Tree_Fuel Multi_Tree_Print Ens_Cmd Neat_Cmd Managers Pipe_Sync Sync_Rest Mount_Webhook Policy_Rest
begin

text \<open>
  This library models digi, a Kubernetes-based framework in which every device or service is a
  \<^emph>\<open>digi\<close>: an object of the API server with a small driver. It consists of Go programs, and this
  is how they meet:

  \<^item> the command line (\<open>cmd/digi\<close> on the packages of \<open>api\<close>) reads and edits models through the API
    server, keeps aliases and settings in a local store, merges kube config files, and hands
    every other task to \<open>make\<close>;
  \<^item> the mount webhook (\<open>space/mount/webhook\<close>) is asked by the API server about every change of a
    model and allows it as long as the mounts form a multi-tree;
  \<^item> the controllers (\<open>space/sync\<close>, \<open>space/policy\<close>) watch models: the first copies attributes along
    bindings, the second hands active mounts from one parent to another;
  \<^item> the sidecars (\<open>sidecar/ctx\<close>, \<open>sidecar/neat\<close>) are stand-alone commands that edit the kube
    config file and that shorten the listings of objects.

  They share the names of models (\<open>pkg/core\<close>), and act on each other only through the API server and
  through files. The property of this theory follows one command through all layers.
\<close>

section \<open>How Go is read\<close>

text \<open>
  \<^item> A call that may panic, end the process or not return gives an \<open>outcome\<close> (theory \<open>Prelude\<close>);
    an error that is returned is an \<open>Inl\<close> of type \<open>err\<close>, or \<open>Some\<close> where only the error is returned.
  \<^item> A Go map is an association list with distinct keys (\<open>gomap\<close>). A \<open>range\<close> loop over a map visits
    the keys in the order given by a parameter \<open>ord\<close> with \<open>range_order ord\<close>: it permutes the keys,
    and nothing else is assumed of it.
  \<^item> State the program owns is passed explicitly: the heap of the digi-graph, caches, flags, trees.
    State it does not own is a type \<open>'w\<close>, changed only by the calls in a record of parameters.
  \<^item> Commands (\<open>cmd\<close>, theory \<open>Cli_Base\<close>) are functions on the world with the list of observable
    events: runs of \<open>make\<close>, lines printed, lines logged. A line that goes through \<open>Fprintf\<close> is
    recorded as the format that is handed over.
  \<^item> Goroutines and concurrent requests are step relations: a step lets one of them go on to its
    next access of shared state. Properties hold for every schedule or exhibit one.
  \<^item> Machine integers are words where they can wrap around (the verbosity of \<open>check\<close>), else \<open>int\<close>
    or \<open>nat\<close>; text is a list of bytes (a character of several bytes counts
    as several, as between the numbers of a range); a file path stands for the file; writes to a terminal succeed; quoting
    with \<open>%q\<close> is read as plain quotes.
\<close>

section \<open>Theories and sources\<close>

text \<open>
  Names of models and the digi-graph:

  \<^item> \<open>Prelude\<close>: outcomes, the used parts of \<open>strings\<close>, \<open>strconv\<close>, \<open>regexp\<close>, maps and range loops.
  \<^item> \<open>Model_Uri\<close>, \<open>Parse_Auri\<close>: \<open>pkg/core/types.go\<close>, \<open>pkg/helper/helper.go\<close>, \<open>api/core/core.go\<close>.
  \<^item> \<open>Json_Value\<close>: decoded JSON and the type assertions on it.
  \<^item> \<open>Graph_Spec\<close>: the abstract specification, finite graphs in which every node reaches every other
    by at most one path. \<open>Multi_Tree\<close>: \<open>space/mount/webhook/graph/multitree.go\<close> on an explicit heap.
    \<open>Multi_Tree_Heap\<close> and \<open>Multi_Tree_Correct\<close>: the heap read as an abstract graph, the invariant and
    the refinement. \<open>Multi_Tree_Fuel\<close>: its recursions end. \<open>Multi_Tree_Print\<close>: its printed form. \<open>Graph_Interface\<close>: what the webhook needs
    of a graph, as the locale \<open>digi_graph\<close>, interpreted on the heap model.
  \<^item> \<open>Webhook\<close>, \<open>Webhook_Http\<close>: \<open>cmd/main.go\<close>, \<open>validating/webhook.go\<close> and \<open>http/handler.go\<close> of
    \<open>space/mount/webhook\<close>, with the interleaving of requests and discovery. \<open>Start_Up\<close>: the rest of
    \<open>cmd/main.go\<close>, from the flags to the end of the process. \<open>Webhook_Util\<close>: the rest of \<open>util/util.go\<close>.
    \<open>Mount_Webhook\<close>: the command \<open>mount\<close> with the webhook.

  Controllers:

  \<^item> \<open>Space_Model\<close>: \<open>space/space.go\<close>, \<open>space/helper/model.go\<close>, \<open>pkg/helper/model.go\<close>.
  \<^item> \<open>Watch_Cache\<close>: the locale \<open>reverse_index\<close> of the caches of both controllers. \<open>Sync_Ctl\<close> and
    \<open>Policy_Ctl\<close>: the caches, reconcilers and registrations, each interpreting the locale.
  \<^item> \<open>Work_Queue\<close>: a controller with its work queue as a step relation over the history of the API
    server, and the locale \<open>queued\<close> with its three extensions: \<open>level_triggered\<close>, whose lemma says that
    nothing declared is forgotten, \<open>forgetting\<close>, whose lemma says that nothing deleted is kept, and
    \<open>resting\<close>, whose lemma says that the controller alone does not run for ever.
    \<open>Sync_Queue\<close> and \<open>Policy_Queue\<close>: both controllers with their watches, each interpreting the
    first two on its \<open>Reconcile\<close>. \<open>Sync_Rest\<close> and \<open>Policy_Rest\<close>: each controller alone comes to rest, by \<open>resting\<close>.
    \<open>Pipe_Sync\<close>: the command \<open>pipe\<close> with the sync controller. \<open>Managers\<close>: the processes of both
    controllers, \<open>cmd/manager/main.go\<close> in \<open>space/sync\<close> and \<open>space/policy\<close>.

  The command line:

  \<^item> \<open>Api_Client\<close>: \<open>api/client/client.go\<close>. \<open>Local_Store\<close>: \<open>api/alias/alias.go\<close>, \<open>api/config/config.go\<close>.
    \<open>Mounts\<close>, \<open>Pipe\<close>: \<open>api/mount/mount.go\<close>, \<open>api/pipe/pipe.go\<close>. \<open>Kube_Config\<close>: \<open>api/k8s/kubeconfig.go\<close>.
  \<^item> \<open>Cli_Base\<close>: programs with events, flags, and \<open>cmd/digi/helper/helper.go\<close>. \<open>Cli_Space\<close>: the
    commands of \<open>space\<close> and \<open>lake\<close>. \<open>Cli_Digi\<close>: \<open>cmd/digi/digi\<close>. \<open>Cli_Run\<close>: its commands \<open>run\<close> and
    \<open>stop\<close> as step relations, interpreting the locale \<open>step_invariant\<close> of \<open>Prelude\<close>, as \<open>Start_Up\<close>
    and \<open>Sync_Queue\<close> do. \<open>Cli_Net\<close>: the commands \<open>net\<close>, \<open>sidecar\<close> and \<open>box\<close>.
    \<open>Cli_Init\<close>: the initialization of the packages, the clients, the entry points, the tables of commands.
    \<open>File_Util\<close>: the rest of \<open>api/k8s/util.go\<close>, \<open>cmd/dq\<close> and \<open>cmd/di\<close>.

  The sidecars:

  \<^item> \<open>Ctx_Config\<close>: the tree of YAML nodes of \<open>sidecar/ctx/internal/kubeconfig\<close> and its refinement.
    \<open>Ctx_Base\<close>: loading, saving, environment and messages, and the locale \<open>there_and_back\<close>, whose
    one lemma says that switching back undoes a switch. \<open>Ctx_Cmd\<close>, \<open>Ens_Cmd\<close>: the two commands
    \<open>ctx\<close> and \<open>ens\<close> of \<open>sidecar/ctx/cmd\<close>, each interpreting the locale.
  \<^item> \<open>Neat\<close>, \<open>Neat_Empty\<close>, \<open>Neat_Cmd\<close>: \<open>sidecar/neat/cmd\<close> and \<open>sidecar/neat/pkg/defaults\<close>.
\<close>

section \<open>What is shown\<close>

text \<open>
  \<^item> Refinement: the digi-graph against \<open>Graph_Spec\<close> (\<open>digi_graph_refines\<close>); the YAML tree against
    a list of contexts (\<open>kubeconfig_refines\<close>).
  \<^item> Invariants of every reachable state: the stored roots and trees of the graph, also under
    interleaved requests; the reverse index of the caches; what each schedule of \<open>run\<close> has made; the
    types of the cache of the sync controller; and that the controllers forget no Sync object and no
    policy that is there, and every one that is gone, whatever the order of requests.
  \<^item> The life of the webhook: it comes up exactly on clusters whose mounts form a multi-tree.
  \<^item> Verdicts: exactly when the webhook allows a creation, \<open>space add\<close> adds, \<open>rename\<close> renames.
  \<^item> Equivalences: ranges in arguments, the pruning of empty elements.
  \<^item> Round trips: printed and parsed names, pipe and unpipe, switching there and back.
  \<^item> Termination and liveness: the runs of both controllers on bindings and policies in an order, the
    recursions of the graph and of \<open>neat\<close>, retried updates, pages of
    the API server, a binding that settles, controllers that come to rest on what was declared, a pipe that
    takes effect from the command line on.
  \<^item> Defects: where the code does not do what it means to, the property states what it does, for
    all inputs of that shape or with a witness; other lemmas of this kind stand with the component.
\<close>

section \<open>Fuel, parameters and their laws\<close>

text \<open>
  The recursions over the children in the graph carry the fuel \<open>Suc\<close> of the number of addresses:
  they do not run out of it in a reachable graph, and more changes nothing (\<open>recursions_return\<close>). In
  \<open>Neat\<close>, the recursion over the items of a list carries a fuel above the length of the text, and the
  text of an item is shorter than that of its list (\<open>neat_returns\<close>). The loop over the pages of the
  API server may run forever and is a \<open>partial_function\<close> with \<open>None\<close> for that case; \<open>query_returns_all_pages\<close> says exactly when it is.

  Code outside the repository is an argument, with its documented behaviour as a hypothesis where
  a property needs it, and a concrete instance in the witness: the cluster (\<open>kube_laws\<close>), the store
  (\<open>viper_ok\<close>), the editor of JSON text, on paths of plain keys through objects, not on the numeric
  parts it takes for positions in arrays (\<open>sjson_laws\<close> on \<open>object_path\<close>, \<open>json_lib_ok\<close>), the client of
  Sync objects (\<open>sync_laws\<close>; that the server accepts a name, \<open>accepts_name\<close>, is a condition of its own),
  kube config files, with relative paths resolved when they are loaded (\<open>kube_files_ok\<close>; that every
  file can be written is \<open>kube_files_writable\<close>), the file of the context sidecar (\<open>kube_file_ok\<close>; that its
  calls succeed, for text the encoder takes, is \<open>ctx_os_works\<close>), the name of a namespaced object (\<open>nns_documented\<close>), the
  history of the API server (\<open>history_laws\<close>, \<open>sync_history\<close>, \<open>calm_laws\<close>, \<open>set_there_same\<close>), the keys at the top of an edited text
  (\<open>sjson_top\<close>), mounts that are written and read back (\<open>mount_codec\<close>), the home directory (\<open>home_laws\<close>). The records \<open>api\<close>, \<open>cli\<close>,
  \<open>start_env\<close>, \<open>mgr_env\<close>, \<open>space_env\<close>, \<open>digi_env\<close>, \<open>net_env\<close>, \<open>neat_env\<close> and \<open>kube_scheme\<close> carry no laws.
\<close>

section \<open>Not modelled\<close>

text \<open>
  \<^item> How \<open>cobra\<close> finds a command and parses its flags: a library.
  \<^item> The copies of \<open>GetObj\<close> and \<open>GetAttr\<close> in \<open>space/helper\<close>, which nothing calls; the layout of a printed
    tree, a library; the raw mode of the terminal; the constant answer of \<open>net/probe\<close>.
  \<^item> The reflection in the webhook's \<open>util.go\<close>, and the helpers of tests.
  \<^item> Generated code (\<open>deepcopy\<close>), the Python drivers, YAML, Helm charts and makefiles.
\<close>

section \<open>Properties that span components\<close>

text \<open>
  A world for the witness: the API server counts the updates it refuses, every model is an empty
  object, and nothing else is there.
\<close>

definition refusing_api :: "(nat, obj, unit) api" where
  "refusing_api = third_time_api\<lparr>api_update := (\<lambda>w r ns ob. (Suc w, Some (Err ''conflict'')))\<rparr>"

definition refusing_env :: "(nat, obj, unit) space_env" where
  "refusing_env = \<lparr>se_kube = \<lparr>kf_load = (\<lambda>w f. Inl NotExist), kf_write = (\<lambda>c f w. (w, None)),
       kf_temp = (\<lambda>w. (w, None)), kf_remove = (\<lambda>f w. (w, None)), kf_merge = (\<lambda>w fs. Inr NewConfig),
       kf_resolve_cluster = (\<lambda>f c. c), kf_resolve_user = (\<lambda>f u. u), kf_home = []\<rparr>,
     se_nns = nns_plain, se_json = tree_sjson, se_api = refusing_api, se_api_err = None,
     se_sync = \<lparr>sa_create = (\<lambda>s w. (w, None)), sa_delete = (\<lambda>s w. (w, None)), sa_find = (\<lambda>w n. None)\<rparr>,
     se_sync_err = None, se_client_err = None, se_get_proxy = (\<lambda>w. Inr []),
     se_update_proxy = (\<lambda>ob w. (w, None)), se_set_nested = (\<lambda>ob v p. ob),
     se_url = (\<lambda>b q. None), se_http = (\<lambda>u w. (w, Inr (200, [], True)))\<rparr>"

text \<open>
  C14. From the command line to the API server: where the edited model is decoded and the server
  refuses every one of the updates, \<open>digi space mount\<close> ends like a successful mount: no line, no
  error, and a server that was asked once more than the number of retries.
\<close>

theorem refused_mount_exits_normally:
  assumes "2 \<le> length args" "se_api_err se = None"
    and "NewMounter (resolve_in cl w) (butlast args) (last args) (mount_op fs) (GetString fs ''mode'')
      (GetInt fs ''num-retry'') = Val (Inr mt)" "mo_Mounts mt = m # ms"
    and "GetModelJson (c_plural cl) (se_api se) w (m_Target m) = Inr tj"
    and "do_mounts (c_plural cl) (se_nns se) (se_json se) (mo_Op mt) (m # ms) tj = Inr tj'"
    and "api_unmarshal (se_api se) tj' = Inr ob" "\<And>w'. getResource (se_api se) w' ob = Inr res"
    and "update_fails (se_api se) res ob w ws" "int (length ws) = mo_NumRetry mt + 1"
  shows "MountCmd cl se fs args w = (last (w # ws), [], Val ())"
proof -
  obtain w' notices e where upd: "UpdateFromJson (se_api se) w tj' (mo_NumRetry mt) = (w', notices, e)"
    by (cases "UpdateFromJson (se_api se) w tj' (mo_NumRetry mt)")
  have "w' = last (w # ws) \<and> e = None"
    using update_failure_not_reported [OF assms(7-10)] by (simp add: upd)
  with upd assms(2,4-6)
  have "Mounter_Do (c_plural cl) (se_nns se) (se_json se) (se_api se) (se_api_err se) mt w = Val (last (w # ws), None)"
    by (simp add: Mounter_Do_def)
  then have "coutcome (Mounter_Do (c_plural cl) (se_nns se) (se_json se) (se_api se) (se_api_err se) mt) w
      = (last (w # ws), [], Val None)"
    by (simp add: coutcome_def)
  with assms(1,3) show ?thesis
    by (simp add: MountCmd_def MinimumNArgs_def Let_def cbind_Val fatal_on_def creturn_run del: last.simps)
qed

lemma refused_mount_exits_normally_witness:
  "MountCmd (sample_cli no_viper) refusing_env [(''mode'', FStr ''expose''), (''num-retry'', FInt 1)]
     [''/d/v1/Lamp/default/l1'', ''/d/v1/Room/default/r''] 0 = (2, [], Val ())"
proof -
  let ?cl = "sample_cli no_viper :: nat cli" and ?fs = "[(''mode'', FStr ''expose''), (''num-retry'', FInt 1)]"
  let ?new = "NewMounter (resolve_in ?cl 0) [''/d/v1/Lamp/default/l1''] ''/d/v1/Room/default/r'' MOUNT ''expose'' 1"
  have "case ?new of Val (Inr mt) \<Rightarrow> mo_Mounts mt \<noteq> [] \<and> mo_NumRetry mt = 1 \<and>
      (case GetModelJson (c_plural ?cl) refusing_api 0 (m_Target (hd (mo_Mounts mt))) of
         Inr tj \<Rightarrow> (case do_mounts (c_plural ?cl) nns_plain tree_sjson (mo_Op mt) (mo_Mounts mt) tj of
             Inr tj' \<Rightarrow> True | _ \<Rightarrow> False)
       | _ \<Rightarrow> False)
    | _ \<Rightarrow> False" by code_simp
  then obtain mt m ms tj tj' where mt: "?new = Val (Inr mt)" "mo_Mounts mt = m # ms" "mo_NumRetry mt = 1"
    "GetModelJson (c_plural ?cl) refusing_api 0 (m_Target m) = Inr tj"
    "do_mounts (c_plural ?cl) nns_plain tree_sjson (mo_Op mt) (m # ms) tj = Inr tj'"
    by (auto simp: neq_Nil_conv split: outcome.splits sum.splits)
  have fs: "mount_op ?fs = MOUNT" "GetString ?fs ''mode'' = ''expose''" "GetInt ?fs ''num-retry'' = 1"
    by (simp_all add: mount_op_def GetBool_def GetString_def GetInt_def)
  have env: "se_api refusing_env = refusing_api" "se_nns refusing_env = nns_plain"
    "se_json refusing_env = tree_sjson" "se_api_err refusing_env = None"
    by (simp_all add: refusing_env_def)
  have "MountCmd ?cl refusing_env ?fs [''/d/v1/Lamp/default/l1'', ''/d/v1/Room/default/r''] 0
      = (last (0 # [1, 2]), [], Val ())"
    by (rule refused_mount_exits_normally [where mt = mt and m = m and ms = ms and tj = tj and tj' = tj' and
          ob = tj' and ws = "[1, 2]" and res = "(''digi.dev'', ''v1'', ''Lamp'')" and w = 0])
      (use mt in \<open>simp_all add: fs env del: do_mounts.simps, simp_all add: refusing_api_def third_time_api_def getResource_def\<close>)
  then show ?thesis by simp
qed

end
